(* ===== verification/Anvil_Temporal.thy ===== *)
theory Anvil_Temporal
  imports Main
begin

text \<open>
  The temporal logic of Anvil (\<open>temporal_logic/defs.rs\<close> below \<open>src/projects/anvil-main/src/\<close>), in which its
  specifications are written: predicates on infinite executions. The rules of \<open>temporal_logic/rules.rs\<close>
  that the theories of the cluster use are proved here: induction for invariants, the rule for weakly
  fair actions, and the algebra of leads-to.
\<close>

section \<open>Executions and temporal predicates\<close>

type_synonym 'a Execution = "nat \<Rightarrow> 'a"
type_synonym 'a StatePred = "'a \<Rightarrow> bool"
type_synonym 'a ActionPred = "'a \<Rightarrow> 'a \<Rightarrow> bool"
type_synonym 'a TempPred = "'a Execution \<Rightarrow> bool"

definition head :: "'a Execution \<Rightarrow> 'a" where "head ex = ex 0"
definition head_next :: "'a Execution \<Rightarrow> 'a" where "head_next ex = ex 1"
definition ex_suffix :: "'a Execution \<Rightarrow> nat \<Rightarrow> 'a Execution" where "ex_suffix ex pos = (\<lambda>i. ex (i + pos))"

definition tla_and :: "'a TempPred \<Rightarrow> 'a TempPred \<Rightarrow> 'a TempPred" where "tla_and p q = (\<lambda>ex. p ex \<and> q ex)"
definition tla_or :: "'a TempPred \<Rightarrow> 'a TempPred \<Rightarrow> 'a TempPred" where "tla_or p q = (\<lambda>ex. p ex \<or> q ex)"
definition tla_implies :: "'a TempPred \<Rightarrow> 'a TempPred \<Rightarrow> 'a TempPred" where "tla_implies p q = (\<lambda>ex. p ex \<longrightarrow> q ex)"
definition tla_not :: "'a TempPred \<Rightarrow> 'a TempPred" where "tla_not p = (\<lambda>ex. \<not> p ex)"

definition lift_state :: "'a StatePred \<Rightarrow> 'a TempPred" where "lift_state P = (\<lambda>ex. P (head ex))"
definition lift_state_prime :: "'a StatePred \<Rightarrow> 'a TempPred" where "lift_state_prime P = (\<lambda>ex. P (head_next ex))"
definition lift_action :: "'a ActionPred \<Rightarrow> 'a TempPred" where "lift_action A = (\<lambda>ex. A (head ex) (head_next ex))"

definition always :: "'a TempPred \<Rightarrow> 'a TempPred" where "always p = (\<lambda>ex. \<forall>i. p (ex_suffix ex i))"
definition tla_eventually :: "'a TempPred \<Rightarrow> 'a TempPred" where "tla_eventually p = (\<lambda>ex. \<exists>i. p (ex_suffix ex i))"
definition later :: "'a TempPred \<Rightarrow> 'a TempPred" where "later p = (\<lambda>ex. p (ex_suffix ex 1))"

definition tla_forall :: "('b \<Rightarrow> 'a TempPred) \<Rightarrow> 'a TempPred" where "tla_forall p = (\<lambda>ex. \<forall>a. p a ex)"
definition tla_exists :: "('b \<Rightarrow> 'a TempPred) \<Rightarrow> 'a TempPred" where "tla_exists p = (\<lambda>ex. \<exists>a. p a ex)"

definition leads_to :: "'a TempPred \<Rightarrow> 'a TempPred \<Rightarrow> 'a TempPred" where
  "leads_to p q = always (tla_implies p (tla_eventually q))"

definition tla_valid :: "'a TempPred \<Rightarrow> bool" where "tla_valid p \<longleftrightarrow> (\<forall>ex. p ex)"
definition entails :: "'a TempPred \<Rightarrow> 'a TempPred \<Rightarrow> bool" where "entails p q \<longleftrightarrow> tla_valid (tla_implies p q)"
definition stable :: "'a TempPred \<Rightarrow> 'a TempPred" where "stable p = tla_implies p (always p)"

definition enabled :: "'a ActionPred \<Rightarrow> 'a StatePred" where "enabled A = (\<lambda>s. \<exists>s'. A s s')"
definition weak_fairness :: "'a ActionPred \<Rightarrow> 'a TempPred" where
  "weak_fairness A = leads_to (always (lift_state (enabled A))) (lift_action A)"

definition true_pred :: "'a TempPred" where "true_pred = lift_state (\<lambda>s. True)"
definition false_pred :: "'a TempPred" where "false_pred = tla_not true_pred"

named_theorems tla_defs \<open>unfold temporal predicates into statements about positions of an execution\<close>

lemma ex_suffix_simps [simp]:
  "ex_suffix (ex_suffix ex i) j = ex_suffix ex (i + j)" "ex_suffix ex 0 = ex"
  "ex_suffix ex i j = ex (i + j)" "head (ex_suffix ex i) = ex i" "head_next (ex_suffix ex i) = ex (Suc i)"
  by (simp_all add: ex_suffix_def head_def head_next_def add.commute add.left_commute)

lemmas tla_connectives = tla_and_def tla_or_def tla_implies_def tla_not_def lift_state_def lift_state_prime_def
  lift_action_def always_def tla_eventually_def later_def tla_forall_def tla_exists_def stable_def

declare tla_connectives [tla_defs]

lemma leads_to_iff [tla_defs]: "leads_to p q ex \<longleftrightarrow> (\<forall>i. p (ex_suffix ex i) \<longrightarrow> (\<exists>j. q (ex_suffix ex (i + j))))"
  by (simp add: leads_to_def tla_connectives)

lemma entails_iff: "entails p q \<longleftrightarrow> (\<forall>ex. p ex \<longrightarrow> q ex)"
  by (simp add: entails_def tla_valid_def tla_implies_def)

lemma entailsI: "(\<And>ex. p ex \<Longrightarrow> q ex) \<Longrightarrow> entails p q"
  by (simp add: entails_iff)

lemma entailsD: "entails p q \<Longrightarrow> p ex \<Longrightarrow> q ex"
  by (simp add: entails_iff)

lemma always_lift_action: "entails spec (always (lift_action A)) \<longleftrightarrow> (\<forall>ex. spec ex \<longrightarrow> (\<forall>i. A (ex i) (ex (Suc i))))"
  by (simp add: entails_iff tla_defs)

lemma always_lift_state: "entails spec (always (lift_state P)) \<longleftrightarrow> (\<forall>ex. spec ex \<longrightarrow> (\<forall>i. P (ex i)))"
  by (simp add: entails_iff tla_defs)

section \<open>Rules\<close>

lemma entails_trans: "entails p q \<Longrightarrow> entails q r \<Longrightarrow> entails p r"
  by (simp add: entails_iff)

lemma always_weaken: "entails spec (always p) \<Longrightarrow> entails p q \<Longrightarrow> entails spec (always q)"
  by (simp add: entails_iff tla_defs)

lemma always_and: "always (tla_and p q) = tla_and (always p) (always q)"
  by (auto simp: tla_defs fun_eq_iff)

lemma always_double: "always (always p) = always p"
  by (auto simp: always_def fun_eq_iff) (metis add.right_neutral)

lemma always_is_stable: "tla_valid (stable (always p))"
  by (simp add: tla_valid_def stable_def tla_implies_def always_def)

text \<open>An inductive predicate that holds initially always holds.\<close>

lemma init_invariant:
  assumes "\<And>s. init s \<Longrightarrow> I s" and "\<And>s s'. I s \<Longrightarrow> nxt s s' \<Longrightarrow> I s'"
    and "entails spec (lift_state init)" and "entails spec (always (lift_action nxt))"
  shows "entails spec (always (lift_state I))"
  unfolding always_lift_state
proof (intro allI impI)
  fix ex i
  assume "spec ex"
  then have "init (ex 0)" and step: "\<And>i. nxt (ex i) (ex (Suc i))"
    using assms(3) assms(4) [unfolded always_lift_action] by (auto simp: entails_iff lift_state_def head_def)
  then show "I (ex i)" by (induction i) (auto intro: assms(1,2))
qed

text \<open>Known invariants strengthen the step relation.\<close>

lemma strengthen_next:
  assumes "entails spec (always (lift_action nxt))" and "entails spec (always (lift_state I))"
  shows "entails spec (always (lift_action (\<lambda>s s'. nxt s s' \<and> I s \<and> I s')))"
  using assms by (simp add: always_lift_action always_lift_state)

lemma leads_to_self: "entails spec (leads_to p p)"
  by (auto simp: entails_iff leads_to_iff intro: exI [of _ 0])

lemma leads_to_trans: "entails spec (leads_to p q) \<Longrightarrow> entails spec (leads_to q r) \<Longrightarrow> entails spec (leads_to p r)"
  by (simp add: entails_iff leads_to_iff) (metis add.assoc)

lemma leads_to_weaken:
  assumes "entails spec (always (tla_implies p2 p1))" and "entails spec (always (tla_implies q1 q2))"
    and "entails spec (leads_to p1 q1)"
  shows "entails spec (leads_to p2 q2)"
  using assms by (simp add: entails_iff leads_to_iff always_def tla_implies_def) metis

lemma or_leads_to_combine:
  "entails spec (leads_to p r) \<Longrightarrow> entails spec (leads_to q r) \<Longrightarrow> entails spec (leads_to (tla_or p q) r)"
  by (auto simp: entails_iff leads_to_iff tla_or_def)

lemma leads_to_exists_intro: "(\<And>a. entails spec (leads_to (p a) q)) \<Longrightarrow> entails spec (leads_to (tla_exists p) q)"
  by (auto simp: entails_iff leads_to_iff tla_exists_def)

lemma leads_to_rank_step_one:
  assumes "\<And>n :: nat. 0 < n \<Longrightarrow> entails spec (leads_to (p n) (p (n - 1)))"
  shows "entails spec (leads_to (p n) (p 0))"
proof (induction n)
  case 0
  show ?case by (rule leads_to_self)
next
  case (Suc n)
  from leads_to_trans [OF assms [of "Suc n"]] Suc show ?case by simp
qed

text \<open>The rule for an action under weak fairness: if every step keeps \<open>p\<close> or reaches \<open>q\<close>, and the
  action reaches \<open>q\<close> from \<open>p\<close>, then \<open>p\<close> leads to \<open>q\<close>.\<close>

lemma kept_until:
  assumes "\<And>i. nxt (ex i) (ex (Suc i))" and "\<And>s s'. p s \<Longrightarrow> nxt s s' \<Longrightarrow> p s' \<or> q s'"
    and "p (ex i)" and "\<And>j. \<not> q (ex (i + j))"
  shows "p (ex (i + j))"
proof (induction j)
  case 0
  from assms(3) show ?case by simp
next
  case (Suc j)
  from assms(2) [OF Suc assms(1)] assms(4) [of "Suc j"] show ?case by simp
qed

lemma wf1_fair:
  assumes keep: "\<And>s s'. p s \<Longrightarrow> nxt s s' \<Longrightarrow> p s' \<or> q s'"
    and reach: "\<And>s s'. p s \<Longrightarrow> nxt s s' \<Longrightarrow> forward s s' \<Longrightarrow> q s'"
    and steps: "entails spec (always (lift_action nxt))"
    and fair: "entails spec (leads_to (always (lift_state p)) (lift_action forward))"
  shows "entails spec (leads_to (lift_state p) (lift_state q))"
proof (rule entailsI, unfold leads_to_iff, intro allI impI)
  fix ex i
  assume s: "spec ex" and "lift_state p (ex_suffix ex i)"
  then have p: "p (ex i)" by (simp add: lift_state_def)
  from s steps have step: "\<And>i. nxt (ex i) (ex (Suc i))" by (simp add: always_lift_action)
  show "\<exists>j. lift_state q (ex_suffix ex (i + j))"
  proof (rule ccontr)
    assume "\<not> ?thesis"
    then have not_q: "\<not> q (ex (i + j))" for j by (simp add: lift_state_def)
    have "p (ex (i + j))" for j by (rule kept_until [where nxt = nxt and ex = ex and p = p and q = q, OF step keep p not_q])
    moreover from this have "always (lift_state p) (ex_suffix ex i)" by (simp add: tla_defs)
    with entailsD [OF fair s] obtain j where "forward (ex (i + j)) (ex (Suc (i + j)))"
      by (auto simp: leads_to_iff lift_action_def)
    ultimately have "q (ex (i + Suc j))" using reach [OF _ step [of "i + j"]] by simp
    with not_q show False by blast
  qed
qed

lemma wf1:
  assumes keep: "\<And>s s'. p s \<Longrightarrow> nxt s s' \<Longrightarrow> p s' \<or> q s'"
    and reach: "\<And>s s'. p s \<Longrightarrow> nxt s s' \<Longrightarrow> forward s s' \<Longrightarrow> q s'"
    and "\<And>s. p s \<Longrightarrow> enabled forward s"
    and steps: "entails spec (always (lift_action nxt))"
    and fair: "entails spec (weak_fairness forward)"
  shows "entails spec (leads_to (lift_state p) (lift_state q))"
proof (rule wf1_fair [OF keep reach steps])
  show "entails spec (leads_to (always (lift_state p)) (lift_action forward))"
    using fair assms(3) unfolding weak_fairness_def by (simp add: entails_iff tla_defs)
qed

end
