(* ===== verification/Anvil_Objects.thy ===== *)
theory Anvil_Objects
  imports Main
begin

text \<open>
  Kubernetes objects and API requests as Anvil's specifications see them (\<open>kubernetes_api_objects/spec/\<close>
  and \<open>kubernetes_api_objects/error.rs\<close> below \<open>src/projects/anvil-main/src/\<close>): references, metadata, dynamic
  objects whose specification and status are marshalled strings, and the requests and responses of the
  API server. A result is a sum whose left side is the error.
\<close>

section \<open>Kinds, references and metadata\<close>

type_synonym StringView = string
type_synonym Value = StringView
type_synonym Uid = int
type_synonym ResourceVersion = int

datatype APIError =
    BadRequest | Conflict | Forbidden | Invalid | ObjectNotFound | ObjectAlreadyExists | NotSupported | InternalError
  | Timeout | ServerTimeout | TransactionAbort | OtherAPIError

definition is_object_not_found :: "APIError \<Rightarrow> bool" where
  "is_object_not_found e = (case e of ObjectNotFound \<Rightarrow> True | _ \<Rightarrow> False)"

datatype Kind =
    ConfigMapKind | CustomResourceKind StringView | DaemonSetKind | PersistentVolumeClaimKind | PodKind | RoleKind
  | RoleBindingKind | StatefulSetKind | ServiceKind | ServiceAccountKind | SecretKind

record ObjectRef =
  ref_kind :: Kind
  ref_name :: StringView
  ref_namespace :: StringView

record OwnerReferenceView =
  or_block_owner_deletion :: "bool option"
  or_controller :: "bool option"
  or_kind :: Kind
  or_name :: StringView
  or_uid :: Uid

definition owner_reference_to_object_reference :: "OwnerReferenceView \<Rightarrow> StringView \<Rightarrow> ObjectRef" where
  "owner_reference_to_object_reference r namespace =
     \<lparr>ref_kind = or_kind r, ref_name = or_name r, ref_namespace = namespace\<rparr>"

definition controller_owner_filter :: "OwnerReferenceView \<Rightarrow> bool" where
  "controller_owner_filter r \<longleftrightarrow> or_controller r \<noteq> None \<and> the (or_controller r)"

definition owner_reference_controller_kind_name_equal :: "OwnerReferenceView \<Rightarrow> OwnerReferenceView \<Rightarrow> bool" where
  "owner_reference_controller_kind_name_equal r1 r2 \<longleftrightarrow>
     or_controller r1 = or_controller r2 \<and> or_kind r1 = or_kind r2 \<and> or_name r1 = or_name r2"

record ObjectMetaView =
  om_name :: "StringView option"
  om_generate_name :: "StringView option"
  om_namespace :: "StringView option"
  om_resource_version :: "ResourceVersion option"
  om_uid :: "Uid option"
  om_labels :: "(StringView \<rightharpoonup> StringView) option"
  om_annotations :: "(StringView \<rightharpoonup> StringView) option"
  om_owner_references :: "OwnerReferenceView list option"
  om_finalizers :: "StringView list option"
  om_deletion_timestamp :: "StringView option"

definition object_meta_default :: ObjectMetaView where
  "object_meta_default =
     \<lparr>om_name = None, om_generate_name = None, om_namespace = None, om_resource_version = None, om_uid = None,
      om_labels = None, om_annotations = None, om_owner_references = None, om_finalizers = None,
      om_deletion_timestamp = None\<rparr>"

definition owner_references_contains :: "ObjectMetaView \<Rightarrow> OwnerReferenceView \<Rightarrow> bool" where
  "owner_references_contains m r = (case om_owner_references m of Some rs \<Rightarrow> r \<in> set rs | None \<Rightarrow> False)"

definition owner_references_only_contains :: "ObjectMetaView \<Rightarrow> OwnerReferenceView \<Rightarrow> bool" where
  "owner_references_only_contains m r = (case om_owner_references m of Some rs \<Rightarrow> rs = [r] | None \<Rightarrow> False)"

definition finalizers_as_set :: "ObjectMetaView \<Rightarrow> StringView set" where
  "finalizers_as_set m = (case om_finalizers m of None \<Rightarrow> {} | Some fs \<Rightarrow> set fs)"

definition well_formed_for_namespaced :: "ObjectMetaView \<Rightarrow> bool" where
  "well_formed_for_namespaced m \<longleftrightarrow>
     om_name m \<noteq> None \<and> om_namespace m \<noteq> None \<and> om_resource_version m \<noteq> None \<and> om_uid m \<noteq> None"

record PreconditionsView =
  pre_uid :: "Uid option"
  pre_resource_version :: "ResourceVersion option"

definition preconditions_default :: PreconditionsView where
  "preconditions_default = \<lparr>pre_uid = None, pre_resource_version = None\<rparr>"

definition with_uid_from_object_meta :: "PreconditionsView \<Rightarrow> ObjectMetaView \<Rightarrow> PreconditionsView" where
  "with_uid_from_object_meta p m = p\<lparr>pre_uid := om_uid m\<rparr>"

definition with_resource_version_from_object_meta :: "PreconditionsView \<Rightarrow> ObjectMetaView \<Rightarrow> PreconditionsView" where
  "with_resource_version_from_object_meta p m = p\<lparr>pre_resource_version := om_resource_version m\<rparr>"

section \<open>Dynamic objects\<close>

record DynamicObjectView =
  obj_kind :: Kind
  obj_metadata :: ObjectMetaView
  obj_spec :: Value
  obj_status :: Value

type_synonym StoredState = "ObjectRef \<rightharpoonup> DynamicObjectView"

definition object_ref :: "DynamicObjectView \<Rightarrow> ObjectRef" where
  "object_ref o1 =
     \<lparr>ref_kind = obj_kind o1, ref_name = the (om_name (obj_metadata o1)),
      ref_namespace = the (om_namespace (obj_metadata o1))\<rparr>"

definition with_metadata :: "DynamicObjectView \<Rightarrow> ObjectMetaView \<Rightarrow> DynamicObjectView" where
  "with_metadata o1 m = o1\<lparr>obj_metadata := m\<rparr>"

definition with_name :: "DynamicObjectView \<Rightarrow> StringView \<Rightarrow> DynamicObjectView" where
  "with_name o1 n = o1\<lparr>obj_metadata := obj_metadata o1\<lparr>om_name := Some n\<rparr>\<rparr>"

definition with_namespace :: "DynamicObjectView \<Rightarrow> StringView \<Rightarrow> DynamicObjectView" where
  "with_namespace o1 n = o1\<lparr>obj_metadata := obj_metadata o1\<lparr>om_namespace := Some n\<rparr>\<rparr>"

definition with_resource_version :: "DynamicObjectView \<Rightarrow> ResourceVersion \<Rightarrow> DynamicObjectView" where
  "with_resource_version o1 v = o1\<lparr>obj_metadata := obj_metadata o1\<lparr>om_resource_version := Some v\<rparr>\<rparr>"

definition with_uid :: "DynamicObjectView \<Rightarrow> Uid \<Rightarrow> DynamicObjectView" where
  "with_uid o1 u = o1\<lparr>obj_metadata := obj_metadata o1\<lparr>om_uid := Some u\<rparr>\<rparr>"

definition with_deletion_timestamp :: "DynamicObjectView \<Rightarrow> StringView \<Rightarrow> DynamicObjectView" where
  "with_deletion_timestamp o1 t = o1\<lparr>obj_metadata := obj_metadata o1\<lparr>om_deletion_timestamp := Some t\<rparr>\<rparr>"

named_theorems with_simps \<open>the fields of an object after an update of one of them\<close>

lemma with_object_simps [with_simps]:
  "obj_metadata (with_metadata x m) = m"
  "obj_metadata (with_name x n) = obj_metadata x\<lparr>om_name := Some n\<rparr>"
  "obj_metadata (with_namespace x n) = obj_metadata x\<lparr>om_namespace := Some n\<rparr>"
  "obj_metadata (with_resource_version x v) = obj_metadata x\<lparr>om_resource_version := Some v\<rparr>"
  "obj_metadata (with_uid x u) = obj_metadata x\<lparr>om_uid := Some u\<rparr>"
  "obj_metadata (with_deletion_timestamp x t) = obj_metadata x\<lparr>om_deletion_timestamp := Some t\<rparr>"
  "obj_kind (with_resource_version x v) = obj_kind x" "obj_spec (with_resource_version x v) = obj_spec x"
  "obj_status (with_resource_version x v) = obj_status x"
  "obj_kind (with_deletion_timestamp x t) = obj_kind x" "obj_spec (with_deletion_timestamp x t) = obj_spec x"
  "obj_status (with_deletion_timestamp x t) = obj_status x"
  "obj_kind (with_namespace x n) = obj_kind x"
  by (simp_all add: with_metadata_def with_name_def with_namespace_def with_resource_version_def with_uid_def
      with_deletion_timestamp_def)

lemma object_ref_with [with_simps]:
  "object_ref (with_resource_version x v) = object_ref x" "object_ref (with_deletion_timestamp x t) = object_ref x"
  by (simp_all add: object_ref_def with_simps)

section \<open>Requests and responses\<close>

record GetRequest =
  get_key :: ObjectRef

record ListRequest =
  list_kind :: Kind
  list_namespace :: StringView

record CreateRequest =
  create_namespace :: StringView
  create_obj :: DynamicObjectView

record DeleteRequest =
  delete_key :: ObjectRef
  delete_preconditions :: "PreconditionsView option"

record UpdateRequest =
  update_namespace :: StringView
  update_name :: StringView
  update_obj :: DynamicObjectView

record UpdateStatusRequest =
  update_status_namespace :: StringView
  update_status_name :: StringView
  update_status_obj :: DynamicObjectView

record GetThenDeleteRequest =
  get_then_delete_key :: ObjectRef
  get_then_delete_owner_ref :: OwnerReferenceView

record GetThenUpdateRequest =
  get_then_update_namespace :: StringView
  get_then_update_name :: StringView
  get_then_update_owner_ref :: OwnerReferenceView
  get_then_update_obj :: DynamicObjectView

definition create_request_key :: "CreateRequest \<Rightarrow> ObjectRef" where
  "create_request_key r =
     \<lparr>ref_kind = obj_kind (create_obj r), ref_name = the (om_name (obj_metadata (create_obj r))),
      ref_namespace = create_namespace r\<rparr>"

definition update_request_key :: "UpdateRequest \<Rightarrow> ObjectRef" where
  "update_request_key r =
     \<lparr>ref_kind = obj_kind (update_obj r), ref_name = update_name r, ref_namespace = update_namespace r\<rparr>"

definition update_status_request_key :: "UpdateStatusRequest \<Rightarrow> ObjectRef" where
  "update_status_request_key r =
     \<lparr>ref_kind = obj_kind (update_status_obj r), ref_name = update_status_name r,
      ref_namespace = update_status_namespace r\<rparr>"

definition get_then_update_request_key :: "GetThenUpdateRequest \<Rightarrow> ObjectRef" where
  "get_then_update_request_key r =
     \<lparr>ref_kind = obj_kind (get_then_update_obj r), ref_name = get_then_update_name r,
      ref_namespace = get_then_update_namespace r\<rparr>"

definition get_then_delete_well_formed :: "GetThenDeleteRequest \<Rightarrow> bool" where
  "get_then_delete_well_formed r \<longleftrightarrow>
     or_controller (get_then_delete_owner_ref r) \<noteq> None \<and> the (or_controller (get_then_delete_owner_ref r))"

definition get_then_update_well_formed :: "GetThenUpdateRequest \<Rightarrow> bool" where
  "get_then_update_well_formed r \<longleftrightarrow>
     or_controller (get_then_update_owner_ref r) \<noteq> None \<and> the (or_controller (get_then_update_owner_ref r))"

datatype APIRequest =
    GetReq GetRequest | ListReq ListRequest | CreateReq CreateRequest | DeleteReq DeleteRequest
  | UpdateReq UpdateRequest | UpdateStatusReq UpdateStatusRequest
  | GetThenDeleteReq GetThenDeleteRequest | GetThenUpdateReq GetThenUpdateRequest

datatype APIResponse =
    GetResp "APIError + DynamicObjectView" | ListResp "APIError + DynamicObjectView list"
  | CreateResp "APIError + DynamicObjectView" | DeleteResp "APIError + unit"
  | UpdateResp "APIError + DynamicObjectView" | UpdateStatusResp "APIError + DynamicObjectView"
  | GetThenDeleteResp "APIError + unit" | GetThenUpdateResp "APIError + DynamicObjectView"

end
