(* ===== verification/Anvil_Message.thy ===== *)
theory Anvil_Message
  imports Anvil_Objects "HOL-Library.Multiset"
begin

text \<open>
  Messages between the hosts of a cluster (\<open>kubernetes_cluster/spec/message.rs\<close> below
  \<open>src/projects/anvil-main/src/\<close>): requests and responses with the identifier of the remote call that
  they belong to, and the functions that build and match them.
\<close>

section \<open>Messages\<close>

type_synonym RPCId = nat
type_synonym ExternalRequest = Value
type_synonym ExternalResponse = Value

datatype HostId = APIServer | BuiltinController | Controller int ObjectRef | External int | PodMonkey

datatype MessageContent =
    is_api_request: APIRequestMsg (api_request: APIRequest)
  | is_api_response: APIResponseMsg (api_response: APIResponse)
  | is_external_request: ExternalRequestMsg (external_request: ExternalRequest)
  | is_external_response: ExternalResponseMsg (external_response: ExternalResponse)

record Message =
  msg_src :: HostId
  msg_dst :: HostId
  msg_rpc_id :: RPCId
  msg_content :: MessageContent

record MessageOps =
  mo_recv :: "Message option"
  mo_send :: "Message multiset"

record RPCIdAllocator =
  rpc_id_counter :: RPCId

definition rpc_allocate :: "RPCIdAllocator \<Rightarrow> RPCIdAllocator \<times> RPCId" where
  "rpc_allocate a = (\<lparr>rpc_id_counter = rpc_id_counter a + 1\<rparr>, rpc_id_counter a)"

definition is_controller_id :: "HostId \<Rightarrow> int \<Rightarrow> bool" where
  "is_controller_id h controller_id = (case h of Controller i _ \<Rightarrow> i = controller_id | _ \<Rightarrow> False)"

fun is_ok_resp :: "APIResponse \<Rightarrow> bool" where
  "is_ok_resp (GetResp r) = (\<not> isl r)"
| "is_ok_resp (ListResp r) = (\<not> isl r)"
| "is_ok_resp (CreateResp r) = (\<not> isl r)"
| "is_ok_resp (DeleteResp r) = (\<not> isl r)"
| "is_ok_resp (UpdateResp r) = (\<not> isl r)"
| "is_ok_resp (UpdateStatusResp r) = (\<not> isl r)"
| "is_ok_resp (GetThenDeleteResp r) = (\<not> isl r)"
| "is_ok_resp (GetThenUpdateResp r) = (\<not> isl r)"

definition form_msg :: "HostId \<Rightarrow> HostId \<Rightarrow> RPCId \<Rightarrow> MessageContent \<Rightarrow> Message" where
  "form_msg src dst rpc_id content = \<lparr>msg_src = src, msg_dst = dst, msg_rpc_id = rpc_id, msg_content = content\<rparr>"

definition controller_req_msg :: "int \<Rightarrow> ObjectRef \<Rightarrow> RPCId \<Rightarrow> APIRequest \<Rightarrow> Message" where
  "controller_req_msg controller_id cr_key req_id req =
     form_msg (Controller controller_id cr_key) APIServer req_id (APIRequestMsg req)"

definition controller_external_req_msg :: "int \<Rightarrow> ObjectRef \<Rightarrow> RPCId \<Rightarrow> ExternalRequest \<Rightarrow> Message" where
  "controller_external_req_msg controller_id cr_key req_id req =
     form_msg (Controller controller_id cr_key) (External controller_id) req_id (ExternalRequestMsg req)"

definition built_in_controller_req_msg :: "RPCId \<Rightarrow> MessageContent \<Rightarrow> Message" where
  "built_in_controller_req_msg rpc_id content = form_msg BuiltinController APIServer rpc_id content"

definition pod_monkey_req_msg :: "RPCId \<Rightarrow> MessageContent \<Rightarrow> Message" where
  "pod_monkey_req_msg rpc_id content = form_msg PodMonkey APIServer rpc_id content"

text \<open>The \<open>match\<close> on the variants of a response and a request.\<close>

fun same_method :: "APIResponse \<Rightarrow> APIRequest \<Rightarrow> bool" where
  "same_method (GetResp _) (GetReq _) = True"
| "same_method (ListResp _) (ListReq _) = True"
| "same_method (CreateResp _) (CreateReq _) = True"
| "same_method (DeleteResp _) (DeleteReq _) = True"
| "same_method (UpdateResp _) (UpdateReq _) = True"
| "same_method (UpdateStatusResp _) (UpdateStatusReq _) = True"
| "same_method (GetThenDeleteResp _) (GetThenDeleteReq _) = True"
| "same_method (GetThenUpdateResp _) (GetThenUpdateReq _) = True"
| "same_method _ _ = False"

definition resp_msg_matches_req_msg :: "Message \<Rightarrow> Message \<Rightarrow> bool" where
  "resp_msg_matches_req_msg resp req \<longleftrightarrow>
     (is_api_response (msg_content resp) \<and> is_api_request (msg_content req) \<and>
      msg_dst resp = msg_src req \<and> msg_src resp = msg_dst req \<and> msg_rpc_id resp = msg_rpc_id req \<and>
      same_method (api_response (msg_content resp)) (api_request (msg_content req))) \<or>
     (is_external_response (msg_content resp) \<and> is_external_request (msg_content req) \<and>
      msg_dst resp = msg_src req \<and> msg_src resp = msg_dst req \<and> msg_rpc_id resp = msg_rpc_id req)"

text \<open>The functions \<open>form_..._resp_msg\<close> differ in the variant of the response only.\<close>

definition form_api_resp_msg :: "Message \<Rightarrow> APIResponse \<Rightarrow> Message" where
  "form_api_resp_msg req resp = form_msg (msg_dst req) (msg_src req) (msg_rpc_id req) (APIResponseMsg resp)"

definition form_external_resp_msg :: "Message \<Rightarrow> ExternalResponse \<Rightarrow> Message" where
  "form_external_resp_msg req resp = form_msg (msg_dst req) (msg_src req) (msg_rpc_id req) (ExternalResponseMsg resp)"

fun err_response :: "APIRequest \<Rightarrow> APIError \<Rightarrow> APIResponse" where
  "err_response (GetReq _) err = GetResp (Inl err)"
| "err_response (ListReq _) err = ListResp (Inl err)"
| "err_response (CreateReq _) err = CreateResp (Inl err)"
| "err_response (DeleteReq _) err = DeleteResp (Inl err)"
| "err_response (UpdateReq _) err = UpdateResp (Inl err)"
| "err_response (UpdateStatusReq _) err = UpdateStatusResp (Inl err)"
| "err_response (GetThenDeleteReq _) err = GetThenDeleteResp (Inl err)"
| "err_response (GetThenUpdateReq _) err = GetThenUpdateResp (Inl err)"

definition form_matched_err_resp_msg :: "Message \<Rightarrow> APIError \<Rightarrow> Message" where
  "form_matched_err_resp_msg req err = form_api_resp_msg req (err_response (api_request (msg_content req)) err)"

definition get_req_msg_content :: "ObjectRef \<Rightarrow> MessageContent" where
  "get_req_msg_content key = APIRequestMsg (GetReq \<lparr>get_key = key\<rparr>)"

definition list_req_msg_content :: "Kind \<Rightarrow> StringView \<Rightarrow> MessageContent" where
  "list_req_msg_content kind namespace = APIRequestMsg (ListReq \<lparr>list_kind = kind, list_namespace = namespace\<rparr>)"

definition create_req_msg_content :: "StringView \<Rightarrow> DynamicObjectView \<Rightarrow> MessageContent" where
  "create_req_msg_content namespace obj = APIRequestMsg (CreateReq \<lparr>create_namespace = namespace, create_obj = obj\<rparr>)"

definition delete_req_msg_content :: "ObjectRef \<Rightarrow> PreconditionsView option \<Rightarrow> MessageContent" where
  "delete_req_msg_content key preconditions =
     APIRequestMsg (DeleteReq \<lparr>delete_key = key, delete_preconditions = preconditions\<rparr>)"

definition update_req_msg_content :: "StringView \<Rightarrow> StringView \<Rightarrow> DynamicObjectView \<Rightarrow> MessageContent" where
  "update_req_msg_content namespace name obj =
     APIRequestMsg (UpdateReq \<lparr>update_namespace = namespace, update_name = name, update_obj = obj\<rparr>)"

definition update_status_req_msg_content :: "StringView \<Rightarrow> StringView \<Rightarrow> DynamicObjectView \<Rightarrow> MessageContent" where
  "update_status_req_msg_content namespace name obj =
     APIRequestMsg (UpdateStatusReq
       \<lparr>update_status_namespace = namespace, update_status_name = name, update_status_obj = obj\<rparr>)"

definition get_then_delete_req_msg_content :: "ObjectRef \<Rightarrow> OwnerReferenceView \<Rightarrow> MessageContent" where
  "get_then_delete_req_msg_content key owner_ref =
     APIRequestMsg (GetThenDeleteReq \<lparr>get_then_delete_key = key, get_then_delete_owner_ref = owner_ref\<rparr>)"

definition get_then_update_req_msg_content ::
    "StringView \<Rightarrow> StringView \<Rightarrow> OwnerReferenceView \<Rightarrow> DynamicObjectView \<Rightarrow> MessageContent" where
  "get_then_update_req_msg_content namespace name owner_ref obj =
     APIRequestMsg (GetThenUpdateReq
       \<lparr>get_then_update_namespace = namespace, get_then_update_name = name, get_then_update_owner_ref = owner_ref,
        get_then_update_obj = obj\<rparr>)"

definition api_request_msg_before :: "RPCId \<Rightarrow> Message \<Rightarrow> bool" where
  "api_request_msg_before rpc_id msg \<longleftrightarrow>
     msg_rpc_id msg < rpc_id \<and> msg_dst msg = APIServer \<and> is_api_request (msg_content msg)"

definition received_msg_destined_for :: "Message option \<Rightarrow> HostId \<Rightarrow> bool" where
  "received_msg_destined_for recv host_id = (case recv of Some msg \<Rightarrow> msg_dst msg = host_id | None \<Rightarrow> True)"

section \<open>Facts\<close>

lemma form_msg_simps [simp]:
  "msg_src (form_msg a b i c) = a" "msg_dst (form_msg a b i c) = b" "msg_rpc_id (form_msg a b i c) = i"
  "msg_content (form_msg a b i c) = c"
  by (simp_all add: form_msg_def)

lemma resp_msg_simps [simp]:
  "msg_rpc_id (form_api_resp_msg m r) = msg_rpc_id m" "msg_dst (form_api_resp_msg m r) = msg_src m"
  "msg_src (form_api_resp_msg m r) = msg_dst m" "msg_content (form_api_resp_msg m r) = APIResponseMsg r"
  "msg_rpc_id (form_external_resp_msg m e) = msg_rpc_id m" "msg_rpc_id (form_matched_err_resp_msg m x) = msg_rpc_id m"
  "msg_dst (form_external_resp_msg m e) = msg_src m" "msg_dst (form_matched_err_resp_msg m x) = msg_src m"
  by (simp_all add: form_api_resp_msg_def form_external_resp_msg_def form_matched_err_resp_msg_def)

lemma same_method_err [simp]: "same_method (err_response req err) req"
  by (cases req) simp_all

lemma form_api_resp_matches:
  "is_api_request (msg_content m) \<Longrightarrow> same_method r (api_request (msg_content m)) \<Longrightarrow>
     resp_msg_matches_req_msg (form_api_resp_msg m r) m"
  by (simp add: resp_msg_matches_req_msg_def)

lemma matches_same_rpc_id: "resp_msg_matches_req_msg resp req \<Longrightarrow> msg_rpc_id resp = msg_rpc_id req"
  by (auto simp: resp_msg_matches_req_msg_def)

end
