(* ===== verification/Anvil_Api_Server.thy ===== *)
theory Anvil_Api_Server
  imports Anvil_Message
begin

text \<open>
  The API server of a cluster with its object store (\<open>kubernetes_cluster/spec/api_server/\<close> below
  \<open>src/projects/anvil-main/src/\<close>): admission checks, validation and the handlers of the requests.

  What the source leaves uninterpreted is a field of the record \<open>api_env\<close>: the name that the server
  generates, the deletion timestamp, the order in which a list request returns a set of objects, and the
  functions of the built-in kinds, which have the interface that custom kinds have in the source.
\<close>

section \<open>State and environment\<close>

record APIServerState =
  resources :: StoredState
  uid_counter :: Uid
  resource_version_counter :: ResourceVersion

record InstalledType =
  it_unmarshallable_spec :: "Value \<Rightarrow> bool"
  it_unmarshallable_status :: "Value \<Rightarrow> bool"
  it_valid_object :: "DynamicObjectView \<Rightarrow> bool"
  it_valid_transition :: "DynamicObjectView \<Rightarrow> DynamicObjectView \<Rightarrow> bool"
  it_marshalled_default_status :: Value

type_synonym InstalledTypes = "StringView \<rightharpoonup> InstalledType"

record api_env =
  env_builtin :: "Kind \<Rightarrow> InstalledType"
  env_generated_name :: "APIServerState \<Rightarrow> StringView \<Rightarrow> StringView"
  env_deletion_timestamp :: StringView
  env_to_seq :: "DynamicObjectView set \<Rightarrow> DynamicObjectView list"

text \<open>The dispatch on the kind that the five functions below share.\<close>

definition type_of_kind :: "api_env \<Rightarrow> InstalledTypes \<Rightarrow> Kind \<Rightarrow> InstalledType" where
  "type_of_kind env installed_types kind =
     (case kind of CustomResourceKind s \<Rightarrow> the (installed_types s) | k \<Rightarrow> env_builtin env k)"

section \<open>Validation\<close>

definition unmarshallable_spec :: "api_env \<Rightarrow> InstalledTypes \<Rightarrow> DynamicObjectView \<Rightarrow> bool" where
  "unmarshallable_spec env it obj = it_unmarshallable_spec (type_of_kind env it (obj_kind obj)) (obj_spec obj)"

definition unmarshallable_status :: "api_env \<Rightarrow> InstalledTypes \<Rightarrow> DynamicObjectView \<Rightarrow> bool" where
  "unmarshallable_status env it obj = it_unmarshallable_status (type_of_kind env it (obj_kind obj)) (obj_status obj)"

definition unmarshallable_object :: "api_env \<Rightarrow> InstalledTypes \<Rightarrow> DynamicObjectView \<Rightarrow> bool" where
  "unmarshallable_object env it obj \<longleftrightarrow> unmarshallable_spec env it obj \<and> unmarshallable_status env it obj"

definition metadata_validity_check :: "DynamicObjectView \<Rightarrow> APIError option" where
  "metadata_validity_check obj =
     (let refs = om_owner_references (obj_metadata obj)
      in if refs \<noteq> None \<and> length (the refs) > 1 \<and>
            length (filter (\<lambda>r. or_controller r \<noteq> None \<and> the (or_controller r)) (the refs)) > 1
         then Some Invalid else None)"

definition metadata_transition_validity_check :: "DynamicObjectView \<Rightarrow> DynamicObjectView \<Rightarrow> APIError option" where
  "metadata_transition_validity_check obj old_obj =
     (if om_deletion_timestamp (obj_metadata old_obj) \<noteq> None \<and> om_finalizers (obj_metadata obj) \<noteq> None \<and>
         \<not> finalizers_as_set (obj_metadata obj) \<subseteq> finalizers_as_set (obj_metadata old_obj)
      then Some Forbidden else None)"

definition valid_object :: "api_env \<Rightarrow> InstalledTypes \<Rightarrow> DynamicObjectView \<Rightarrow> bool" where
  "valid_object env it obj = it_valid_object (type_of_kind env it (obj_kind obj)) obj"

definition object_validity_check :: "api_env \<Rightarrow> InstalledTypes \<Rightarrow> DynamicObjectView \<Rightarrow> APIError option" where
  "object_validity_check env it obj = (if \<not> valid_object env it obj then Some Invalid else None)"

definition valid_transition :: "api_env \<Rightarrow> InstalledTypes \<Rightarrow> DynamicObjectView \<Rightarrow> DynamicObjectView \<Rightarrow> bool" where
  "valid_transition env it obj old_obj = it_valid_transition (type_of_kind env it (obj_kind obj)) obj old_obj"

definition object_transition_validity_check ::
    "api_env \<Rightarrow> InstalledTypes \<Rightarrow> DynamicObjectView \<Rightarrow> DynamicObjectView \<Rightarrow> APIError option" where
  "object_transition_validity_check env it obj old_obj =
     (if \<not> valid_transition env it obj old_obj then Some Invalid else None)"

definition marshalled_default_status :: "api_env \<Rightarrow> InstalledTypes \<Rightarrow> Kind \<Rightarrow> Value" where
  "marshalled_default_status env it kind = it_marshalled_default_status (type_of_kind env it kind)"

section \<open>Reading\<close>

definition handle_get_request :: "GetRequest \<Rightarrow> APIServerState \<Rightarrow> APIError + DynamicObjectView" where
  "handle_get_request req s =
     (case resources s (get_key req) of None \<Rightarrow> Inl ObjectNotFound | Some obj \<Rightarrow> Inr obj)"

definition handle_list_request :: "api_env \<Rightarrow> ListRequest \<Rightarrow> APIServerState \<Rightarrow> APIError + DynamicObjectView list" where
  "handle_list_request env req s =
     Inr (env_to_seq env {obj \<in> ran (resources s). ref_namespace (object_ref obj) = list_namespace req \<and>
                                                    ref_kind (object_ref obj) = list_kind req})"

section \<open>Creating\<close>

definition create_request_admission_check ::
    "api_env \<Rightarrow> InstalledTypes \<Rightarrow> CreateRequest \<Rightarrow> APIServerState \<Rightarrow> APIError option" where
  "create_request_admission_check env it req s =
     (let m = obj_metadata (create_obj req)
      in if om_name m = None \<and> om_generate_name m = None then Some Invalid
         else if om_namespace m \<noteq> None \<and> create_namespace req \<noteq> the (om_namespace m) then Some BadRequest
         else if \<not> unmarshallable_object env it (create_obj req) then Some BadRequest
         else if om_name m \<noteq> None \<and> resources s (object_ref (with_namespace (create_obj req) (create_namespace req))) \<noteq> None
         then Some ObjectAlreadyExists
         else None)"

definition created_object_validity_check :: "api_env \<Rightarrow> InstalledTypes \<Rightarrow> DynamicObjectView \<Rightarrow> APIError option" where
  "created_object_validity_check env it obj =
     (if metadata_validity_check obj \<noteq> None then metadata_validity_check obj
      else if object_validity_check env it obj \<noteq> None then object_validity_check env it obj
      else None)"

text \<open>The object that a request creates, a local variable of \<open>handle_create_request\<close>.\<close>

definition created_object :: "api_env \<Rightarrow> InstalledTypes \<Rightarrow> CreateRequest \<Rightarrow> APIServerState \<Rightarrow> DynamicObjectView" where
  "created_object env it req s =
     (let obj = create_obj req; m = obj_metadata obj
      in \<lparr>obj_kind = obj_kind obj,
          obj_metadata = m
            \<lparr>om_name := (if om_name m \<noteq> None then om_name m else Some (env_generated_name env s (the (om_generate_name m)))),
             om_namespace := Some (create_namespace req),
             om_resource_version := Some (resource_version_counter s),
             om_uid := Some (uid_counter s),
             om_deletion_timestamp := None\<rparr>,
          obj_spec = obj_spec obj,
          obj_status = marshalled_default_status env it (obj_kind obj)\<rparr>)"

definition handle_create_request ::
    "api_env \<Rightarrow> InstalledTypes \<Rightarrow> CreateRequest \<Rightarrow> APIServerState \<Rightarrow> APIServerState \<times> (APIError + DynamicObjectView)" where
  "handle_create_request env it req s =
     (case create_request_admission_check env it req s of
        Some err \<Rightarrow> (s, Inl err)
      | None \<Rightarrow>
          (let obj = created_object env it req s
           in if resources s (object_ref obj) \<noteq> None then (s, Inl ObjectAlreadyExists)
              else case created_object_validity_check env it obj of
                     Some err \<Rightarrow> (s, Inl err)
                   | None \<Rightarrow>
                       (s\<lparr>resources := (resources s)(object_ref obj \<mapsto> obj),
                          uid_counter := uid_counter s + 1,
                          resource_version_counter := resource_version_counter s + 1\<rparr>, Inr obj)))"

section \<open>Deleting\<close>

definition delete_request_admission_check :: "DeleteRequest \<Rightarrow> APIServerState \<Rightarrow> APIError option" where
  "delete_request_admission_check req s =
     (case resources s (delete_key req) of
        None \<Rightarrow> Some ObjectNotFound
      | Some obj \<Rightarrow>
          (case delete_preconditions req of
             Some p \<Rightarrow>
               if pre_uid p \<noteq> None \<and> pre_uid p \<noteq> om_uid (obj_metadata obj) then Some Conflict
               else if pre_resource_version p \<noteq> None \<and> pre_resource_version p \<noteq> om_resource_version (obj_metadata obj)
               then Some Conflict
               else None
           | None \<Rightarrow> None))"

definition has_finalizers :: "ObjectMetaView \<Rightarrow> bool" where
  "has_finalizers m \<longleftrightarrow> om_finalizers m \<noteq> None \<and> length (the (om_finalizers m)) > 0"

definition handle_delete_request :: "api_env \<Rightarrow> DeleteRequest \<Rightarrow> APIServerState \<Rightarrow> APIServerState \<times> (APIError + unit)" where
  "handle_delete_request env req s =
     (case delete_request_admission_check req s of
        Some err \<Rightarrow> (s, Inl err)
      | None \<Rightarrow>
          (let obj = the (resources s (delete_key req))
           in if has_finalizers (obj_metadata obj) then
                if om_deletion_timestamp (obj_metadata obj) \<noteq> None then (s, Inr ())
                else
                  let stamped = with_resource_version (with_deletion_timestamp obj (env_deletion_timestamp env))
                                  (resource_version_counter s)
                  in (s\<lparr>resources := (resources s)(delete_key req \<mapsto> stamped),
                        resource_version_counter := resource_version_counter s + 1\<rparr>, Inr ())
              else
                (s\<lparr>resources := (resources s)(delete_key req := None),
                   resource_version_counter := resource_version_counter s + 1\<rparr>, Inr ())))"

section \<open>Updating\<close>

definition allow_unconditional_update :: "Kind \<Rightarrow> bool" where
  "allow_unconditional_update kind = (case kind of CustomResourceKind _ \<Rightarrow> False | _ \<Rightarrow> True)"

definition update_request_admission_check_helper ::
    "api_env \<Rightarrow> InstalledTypes \<Rightarrow> StringView \<Rightarrow> StringView \<Rightarrow> DynamicObjectView \<Rightarrow> APIServerState \<Rightarrow> APIError option" where
  "update_request_admission_check_helper env it name namespace obj s =
     (let key = \<lparr>ref_kind = obj_kind obj, ref_name = name, ref_namespace = namespace\<rparr>; m = obj_metadata obj
      in if om_name m = None then Some BadRequest
         else if name \<noteq> the (om_name m) then Some BadRequest
         else if om_namespace m \<noteq> None \<and> namespace \<noteq> the (om_namespace m) then Some BadRequest
         else if \<not> unmarshallable_object env it obj then Some BadRequest
         else if resources s key = None then Some ObjectNotFound
         else if om_resource_version m = None \<and> \<not> allow_unconditional_update (ref_kind key) then Some Invalid
         else if om_resource_version m \<noteq> None \<and>
                 om_resource_version m \<noteq> om_resource_version (obj_metadata (the (resources s key))) then Some Conflict
         else if om_uid m \<noteq> None \<and> om_uid m \<noteq> om_uid (obj_metadata (the (resources s key))) then Some Conflict
         else None)"

definition update_request_admission_check ::
    "api_env \<Rightarrow> InstalledTypes \<Rightarrow> UpdateRequest \<Rightarrow> APIServerState \<Rightarrow> APIError option" where
  "update_request_admission_check env it req s =
     update_request_admission_check_helper env it (update_name req) (update_namespace req) (update_obj req) s"

definition updated_object :: "UpdateRequest \<Rightarrow> DynamicObjectView \<Rightarrow> DynamicObjectView" where
  "updated_object req old_obj =
     \<lparr>obj_kind = obj_kind old_obj,
      obj_metadata = (obj_metadata (update_obj req))
        \<lparr>om_namespace := Some (update_namespace req),
         om_resource_version := om_resource_version (obj_metadata old_obj),
         om_uid := om_uid (obj_metadata old_obj),
         om_deletion_timestamp := om_deletion_timestamp (obj_metadata old_obj)\<rparr>,
      obj_spec = obj_spec (update_obj req),
      obj_status = obj_status old_obj\<rparr>"

definition updated_object_validity_check ::
    "api_env \<Rightarrow> InstalledTypes \<Rightarrow> DynamicObjectView \<Rightarrow> DynamicObjectView \<Rightarrow> APIError option" where
  "updated_object_validity_check env it obj old_obj =
     (if metadata_validity_check obj \<noteq> None then metadata_validity_check obj
      else if metadata_transition_validity_check obj old_obj \<noteq> None then metadata_transition_validity_check obj old_obj
      else if object_validity_check env it obj \<noteq> None then object_validity_check env it obj
      else if object_transition_validity_check env it obj old_obj \<noteq> None
      then object_transition_validity_check env it obj old_obj
      else None)"

definition handle_update_request ::
    "api_env \<Rightarrow> InstalledTypes \<Rightarrow> UpdateRequest \<Rightarrow> APIServerState \<Rightarrow> APIServerState \<times> (APIError + DynamicObjectView)" where
  "handle_update_request env it req s =
     (case update_request_admission_check env it req s of
        Some err \<Rightarrow> (s, Inl err)
      | None \<Rightarrow>
          (let old_obj = the (resources s (update_request_key req)); updated = updated_object req old_obj
           in if updated = old_obj then (s, Inr old_obj)
              else
                let obj = with_resource_version updated (resource_version_counter s)
                in case updated_object_validity_check env it obj old_obj of
                     Some err \<Rightarrow> (s, Inl err)
                   | None \<Rightarrow>
                       if om_deletion_timestamp (obj_metadata obj) = None \<or> has_finalizers (obj_metadata obj) then
                         (s\<lparr>resources := (resources s)(update_request_key req \<mapsto> obj),
                            resource_version_counter := resource_version_counter s + 1\<rparr>, Inr obj)
                       else
                         (s\<lparr>resources := (resources s)(object_ref obj := None),
                            resource_version_counter := resource_version_counter s + 1\<rparr>, Inr obj)))"

definition update_status_request_admission_check ::
    "api_env \<Rightarrow> InstalledTypes \<Rightarrow> UpdateStatusRequest \<Rightarrow> APIServerState \<Rightarrow> APIError option" where
  "update_status_request_admission_check env it req s =
     update_request_admission_check_helper env it (update_status_name req) (update_status_namespace req)
       (update_status_obj req) s"

definition status_updated_object :: "UpdateStatusRequest \<Rightarrow> DynamicObjectView \<Rightarrow> DynamicObjectView" where
  "status_updated_object req old_obj =
     \<lparr>obj_kind = obj_kind old_obj, obj_metadata = obj_metadata old_obj, obj_spec = obj_spec old_obj,
      obj_status = obj_status (update_status_obj req)\<rparr>"

definition handle_update_status_request ::
    "api_env \<Rightarrow> InstalledTypes \<Rightarrow> UpdateStatusRequest \<Rightarrow> APIServerState \<Rightarrow> APIServerState \<times> (APIError + DynamicObjectView)" where
  "handle_update_status_request env it req s =
     (case update_status_request_admission_check env it req s of
        Some err \<Rightarrow> (s, Inl err)
      | None \<Rightarrow>
          (let old_obj = the (resources s (update_status_request_key req)); updated = status_updated_object req old_obj
           in if updated = old_obj then (s, Inr old_obj)
              else
                let obj = with_resource_version updated (resource_version_counter s)
                in case updated_object_validity_check env it obj old_obj of
                     Some err \<Rightarrow> (s, Inl err)
                   | None \<Rightarrow>
                       (s\<lparr>resources := (resources s)(update_status_request_key req \<mapsto> obj),
                          resource_version_counter := resource_version_counter s + 1\<rparr>, Inr obj)))"

section \<open>Transactions\<close>

definition handle_get_then_delete_request ::
    "api_env \<Rightarrow> GetThenDeleteRequest \<Rightarrow> APIServerState \<Rightarrow> APIServerState \<times> (APIError + unit)" where
  "handle_get_then_delete_request env req s =
     (if \<not> get_then_delete_well_formed req then (s, Inl BadRequest)
      else case handle_get_request \<lparr>get_key = get_then_delete_key req\<rparr> s of
             Inr _ \<Rightarrow>
               (let current_obj = the (resources s (get_then_delete_key req))
                in if owner_references_contains (obj_metadata current_obj) (get_then_delete_owner_ref req) then
                     handle_delete_request env \<lparr>delete_key = get_then_delete_key req, delete_preconditions = None\<rparr> s
                   else (s, Inl TransactionAbort))
           | Inl err \<Rightarrow> (s, Inl err))"

definition handle_get_then_update_request ::
    "api_env \<Rightarrow> InstalledTypes \<Rightarrow> GetThenUpdateRequest \<Rightarrow> APIServerState \<Rightarrow> APIServerState \<times> (APIError + DynamicObjectView)" where
  "handle_get_then_update_request env it req s =
     (if \<not> get_then_update_well_formed req then (s, Inl BadRequest)
      else case handle_get_request \<lparr>get_key = get_then_update_request_key req\<rparr> s of
             Inr _ \<Rightarrow>
               (let current_obj = the (resources s (get_then_update_request_key req))
                in if owner_references_contains (obj_metadata current_obj) (get_then_update_owner_ref req) then
                     let obj = get_then_update_obj req;
                         new_obj = obj\<lparr>obj_metadata := obj_metadata obj
                           \<lparr>om_resource_version := om_resource_version (obj_metadata current_obj),
                            om_uid := om_uid (obj_metadata current_obj)\<rparr>\<rparr>
                     in handle_update_request env it
                          \<lparr>update_namespace = get_then_update_namespace req, update_name = get_then_update_name req,
                           update_obj = new_obj\<rparr> s
                   else (s, Inl TransactionAbort))
           | Inl err \<Rightarrow> (s, Inl err))"

text \<open>The functions \<open>handle_..._request_msg\<close> take the request out of a message and put the response into
  one; \<open>handle_api_request\<close> is the part of them between the two.\<close>

fun handle_api_request :: "api_env \<Rightarrow> InstalledTypes \<Rightarrow> APIRequest \<Rightarrow> APIServerState \<Rightarrow> APIServerState \<times> APIResponse" where
  "handle_api_request env it (GetReq req) s = (s, GetResp (handle_get_request req s))"
| "handle_api_request env it (ListReq req) s = (s, ListResp (handle_list_request env req s))"
| "handle_api_request env it (CreateReq req) s = (let (s', r) = handle_create_request env it req s in (s', CreateResp r))"
| "handle_api_request env it (DeleteReq req) s = (let (s', r) = handle_delete_request env req s in (s', DeleteResp r))"
| "handle_api_request env it (UpdateReq req) s = (let (s', r) = handle_update_request env it req s in (s', UpdateResp r))"
| "handle_api_request env it (UpdateStatusReq req) s =
     (let (s', r) = handle_update_status_request env it req s in (s', UpdateStatusResp r))"
| "handle_api_request env it (GetThenDeleteReq req) s =
     (let (s', r) = handle_get_then_delete_request env req s in (s', GetThenDeleteResp r))"
| "handle_api_request env it (GetThenUpdateReq req) s =
     (let (s', r) = handle_get_then_update_request env it req s in (s', GetThenUpdateResp r))"

definition transition_by_etcd :: "api_env \<Rightarrow> InstalledTypes \<Rightarrow> Message \<Rightarrow> APIServerState \<Rightarrow> APIServerState \<times> Message" where
  "transition_by_etcd env it msg s =
     (let (s', r) = handle_api_request env it (api_request (msg_content msg)) s in (s', form_api_resp_msg msg r))"

end
