(* ===== verification/Anvil_Hosts.thy ===== *)
theory Anvil_Hosts
  imports Anvil_Temporal Anvil_Api_Server
begin

text \<open>
  State machines (\<open>state_machine/\<close> below \<open>src/projects/anvil-main/src/\<close>) and the hosts of a cluster
  (\<open>kubernetes_cluster/spec/\<close>): the network, the API server, the garbage collector, a controller that runs
  a reconcile function, the external system of a controller, and the pod monkey, which creates, changes
  and deletes pods at will.

  The source picks an enabled step with \<open>choose\<close>; the function that picks is an argument of
  \<open>next_result\<close>. At most one step of the API server, the garbage collector, an external system and a
  controller is enabled for an input; only the choice of the pod monkey is open.
\<close>

section \<open>Actions and state machines\<close>

record ('s, 'i, 'o) Action =
  precondition :: "'i \<Rightarrow> 's \<Rightarrow> bool"
  transition :: "'i \<Rightarrow> 's \<Rightarrow> 's \<times> 'o"

definition action_pre :: "('s, 'i, 'o) Action \<Rightarrow> 'i \<Rightarrow> 's StatePred" where
  "action_pre a input = (\<lambda>s. precondition a input s)"

definition action_forward :: "('s, 'i, 'o) Action \<Rightarrow> 'i \<Rightarrow> 's ActionPred" where
  "action_forward a input = (\<lambda>s s'. precondition a input s \<and> s' = fst (transition a input s))"

definition action_weak_fairness :: "('s, 'i, 'o) Action \<Rightarrow> 'i \<Rightarrow> 's TempPred" where
  "action_weak_fairness a input =
     leads_to (always (lift_state (action_pre a input))) (lift_action (action_forward a input))"

datatype ('s, 'o) ActionResult = Disabled | Enabled (result_state: 's) (result_output: 'o)

record ('s, 'i, 'ai, 'o, 'step) StateMachine =
  sm_init :: "'s \<Rightarrow> bool"
  sm_actions :: "('s, 'ai, 'o) Action set"
  step_to_action :: "'step \<Rightarrow> ('s, 'ai, 'o) Action"
  action_input :: "'step \<Rightarrow> 'i \<Rightarrow> 'ai"

definition next_result ::
    "('s, 'i, 'ai, 'o, 'step) StateMachine \<Rightarrow> (('step \<Rightarrow> bool) \<Rightarrow> 'step) \<Rightarrow> 'i \<Rightarrow> 's \<Rightarrow> ('s, 'o) ActionResult" where
  "next_result sm pick input s =
     (let P = (\<lambda>step. precondition (step_to_action sm step) (action_input sm step input) s)
      in if \<exists>step. P step then
           let step = pick P; r = transition (step_to_action sm step) (action_input sm step input) s
           in Enabled (fst r) (snd r)
         else Disabled)"

definition next_action_result ::
    "('s, 'i, 'ai, 'o, 'step) StateMachine \<Rightarrow> ('s, 'ai, 'o) Action \<Rightarrow> 'ai \<Rightarrow> 's \<Rightarrow> ('s, 'o) ActionResult" where
  "next_action_result sm action input s =
     (if precondition action input s then Enabled (fst (transition action input s)) (snd (transition action input s))
      else Disabled)"

record ('s, 'ops) NetworkStateMachine =
  nsm_init :: "'s \<Rightarrow> bool"
  nsm_deliver :: "('s, 'ops, unit) Action"

definition network_next_result :: "('s, 'ops) NetworkStateMachine \<Rightarrow> 'ops \<Rightarrow> 's \<Rightarrow> ('s, unit) ActionResult" where
  "network_next_result sm msg_ops s =
     (if precondition (nsm_deliver sm) msg_ops s
      then Enabled (fst (transition (nsm_deliver sm) msg_ops s)) (snd (transition (nsm_deliver sm) msg_ops s))
      else Disabled)"

text \<open>The rule for fair actions, for an action of a state machine.\<close>

lemma action_wf1:
  assumes "\<And>s s'. p s \<Longrightarrow> nxt s s' \<Longrightarrow> p s' \<or> q s'"
    and "\<And>s s'. p s \<Longrightarrow> nxt s s' \<Longrightarrow> action_forward a input s s' \<Longrightarrow> q s'"
    and "entails spec (always (lift_action nxt))"
    and "\<And>s. p s \<Longrightarrow> action_pre a input s"
    and "entails spec (action_weak_fairness a input)"
  shows "entails spec (leads_to (lift_state p) (lift_state q))"
proof (rule wf1_fair [OF assms(1-3)])
  show "entails spec (leads_to (always (lift_state p)) (lift_action (action_forward a input)))"
    using assms(5,4) unfolding action_weak_fairness_def by (simp add: entails_iff tla_defs)
qed

section \<open>The network\<close>

record NetworkState =
  in_flight :: "Message multiset"

definition deliver :: "(NetworkState, MessageOps, unit) Action" where
  "deliver =
     \<lparr>precondition = (\<lambda>ops s. case mo_recv ops of Some m \<Rightarrow> m \<in># in_flight s | None \<Rightarrow> True),
      transition = (\<lambda>ops s. case mo_recv ops of
          Some m \<Rightarrow> (\<lparr>in_flight = (in_flight s - {#m#}) + mo_send ops\<rparr>, ())
        | None \<Rightarrow> (\<lparr>in_flight = in_flight s + mo_send ops\<rparr>, ()))\<rparr>"

definition network :: "(NetworkState, MessageOps) NetworkStateMachine" where
  "network = \<lparr>nsm_init = (\<lambda>s. in_flight s = {#}), nsm_deliver = deliver\<rparr>"

section \<open>The API server\<close>

datatype APIServerStep = HandleRequest

record APIServerActionInput =
  asi_recv :: "Message option"

record APIServerActionOutput =
  aso_send :: "Message multiset"

definition handle_request ::
    "api_env \<Rightarrow> InstalledTypes \<Rightarrow> (APIServerState, APIServerActionInput, APIServerActionOutput) Action" where
  "handle_request env it =
     \<lparr>precondition = (\<lambda>input s. case asi_recv input of Some m \<Rightarrow> is_api_request (msg_content m) | None \<Rightarrow> False),
      transition = (\<lambda>input s.
        let (s', resp) = transition_by_etcd env it (the (asi_recv input)) s in (s', \<lparr>aso_send = {#resp#}\<rparr>))\<rparr>"

definition api_server ::
    "api_env \<Rightarrow> InstalledTypes \<Rightarrow>
       (APIServerState, APIServerActionInput, APIServerActionInput, APIServerActionOutput, APIServerStep) StateMachine" where
  "api_server env it =
     \<lparr>sm_init = (\<lambda>s. resources s = Map.empty), sm_actions = {handle_request env it},
      step_to_action = (\<lambda>step. case step of HandleRequest \<Rightarrow> handle_request env it),
      action_input = (\<lambda>step input. input)\<rparr>"

section \<open>The garbage collector\<close>

datatype BuiltinControllersStep = RunGarbageCollector
datatype BuiltinControllerChoice = GarbageCollector

record BuiltinControllersActionInput =
  bci_choice :: BuiltinControllerChoice
  bci_key :: ObjectRef
  bci_rpc_id_allocator :: RPCIdAllocator
  bci_resources :: StoredState

record BuiltinControllersActionOutput =
  bco_send :: "Message multiset"
  bco_rpc_id_allocator :: RPCIdAllocator

definition run_garbage_collector :: "(unit, BuiltinControllersActionInput, BuiltinControllersActionOutput) Action" where
  "run_garbage_collector =
     \<lparr>precondition = (\<lambda>input s.
        let rs = bci_resources input; key = bci_key input;
            owner_references = the (om_owner_references (obj_metadata (the (rs key))))
        in bci_choice input = GarbageCollector \<and> rs key \<noteq> None \<and>
           om_owner_references (obj_metadata (the (rs key))) \<noteq> None \<and> length owner_references > 0 \<and>
           (\<forall>i < length owner_references.
              rs (owner_reference_to_object_reference (owner_references ! i) (ref_namespace key)) = None \<or>
              om_uid (obj_metadata (the (rs (owner_reference_to_object_reference (owner_references ! i) (ref_namespace key)))))
                \<noteq> Some (or_uid (owner_references ! i)))),
      transition = (\<lambda>input s.
        let preconditions = \<lparr>pre_uid = om_uid (obj_metadata (the (bci_resources input (bci_key input)))),
                             pre_resource_version = None\<rparr>;
            (alloc, rpc_id) = rpc_allocate (bci_rpc_id_allocator input)
        in ((), \<lparr>bco_send = {#built_in_controller_req_msg rpc_id (delete_req_msg_content (bci_key input) (Some preconditions))#},
                 bco_rpc_id_allocator = alloc\<rparr>))\<rparr>"

definition builtin_controllers ::
    "(unit, BuiltinControllersActionInput, BuiltinControllersActionInput, BuiltinControllersActionOutput,
      BuiltinControllersStep) StateMachine" where
  "builtin_controllers =
     \<lparr>sm_init = (\<lambda>s. True), sm_actions = {run_garbage_collector},
      step_to_action = (\<lambda>step. case step of RunGarbageCollector \<Rightarrow> run_garbage_collector),
      action_input = (\<lambda>step input. input)\<rparr>"

section \<open>Controllers\<close>

type_synonym ReconcileLocalState = Value
type_synonym ReconcileId = nat

datatype RequestContent = KubernetesRequest APIRequest | ExternalRequestContent ExternalRequest
datatype ResponseContent = KubernetesResponse APIResponse | ExternalResponseContent ExternalResponse

record ReconcileIdAllocator =
  reconcile_id_counter :: ReconcileId

definition reconcile_allocate :: "ReconcileIdAllocator \<Rightarrow> ReconcileIdAllocator \<times> ReconcileId" where
  "reconcile_allocate a = (\<lparr>reconcile_id_counter = reconcile_id_counter a + 1\<rparr>, reconcile_id_counter a)"

record ReconcileModel =
  rm_kind :: Kind
  rm_init :: ReconcileLocalState
  rm_transition :: "DynamicObjectView \<Rightarrow> ResponseContent option \<Rightarrow> ReconcileLocalState \<Rightarrow>
    ReconcileLocalState \<times> RequestContent option"
  rm_done :: "ReconcileLocalState \<Rightarrow> bool"
  rm_error :: "ReconcileLocalState \<Rightarrow> bool"

record OngoingReconcile =
  triggering_cr :: DynamicObjectView
  pending_req_msg :: "Message option"
  local_state :: ReconcileLocalState
  reconcile_id :: ReconcileId

record ControllerState =
  ongoing_reconciles :: "ObjectRef \<rightharpoonup> OngoingReconcile"
  scheduled_reconciles :: "ObjectRef \<rightharpoonup> DynamicObjectView"
  reconcile_id_allocator :: ReconcileIdAllocator

datatype ControllerStep = RunScheduledReconcile | ContinueReconcile | EndReconcile

record ControllerActionInput =
  ci_recv :: "Message option"
  ci_scheduled_cr_key :: "ObjectRef option"
  ci_rpc_id_allocator :: RPCIdAllocator

record ControllerActionOutput =
  co_send :: "Message multiset"
  co_rpc_id_allocator :: RPCIdAllocator

type_synonym ControllerAction = "(ControllerState, ControllerActionInput, ControllerActionOutput) Action"

definition run_scheduled_reconcile :: "ReconcileModel \<Rightarrow> ControllerAction" where
  "run_scheduled_reconcile model =
     \<lparr>precondition = (\<lambda>input s. case ci_scheduled_cr_key input of
          None \<Rightarrow> False
        | Some cr_key \<Rightarrow> ref_kind cr_key = rm_kind model \<and> scheduled_reconciles s cr_key \<noteq> None \<and>
            ci_recv input = None \<and> ongoing_reconciles s cr_key = None),
      transition = (\<lambda>input s.
        let cr_key = the (ci_scheduled_cr_key input);
            (new_allocator, rid) = reconcile_allocate (reconcile_id_allocator s);
            initialized = \<lparr>triggering_cr = the (scheduled_reconciles s cr_key), pending_req_msg = None,
                           local_state = rm_init model, reconcile_id = rid\<rparr>
        in (\<lparr>ongoing_reconciles = (ongoing_reconciles s)(cr_key \<mapsto> initialized),
             scheduled_reconciles = (scheduled_reconciles s)(cr_key := None),
             reconcile_id_allocator = new_allocator\<rparr>,
            \<lparr>co_send = {#}, co_rpc_id_allocator = ci_rpc_id_allocator input\<rparr>))\<rparr>"

definition continue_reconcile :: "ReconcileModel \<Rightarrow> int \<Rightarrow> ControllerAction" where
  "continue_reconcile model controller_id =
     \<lparr>precondition = (\<lambda>input s. case ci_scheduled_cr_key input of
          None \<Rightarrow> False
        | Some cr_key \<Rightarrow> ref_kind cr_key = rm_kind model \<and>
            (case ongoing_reconciles s cr_key of
               None \<Rightarrow> False
             | Some rec \<Rightarrow> \<not> rm_done model (local_state rec) \<and> \<not> rm_error model (local_state rec) \<and>
                 (case pending_req_msg rec of
                    Some req \<Rightarrow> (case ci_recv input of
                        None \<Rightarrow> False
                      | Some resp \<Rightarrow> (is_api_response (msg_content resp) \<or> is_external_response (msg_content resp)) \<and>
                          resp_msg_matches_req_msg resp req)
                  | None \<Rightarrow> ci_recv input = None))),
      transition = (\<lambda>input s.
        let cr_key = the (ci_scheduled_cr_key input);
            rec = the (ongoing_reconciles s cr_key);
            resp_o = (case ci_recv input of
                        None \<Rightarrow> None
                      | Some m \<Rightarrow> if is_api_response (msg_content m)
                          then Some (KubernetesResponse (api_response (msg_content m)))
                          else Some (ExternalResponseContent (external_response (msg_content m))));
            (local_state', req_o) = rm_transition model (triggering_cr rec) resp_o (local_state rec);
            (alloc, rpc_id) = rpc_allocate (ci_rpc_id_allocator input);
            (pending, send, alloc') = (case req_o of
                None \<Rightarrow> (None, {#}, ci_rpc_id_allocator input)
              | Some content \<Rightarrow>
                  let m = (case content of
                             KubernetesRequest req \<Rightarrow> controller_req_msg controller_id cr_key rpc_id req
                           | ExternalRequestContent req \<Rightarrow> controller_external_req_msg controller_id cr_key rpc_id req)
                  in (Some m, {#m#}, alloc))
        in (s\<lparr>ongoing_reconciles := (ongoing_reconciles s)(cr_key \<mapsto>
                rec\<lparr>pending_req_msg := pending, local_state := local_state'\<rparr>)\<rparr>,
            \<lparr>co_send = send, co_rpc_id_allocator = alloc'\<rparr>))\<rparr>"

definition end_reconcile :: "ReconcileModel \<Rightarrow> ControllerAction" where
  "end_reconcile model =
     \<lparr>precondition = (\<lambda>input s. case ci_scheduled_cr_key input of
          None \<Rightarrow> False
        | Some cr_key \<Rightarrow> ref_kind cr_key = rm_kind model \<and>
            (case ongoing_reconciles s cr_key of
               None \<Rightarrow> False
             | Some rec \<Rightarrow> (rm_done model (local_state rec) \<or> rm_error model (local_state rec)) \<and> ci_recv input = None)),
      transition = (\<lambda>input s.
        let cr_key = the (ci_scheduled_cr_key input)
        in (s\<lparr>ongoing_reconciles := (ongoing_reconciles s)(cr_key := None)\<rparr>,
            \<lparr>co_send = {#}, co_rpc_id_allocator = ci_rpc_id_allocator input\<rparr>))\<rparr>"

definition controller ::
    "ReconcileModel \<Rightarrow> int \<Rightarrow>
       (ControllerState, ControllerActionInput, ControllerActionInput, ControllerActionOutput, ControllerStep) StateMachine" where
  "controller model controller_id =
     \<lparr>sm_init = (\<lambda>s. s = \<lparr>ongoing_reconciles = Map.empty, scheduled_reconciles = Map.empty,
                          reconcile_id_allocator = \<lparr>reconcile_id_counter = 0\<rparr>\<rparr>),
      sm_actions = {run_scheduled_reconcile model, continue_reconcile model controller_id, end_reconcile model},
      step_to_action = (\<lambda>step. case step of
          RunScheduledReconcile \<Rightarrow> run_scheduled_reconcile model
        | ContinueReconcile \<Rightarrow> continue_reconcile model controller_id
        | EndReconcile \<Rightarrow> end_reconcile model),
      action_input = (\<lambda>step input. input)\<rparr>"

text \<open>The enabled step of a controller.\<close>

definition choose_controller_step :: "(ControllerStep \<Rightarrow> bool) \<Rightarrow> ControllerStep" where
  "choose_controller_step P =
     (if P RunScheduledReconcile then RunScheduledReconcile else if P ContinueReconcile then ContinueReconcile else EndReconcile)"

section \<open>External systems\<close>

type_synonym ExternalLocalState = Value

record ExternalState =
  ext_state :: ExternalLocalState

record ExternalModel =
  em_init :: ExternalLocalState
  em_transition :: "ExternalRequest \<Rightarrow> ExternalLocalState \<Rightarrow> StoredState \<Rightarrow> ExternalLocalState \<times> ExternalResponse"

datatype ExternalStep = HandleExternalRequest

record ExternalActionInput =
  ei_recv :: "Message option"
  ei_resources :: StoredState

record ExternalActionOutput =
  eo_send :: "Message multiset"

definition transition_by_external :: "ExternalModel \<Rightarrow> Message \<Rightarrow> StoredState \<Rightarrow> ExternalState \<Rightarrow> ExternalState \<times> Message" where
  "transition_by_external model req_msg rs s =
     (let (inner, resp) = em_transition model (external_request (msg_content req_msg)) (ext_state s) rs
      in (s\<lparr>ext_state := inner\<rparr>, form_external_resp_msg req_msg resp))"

definition handle_external_request :: "ExternalModel \<Rightarrow> (ExternalState, ExternalActionInput, ExternalActionOutput) Action" where
  "handle_external_request model =
     \<lparr>precondition = (\<lambda>input s. case ei_recv input of Some m \<Rightarrow> is_external_request (msg_content m) | None \<Rightarrow> False),
      transition = (\<lambda>input s.
        let (s', resp_msg) = transition_by_external model (the (ei_recv input)) (ei_resources input) s
        in (s', \<lparr>eo_send = {#resp_msg#}\<rparr>))\<rparr>"

definition external ::
    "ExternalModel \<Rightarrow>
       (ExternalState, ExternalActionInput, ExternalActionInput, ExternalActionOutput, ExternalStep) StateMachine" where
  "external model =
     \<lparr>sm_init = (\<lambda>s. ext_state s = em_init model), sm_actions = {handle_external_request model},
      step_to_action = (\<lambda>step. case step of HandleExternalRequest \<Rightarrow> handle_external_request model),
      action_input = (\<lambda>step input. input)\<rparr>"

section \<open>The pod monkey\<close>

text \<open>A pod with its specification and status in marshalled form.\<close>

record MarshalledPod =
  mpod_metadata :: ObjectMetaView
  mpod_spec :: Value
  mpod_status :: Value

definition pod_marshal :: "MarshalledPod \<Rightarrow> DynamicObjectView" where
  "pod_marshal pod = \<lparr>obj_kind = PodKind, obj_metadata = mpod_metadata pod, obj_spec = mpod_spec pod, obj_status = mpod_status pod\<rparr>"

definition pod_object_ref :: "MarshalledPod \<Rightarrow> ObjectRef" where
  "pod_object_ref pod =
     \<lparr>ref_kind = PodKind, ref_name = the (om_name (mpod_metadata pod)), ref_namespace = the (om_namespace (mpod_metadata pod))\<rparr>"

datatype PodMonkeyStep = CreatePod | UpdatePod | UpdatePodStatus | DeletePod

record PodMonkeyActionInput =
  pmi_pod :: MarshalledPod
  pmi_rpc_id_allocator :: RPCIdAllocator

record PodMonkeyActionOutput =
  pmo_send :: "Message multiset"
  pmo_rpc_id_allocator :: RPCIdAllocator

type_synonym PodMonkeyAction = "(unit, PodMonkeyActionInput, PodMonkeyActionOutput) Action"

text \<open>The four actions differ in the content of the request only.\<close>

definition pod_monkey_action :: "(MarshalledPod \<Rightarrow> MessageContent) \<Rightarrow> PodMonkeyAction" where
  "pod_monkey_action content =
     \<lparr>precondition = (\<lambda>input s. True),
      transition = (\<lambda>input s.
        let (alloc, rpc_id) = rpc_allocate (pmi_rpc_id_allocator input)
        in (s, \<lparr>pmo_send = {#pod_monkey_req_msg rpc_id (content (pmi_pod input))#}, pmo_rpc_id_allocator = alloc\<rparr>))\<rparr>"

definition create_pod :: PodMonkeyAction where
  "create_pod = pod_monkey_action (\<lambda>pod. create_req_msg_content (the (om_namespace (mpod_metadata pod))) (pod_marshal pod))"

definition delete_pod :: PodMonkeyAction where
  "delete_pod = pod_monkey_action (\<lambda>pod. delete_req_msg_content (pod_object_ref pod) None)"

definition update_pod :: PodMonkeyAction where
  "update_pod = pod_monkey_action (\<lambda>pod.
     update_req_msg_content (the (om_namespace (mpod_metadata pod))) (the (om_name (mpod_metadata pod))) (pod_marshal pod))"

definition update_pod_status :: PodMonkeyAction where
  "update_pod_status = pod_monkey_action (\<lambda>pod.
     update_status_req_msg_content (the (om_namespace (mpod_metadata pod))) (the (om_name (mpod_metadata pod))) (pod_marshal pod))"

definition pod_monkey ::
    "(unit, PodMonkeyActionInput, PodMonkeyActionInput, PodMonkeyActionOutput, PodMonkeyStep) StateMachine" where
  "pod_monkey =
     \<lparr>sm_init = (\<lambda>s. True), sm_actions = {create_pod, delete_pod, update_pod, update_pod_status},
      step_to_action = (\<lambda>step. case step of
          CreatePod \<Rightarrow> create_pod | UpdatePod \<Rightarrow> update_pod | UpdatePodStatus \<Rightarrow> update_pod_status | DeletePod \<Rightarrow> delete_pod),
      action_input = (\<lambda>step input. input)\<rparr>"

end
