(* ===== verification/Anvil_Store.thy ===== *)
theory Anvil_Store
  imports Anvil_Api_Server
begin

text \<open>
  What the handlers of the API server do to the object store. Every request leaves the store unchanged
  or creates, modifies or removes one object (the relation \<open>store_step\<close>); the invariants of
  \<open>kubernetes_cluster/proof/objects_in_store.rs\<close> follow by cases on it, and with them the guarantees that
  controllers rely on: versions and identifiers are never reused, so a write that names a version
  overwrites exactly the object that was read.
\<close>

section \<open>Invariants\<close>

definition etcd_object_is_weakly_well_formed :: "ObjectRef \<Rightarrow> APIServerState \<Rightarrow> bool" where
  "etcd_object_is_weakly_well_formed key s \<longleftrightarrow>
     (let obj = the (resources s key)
      in well_formed_for_namespaced (obj_metadata obj) \<and> object_ref obj = key \<and>
         the (om_resource_version (obj_metadata obj)) < resource_version_counter s \<and>
         the (om_uid (obj_metadata obj)) < uid_counter s)"

definition each_object_in_etcd_is_weakly_well_formed :: "APIServerState \<Rightarrow> bool" where
  "each_object_in_etcd_is_weakly_well_formed s \<longleftrightarrow>
     (\<forall>key. resources s key \<noteq> None \<longrightarrow> etcd_object_is_weakly_well_formed key s)"

definition etcd_objects_have_unique_uids :: "APIServerState \<Rightarrow> bool" where
  "etcd_objects_have_unique_uids s \<longleftrightarrow>
     (\<forall>k1 k2. resources s k1 \<noteq> None \<and> resources s k2 \<noteq> None \<and> k1 \<noteq> k2 \<longrightarrow>
        the (om_uid (obj_metadata (the (resources s k1)))) \<noteq> the (om_uid (obj_metadata (the (resources s k2)))))"

definition each_object_in_etcd_has_at_most_one_controller_owner :: "APIServerState \<Rightarrow> bool" where
  "each_object_in_etcd_has_at_most_one_controller_owner s \<longleftrightarrow>
     (\<forall>key. resources s key \<noteq> None \<longrightarrow>
        (let m = obj_metadata (the (resources s key))
         in om_owner_references m \<noteq> None \<longrightarrow>
              length (filter (\<lambda>r. or_controller r \<noteq> None \<and> the (or_controller r)) (the (om_owner_references m))) \<le> 1))"

definition etcd_is_finite :: "APIServerState \<Rightarrow> bool" where
  "etcd_is_finite s \<longleftrightarrow> finite (dom (resources s))"

definition etcd_object_is_well_formed :: "api_env \<Rightarrow> InstalledTypes \<Rightarrow> ObjectRef \<Rightarrow> APIServerState \<Rightarrow> bool" where
  "etcd_object_is_well_formed env it key s \<longleftrightarrow>
     etcd_object_is_weakly_well_formed key s \<and> unmarshallable_object env it (the (resources s key)) \<and>
     valid_object env it (the (resources s key))"

text \<open>The kinds for which the dispatch on kinds is defined, and the objects of these kinds.\<close>

definition installed_kind :: "InstalledTypes \<Rightarrow> Kind \<Rightarrow> bool" where
  "installed_kind it kind = (case kind of CustomResourceKind s \<Rightarrow> it s \<noteq> None | _ \<Rightarrow> True)"

definition each_installed_object_in_etcd_is_well_formed :: "api_env \<Rightarrow> InstalledTypes \<Rightarrow> APIServerState \<Rightarrow> bool" where
  "each_installed_object_in_etcd_is_well_formed env it s \<longleftrightarrow>
     (\<forall>key. resources s key \<noteq> None \<and> installed_kind it (ref_kind key) \<longrightarrow> etcd_object_is_well_formed env it key s)"

text \<open>An object that is marked for deletion is in the store only as long as it has a finalizer.\<close>

definition terminating_objects_have_finalizers :: "APIServerState \<Rightarrow> bool" where
  "terminating_objects_have_finalizers s \<longleftrightarrow>
     (\<forall>key obj. resources s key = Some obj \<and> om_deletion_timestamp (obj_metadata obj) \<noteq> None \<longrightarrow>
        has_finalizers (obj_metadata obj))"

text \<open>What the source states about the conversions of each kind: the default status can be unmarshalled
  (\<open>marshal_status_preserves_integrity\<close>), and validation does not look at the metadata
  (\<open>validation_result_determined_by_spec_and_status\<close>).\<close>

definition well_behaved_types :: "api_env \<Rightarrow> InstalledTypes \<Rightarrow> bool" where
  "well_behaved_types env it \<longleftrightarrow>
     (\<forall>kind. installed_kind it kind \<longrightarrow>
        it_unmarshallable_status (type_of_kind env it kind) (it_marshalled_default_status (type_of_kind env it kind)) \<and>
        (\<forall>obj m. it_valid_object (type_of_kind env it kind) (obj\<lparr>obj_metadata := m\<rparr>) =
           it_valid_object (type_of_kind env it kind) obj))"

abbreviation obj_rv :: "DynamicObjectView \<Rightarrow> ResourceVersion" where
  "obj_rv obj \<equiv> the (om_resource_version (obj_metadata obj))"

abbreviation uid_of :: "DynamicObjectView \<Rightarrow> Uid" where
  "uid_of obj \<equiv> the (om_uid (obj_metadata obj))"

lemma weakly_well_formedD:
  assumes "each_object_in_etcd_is_weakly_well_formed s" "resources s key = Some obj"
  shows "well_formed_for_namespaced (obj_metadata obj)" "object_ref obj = key"
    "obj_rv obj < resource_version_counter s" "uid_of obj < uid_counter s" "obj_kind obj = ref_kind key"
proof -
  have "etcd_object_is_weakly_well_formed key s"
    using assms by (simp add: each_object_in_etcd_is_weakly_well_formed_def)
  with assms(2) show "well_formed_for_namespaced (obj_metadata obj)" "object_ref obj = key"
    "obj_rv obj < resource_version_counter s" "uid_of obj < uid_counter s"
    by (simp_all add: etcd_object_is_weakly_well_formed_def)
  then show "obj_kind obj = ref_kind key" by (auto simp: object_ref_def)
qed

section \<open>Steps of the store\<close>

inductive store_step :: "api_env \<Rightarrow> InstalledTypes \<Rightarrow> APIServerState \<Rightarrow> APIServerState \<Rightarrow> bool" for env it s where
  Unchanged: "store_step env it s s"
| Created:
    "resources s (object_ref obj) = None \<Longrightarrow> well_formed_for_namespaced (obj_metadata obj) \<Longrightarrow>
     om_uid (obj_metadata obj) = Some (uid_counter s) \<Longrightarrow>
     om_resource_version (obj_metadata obj) = Some (resource_version_counter s) \<Longrightarrow>
     om_deletion_timestamp (obj_metadata obj) = None \<Longrightarrow> metadata_validity_check obj = None \<Longrightarrow>
     valid_object env it obj \<Longrightarrow> unmarshallable_spec env it obj \<Longrightarrow>
     obj_status obj = marshalled_default_status env it (obj_kind obj) \<Longrightarrow>
     store_step env it s
       (s\<lparr>resources := (resources s)(object_ref obj \<mapsto> obj), uid_counter := uid_counter s + 1,
          resource_version_counter := resource_version_counter s + 1\<rparr>)"
| Modified:
    "resources s key = Some old \<Longrightarrow> object_ref obj = key \<Longrightarrow> well_formed_for_namespaced (obj_metadata obj) \<Longrightarrow>
     om_uid (obj_metadata obj) = om_uid (obj_metadata old) \<Longrightarrow>
     om_resource_version (obj_metadata obj) = Some (resource_version_counter s) \<Longrightarrow>
     om_deletion_timestamp (obj_metadata obj) = None \<or> has_finalizers (obj_metadata obj) \<Longrightarrow>
     om_deletion_timestamp (obj_metadata old) \<noteq> None \<longrightarrow>
       om_deletion_timestamp (obj_metadata obj) = om_deletion_timestamp (obj_metadata old) \<and>
       finalizers_as_set (obj_metadata obj) \<subseteq> finalizers_as_set (obj_metadata old) \<Longrightarrow>
     metadata_validity_check obj = None \<or> om_owner_references (obj_metadata obj) = om_owner_references (obj_metadata old) \<Longrightarrow>
     valid_object env it obj \<or> (\<exists>m. obj = old\<lparr>obj_metadata := m\<rparr>) \<Longrightarrow>
     unmarshallable_object env it obj \<or> (obj_spec obj = obj_spec old \<and> obj_status obj = obj_status old) \<or>
       (unmarshallable_spec env it obj \<and> obj_status obj = obj_status old) \<or>
       (obj_spec obj = obj_spec old \<and> unmarshallable_status env it obj) \<Longrightarrow>
     store_step env it s
       (s\<lparr>resources := (resources s)(key \<mapsto> obj), resource_version_counter := resource_version_counter s + 1\<rparr>)"
| Removed:
    "resources s key = Some old \<Longrightarrow>
     store_step env it s
       (s\<lparr>resources := (resources s)(key := None), resource_version_counter := resource_version_counter s + 1\<rparr>)"

lemma finalizers_validity:
  "metadata_transition_validity_check obj old = None \<Longrightarrow> om_deletion_timestamp (obj_metadata old) \<noteq> None \<Longrightarrow>
     finalizers_as_set (obj_metadata obj) \<subseteq> finalizers_as_set (obj_metadata old)"
  by (auto simp: metadata_transition_validity_check_def finalizers_as_set_def split: if_splits option.splits)

lemma updated_validity:
  assumes "updated_object_validity_check env it obj old = None"
  shows "metadata_validity_check obj = None" "metadata_transition_validity_check obj old = None"
    "valid_object env it obj" "valid_transition env it obj old"
  using assms by (auto simp: updated_object_validity_check_def object_validity_check_def object_transition_validity_check_def
      split: if_splits)

lemma create_step: "store_step env it s (fst (handle_create_request env it req s))"
proof (cases "create_request_admission_check env it req s")
  case None
  let ?obj = "created_object env it req s"
  have adm: "unmarshallable_object env it (create_obj req)"
    using None by (auto simp: create_request_admission_check_def Let_def split: if_splits)
  have meta: "well_formed_for_namespaced (obj_metadata ?obj)" "om_uid (obj_metadata ?obj) = Some (uid_counter s)"
    "om_resource_version (obj_metadata ?obj) = Some (resource_version_counter s)"
    "om_deletion_timestamp (obj_metadata ?obj) = None"
    "obj_kind ?obj = obj_kind (create_obj req)" "obj_spec ?obj = obj_spec (create_obj req)"
    "obj_status ?obj = marshalled_default_status env it (obj_kind ?obj)"
    by (simp_all add: created_object_def Let_def well_formed_for_namespaced_def)
  have spec: "unmarshallable_spec env it ?obj"
    using adm meta(5,6) by (simp add: unmarshallable_object_def unmarshallable_spec_def)
  show ?thesis
  proof (cases "resources s (object_ref ?obj) = None \<and> created_object_validity_check env it ?obj = None")
    case True
    then have "metadata_validity_check ?obj = None" "valid_object env it ?obj"
      by (auto simp: created_object_validity_check_def object_validity_check_def split: if_splits)
    with True meta spec None show ?thesis
      by (simp add: handle_create_request_def Let_def) (intro store_step.Created; simp)
  next
    case False
    with None show ?thesis
      by (auto simp: handle_create_request_def Let_def intro: store_step.Unchanged split: option.splits)
  qed
qed (simp add: handle_create_request_def store_step.Unchanged)

lemma delete_step:
  assumes "each_object_in_etcd_is_weakly_well_formed s"
  shows "store_step env it s (fst (handle_delete_request env req s))"
proof (cases "resources s (delete_key req)")
  case None
  then show ?thesis by (simp add: handle_delete_request_def delete_request_admission_check_def store_step.Unchanged)
next
  case (Some obj)
  note wf = weakly_well_formedD [OF assms Some]
  let ?stamped = "with_resource_version (with_deletion_timestamp obj (env_deletion_timestamp env)) (resource_version_counter s)"
  have same: "\<exists>m. ?stamped = obj\<lparr>obj_metadata := m\<rparr>"
    by (rule exI [of _ "obj_metadata ?stamped"]) (simp add: with_resource_version_def with_deletion_timestamp_def)
  have "store_step env it s (s\<lparr>resources := (resources s)(delete_key req \<mapsto> ?stamped),
      resource_version_counter := resource_version_counter s + 1\<rparr>)"
    if "has_finalizers (obj_metadata obj)" "om_deletion_timestamp (obj_metadata obj) = None"
    using that wf
    by (intro store_step.Modified [OF Some])
      (simp_all add: with_simps well_formed_for_namespaced_def has_finalizers_def same)
  moreover have "store_step env it s (s\<lparr>resources := (resources s)(delete_key req := None),
      resource_version_counter := resource_version_counter s + 1\<rparr>)"
    using Some by (rule store_step.Removed)
  ultimately show ?thesis
    using Some by (auto simp: handle_delete_request_def Let_def intro: store_step.Unchanged split: option.splits)
qed

lemma admissionD:
  assumes "update_request_admission_check_helper env it name namespace obj s = None"
  shows "om_name (obj_metadata obj) = Some name" "unmarshallable_object env it obj"
    "resources s \<lparr>ref_kind = obj_kind obj, ref_name = name, ref_namespace = namespace\<rparr> \<noteq> None"
    "om_resource_version (obj_metadata obj) \<noteq> None \<Longrightarrow> om_resource_version (obj_metadata obj) =
       om_resource_version (obj_metadata (the (resources s \<lparr>ref_kind = obj_kind obj, ref_name = name, ref_namespace = namespace\<rparr>)))"
    "om_uid (obj_metadata obj) \<noteq> None \<Longrightarrow> om_uid (obj_metadata obj) =
       om_uid (obj_metadata (the (resources s \<lparr>ref_kind = obj_kind obj, ref_name = name, ref_namespace = namespace\<rparr>)))"
  using assms by (auto simp: update_request_admission_check_helper_def Let_def split: if_splits)

lemma update_step:
  assumes wf: "each_object_in_etcd_is_weakly_well_formed s"
  shows "store_step env it s (fst (handle_update_request env it req s))"
proof (cases "update_request_admission_check env it req s")
  case None
  note adm = admissionD [OF None [unfolded update_request_admission_check_def], folded update_request_key_def]
  obtain old where old: "resources s (update_request_key req) = Some old" using adm(3) by blast
  note wf_old = weakly_well_formedD [OF wf old]
  let ?obj = "with_resource_version (updated_object req old) (resource_version_counter s)"
  have kind: "obj_kind old = obj_kind (update_obj req)" using wf_old(5) by (simp add: update_request_key_def)
  have ref: "object_ref ?obj = update_request_key req"
    using adm(1) kind by (simp add: object_ref_def with_simps updated_object_def update_request_key_def)
  have spec: "unmarshallable_spec env it ?obj"
    using adm(2) kind by (simp add: unmarshallable_object_def unmarshallable_spec_def with_simps updated_object_def)
  have meta: "om_uid (obj_metadata ?obj) = om_uid (obj_metadata old)"
    "om_resource_version (obj_metadata ?obj) = Some (resource_version_counter s)"
    "om_deletion_timestamp (obj_metadata ?obj) = om_deletion_timestamp (obj_metadata old)"
    "obj_status ?obj = obj_status old" "well_formed_for_namespaced (obj_metadata ?obj)"
    using wf_old(1) adm(1) by (simp_all add: with_simps updated_object_def well_formed_for_namespaced_def)
  show ?thesis
  proof (cases "updated_object req old \<noteq> old \<and> updated_object_validity_check env it ?obj old = None")
    case True
    note v = updated_validity [OF conjunct2 [OF True]]
    have "store_step env it s (s\<lparr>resources := (resources s)(update_request_key req \<mapsto> ?obj),
        resource_version_counter := resource_version_counter s + 1\<rparr>)"
      if "om_deletion_timestamp (obj_metadata ?obj) = None \<or> has_finalizers (obj_metadata ?obj)"
      using that meta spec v finalizers_validity [OF v(2)] by (intro store_step.Modified [OF old ref]) simp_all
    moreover have "store_step env it s (s\<lparr>resources := (resources s)(update_request_key req := None),
        resource_version_counter := resource_version_counter s + 1\<rparr>)"
      using old by (rule store_step.Removed)
    ultimately show ?thesis
      using True None old ref by (simp add: handle_update_request_def Let_def)
  next
    case False
    with None old show ?thesis
      by (auto simp: handle_update_request_def Let_def intro: store_step.Unchanged split: option.splits)
  qed
qed (simp add: handle_update_request_def store_step.Unchanged)

lemma update_status_step:
  assumes wf: "each_object_in_etcd_is_weakly_well_formed s" and fin: "terminating_objects_have_finalizers s"
  shows "store_step env it s (fst (handle_update_status_request env it req s))"
proof (cases "update_status_request_admission_check env it req s")
  case None
  note adm = admissionD [OF None [unfolded update_status_request_admission_check_def], folded update_status_request_key_def]
  obtain old where old: "resources s (update_status_request_key req) = Some old" using adm(3) by blast
  note wf_old = weakly_well_formedD [OF wf old]
  let ?obj = "with_resource_version (status_updated_object req old) (resource_version_counter s)"
  have kind: "obj_kind old = obj_kind (update_status_obj req)" using wf_old(5) by (simp add: update_status_request_key_def)
  have meta: "object_ref ?obj = update_status_request_key req"
    "om_uid (obj_metadata ?obj) = om_uid (obj_metadata old)"
    "om_resource_version (obj_metadata ?obj) = Some (resource_version_counter s)"
    "om_deletion_timestamp (obj_metadata ?obj) = om_deletion_timestamp (obj_metadata old)"
    "om_finalizers (obj_metadata ?obj) = om_finalizers (obj_metadata old)"
    "obj_spec ?obj = obj_spec old" "well_formed_for_namespaced (obj_metadata ?obj)"
    using wf_old by (simp_all add: with_simps status_updated_object_def well_formed_for_namespaced_def object_ref_def)
  have status: "unmarshallable_status env it ?obj"
    using adm(2) kind by (simp add: unmarshallable_object_def unmarshallable_status_def with_simps status_updated_object_def)
  have stamp: "om_deletion_timestamp (obj_metadata ?obj) = None \<or> has_finalizers (obj_metadata ?obj)"
    using fin old meta(4,5) by (auto simp: terminating_objects_have_finalizers_def has_finalizers_def)
  show ?thesis
  proof (cases "status_updated_object req old \<noteq> old \<and> updated_object_validity_check env it ?obj old = None")
    case True
    note v = updated_validity [OF conjunct2 [OF True]]
    have "store_step env it s (s\<lparr>resources := (resources s)(update_status_request_key req \<mapsto> ?obj),
        resource_version_counter := resource_version_counter s + 1\<rparr>)"
      using meta stamp status v finalizers_validity [OF v(2)] by (intro store_step.Modified [OF old]) simp_all
    with True None old show ?thesis by (simp add: handle_update_status_request_def Let_def)
  next
    case False
    with None old show ?thesis
      by (auto simp: handle_update_status_request_def Let_def intro: store_step.Unchanged split: option.splits)
  qed
qed (simp add: handle_update_status_request_def store_step.Unchanged)

lemma handle_api_request_step:
  assumes "each_object_in_etcd_is_weakly_well_formed s" and "terminating_objects_have_finalizers s"
  shows "store_step env it s (fst (handle_api_request env it req s))"
proof (cases req)
  case (GetThenDeleteReq r)
  with delete_step [OF assms(1)] show ?thesis
    by (auto simp: handle_get_then_delete_request_def Let_def split_beta intro: store_step.Unchanged split: sum.splits)
next
  case (GetThenUpdateReq r)
  with update_step [OF assms(1)] show ?thesis
    by (auto simp: handle_get_then_update_request_def Let_def split_beta intro: store_step.Unchanged split: sum.splits)
qed (use create_step delete_step update_step update_status_step assms in \<open>auto simp: split_beta intro: store_step.Unchanged\<close>)

section \<open>The invariants hold\<close>

definition store_invariant :: "APIServerState \<Rightarrow> bool" where
  "store_invariant s \<longleftrightarrow>
     each_object_in_etcd_is_weakly_well_formed s \<and> etcd_objects_have_unique_uids s \<and>
     each_object_in_etcd_has_at_most_one_controller_owner s \<and> terminating_objects_have_finalizers s \<and> etcd_is_finite s"

lemma store_step_weakly_well_formed:
  assumes "store_step env it s s'" and "each_object_in_etcd_is_weakly_well_formed s"
  shows "each_object_in_etcd_is_weakly_well_formed s'"
  using assms
  by (cases rule: store_step.cases)
    (auto simp: each_object_in_etcd_is_weakly_well_formed_def etcd_object_is_weakly_well_formed_def Let_def
      intro: less_trans [OF _ zless_add1_eq [THEN iffD2]] split: if_splits)

lemma unique_uids_iff:
  "etcd_objects_have_unique_uids s \<longleftrightarrow>
     (\<forall>k1 k2 o1 o2. resources s k1 = Some o1 \<longrightarrow> resources s k2 = Some o2 \<longrightarrow> k1 \<noteq> k2 \<longrightarrow> uid_of o1 \<noteq> uid_of o2)"
  unfolding etcd_objects_have_unique_uids_def by (auto simp del: not_None_eq) fastforce

lemma store_step_unique_uids:
  assumes "store_step env it s s'" and "each_object_in_etcd_is_weakly_well_formed s" and "etcd_objects_have_unique_uids s"
  shows "etcd_objects_have_unique_uids s'"
  using assms(1)
proof (cases rule: store_step.cases)
  case (Created obj)
  have "uid_of x \<noteq> uid_of obj" "uid_of obj \<noteq> uid_of x" if "resources s k = Some x" for k x
    using weakly_well_formedD(4) [OF assms(2) that] Created(4) by simp_all
  moreover from Created(1) have "resources s' = (resources s)(object_ref obj \<mapsto> obj)" by simp
  ultimately show ?thesis using assms(3) unfolding unique_uids_iff by (auto split: if_splits)
next
  case (Modified key old obj)
  with assms(3) have "uid_of x \<noteq> uid_of obj" if "resources s k = Some x" "k \<noteq> key" for k x
    using that unfolding unique_uids_iff by metis
  with Modified assms(3) show ?thesis unfolding unique_uids_iff by auto
next
  case (Removed key old)
  with assms(3) show ?thesis unfolding unique_uids_iff by auto
qed (use assms(3) in simp)

definition one_controller_owner :: "DynamicObjectView \<Rightarrow> bool" where
  "one_controller_owner obj \<longleftrightarrow>
     (\<forall>rs. om_owner_references (obj_metadata obj) = Some rs \<longrightarrow>
        length (filter (\<lambda>r. or_controller r \<noteq> None \<and> the (or_controller r)) rs) \<le> 1)"

lemma at_most_one_controller_owner_iff:
  "each_object_in_etcd_has_at_most_one_controller_owner s \<longleftrightarrow>
     (\<forall>key obj. resources s key = Some obj \<longrightarrow> one_controller_owner obj)"
  unfolding each_object_in_etcd_has_at_most_one_controller_owner_def one_controller_owner_def Let_def by auto

lemma controller_owner_valid: "metadata_validity_check obj = None \<Longrightarrow> one_controller_owner obj"
  unfolding one_controller_owner_def
proof (intro allI impI)
  fix rs
  let ?P = "\<lambda>r. or_controller r \<noteq> None \<and> the (or_controller r)"
  assume "metadata_validity_check obj = None" "om_owner_references (obj_metadata obj) = Some rs"
  then have "length rs \<le> 1 \<or> length (filter ?P rs) \<le> 1"
    by (simp add: metadata_validity_check_def Let_def not_less split: if_splits)
  then show "length (filter ?P rs) \<le> 1" using length_filter_le [of ?P rs] by linarith
qed

lemma store_step_controller_owner:
  assumes "store_step env it s s'" and "each_object_in_etcd_has_at_most_one_controller_owner s"
  shows "each_object_in_etcd_has_at_most_one_controller_owner s'"
  using assms(1)
proof (cases rule: store_step.cases)
  case (Modified key old obj)
  with assms(2) have "one_controller_owner old" by (simp add: at_most_one_controller_owner_iff)
  with Modified(9) have "one_controller_owner obj"
    by (auto intro: controller_owner_valid) (simp add: one_controller_owner_def)
  with Modified assms(2) show ?thesis by (simp add: at_most_one_controller_owner_iff)
qed (use assms(2) in \<open>auto simp: at_most_one_controller_owner_iff intro: controller_owner_valid\<close>)

lemma store_step_terminating:
  "store_step env it s s' \<Longrightarrow> terminating_objects_have_finalizers s \<Longrightarrow> terminating_objects_have_finalizers s'"
  by (auto simp: terminating_objects_have_finalizers_def elim!: store_step.cases split: if_splits)

lemma store_step_finite: "store_step env it s s' \<Longrightarrow> etcd_is_finite s \<Longrightarrow> etcd_is_finite s'"
  by (auto simp: etcd_is_finite_def elim!: store_step.cases)

lemma store_step_invariant: "store_step env it s s' \<Longrightarrow> store_invariant s \<Longrightarrow> store_invariant s'"
  unfolding store_invariant_def
  using store_step_weakly_well_formed store_step_unique_uids store_step_controller_owner store_step_terminating
    store_step_finite by blast

lemma request_step: "store_invariant s \<Longrightarrow> store_step env it s (fst (handle_api_request env it req s))"
  by (simp add: store_invariant_def handle_api_request_step)

lemma request_invariant: "store_invariant s \<Longrightarrow> store_invariant (fst (handle_api_request env it req s))"
  by (rule store_step_invariant [OF request_step])

lemma store_step_counters:
  "store_step env it s s' \<Longrightarrow> resource_version_counter s \<le> resource_version_counter s' \<and> uid_counter s \<le> uid_counter s'"
  by (auto elim!: store_step.cases)

lemma valid_object_metadata:
  assumes "well_behaved_types env it" "installed_kind it (obj_kind obj)" "valid_object env it obj"
  shows "valid_object env it (obj\<lparr>obj_metadata := m\<rparr>)"
  using assms by (simp add: valid_object_def well_behaved_types_def)

lemma store_step_well_formed:
  assumes step: "store_step env it s s'" and ty: "well_behaved_types env it"
    and wf: "each_object_in_etcd_is_weakly_well_formed s" and I: "each_installed_object_in_etcd_is_well_formed env it s"
  shows "each_installed_object_in_etcd_is_well_formed env it s'"
proof -
  have wf': "etcd_object_is_weakly_well_formed key s'" if "resources s' key \<noteq> None" for key
    using store_step_weakly_well_formed [OF step wf] that by (simp add: each_object_in_etcd_is_weakly_well_formed_def)
  have keep: "unmarshallable_object env it obj \<and> valid_object env it obj"
    if "resources s key = Some obj" "installed_kind it (ref_kind key)" for key obj
    using I that by (auto simp: each_installed_object_in_etcd_is_well_formed_def etcd_object_is_well_formed_def)
  show ?thesis
    using step
  proof (cases rule: store_step.cases)
    case (Created obj)
    have "unmarshallable_object env it obj" if "installed_kind it (obj_kind obj)"
      using ty that Created
      by (simp add: unmarshallable_object_def unmarshallable_status_def well_behaved_types_def marshalled_default_status_def)
    with Created wf' keep show ?thesis
      by (auto simp: each_installed_object_in_etcd_is_well_formed_def etcd_object_is_well_formed_def object_ref_def)
  next
    case (Modified key old obj)
    note old = weakly_well_formedD [OF wf Modified(2)]
    have kind: "obj_kind obj = obj_kind old" using Modified(3) old(5) by (auto simp: object_ref_def)
    have "unmarshallable_object env it obj \<and> valid_object env it obj" if "installed_kind it (ref_kind key)"
      using Modified(10,11) keep [OF Modified(2) that] kind valid_object_metadata [OF ty] that old(5)
      by (auto simp: unmarshallable_object_def unmarshallable_spec_def unmarshallable_status_def)
    with Modified wf' keep show ?thesis
      by (auto simp: each_installed_object_in_etcd_is_well_formed_def etcd_object_is_well_formed_def)
  qed (use wf' keep in \<open>auto simp: each_installed_object_in_etcd_is_well_formed_def etcd_object_is_well_formed_def\<close>)
qed

end
