(* ===== verification/Anvil_Cluster.thy ===== *)
theory Anvil_Cluster
  imports Anvil_Hosts Anvil_Store
begin

text \<open>
  The cluster (\<open>kubernetes_cluster/spec/cluster.rs\<close> below \<open>src/projects/anvil-main/src/\<close>): the compound state
  machine of the API server, the garbage collector, the controllers with their external systems, the pod
  monkey and the network, with the failures it models (crashes of controllers, dropped requests).

  The record \<open>cluster_env\<close> holds what the source leaves open: the environment of the API server, and the step
  that the pod monkey chooses for an input.
\<close>

section \<open>State, steps and parameters\<close>

record ControllerAndExternalState =
  ce_controller :: ControllerState
  ce_external :: "ExternalState option"
  crash_enabled :: bool

record ClusterState =
  cs_api_server :: APIServerState
  controller_and_externals :: "int \<rightharpoonup> ControllerAndExternalState"
  cs_network :: NetworkState
  rpc_id_allocator :: RPCIdAllocator
  req_drop_enabled :: bool
  pod_monkey_enabled :: bool

definition cs_in_flight :: "ClusterState \<Rightarrow> Message multiset" where
  "cs_in_flight s = in_flight (cs_network s)"

definition cs_resources :: "ClusterState \<Rightarrow> StoredState" where
  "cs_resources s = resources (cs_api_server s)"

definition cs_ongoing_reconciles :: "ClusterState \<Rightarrow> int \<Rightarrow> (ObjectRef \<rightharpoonup> OngoingReconcile)" where
  "cs_ongoing_reconciles s controller_id = ongoing_reconciles (ce_controller (the (controller_and_externals s controller_id)))"

definition cs_scheduled_reconciles :: "ClusterState \<Rightarrow> int \<Rightarrow> (ObjectRef \<rightharpoonup> DynamicObjectView)" where
  "cs_scheduled_reconciles s controller_id =
     scheduled_reconciles (ce_controller (the (controller_and_externals s controller_id)))"

definition cs_reconcile_id_allocator :: "ClusterState \<Rightarrow> int \<Rightarrow> ReconcileIdAllocator" where
  "cs_reconcile_id_allocator s controller_id =
     reconcile_id_allocator (ce_controller (the (controller_and_externals s controller_id)))"

definition has_rpc_id_counter_no_smaller_than :: "ClusterState \<Rightarrow> nat \<Rightarrow> bool" where
  "has_rpc_id_counter_no_smaller_than s rpc_id \<longleftrightarrow> rpc_id_counter (rpc_id_allocator s) \<ge> rpc_id"

definition has_reconcile_id_counter_no_smaller_than :: "ClusterState \<Rightarrow> int \<Rightarrow> nat \<Rightarrow> bool" where
  "has_reconcile_id_counter_no_smaller_than s controller_id rid \<longleftrightarrow>
     reconcile_id_counter (cs_reconcile_id_allocator s controller_id) \<ge> rid"

datatype Step =
    APIServerStep "Message option"
  | BuiltinControllersStep "BuiltinControllerChoice \<times> ObjectRef"
  | ControllerStep "int \<times> Message option \<times> ObjectRef option"
  | ScheduleControllerReconcileStep "int \<times> ObjectRef"
  | RestartControllerStep int
  | DisableCrashStep int
  | DropReqStep "Message \<times> APIError"
  | DisableReqDropStep
  | PodMonkeyStep MarshalledPod
  | DisablePodMonkeyStep
  | ExternalStep "int \<times> Message option"
  | StutterStep

record ControllerModel =
  reconcile_model :: ReconcileModel
  external_model :: "ExternalModel option"

record Cluster =
  installed_types :: InstalledTypes
  controller_models :: "int \<rightharpoonup> ControllerModel"

record cluster_env =
  env_api :: api_env
  env_pick_pod_step :: "PodMonkeyActionInput \<Rightarrow> PodMonkeyStep"

abbreviation controller_model :: "Cluster \<Rightarrow> int \<Rightarrow> ControllerModel" where
  "controller_model cl i \<equiv> the (controller_models cl i)"

section \<open>The initial states\<close>

definition cluster_init :: "cluster_env \<Rightarrow> Cluster \<Rightarrow> ClusterState StatePred" where
  "cluster_init env cl = (\<lambda>s.
     sm_init (api_server (env_api env) (installed_types cl)) (cs_api_server s) \<and>
     sm_init builtin_controllers () \<and> nsm_init network (cs_network s) \<and> req_drop_enabled s \<and> pod_monkey_enabled s \<and>
     (\<forall>key model. controller_models cl key = Some model \<longrightarrow>
        (\<exists>ce. controller_and_externals s key = Some ce \<and>
           sm_init (controller (reconcile_model model) key) (ce_controller ce) \<and> crash_enabled ce \<and>
           (\<forall>em. external_model model = Some em \<longrightarrow>
              (\<exists>e. ce_external ce = Some e \<and> sm_init (external em) e)))))"

section \<open>The actions\<close>

type_synonym 'i ClusterAction = "(ClusterState, 'i, unit) Action"

definition api_server_next :: "cluster_env \<Rightarrow> Cluster \<Rightarrow> Message option ClusterAction" where
  "api_server_next env cl =
     (let result = (\<lambda>input s.
            let host_result = next_result (api_server (env_api env) (installed_types cl)) (\<lambda>P. HandleRequest)
                                \<lparr>asi_recv = input\<rparr> (cs_api_server s);
                network_result = network_next_result network
                  \<lparr>mo_recv = input, mo_send = aso_send (result_output host_result)\<rparr> (cs_network s)
            in (host_result, network_result))
      in \<lparr>precondition = (\<lambda>input s. received_msg_destined_for input APIServer \<and>
            fst (result input s) \<noteq> Disabled \<and> snd (result input s) \<noteq> Disabled),
          transition = (\<lambda>input s. let (host_result, network_result) = result input s
            in (s\<lparr>cs_api_server := result_state host_result, cs_network := result_state network_result\<rparr>, ()))\<rparr>)"

definition builtin_controllers_next :: "(BuiltinControllerChoice \<times> ObjectRef) ClusterAction" where
  "builtin_controllers_next =
     (let result = (\<lambda>input s.
            let host_result = next_result builtin_controllers (\<lambda>P. RunGarbageCollector)
                                \<lparr>bci_choice = fst input, bci_key = snd input, bci_rpc_id_allocator = rpc_id_allocator s,
                                 bci_resources = resources (cs_api_server s)\<rparr> ();
                network_result = network_next_result network
                  \<lparr>mo_recv = None, mo_send = bco_send (result_output host_result)\<rparr> (cs_network s)
            in (host_result, network_result))
      in \<lparr>precondition = (\<lambda>input s. fst (result input s) \<noteq> Disabled \<and> snd (result input s) \<noteq> Disabled),
          transition = (\<lambda>input s. let (host_result, network_result) = result input s
            in (s\<lparr>cs_network := result_state network_result,
                  rpc_id_allocator := bco_rpc_id_allocator (result_output host_result)\<rparr>, ()))\<rparr>)"

definition chosen_controller_next ::
    "Cluster \<Rightarrow> int \<Rightarrow> (Message option \<times> ObjectRef option) ClusterAction" where
  "chosen_controller_next cl controller_id =
     (let result = (\<lambda>input s.
            let host_result = next_result (controller (reconcile_model (controller_model cl controller_id)) controller_id)
                                choose_controller_step
                                \<lparr>ci_recv = fst input, ci_scheduled_cr_key = snd input,
                                 ci_rpc_id_allocator = rpc_id_allocator s\<rparr>
                                (ce_controller (the (controller_and_externals s controller_id)));
                network_result = network_next_result network
                  \<lparr>mo_recv = fst input, mo_send = co_send (result_output host_result)\<rparr> (cs_network s)
            in (host_result, network_result))
      in \<lparr>precondition = (\<lambda>input s. controller_models cl controller_id \<noteq> None \<and> snd input \<noteq> None \<and>
            received_msg_destined_for (fst input) (Controller controller_id (the (snd input))) \<and>
            fst (result input s) \<noteq> Disabled \<and> snd (result input s) \<noteq> Disabled),
          transition = (\<lambda>input s. let (host_result, network_result) = result input s
            in (s\<lparr>controller_and_externals := (controller_and_externals s)(controller_id \<mapsto>
                    (the (controller_and_externals s controller_id))\<lparr>ce_controller := result_state host_result\<rparr>),
                  cs_network := result_state network_result,
                  rpc_id_allocator := co_rpc_id_allocator (result_output host_result)\<rparr>, ()))\<rparr>)"

definition controller_next :: "Cluster \<Rightarrow> (int \<times> Message option \<times> ObjectRef option) ClusterAction" where
  "controller_next cl =
     \<lparr>precondition = (\<lambda>input s. precondition (chosen_controller_next cl (fst input)) (snd input) s),
      transition = (\<lambda>input s. transition (chosen_controller_next cl (fst input)) (snd input) s)\<rparr>"

definition schedule_controller_reconcile :: "Cluster \<Rightarrow> (int \<times> ObjectRef) ClusterAction" where
  "schedule_controller_reconcile cl =
     \<lparr>precondition = (\<lambda>(controller_id, object_key) s. cs_resources s object_key \<noteq> None \<and>
        controller_models cl controller_id \<noteq> None \<and>
        ref_kind object_key = rm_kind (reconcile_model (controller_model cl controller_id))),
      transition = (\<lambda>(controller_id, object_key) s.
        let ce = the (controller_and_externals s controller_id)
        in (s\<lparr>controller_and_externals := (controller_and_externals s)(controller_id \<mapsto>
                ce\<lparr>ce_controller := (ce_controller ce)\<lparr>scheduled_reconciles :=
                  (scheduled_reconciles (ce_controller ce))(object_key \<mapsto> the (cs_resources s object_key))\<rparr>\<rparr>)\<rparr>, ()))\<rparr>"

definition restart_controller :: "Cluster \<Rightarrow> int ClusterAction" where
  "restart_controller cl =
     \<lparr>precondition = (\<lambda>controller_id s. controller_models cl controller_id \<noteq> None \<and>
        crash_enabled (the (controller_and_externals s controller_id))),
      transition = (\<lambda>controller_id s.
        let ce = the (controller_and_externals s controller_id)
        in (s\<lparr>controller_and_externals := (controller_and_externals s)(controller_id \<mapsto>
                ce\<lparr>ce_controller := \<lparr>ongoing_reconciles = Map.empty, scheduled_reconciles = Map.empty,
                   reconcile_id_allocator = reconcile_id_allocator (ce_controller ce)\<rparr>\<rparr>)\<rparr>, ()))\<rparr>"

definition disable_crash :: "Cluster \<Rightarrow> int ClusterAction" where
  "disable_crash cl =
     \<lparr>precondition = (\<lambda>controller_id s. controller_models cl controller_id \<noteq> None),
      transition = (\<lambda>controller_id s.
        (s\<lparr>controller_and_externals := (controller_and_externals s)(controller_id \<mapsto>
             (the (controller_and_externals s controller_id))\<lparr>crash_enabled := False\<rparr>)\<rparr>, ()))\<rparr>"

definition drop_req :: "(Message \<times> APIError) ClusterAction" where
  "drop_req =
     (let result = (\<lambda>input s. network_next_result network
            \<lparr>mo_recv = Some (fst input), mo_send = {#form_matched_err_resp_msg (fst input) (snd input)#}\<rparr> (cs_network s))
      in \<lparr>precondition = (\<lambda>input s. req_drop_enabled s \<and> msg_dst (fst input) = APIServer \<and>
            is_api_request (msg_content (fst input)) \<and> result input s \<noteq> Disabled),
          transition = (\<lambda>input s. (s\<lparr>cs_network := result_state (result input s)\<rparr>, ()))\<rparr>)"

definition disable_req_drop :: "unit ClusterAction" where
  "disable_req_drop =
     \<lparr>precondition = (\<lambda>input s. True), transition = (\<lambda>input s. (s\<lparr>req_drop_enabled := False\<rparr>, ()))\<rparr>"

definition pod_monkey_next :: "cluster_env \<Rightarrow> MarshalledPod ClusterAction" where
  "pod_monkey_next env =
     (let result = (\<lambda>input s.
            let host_input = \<lparr>pmi_pod = input, pmi_rpc_id_allocator = rpc_id_allocator s\<rparr>;
                host_result = next_result pod_monkey (\<lambda>P. env_pick_pod_step env host_input) host_input ();
                network_result = network_next_result network
                  \<lparr>mo_recv = None, mo_send = pmo_send (result_output host_result)\<rparr> (cs_network s)
            in (host_result, network_result))
      in \<lparr>precondition = (\<lambda>input s. pod_monkey_enabled s \<and>
            fst (result input s) \<noteq> Disabled \<and> snd (result input s) \<noteq> Disabled),
          transition = (\<lambda>input s. let (host_result, network_result) = result input s
            in (s\<lparr>cs_network := result_state network_result,
                  rpc_id_allocator := pmo_rpc_id_allocator (result_output host_result)\<rparr>, ()))\<rparr>)"

definition disable_pod_monkey :: "unit ClusterAction" where
  "disable_pod_monkey =
     \<lparr>precondition = (\<lambda>input s. True), transition = (\<lambda>input s. (s\<lparr>pod_monkey_enabled := False\<rparr>, ()))\<rparr>"

definition chosen_external_next :: "Cluster \<Rightarrow> int \<Rightarrow> Message option ClusterAction" where
  "chosen_external_next cl controller_id =
     (let result = (\<lambda>input s.
            let host_result = next_result (external (the (external_model (controller_model cl controller_id))))
                                (\<lambda>P. HandleExternalRequest)
                                \<lparr>ei_recv = input, ei_resources = resources (cs_api_server s)\<rparr>
                                (the (ce_external (the (controller_and_externals s controller_id))));
                network_result = network_next_result network
                  \<lparr>mo_recv = input, mo_send = eo_send (result_output host_result)\<rparr> (cs_network s)
            in (host_result, network_result))
      in \<lparr>precondition = (\<lambda>input s. controller_models cl controller_id \<noteq> None \<and>
            external_model (controller_model cl controller_id) \<noteq> None \<and>
            received_msg_destined_for input (External controller_id) \<and>
            fst (result input s) \<noteq> Disabled \<and> snd (result input s) \<noteq> Disabled),
          transition = (\<lambda>input s. let (host_result, network_result) = result input s
            in (s\<lparr>controller_and_externals := (controller_and_externals s)(controller_id \<mapsto>
                    (the (controller_and_externals s controller_id))\<lparr>ce_external := Some (result_state host_result)\<rparr>),
                  cs_network := result_state network_result\<rparr>, ()))\<rparr>)"

definition external_next :: "Cluster \<Rightarrow> (int \<times> Message option) ClusterAction" where
  "external_next cl =
     \<lparr>precondition = (\<lambda>input s. precondition (chosen_external_next cl (fst input)) (snd input) s),
      transition = (\<lambda>input s. transition (chosen_external_next cl (fst input)) (snd input) s)\<rparr>"

definition stutter :: "unit ClusterAction" where
  "stutter = \<lparr>precondition = (\<lambda>input s. True), transition = (\<lambda>input s. (s, ()))\<rparr>"

section \<open>The steps\<close>

fun cluster_next_step :: "cluster_env \<Rightarrow> Cluster \<Rightarrow> ClusterState \<Rightarrow> ClusterState \<Rightarrow> Step \<Rightarrow> bool" where
  "cluster_next_step env cl s s' (APIServerStep input) = action_forward (api_server_next env cl) input s s'"
| "cluster_next_step env cl s s' (BuiltinControllersStep input) = action_forward builtin_controllers_next input s s'"
| "cluster_next_step env cl s s' (ControllerStep input) = action_forward (controller_next cl) input s s'"
| "cluster_next_step env cl s s' (ScheduleControllerReconcileStep input) =
     action_forward (schedule_controller_reconcile cl) input s s'"
| "cluster_next_step env cl s s' (RestartControllerStep input) = action_forward (restart_controller cl) input s s'"
| "cluster_next_step env cl s s' (DisableCrashStep input) = action_forward (disable_crash cl) input s s'"
| "cluster_next_step env cl s s' (DropReqStep input) = action_forward drop_req input s s'"
| "cluster_next_step env cl s s' DisableReqDropStep = action_forward disable_req_drop () s s'"
| "cluster_next_step env cl s s' (PodMonkeyStep input) = action_forward (pod_monkey_next env) input s s'"
| "cluster_next_step env cl s s' DisablePodMonkeyStep = action_forward disable_pod_monkey () s s'"
| "cluster_next_step env cl s s' (ExternalStep input) = action_forward (external_next cl) input s s'"
| "cluster_next_step env cl s s' StutterStep = action_forward stutter () s s'"

definition cluster_next :: "cluster_env \<Rightarrow> Cluster \<Rightarrow> ClusterState ActionPred" where
  "cluster_next env cl = (\<lambda>s s'. \<exists>step. cluster_next_step env cl s s' step)"

section \<open>Preconditions of the actions of hosts\<close>

definition api_server_action_pre :: "cluster_env \<Rightarrow> Cluster \<Rightarrow> APIServerStep \<Rightarrow> Message option \<Rightarrow> ClusterState StatePred" where
  "api_server_action_pre env cl step input = (\<lambda>s.
     let sm = api_server (env_api env) (installed_types cl);
         host_result = next_action_result sm (step_to_action sm step) \<lparr>asi_recv = input\<rparr> (cs_api_server s);
         network_result = network_next_result network \<lparr>mo_recv = input, mo_send = aso_send (result_output host_result)\<rparr> (cs_network s)
     in received_msg_destined_for input APIServer \<and> host_result \<noteq> Disabled \<and> network_result \<noteq> Disabled)"

definition builtin_controllers_action_pre ::
    "BuiltinControllersStep \<Rightarrow> BuiltinControllerChoice \<times> ObjectRef \<Rightarrow> ClusterState StatePred" where
  "builtin_controllers_action_pre step input = (\<lambda>s.
     let host_result = next_action_result builtin_controllers (step_to_action builtin_controllers step)
           \<lparr>bci_choice = fst input, bci_key = snd input, bci_rpc_id_allocator = rpc_id_allocator s,
            bci_resources = resources (cs_api_server s)\<rparr> ();
         network_result = network_next_result network \<lparr>mo_recv = None, mo_send = bco_send (result_output host_result)\<rparr> (cs_network s)
     in host_result \<noteq> Disabled \<and> network_result \<noteq> Disabled)"

definition controller_action_pre ::
    "Cluster \<Rightarrow> ControllerStep \<Rightarrow> int \<times> Message option \<times> ObjectRef option \<Rightarrow> ClusterState StatePred" where
  "controller_action_pre cl step input = (\<lambda>s.
     let (controller_id, recv, key) = input;
         sm = controller (reconcile_model (controller_model cl controller_id)) controller_id;
         host_result = next_action_result sm (step_to_action sm step)
           \<lparr>ci_recv = recv, ci_scheduled_cr_key = key, ci_rpc_id_allocator = rpc_id_allocator s\<rparr>
           (ce_controller (the (controller_and_externals s controller_id)));
         network_result = network_next_result network \<lparr>mo_recv = recv, mo_send = co_send (result_output host_result)\<rparr> (cs_network s)
     in controller_models cl controller_id \<noteq> None \<and> key \<noteq> None \<and>
        received_msg_destined_for recv (Controller controller_id (the key)) \<and> host_result \<noteq> Disabled \<and> network_result \<noteq> Disabled)"

definition external_action_pre :: "Cluster \<Rightarrow> ExternalStep \<Rightarrow> int \<times> Message option \<Rightarrow> ClusterState StatePred" where
  "external_action_pre cl step input = (\<lambda>s.
     let (controller_id, recv) = input;
         sm = external (the (external_model (controller_model cl controller_id)));
         host_result = next_action_result sm (step_to_action sm step)
           \<lparr>ei_recv = recv, ei_resources = resources (cs_api_server s)\<rparr>
           (the (ce_external (the (controller_and_externals s controller_id))));
         network_result = network_next_result network \<lparr>mo_recv = recv, mo_send = eo_send (result_output host_result)\<rparr> (cs_network s)
     in controller_models cl controller_id \<noteq> None \<and> external_model (controller_model cl controller_id) \<noteq> None \<and>
        received_msg_destined_for recv (External controller_id) \<and> host_result \<noteq> Disabled \<and> network_result \<noteq> Disabled)"

end
