(* ===== verification/Anvil_View.thy ===== *)
theory Anvil_View
  imports Anvil_Cluster
begin

text \<open>
  An abstract specification of a cluster: the object store, the messages in flight, the next identifier of a
  remote call and the states of the controllers. Each step of the cluster is a step of this view (the relation
  \<open>view_step\<close>), so an invariant of the view is an invariant of the cluster. The invariants are those of
  \<open>kubernetes_cluster/proof/network.rs\<close> and \<open>controller_runtime_safety.rs\<close>.
\<close>

section \<open>The view\<close>

definition controller_of :: "ClusterState \<Rightarrow> int \<Rightarrow> ControllerState" where
  "controller_of s c = ce_controller (the (controller_and_externals s c))"

lemma controller_of_simps [simp]:
  "cs_ongoing_reconciles s c = ongoing_reconciles (controller_of s c)"
  "cs_scheduled_reconciles s c = scheduled_reconciles (controller_of s c)"
  "cs_reconcile_id_allocator s c = reconcile_id_allocator (controller_of s c)"
  by (simp_all add: cs_ongoing_reconciles_def cs_scheduled_reconciles_def cs_reconcile_id_allocator_def controller_of_def)

record ClusterView =
  v_store :: APIServerState
  v_msgs :: "Message multiset"
  v_ids :: RPCId
  v_ctrl :: "int \<Rightarrow> ControllerState"

definition view_of :: "ClusterState \<Rightarrow> ClusterView" where
  "view_of s = \<lparr>v_store = cs_api_server s, v_msgs = cs_in_flight s, v_ids = rpc_id_counter (rpc_id_allocator s),
                v_ctrl = controller_of s\<rparr>"

lemma view_of_simps [simp]:
  "v_store (view_of s) = cs_api_server s" "v_msgs (view_of s) = cs_in_flight s"
  "v_ids (view_of s) = rpc_id_counter (rpc_id_allocator s)" "v_ctrl (view_of s) = controller_of s"
  by (simp_all add: view_of_def)

text \<open>The request of a reconcile: an API request, or a request to the controller's external system.\<close>

definition request_sent_by_controller_with_key :: "int \<Rightarrow> ObjectRef \<Rightarrow> Message \<Rightarrow> bool" where
  "request_sent_by_controller_with_key controller_id key msg \<longleftrightarrow> msg_src msg = Controller controller_id key \<and>
     (msg_dst msg = APIServer \<and> is_api_request (msg_content msg) \<or>
      msg_dst msg = External controller_id \<and> is_external_request (msg_content msg))"

text \<open>The request that a transition of a reconcile makes, with the state that it leads to.\<close>

definition requested :: "ReconcileModel \<Rightarrow> OngoingReconcile \<Rightarrow> ReconcileLocalState \<Rightarrow> Message \<Rightarrow> bool" where
  "requested model rec l q \<longleftrightarrow> (\<exists>resp_o content.
     rm_transition model (triggering_cr rec) resp_o (local_state rec) = (l, Some content) \<and>
     msg_content q = (case content of KubernetesRequest req \<Rightarrow> APIRequestMsg req | ExternalRequestContent req \<Rightarrow> ExternalRequestMsg req))"

text \<open>What is left of the messages when a reconcile has read the response that it waits for, if it waits.\<close>

inductive consumed :: "int \<Rightarrow> ObjectRef \<Rightarrow> OngoingReconcile \<Rightarrow> Message multiset \<Rightarrow> Message multiset \<Rightarrow> bool" for c k rec M where
  Not_waiting: "pending_req_msg rec = None \<Longrightarrow> consumed c k rec M M"
| Waiting: "pending_req_msg rec = Some q \<Longrightarrow> r \<in># M \<Longrightarrow> msg_dst r = Controller c k \<Longrightarrow>
    resp_msg_matches_req_msg r q \<Longrightarrow> consumed c k rec M (M - {#r#})"

inductive view_step :: "cluster_env \<Rightarrow> Cluster \<Rightarrow> ClusterView \<Rightarrow> ClusterView \<Rightarrow> bool" for env cl v where
  Stay: "view_step env cl v v"
| Serve: "m \<in># v_msgs v \<Longrightarrow> msg_dst m = APIServer \<Longrightarrow> is_api_request (msg_content m) \<Longrightarrow>
    handle_api_request (env_api env) (installed_types cl) (api_request (msg_content m)) (v_store v) = (st, r) \<Longrightarrow>
    view_step env cl v (v\<lparr>v_store := st, v_msgs := v_msgs v - {#m#} + {#form_api_resp_msg m r#}\<rparr>)"
| Drop: "m \<in># v_msgs v \<Longrightarrow> msg_dst m = APIServer \<Longrightarrow> is_api_request (msg_content m) \<Longrightarrow>
    view_step env cl v (v\<lparr>v_msgs := v_msgs v - {#m#} + {#form_matched_err_resp_msg m err#}\<rparr>)"
| Answer: "m \<in># v_msgs v \<Longrightarrow> msg_dst m = External c \<Longrightarrow> is_external_request (msg_content m) \<Longrightarrow>
    view_step env cl v (v\<lparr>v_msgs := v_msgs v - {#m#} + {#form_external_resp_msg m e#}\<rparr>)"
| Ask: "msg_rpc_id q = v_ids v \<Longrightarrow> msg_src q = BuiltinController \<or> msg_src q = PodMonkey \<Longrightarrow> msg_dst q = APIServer \<Longrightarrow>
    is_api_request (msg_content q) \<Longrightarrow>
    view_step env cl v (v\<lparr>v_msgs := v_msgs v + {#q#}, v_ids := v_ids v + 1\<rparr>)"
| Schedule: "controller_models cl c \<noteq> None \<Longrightarrow> resources (v_store v) k = Some obj \<Longrightarrow>
    ref_kind k = rm_kind (reconcile_model (controller_model cl c)) \<Longrightarrow>
    view_step env cl v (v\<lparr>v_ctrl := (v_ctrl v)(c :=
      (v_ctrl v c)\<lparr>scheduled_reconciles := (scheduled_reconciles (v_ctrl v c))(k \<mapsto> obj)\<rparr>)\<rparr>)"
| Start: "controller_models cl c \<noteq> None \<Longrightarrow> ongoing_reconciles (v_ctrl v c) k = None \<Longrightarrow>
    scheduled_reconciles (v_ctrl v c) k = Some cr \<Longrightarrow> reconcile_allocate (reconcile_id_allocator (v_ctrl v c)) = (alloc, rid) \<Longrightarrow>
    view_step env cl v (v\<lparr>v_ctrl := (v_ctrl v)(c :=
      \<lparr>ongoing_reconciles = (ongoing_reconciles (v_ctrl v c))(k \<mapsto>
         \<lparr>triggering_cr = cr, pending_req_msg = None, local_state = rm_init (reconcile_model (controller_model cl c)),
          reconcile_id = rid\<rparr>),
       scheduled_reconciles = (scheduled_reconciles (v_ctrl v c))(k := None), reconcile_id_allocator = alloc\<rparr>)\<rparr>)"
| Continue: "controller_models cl c \<noteq> None \<Longrightarrow> ongoing_reconciles (v_ctrl v c) k = Some rec \<Longrightarrow>
    consumed c k rec (v_msgs v) M \<Longrightarrow>
    view_step env cl v (v\<lparr>v_msgs := M, v_ctrl := (v_ctrl v)(c := (v_ctrl v c)\<lparr>ongoing_reconciles :=
      (ongoing_reconciles (v_ctrl v c))(k \<mapsto> rec\<lparr>pending_req_msg := None, local_state := l\<rparr>)\<rparr>)\<rparr>)"
| Request: "controller_models cl c \<noteq> None \<Longrightarrow> ongoing_reconciles (v_ctrl v c) k = Some rec \<Longrightarrow>
    consumed c k rec (v_msgs v) M \<Longrightarrow> request_sent_by_controller_with_key c k q \<Longrightarrow> msg_rpc_id q = v_ids v \<Longrightarrow>
    requested (reconcile_model (controller_model cl c)) rec l q \<Longrightarrow>
    view_step env cl v (v\<lparr>v_msgs := M + {#q#}, v_ids := v_ids v + 1,
      v_ctrl := (v_ctrl v)(c := (v_ctrl v c)\<lparr>ongoing_reconciles :=
        (ongoing_reconciles (v_ctrl v c))(k \<mapsto> rec\<lparr>pending_req_msg := Some q, local_state := l\<rparr>)\<rparr>)\<rparr>)"
| Finish: "controller_models cl c \<noteq> None \<Longrightarrow> ongoing_reconciles (v_ctrl v c) k = Some rec \<Longrightarrow>
    view_step env cl v (v\<lparr>v_ctrl := (v_ctrl v)(c := (v_ctrl v c)\<lparr>ongoing_reconciles :=
      (ongoing_reconciles (v_ctrl v c))(k := None)\<rparr>)\<rparr>)"
| Restart: "controller_models cl c \<noteq> None \<Longrightarrow>
    view_step env cl v (v\<lparr>v_ctrl := (v_ctrl v)(c :=
      \<lparr>ongoing_reconciles = Map.empty, scheduled_reconciles = Map.empty,
       reconcile_id_allocator = reconcile_id_allocator (v_ctrl v c)\<rparr>)\<rparr>)"

section \<open>Each action, in one clause\<close>

lemma next_resultE:
  assumes "next_result sm pick input s \<noteq> Disabled"
    and "\<forall>P. (\<exists>x. P x) \<longrightarrow> P (pick P)"
  shows "\<exists>step. precondition (step_to_action sm step) (action_input sm step input) s \<and>
    next_result sm pick input s =
      Enabled (fst (transition (step_to_action sm step) (action_input sm step input) s))
              (snd (transition (step_to_action sm step) (action_input sm step input) s))"
proof -
  let ?P = "\<lambda>step. precondition (step_to_action sm step) (action_input sm step input) s"
  from assms(1) have "\<exists>x. ?P x" unfolding next_result_def Let_def by (auto split: if_splits)
  moreover from assms(2) [THEN spec [of _ ?P]] this have "?P (pick ?P)" by (rule mp)
  ultimately show ?thesis unfolding next_result_def Let_def by (intro exI [of _ "pick ?P"]) simp
qed

lemma choose_controller_step_ok: "\<forall>P. (\<exists>x. P x) \<longrightarrow> P (choose_controller_step P)"
proof (intro allI impI, elim exE)
  fix P and x :: ControllerStep
  assume "P x"
  then show "P (choose_controller_step P)" by (cases x) (simp_all add: choose_controller_step_def)
qed

lemma network_result [simp]:
  "network_next_result network \<lparr>mo_recv = None, mo_send = S\<rparr> n = Enabled \<lparr>in_flight = in_flight n + S\<rparr> ()"
  "network_next_result network \<lparr>mo_recv = Some m, mo_send = S\<rparr> n =
     (if m \<in># in_flight n then Enabled \<lparr>in_flight = in_flight n - {#m#} + S\<rparr> () else Disabled)"
  by (simp_all add: network_next_result_def network_def deliver_def)

lemma next_result_single:
  assumes "\<And>step. step = x"
  shows "next_result sm (\<lambda>P. x) input s = next_action_result sm (step_to_action sm x) (action_input sm x input) s"
proof -
  have "(\<exists>step. P step) \<longleftrightarrow> P x" for P using assms by metis
  then show ?thesis unfolding next_result_def next_action_result_def Let_def by simp
qed

lemma api_server_result:
  "next_result (api_server env it) (\<lambda>P. HandleRequest) input s = next_action_result (api_server env it) (handle_request env it) input s"
  by (subst next_result_single) (simp_all add: api_server_def APIServerStep.nchotomy)

lemma builtin_controllers_result:
  "next_result builtin_controllers (\<lambda>P. RunGarbageCollector) input s = next_action_result builtin_controllers run_garbage_collector input s"
  by (subst next_result_single) (simp_all add: builtin_controllers_def BuiltinControllersStep.nchotomy)

lemma external_result:
  "next_result (external model) (\<lambda>P. HandleExternalRequest) input s = next_action_result (external model) (handle_external_request model) input s"
  by (subst next_result_single) (simp_all add: external_def ExternalStep.nchotomy)

lemma api_server_forward:
  "action_forward (api_server_next env cl) input s s' \<longleftrightarrow>
     (\<exists>m. input = Some m \<and> msg_dst m = APIServer \<and> is_api_request (msg_content m) \<and> m \<in># cs_in_flight s \<and>
        s' = (let (st, r) = transition_by_etcd (env_api env) (installed_types cl) m (cs_api_server s)
              in s\<lparr>cs_api_server := st, cs_network := \<lparr>in_flight = cs_in_flight s - {#m#} + {#r#}\<rparr>\<rparr>))"
  by (cases input)
    (auto simp: action_forward_def api_server_next_def split_beta api_server_result next_action_result_def
      handle_request_def received_msg_destined_for_def cs_in_flight_def Let_def)

lemma builtin_controllers_forward:
  assumes "action_forward builtin_controllers_next input s s'"
  shows "\<exists>content. is_api_request content \<and>
    s' = s\<lparr>cs_network := \<lparr>in_flight = cs_in_flight s + {#built_in_controller_req_msg (rpc_id_counter (rpc_id_allocator s)) content#}\<rparr>,
           rpc_id_allocator := \<lparr>rpc_id_counter = rpc_id_counter (rpc_id_allocator s) + 1\<rparr>\<rparr>"
  using assms
  unfolding action_forward_def builtin_controllers_next_def builtin_controllers_result next_action_result_def Let_def
  by (intro exI conjI [rotated])
    (auto simp: run_garbage_collector_def split_beta cs_in_flight_def rpc_allocate_def delete_req_msg_content_def
      split: if_splits)

lemma drop_req_forward:
  assumes "action_forward drop_req input s s'"
  shows "\<exists>m err. msg_dst m = APIServer \<and> is_api_request (msg_content m) \<and> m \<in># cs_in_flight s \<and>
    s' = s\<lparr>cs_network := \<lparr>in_flight = cs_in_flight s - {#m#} + {#form_matched_err_resp_msg m err#}\<rparr>\<rparr>"
  using assms
  by (intro exI [of _ "fst input"] exI [of _ "snd input"])
    (auto simp: action_forward_def drop_req_def Let_def cs_in_flight_def split: if_splits)

lemma external_forward:
  "action_forward (external_next cl) (c, input) s s' \<longleftrightarrow>
     (\<exists>m model. input = Some m \<and> controller_models cl c = Some model \<and> external_model model \<noteq> None \<and>
        msg_dst m = External c \<and> is_external_request (msg_content m) \<and> m \<in># cs_in_flight s \<and>
        s' = (let ce = the (controller_and_externals s c);
                  (e, r) = transition_by_external (the (external_model model)) m (resources (cs_api_server s)) (the (ce_external ce))
              in s\<lparr>controller_and_externals := (controller_and_externals s)(c \<mapsto> ce\<lparr>ce_external := Some e\<rparr>),
                   cs_network := \<lparr>in_flight = cs_in_flight s - {#m#} + {#r#}\<rparr>\<rparr>))"
  by (cases input)
    (auto simp: action_forward_def external_next_def chosen_external_next_def split_beta external_result next_action_result_def
      handle_external_request_def received_msg_destined_for_def cs_in_flight_def Let_def)

lemma pod_monkey_step_content:
  "\<exists>content. (\<forall>pod. is_api_request (content pod)) \<and> step_to_action pod_monkey step = pod_monkey_action content"
proof (cases step)
  case CreatePod
  show ?thesis
    by (rule exI, rule conjI [rotated]) (simp add: CreatePod pod_monkey_def create_pod_def, simp add: create_req_msg_content_def)
next
  case UpdatePod
  show ?thesis
    by (rule exI, rule conjI [rotated]) (simp add: UpdatePod pod_monkey_def update_pod_def, simp add: update_req_msg_content_def)
next
  case UpdatePodStatus
  show ?thesis
    by (rule exI, rule conjI [rotated])
      (simp add: UpdatePodStatus pod_monkey_def update_pod_status_def, simp add: update_status_req_msg_content_def)
next
  case DeletePod
  show ?thesis
    by (rule exI, rule conjI [rotated]) (simp add: DeletePod pod_monkey_def delete_pod_def, simp add: delete_req_msg_content_def)
qed

lemma pod_monkey_forward:
  assumes "action_forward (pod_monkey_next env) input s s'"
  shows "\<exists>content. is_api_request content \<and>
    s' = s\<lparr>cs_network := \<lparr>in_flight = cs_in_flight s + {#pod_monkey_req_msg (rpc_id_counter (rpc_id_allocator s)) content#}\<rparr>,
           rpc_id_allocator := \<lparr>rpc_id_counter = rpc_id_counter (rpc_id_allocator s) + 1\<rparr>\<rparr>"
proof -
  let ?step = "env_pick_pod_step env \<lparr>pmi_pod = input, pmi_rpc_id_allocator = rpc_id_allocator s\<rparr>"
  obtain content where content: "\<And>pod. is_api_request (content pod)" "step_to_action pod_monkey ?step = pod_monkey_action content"
    using pod_monkey_step_content [of ?step] by auto
  have "precondition (step_to_action pod_monkey step) x y" for step x y
    using pod_monkey_step_content [of step] by (auto simp: pod_monkey_action_def)
  moreover have "action_input pod_monkey step x = x" for step x by (simp add: pod_monkey_def)
  ultimately have "next_result pod_monkey (\<lambda>P. ?step) \<lparr>pmi_pod = input, pmi_rpc_id_allocator = rpc_id_allocator s\<rparr> () =
    Enabled () \<lparr>pmo_send = {#pod_monkey_req_msg (rpc_id_counter (rpc_id_allocator s)) (content input)#},
                 pmo_rpc_id_allocator = \<lparr>rpc_id_counter = rpc_id_counter (rpc_id_allocator s) + 1\<rparr>\<rparr>"
    by (simp add: next_result_def content(2) pod_monkey_action_def rpc_allocate_def)
  with assms content(1) show ?thesis
    by (intro exI [of _ "content input"]) (simp add: action_forward_def pod_monkey_next_def cs_in_flight_def Let_def)
qed

abbreviation controller_action :: "Cluster \<Rightarrow> int \<Rightarrow> ControllerStep \<Rightarrow> ControllerAction" where
  "controller_action cl c step \<equiv> step_to_action (controller (reconcile_model (controller_model cl c)) c) step"

abbreviation controller_input :: "ClusterState \<Rightarrow> Message option \<Rightarrow> ObjectRef \<Rightarrow> ControllerActionInput" where
  "controller_input s recv k \<equiv> \<lparr>ci_recv = recv, ci_scheduled_cr_key = Some k, ci_rpc_id_allocator = rpc_id_allocator s\<rparr>"

lemma controller_forward:
  assumes "action_forward (controller_next cl) (c, recv, key) s s'"
  shows "\<exists>k step. key = Some k \<and> controller_models cl c \<noteq> None \<and> received_msg_destined_for recv (Controller c k) \<and>
    (\<forall>m. recv = Some m \<longrightarrow> m \<in># cs_in_flight s) \<and>
    precondition (controller_action cl c step) (controller_input s recv k) (controller_of s c) \<and>
    s' = (let (st, out) = transition (controller_action cl c step) (controller_input s recv k) (controller_of s c)
          in s\<lparr>controller_and_externals := (controller_and_externals s)(c \<mapsto>
                 (the (controller_and_externals s c))\<lparr>ce_controller := st\<rparr>),
               cs_network := \<lparr>in_flight = (case recv of Some m \<Rightarrow> cs_in_flight s - {#m#} | None \<Rightarrow> cs_in_flight s) + co_send out\<rparr>,
               rpc_id_allocator := co_rpc_id_allocator out\<rparr>)"
proof -
  from assms obtain k where k: "key = Some k"
    by (auto simp: action_forward_def controller_next_def chosen_controller_next_def Let_def)
  let ?sm = "controller (reconcile_model (controller_model cl c)) c" and ?in = "controller_input s recv k"
  let ?r = "next_result ?sm choose_controller_step ?in (controller_of s c)"
  have ai: "action_input ?sm step x = x" for step x by (simp add: controller_def)
  from assms k have "?r \<noteq> Disabled" by (simp add: controller_of_def action_forward_def controller_next_def chosen_controller_next_def Let_def)
  from next_resultE [OF this choose_controller_step_ok, unfolded ai]
  obtain step where "precondition (controller_action cl c step) ?in (controller_of s c)"
    "?r = Enabled (fst (transition (controller_action cl c step) ?in (controller_of s c)))
                  (snd (transition (controller_action cl c step) ?in (controller_of s c)))" by blast
  with assms k show ?thesis
    by (intro exI [of _ k] exI [of _ step], cases recv)
      (auto simp: action_forward_def controller_next_def chosen_controller_next_def Let_def split_beta cs_in_flight_def
        controller_of_def split: if_splits)
qed

lemma controller_start:
  assumes "precondition (run_scheduled_reconcile model) (controller_input s recv k) st"
    and "transition (run_scheduled_reconcile model) (controller_input s recv k) st = (st', out)"
  shows "recv = None" "ongoing_reconciles st k = None" "co_send out = {#}" "co_rpc_id_allocator out = rpc_id_allocator s"
    "\<exists>cr alloc rid. scheduled_reconciles st k = Some cr \<and> reconcile_allocate (reconcile_id_allocator st) = (alloc, rid) \<and>
     st' = \<lparr>ongoing_reconciles = (ongoing_reconciles st)(k \<mapsto>
              \<lparr>triggering_cr = cr, pending_req_msg = None, local_state = rm_init model, reconcile_id = rid\<rparr>),
            scheduled_reconciles = (scheduled_reconciles st)(k := None), reconcile_id_allocator = alloc\<rparr>"
  using assms by (auto simp: run_scheduled_reconcile_def Let_def split: prod.splits)

lemma controller_end:
  assumes "precondition (end_reconcile model) (controller_input s recv k) st"
    and "transition (end_reconcile model) (controller_input s recv k) st = (st', out)"
  shows "recv = None" "\<exists>rec. ongoing_reconciles st k = Some rec" "co_send out = {#}"
    "co_rpc_id_allocator out = rpc_id_allocator s" "st' = st\<lparr>ongoing_reconciles := (ongoing_reconciles st)(k := None)\<rparr>"
  using assms by (auto simp: end_reconcile_def Let_def split: option.splits)

lemma controller_continue:
  assumes "precondition (continue_reconcile model c) (controller_input s recv k) st"
    and "transition (continue_reconcile model c) (controller_input s recv k) st = (st', out)"
    and "received_msg_destined_for recv (Controller c k)" and "\<forall>m. recv = Some m \<longrightarrow> m \<in># M"
  shows "\<exists>rec pending l. ongoing_reconciles st k = Some rec \<and>
    st' = st\<lparr>ongoing_reconciles := (ongoing_reconciles st)(k \<mapsto> rec\<lparr>pending_req_msg := pending, local_state := l\<rparr>)\<rparr> \<and>
    consumed c k rec M (case recv of Some m \<Rightarrow> M - {#m#} | None \<Rightarrow> M) \<and>
    (pending = None \<and> co_send out = {#} \<and> co_rpc_id_allocator out = rpc_id_allocator s \<or>
     (\<exists>q. pending = Some q \<and> co_send out = {#q#} \<and> request_sent_by_controller_with_key c k q \<and>
        msg_rpc_id q = rpc_id_counter (rpc_id_allocator s) \<and> requested model rec l q \<and>
        co_rpc_id_allocator out = \<lparr>rpc_id_counter = rpc_id_counter (rpc_id_allocator s) + 1\<rparr>))"
proof -
  from assms(1) obtain rec where rec: "ongoing_reconciles st k = Some rec"
    by (auto simp: continue_reconcile_def split: option.splits)
  have "consumed c k rec M (case recv of Some m \<Rightarrow> M - {#m#} | None \<Rightarrow> M)"
    using assms(1,3,4) rec
    by (cases recv) (auto simp: continue_reconcile_def received_msg_destined_for_def
      intro: consumed.intros split: option.splits)
  moreover have "\<exists>pending l.
    st' = st\<lparr>ongoing_reconciles := (ongoing_reconciles st)(k \<mapsto> rec\<lparr>pending_req_msg := pending, local_state := l\<rparr>)\<rparr> \<and>
    (pending = None \<and> co_send out = {#} \<and> co_rpc_id_allocator out = rpc_id_allocator s \<or>
     (\<exists>q. pending = Some q \<and> co_send out = {#q#} \<and> request_sent_by_controller_with_key c k q \<and>
        msg_rpc_id q = rpc_id_counter (rpc_id_allocator s) \<and> requested model rec l q \<and>
        co_rpc_id_allocator out = \<lparr>rpc_id_counter = rpc_id_counter (rpc_id_allocator s) + 1\<rparr>))"
  proof -
    define resp_o where "resp_o = (case recv of None \<Rightarrow> None
        | Some m \<Rightarrow> if is_api_response (msg_content m) then Some (KubernetesResponse (api_response (msg_content m)))
                    else Some (ExternalResponseContent (external_response (msg_content m))))"
    obtain l req_o where l: "rm_transition model (triggering_cr rec) resp_o (local_state rec) = (l, req_o)" by fastforce
    show ?thesis
    proof (cases req_o)
      case None
      with assms(2) rec l show ?thesis by (auto simp: continue_reconcile_def Let_def resp_o_def)
    next
      case (Some content)
      let ?id = "rpc_id_counter (rpc_id_allocator s)"
      let ?q = "case content of KubernetesRequest req \<Rightarrow> controller_req_msg c k ?id req
                | ExternalRequestContent req \<Rightarrow> controller_external_req_msg c k ?id req"
      have "request_sent_by_controller_with_key c k ?q" "msg_rpc_id ?q = ?id"
        by (auto simp: request_sent_by_controller_with_key_def controller_req_msg_def controller_external_req_msg_def
            split: RequestContent.split)
      moreover have "requested model rec l ?q"
        unfolding requested_def using l Some
        by (intro exI [of _ resp_o] exI [of _ content])
          (auto simp: controller_req_msg_def controller_external_req_msg_def split: RequestContent.split)
      ultimately show ?thesis
        using assms(2) rec l Some
        by (intro exI [of _ "Some ?q"] exI [of _ l]) (auto simp: continue_reconcile_def Let_def resp_o_def rpc_allocate_def split: RequestContent.splits)
    qed
  qed
  ultimately show ?thesis using rec by blast
qed

text \<open>The preconditions of the actions of hosts are the preconditions of the actions of the cluster.\<close>

lemma api_server_action_pre_iff: "api_server_action_pre env cl HandleRequest input = action_pre (api_server_next env cl) input"
  by (simp add: api_server_action_pre_def action_pre_def api_server_next_def api_server_result fun_eq_iff Let_def)
    (simp add: api_server_def)

lemma builtin_controllers_action_pre_iff:
  "builtin_controllers_action_pre RunGarbageCollector input = action_pre builtin_controllers_next input"
  by (simp add: builtin_controllers_action_pre_def action_pre_def builtin_controllers_next_def builtin_controllers_result fun_eq_iff
    Let_def) (simp add: builtin_controllers_def)

lemma external_action_pre_iff: "external_action_pre cl HandleExternalRequest input = action_pre (external_next cl) input"
  by (cases input) (simp add: external_action_pre_def action_pre_def external_next_def chosen_external_next_def external_result
    fun_eq_iff Let_def, simp add: external_def)

lemma controller_action_pre_iff:
  "(\<exists>step. controller_action_pre cl step (c, recv, key) s) \<longleftrightarrow> action_pre (controller_next cl) (c, recv, key) s"
proof -
  let ?sm = "controller (reconcile_model (controller_model cl c)) c"
  have ai: "action_input ?sm step x = x" for step x by (simp add: controller_def)
  show ?thesis
    unfolding controller_action_pre_def action_pre_def controller_next_def chosen_controller_next_def next_result_def
      next_action_result_def
    by (cases recv) (auto simp: ai Let_def)
qed

section \<open>The simulation\<close>

lemma view_update:
  "view_of (s\<lparr>cs_api_server := st\<rparr>) = (view_of s)\<lparr>v_store := st\<rparr>"
  "view_of (s\<lparr>cs_network := n\<rparr>) = (view_of s)\<lparr>v_msgs := in_flight n\<rparr>"
  "view_of (s\<lparr>rpc_id_allocator := a\<rparr>) = (view_of s)\<lparr>v_ids := rpc_id_counter a\<rparr>"
  "view_of (s\<lparr>controller_and_externals := (controller_and_externals s)(c \<mapsto> ce)\<rparr>) =
     (view_of s)\<lparr>v_ctrl := (controller_of s)(c := ce_controller ce)\<rparr>"
  "view_of (s\<lparr>req_drop_enabled := b\<rparr>) = view_of s" "view_of (s\<lparr>pod_monkey_enabled := b\<rparr>) = view_of s"
  by (simp_all add: view_of_def cs_in_flight_def controller_of_def fun_eq_iff)

lemma view_update_self:
  "(controller_of s)(c := ce_controller (the (controller_and_externals s c))) = controller_of s"
  "(view_of s)\<lparr>v_ctrl := controller_of s\<rparr> = view_of s"
  "(view_of s)\<lparr>v_msgs := M, v_ctrl := controller_of s\<rparr> = (view_of s)\<lparr>v_msgs := M\<rparr>"
  "(view_of s)\<lparr>v_msgs := cs_in_flight s, v_ids := rpc_id_counter (rpc_id_allocator s), v_ctrl := f\<rparr> = (view_of s)\<lparr>v_ctrl := f\<rparr>"
  "(view_of s)\<lparr>v_msgs := M, v_ids := rpc_id_counter (rpc_id_allocator s), v_ctrl := f\<rparr> = (view_of s)\<lparr>v_msgs := M, v_ctrl := f\<rparr>"
  by (simp_all add: view_of_def controller_of_def fun_eq_iff)

lemma controller_view_step:
  assumes "action_forward (controller_next cl) (c, recv, key) s s'"
  shows "view_step env cl (view_of s) (view_of s')"
proof -
  from controller_forward [OF assms] obtain k step where c: "controller_models cl c \<noteq> None"
    and recv: "received_msg_destined_for recv (Controller c k)" "\<forall>m. recv = Some m \<longrightarrow> m \<in># cs_in_flight s"
    and pre: "precondition (controller_action cl c step) (controller_input s recv k) (controller_of s c)"
    and s': "s' = (let (st, out) = transition (controller_action cl c step) (controller_input s recv k) (controller_of s c)
          in s\<lparr>controller_and_externals := (controller_and_externals s)(c \<mapsto>
                 (the (controller_and_externals s c))\<lparr>ce_controller := st\<rparr>),
               cs_network := \<lparr>in_flight = (case recv of Some m \<Rightarrow> cs_in_flight s - {#m#} | None \<Rightarrow> cs_in_flight s) + co_send out\<rparr>,
               rpc_id_allocator := co_rpc_id_allocator out\<rparr>)" by blast
  obtain st out where
    tr: "transition (controller_action cl c step) (controller_input s recv k) (controller_of s c) = (st, out)" by fastforce
  from s' have v: "view_of s' = (view_of s)\<lparr>v_msgs := (case recv of Some m \<Rightarrow> cs_in_flight s - {#m#} | None \<Rightarrow> cs_in_flight s) + co_send out,
      v_ids := rpc_id_counter (co_rpc_id_allocator out), v_ctrl := (controller_of s)(c := st)\<rparr>"
    by (simp add: view_update tr)
  show ?thesis
  proof (cases step)
    case RunScheduledReconcile
    with pre tr have p: "precondition (run_scheduled_reconcile (reconcile_model (controller_model cl c))) (controller_input s recv k) (controller_of s c)"
      "transition (run_scheduled_reconcile (reconcile_model (controller_model cl c))) (controller_input s recv k) (controller_of s c) = (st, out)"
      by (simp_all add: controller_def)
    note controller_start [OF p]
    with v view_step.Start [where v = "view_of s", OF c] show ?thesis by (auto simp: view_update_self)
  next
    case ContinueReconcile
    with pre tr have p: "precondition (continue_reconcile (reconcile_model (controller_model cl c)) c) (controller_input s recv k) (controller_of s c)"
      "transition (continue_reconcile (reconcile_model (controller_model cl c)) c) (controller_input s recv k) (controller_of s c) = (st, out)"
      by (simp_all add: controller_def)
    from controller_continue [OF p recv] v
      view_step.Continue [where v = "view_of s", OF c] view_step.Request [where v = "view_of s", OF c]
    show ?thesis by (fastforce simp: view_update_self)
  next
    case EndReconcile
    with pre tr have p: "precondition (end_reconcile (reconcile_model (controller_model cl c))) (controller_input s recv k) (controller_of s c)"
      "transition (end_reconcile (reconcile_model (controller_model cl c))) (controller_input s recv k) (controller_of s c) = (st, out)"
      by (simp_all add: controller_def)
    note controller_end [OF p]
    with v view_step.Finish [where v = "view_of s", OF c] show ?thesis by (auto simp: view_update_self)
  qed
qed

theorem cluster_next_view_step:
  assumes "cluster_next env cl s s'"
  shows "view_step env cl (view_of s) (view_of s')"
proof -
  from assms obtain step where step: "cluster_next_step env cl s s' step" by (auto simp: cluster_next_def)
  have ask: "view_step env cl (view_of s) ((view_of s)\<lparr>v_msgs := cs_in_flight s + {#form_msg src APIServer (rpc_id_counter (rpc_id_allocator s)) content#},
      v_ids := rpc_id_counter (rpc_id_allocator s) + 1\<rparr>)"
    if "src = BuiltinController \<or> src = PodMonkey" "is_api_request content" for src content
    using that view_step.Ask [of "form_msg src APIServer (rpc_id_counter (rpc_id_allocator s)) content" "view_of s"] by simp
  show ?thesis
  proof (cases step)
    case (APIServerStep input)
    with step show ?thesis
      by (auto simp: api_server_forward transition_by_etcd_def split_beta view_update
        intro!: view_step.Serve [where v = "view_of s", simplified])
  next
    case (BuiltinControllersStep input)
    with step builtin_controllers_forward ask [of BuiltinController] show ?thesis
      by (fastforce simp: built_in_controller_req_msg_def view_update)
  next
    case (ControllerStep input)
    with step controller_view_step show ?thesis by (cases input) auto
  next
    case (DropReqStep input)
    with step drop_req_forward view_step.Drop [where v = "view_of s"] show ?thesis by (fastforce simp: view_update)
  next
    case (PodMonkeyStep input)
    with step pod_monkey_forward ask [of PodMonkey] show ?thesis
      by (fastforce simp: pod_monkey_req_msg_def view_update)
  next
    case (ExternalStep input)
    with step view_step.Answer [where v = "view_of s"] show ?thesis
      by (cases input) (auto simp: external_forward transition_by_external_def split_beta Let_def view_update view_update_self)
  next
    case (RestartControllerStep c)
    with step view_step.Restart [where v = "view_of s"] show ?thesis
      by (auto simp: action_forward_def restart_controller_def Let_def view_update controller_of_def)
  next
    case (ScheduleControllerReconcileStep input)
    with step view_step.Schedule [where v = "view_of s"] show ?thesis
      by (cases input) (auto simp: action_forward_def schedule_controller_reconcile_def Let_def view_update cs_resources_def controller_of_def)
  qed (use step in \<open>auto simp: action_forward_def disable_crash_def disable_req_drop_def
    disable_pod_monkey_def stutter_def Let_def view_update view_update_self view_step.Stay\<close>)
qed

end
