(* ===== verification/Anvil_Runtime.thy ===== *)
theory Anvil_Runtime
  imports Anvil_View
begin

text \<open>
  Invariants of the runtime of a cluster (\<open>kubernetes_cluster/proof/\<close> below
  \<open>src/projects/anvil-main/src/\<close>: \<open>cluster.rs\<close>, \<open>network.rs\<close>, \<open>controller_runtime_safety.rs\<close>,
  \<open>objects_in_reconcile.rs\<close>, \<open>req_resp.rs\<close>): identifiers of messages and reconciles are unique, the request that a
  reconcile waits for is on its way or answered, and an object that was read is current while its version is.
\<close>

section \<open>Executions\<close>

definition cluster_spec :: "cluster_env \<Rightarrow> Cluster \<Rightarrow> ClusterState TempPred" where
  "cluster_spec env cl = tla_and (lift_state (cluster_init env cl)) (always (lift_action (cluster_next env cl)))"

definition view_init :: "Cluster \<Rightarrow> ClusterView \<Rightarrow> bool" where
  "view_init cl v \<longleftrightarrow> resources (v_store v) = Map.empty \<and> v_msgs v = {#} \<and>
     (\<forall>c. controller_models cl c \<noteq> None \<longrightarrow> ongoing_reconciles (v_ctrl v c) = Map.empty \<and> scheduled_reconciles (v_ctrl v c) = Map.empty)"

lemma cluster_init_view: "cluster_init env cl s \<Longrightarrow> view_init cl (view_of s)"
  by (fastforce simp: cluster_init_def view_init_def api_server_def network_def controller_def cs_in_flight_def controller_of_def)

text \<open>An invariant of the view holds in every state of every execution.\<close>

lemma view_invariant:
  assumes "\<And>v. view_init cl v \<Longrightarrow> I v" and "\<And>v v'. I v \<Longrightarrow> view_step env cl v v' \<Longrightarrow> I v'"
    and "\<And>s. I (view_of s) \<Longrightarrow> P s"
  shows "entails (cluster_spec env cl) (always (lift_state P))"
proof -
  have spec: "entails (cluster_spec env cl) (lift_state (cluster_init env cl))"
    "entails (cluster_spec env cl) (always (lift_action (cluster_next env cl)))"
    by (simp_all add: cluster_spec_def entails_iff tla_and_def)
  have "entails (cluster_spec env cl) (always (lift_state (\<lambda>s. I (view_of s))))"
    using init_invariant [OF _ _ spec, of "\<lambda>s. I (view_of s)"] assms(1,2) cluster_init_view cluster_next_view_step by blast
  then show ?thesis using assms(3) by (simp add: always_lift_state)
qed

section \<open>Messages\<close>

definition every_in_flight_msg_has_lower_id_than_allocator :: "ClusterState StatePred" where
  "every_in_flight_msg_has_lower_id_than_allocator = (\<lambda>s.
     \<forall>msg. msg \<in># cs_in_flight s \<longrightarrow> msg_rpc_id msg < rpc_id_counter (rpc_id_allocator s))"

definition every_in_flight_msg_has_no_replicas_and_has_unique_id :: "ClusterState StatePred" where
  "every_in_flight_msg_has_no_replicas_and_has_unique_id = (\<lambda>s.
     \<forall>msg. msg \<in># cs_in_flight s \<longrightarrow> count (cs_in_flight s) msg = 1 \<and>
       (\<forall>other_msg. other_msg \<in># cs_in_flight s \<and> msg \<noteq> other_msg \<longrightarrow> msg_rpc_id msg \<noteq> msg_rpc_id other_msg))"

text \<open>The same on the view: the identifiers in flight form a set.\<close>

definition unique_ids :: "Message multiset \<Rightarrow> RPCId \<Rightarrow> bool" where
  "unique_ids M n \<longleftrightarrow> (\<forall>m. m \<in># M \<longrightarrow> msg_rpc_id m < n) \<and> (\<forall>i. count (image_mset msg_rpc_id M) i \<le> 1)"

lemma count_ids_split:
  "m \<in># M \<Longrightarrow> count (image_mset f M) i = count (image_mset f (M - {#m#})) i + (if f m = i then 1 else 0)"
  by (drule multi_member_split) auto

lemma in_remove: "x \<in># M \<Longrightarrow> x \<noteq> m \<Longrightarrow> x \<in># M - {#m#}"
  by (metis insert_DiffM insert_noteq_member diff_single_trivial)

lemma unique_ids_rest:
  assumes "unique_ids M n" "m \<in># M" "m' \<in># M - {#m#}"
  shows "msg_rpc_id m \<noteq> msg_rpc_id m'"
proof
  assume "msg_rpc_id m = msg_rpc_id m'"
  with assms(2,3) have "count (image_mset msg_rpc_id M) (msg_rpc_id m) \<ge> 2"
    by (simp add: count_ids_split [of m] count_ids_split [of m' "M - {#m#}"])
  moreover have "count (image_mset msg_rpc_id M) (msg_rpc_id m) \<le> 1" using assms(1) unfolding unique_ids_def by blast
  ultimately show False by linarith
qed

lemma unique_ids_distinct:
  "unique_ids M n \<Longrightarrow> m \<in># M \<Longrightarrow> m' \<in># M \<Longrightarrow> msg_rpc_id m = msg_rpc_id m' \<Longrightarrow> m = m'"
  using unique_ids_rest [of M n m m'] in_remove [of m' M m] by blast

lemma unique_ids_no_replica:
  assumes "unique_ids M n" "m \<in># M"
  shows "count M m = 1"
proof -
  have "m \<notin># M - {#m#}" using unique_ids_rest [OF assms] by blast
  with assms(2) show ?thesis by (auto simp: not_in_iff dest!: multi_member_split)
qed

lemma unique_ids_diff: "unique_ids M n \<Longrightarrow> unique_ids (M - D) n"
  unfolding unique_ids_def
  by (meson diff_subset_eq_self image_mset_subseteq_mono in_diffD mset_subset_eq_count order_trans)

lemma unique_ids_replace [intro]:
  assumes "unique_ids M n" "m \<in># M" "msg_rpc_id r = msg_rpc_id m"
  shows "unique_ids (add_mset r (M - {#m#})) n"
proof -
  from assms(2,3) have "image_mset msg_rpc_id (add_mset r (M - {#m#})) = image_mset msg_rpc_id M"
    by (auto dest!: multi_member_split)
  with assms show ?thesis unfolding unique_ids_def by (auto dest: in_diffD)
qed

lemma unique_ids_add [intro]:
  assumes "unique_ids M n" "msg_rpc_id q = n"
  shows "unique_ids (add_mset q M) (Suc n)"
proof -
  have "n \<notin> msg_rpc_id ` set_mset M" using assms(1) unfolding unique_ids_def by force
  then have "count (image_mset msg_rpc_id M) n = 0" by (simp add: not_in_iff [symmetric])
  with assms show ?thesis by (auto simp: unique_ids_def less_Suc_eq)
qed

lemma unique_ids_consumed: "consumed c k rec M N \<Longrightarrow> unique_ids M n \<Longrightarrow> unique_ids N n"
  by (auto elim!: consumed.cases intro: unique_ids_diff)

lemma unique_ids_step:
  "unique_ids (v_msgs v) (v_ids v) \<Longrightarrow> view_step env cl v v' \<Longrightarrow> unique_ids (v_msgs v') (v_ids v')"
  by (erule view_step.cases) (auto intro: unique_ids_consumed)

lemma unique_ids_always:
  assumes "\<And>s. unique_ids (cs_in_flight s) (rpc_id_counter (rpc_id_allocator s)) \<Longrightarrow> P s"
  shows "entails (cluster_spec env cl) (always (lift_state P))"
  by (rule view_invariant [of cl "\<lambda>v. unique_ids (v_msgs v) (v_ids v)"])
    (auto simp: view_init_def unique_ids_def [of "{#}"] intro: assms elim: unique_ids_step)

text \<open>C38: In every execution of a cluster, whatever controllers and external systems run in it and whatever
  requests are dropped, every message in flight has an identifier below the next one to be allocated, is in flight
  once, and shares its identifier with no other message in flight.\<close>

theorem messages_in_flight_have_unique_ids:
  "entails (cluster_spec env cl) (always (lift_state (\<lambda>s.
     every_in_flight_msg_has_lower_id_than_allocator s \<and> every_in_flight_msg_has_no_replicas_and_has_unique_id s)))"
proof (rule unique_ids_always)
  fix s
  assume u: "unique_ids (cs_in_flight s) (rpc_id_counter (rpc_id_allocator s))"
  then have "every_in_flight_msg_has_lower_id_than_allocator s"
    by (simp add: unique_ids_def every_in_flight_msg_has_lower_id_than_allocator_def)
  with unique_ids_no_replica [OF u] unique_ids_distinct [OF u]
  show "every_in_flight_msg_has_lower_id_than_allocator s \<and> every_in_flight_msg_has_no_replicas_and_has_unique_id s"
    by (auto simp: every_in_flight_msg_has_no_replicas_and_has_unique_id_def)
qed

section \<open>Pending requests\<close>

definition has_pending_req_msg :: "int \<Rightarrow> ClusterState \<Rightarrow> ObjectRef \<Rightarrow> bool" where
  "has_pending_req_msg controller_id s key \<longleftrightarrow>
     (let pending = pending_req_msg (the (cs_ongoing_reconciles s controller_id key))
      in pending \<noteq> None \<and> (is_api_request (msg_content (the pending)) \<or> is_external_request (msg_content (the pending))))"

definition pending_req_in_flight_xor_resp_in_flight_if_has_pending_req_msg :: "int \<Rightarrow> ObjectRef \<Rightarrow> ClusterState StatePred" where
  "pending_req_in_flight_xor_resp_in_flight_if_has_pending_req_msg controller_id key = (\<lambda>s.
     cs_ongoing_reconciles s controller_id key \<noteq> None \<and> has_pending_req_msg controller_id s key \<longrightarrow>
       (let msg = the (pending_req_msg (the (cs_ongoing_reconciles s controller_id key)));
            answered = (\<exists>resp_msg. resp_msg \<in># cs_in_flight s \<and> resp_msg_matches_req_msg resp_msg msg)
        in request_sent_by_controller_with_key controller_id key msg \<and>
           (msg \<in># cs_in_flight s \<or> answered) \<and> \<not> (msg \<in># cs_in_flight s \<and> answered)))"

definition every_pending_req_msg_has_lower_id_than_allocator :: "int \<Rightarrow> ClusterState StatePred" where
  "every_pending_req_msg_has_lower_id_than_allocator controller_id = (\<lambda>s.
     \<forall>key. cs_ongoing_reconciles s controller_id key \<noteq> None \<and>
       pending_req_msg (the (cs_ongoing_reconciles s controller_id key)) \<noteq> None \<longrightarrow>
       msg_rpc_id (the (pending_req_msg (the (cs_ongoing_reconciles s controller_id key)))) < rpc_id_counter (rpc_id_allocator s))"

definition pending_req_of_key_is_unique_with_unique_id :: "int \<Rightarrow> ObjectRef \<Rightarrow> ClusterState StatePred" where
  "pending_req_of_key_is_unique_with_unique_id controller_id key = (\<lambda>s.
     let pending = (\<lambda>k. pending_req_msg (the (cs_ongoing_reconciles s controller_id k)))
     in cs_ongoing_reconciles s controller_id key \<noteq> None \<and> pending key \<noteq> None \<longrightarrow>
          (\<forall>other_key. cs_ongoing_reconciles s controller_id other_key \<noteq> None \<and> key \<noteq> other_key \<and> pending other_key \<noteq> None \<longrightarrow>
             msg_rpc_id (the (pending key)) \<noteq> msg_rpc_id (the (pending other_key))))"

definition every_in_flight_req_msg_has_different_id_from_pending_req_msg_of :: "int \<Rightarrow> ObjectRef \<Rightarrow> ClusterState StatePred" where
  "every_in_flight_req_msg_has_different_id_from_pending_req_msg_of controller_id key = (\<lambda>s.
     let pending_req = the (pending_req_msg (the (cs_ongoing_reconciles s controller_id key)))
     in cs_ongoing_reconciles s controller_id key \<noteq> None \<and>
        pending_req_msg (the (cs_ongoing_reconciles s controller_id key)) \<noteq> None \<longrightarrow>
          (\<forall>msg. msg \<in># cs_in_flight s \<and> is_api_request (msg_content msg) \<and> msg \<noteq> pending_req \<longrightarrow>
             msg_rpc_id msg \<noteq> msg_rpc_id pending_req))"

text \<open>On the view: a request that is waited for was sent by the reconcile that waits, and it or a response
  to it is in flight.\<close>

abbreviation pending :: "ClusterView \<Rightarrow> int \<Rightarrow> ObjectRef \<Rightarrow> Message \<Rightarrow> bool" where
  "pending v c k q \<equiv> (\<exists>rec. ongoing_reconciles (v_ctrl v c) k = Some rec \<and> pending_req_msg rec = Some q)"

definition tracked :: "Message multiset \<Rightarrow> Message \<Rightarrow> bool" where
  "tracked M q \<longleftrightarrow> (\<exists>m. m \<in># M \<and> (m = q \<or> resp_msg_matches_req_msg m q))"

definition pending_tracked :: "Cluster \<Rightarrow> ClusterView \<Rightarrow> bool" where
  "pending_tracked cl v \<longleftrightarrow>
     (\<forall>c k q. controller_models cl c \<noteq> None \<longrightarrow> pending v c k q \<longrightarrow>
        request_sent_by_controller_with_key c k q \<and> tracked (v_msgs v) q)"

lemma same_method_response: "same_method (snd (handle_api_request env it req s)) req"
  by (cases req) (simp_all add: split_beta)

lemma tracked_replace:
  assumes "tracked M q" "m = q \<Longrightarrow> resp_msg_matches_req_msg r q" "\<not> resp_msg_matches_req_msg m q"
  shows "tracked (add_mset r (M - {#m#})) q"
proof -
  from assms(1) obtain x where x: "x \<in># M" "x = q \<or> resp_msg_matches_req_msg x q" by (auto simp: tracked_def)
  show ?thesis
  proof (cases "x = m")
    case True
    with x assms(2,3) show ?thesis by (auto simp: tracked_def)
  next
    case False
    with x in_remove [of x M m] show ?thesis by (auto simp: tracked_def)
  qed
qed

lemma tracked_add: "tracked M q \<Longrightarrow> tracked (add_mset r M) q"
  by (auto simp: tracked_def)

lemma request_not_response:
  "is_api_request (msg_content m) \<Longrightarrow> \<not> resp_msg_matches_req_msg m q"
  "is_external_request (msg_content m) \<Longrightarrow> \<not> resp_msg_matches_req_msg m q"
  by (cases "msg_content m"; simp add: resp_msg_matches_req_msg_def)+

lemma err_resp_matches: "is_api_request (msg_content m) \<Longrightarrow> resp_msg_matches_req_msg (form_matched_err_resp_msg m err) m"
  by (simp add: form_matched_err_resp_msg_def form_api_resp_matches)

lemma external_resp_matches: "is_external_request (msg_content m) \<Longrightarrow> resp_msg_matches_req_msg (form_external_resp_msg m e) m"
  by (simp add: form_external_resp_msg_def resp_msg_matches_req_msg_def)

text \<open>A response is read by the reconcile that waits for it only, so reading one leaves the others tracked.\<close>

lemma tracked_consumed:
  assumes "consumed c k rec M N" "tracked M q" "request_sent_by_controller_with_key c' k' q" "(c', k') \<noteq> (c, k)"
  shows "tracked N q"
  using assms(1)
proof (cases rule: consumed.cases)
  case (Waiting q' r)
  have "r \<noteq> q" using Waiting(4) assms(3) by (auto simp: request_sent_by_controller_with_key_def)
  moreover have "\<not> resp_msg_matches_req_msg r q"
    using Waiting(4) assms(3,4) by (auto simp: request_sent_by_controller_with_key_def resp_msg_matches_req_msg_def)
  ultimately show ?thesis using assms(2) Waiting(1) unfolding tracked_def by (metis in_remove)
qed (use assms(2) in simp)

lemma pending_tracked_step:
  assumes I: "pending_tracked cl v" and step: "view_step env cl v v'"
  shows "pending_tracked cl v'"
  unfolding pending_tracked_def
proof (intro allI impI)
  fix c k q
  assume c: "controller_models cl c \<noteq> None" and p: "pending v' c k q"
  have old: "request_sent_by_controller_with_key c k q \<and> tracked (v_msgs v) q" if "pending v c k q"
    using I c that by (auto simp: pending_tracked_def)
  from step show "request_sent_by_controller_with_key c k q \<and> tracked (v_msgs v') q"
  proof (cases rule: view_step.cases)
    case (Serve m st r)
    from Serve(5) have "same_method r (api_request (msg_content m))" using same_method_response by (metis snd_conv)
    with Serve old p show ?thesis by (auto intro!: tracked_replace form_api_resp_matches simp: request_not_response)
  next
    case (Drop m err)
    with old p show ?thesis by (auto intro!: tracked_replace err_resp_matches simp: request_not_response)
  next
    case (Answer m i e)
    with old p show ?thesis by (auto intro!: tracked_replace external_resp_matches simp: request_not_response)
  next
    case (Continue i j rec M l)
    with old p have "pending v c k q" "(c, k) \<noteq> (i, j)" by (auto split: if_splits)
    with old Continue show ?thesis by (auto intro: tracked_consumed)
  next
    case (Request i j rec M q' l)
    show ?thesis
    proof (cases "(c, k) = (i, j)")
      case True
      with Request p show ?thesis by (auto simp: tracked_def)
    next
      case False
      with Request p have "pending v c k q" by (auto split: if_splits)
      with old False Request show ?thesis by (auto intro: tracked_consumed tracked_add)
    qed
  qed (use old p in \<open>auto intro: tracked_add split: if_splits\<close>)
qed

section \<open>Reconciles\<close>

definition each_scheduled_object_has_consistent_key_and_valid_metadata :: "int \<Rightarrow> ClusterState StatePred" where
  "each_scheduled_object_has_consistent_key_and_valid_metadata controller_id = (\<lambda>s.
     \<forall>key. cs_scheduled_reconciles s controller_id key \<noteq> None \<longrightarrow>
       object_ref (the (cs_scheduled_reconciles s controller_id key)) = key \<and>
       well_formed_for_namespaced (obj_metadata (the (cs_scheduled_reconciles s controller_id key))))"

definition each_object_in_reconcile_has_consistent_key_and_valid_metadata :: "int \<Rightarrow> ClusterState StatePred" where
  "each_object_in_reconcile_has_consistent_key_and_valid_metadata controller_id = (\<lambda>s.
     \<forall>key. cs_ongoing_reconciles s controller_id key \<noteq> None \<longrightarrow>
       object_ref (triggering_cr (the (cs_ongoing_reconciles s controller_id key))) = key \<and>
       well_formed_for_namespaced (obj_metadata (triggering_cr (the (cs_ongoing_reconciles s controller_id key)))))"

definition scheduled_cr_has_lower_uid_than_uid_counter :: "int \<Rightarrow> ClusterState StatePred" where
  "scheduled_cr_has_lower_uid_than_uid_counter controller_id = (\<lambda>s.
     \<forall>key. cs_scheduled_reconciles s controller_id key \<noteq> None \<longrightarrow>
       (let uid = om_uid (obj_metadata (the (cs_scheduled_reconciles s controller_id key)))
        in uid \<noteq> None \<and> the uid < uid_counter (cs_api_server s)))"

definition triggering_cr_has_lower_uid_than_uid_counter :: "int \<Rightarrow> ClusterState StatePred" where
  "triggering_cr_has_lower_uid_than_uid_counter controller_id = (\<lambda>s.
     \<forall>key. cs_ongoing_reconciles s controller_id key \<noteq> None \<longrightarrow>
       (let uid = om_uid (obj_metadata (triggering_cr (the (cs_ongoing_reconciles s controller_id key))))
        in uid \<noteq> None \<and> the uid < uid_counter (cs_api_server s)))"

definition every_ongoing_reconcile_has_lower_id_than_allocator :: "int \<Rightarrow> ClusterState StatePred" where
  "every_ongoing_reconcile_has_lower_id_than_allocator controller_id = (\<lambda>s.
     \<forall>key. cs_ongoing_reconciles s controller_id key \<noteq> None \<longrightarrow>
       reconcile_id (the (cs_ongoing_reconciles s controller_id key))
         < reconcile_id_counter (cs_reconcile_id_allocator s controller_id))"

definition every_ongoing_reconcile_has_unique_id :: "int \<Rightarrow> ClusterState StatePred" where
  "every_ongoing_reconcile_has_unique_id controller_id = (\<lambda>s.
     \<forall>key1 key2. cs_ongoing_reconciles s controller_id key1 \<noteq> None \<and> cs_ongoing_reconciles s controller_id key2 \<noteq> None \<and>
       key1 \<noteq> key2 \<longrightarrow>
       reconcile_id (the (cs_ongoing_reconciles s controller_id key1)) \<noteq> reconcile_id (the (cs_ongoing_reconciles s controller_id key2)))"

text \<open>On the view, for one controller: the objects that it works on have the kind of the controller and are filed
  under their own keys.\<close>

definition cr_ok :: "ReconcileModel \<Rightarrow> Uid \<Rightarrow> ObjectRef \<Rightarrow> DynamicObjectView \<Rightarrow> bool" where
  "cr_ok model u k cr \<longleftrightarrow> ref_kind k = rm_kind model \<and> object_ref cr = k \<and> well_formed_for_namespaced (obj_metadata cr) \<and> uid_of cr < u"

definition controller_ok :: "ReconcileModel \<Rightarrow> Uid \<Rightarrow> ControllerState \<Rightarrow> bool" where
  "controller_ok model u st \<longleftrightarrow>
     (\<forall>k cr. scheduled_reconciles st k = Some cr \<longrightarrow> cr_ok model u k cr) \<and>
     (\<forall>k rec. ongoing_reconciles st k = Some rec \<longrightarrow>
        cr_ok model u k (triggering_cr rec) \<and> reconcile_id rec < reconcile_id_counter (reconcile_id_allocator st)) \<and>
     (\<forall>k k' rec rec'. ongoing_reconciles st k = Some rec \<longrightarrow> ongoing_reconciles st k' = Some rec' \<longrightarrow> k \<noteq> k' \<longrightarrow>
        reconcile_id rec \<noteq> reconcile_id rec')"

definition controllers_ok :: "Cluster \<Rightarrow> ClusterView \<Rightarrow> bool" where
  "controllers_ok cl v \<longleftrightarrow>
     (\<forall>c model. controller_models cl c = Some model \<longrightarrow>
        controller_ok (reconcile_model model) (uid_counter (v_store v)) (v_ctrl v c))"

lemma controller_ok_mono: "controller_ok model u st \<Longrightarrow> u \<le> u' \<Longrightarrow> controller_ok model u' st"
  unfolding controller_ok_def cr_ok_def by (meson order_less_le_trans)

lemma controller_ok_continue:
  "controller_ok model u st \<Longrightarrow> ongoing_reconciles st k = Some rec \<Longrightarrow>
     controller_ok model u (st\<lparr>ongoing_reconciles := (ongoing_reconciles st)(k \<mapsto> rec\<lparr>pending_req_msg := p, local_state := l\<rparr>)\<rparr>)"
  unfolding controller_ok_def by simp

lemma controller_ok_start:
  assumes ok: "controller_ok model u st" and k: "ongoing_reconciles st k = None" "scheduled_reconciles st k = Some cr"
    and a: "reconcile_allocate (reconcile_id_allocator st) = (alloc, rid)"
  shows "controller_ok model u
    \<lparr>ongoing_reconciles = (ongoing_reconciles st)(k \<mapsto>
       \<lparr>triggering_cr = cr, pending_req_msg = None, local_state = l, reconcile_id = rid\<rparr>),
     scheduled_reconciles = (scheduled_reconciles st)(k := None), reconcile_id_allocator = alloc\<rparr>"
proof -
  from a have a': "rid = reconcile_id_counter (reconcile_id_allocator st)" "reconcile_id_counter alloc = Suc rid"
    by (auto simp: reconcile_allocate_def)
  have "reconcile_id rec \<noteq> rid" "rid \<noteq> reconcile_id rec" if "ongoing_reconciles st j = Some rec" for j rec
    using ok that a'(1) unfolding controller_ok_def by force+
  with ok k a' show ?thesis unfolding controller_ok_def by (simp add: less_Suc_eq)
qed

lemma scheduled_ok:
  assumes "store_invariant s" "resources s k = Some obj" "ref_kind k = rm_kind model"
  shows "cr_ok model (uid_counter s) k obj"
  using assms weakly_well_formedD [of s k obj] by (simp add: store_invariant_def cr_ok_def)

lemma controllers_ok_step:
  assumes I: "controllers_ok cl v" and st: "store_invariant (v_store v)" and step: "view_step env cl v v'"
  shows "controllers_ok cl v'"
  unfolding controllers_ok_def
proof (intro allI impI)
  fix c model
  assume c: "controller_models cl c = Some model"
  with I have ok: "controller_ok (reconcile_model model) (uid_counter (v_store v)) (v_ctrl v c)" by (simp add: controllers_ok_def)
  from step show "controller_ok (reconcile_model model) (uid_counter (v_store v')) (v_ctrl v' c)"
  proof (cases rule: view_step.cases)
    case (Serve m s r)
    with request_step [OF st, of "env_api env" "installed_types cl" "api_request (msg_content m)"]
    have "uid_counter (v_store v) \<le> uid_counter (v_store v')" by (simp add: store_step_counters)
    with Serve controller_ok_mono [OF ok] show ?thesis by simp
  next
    case (Schedule i k obj)
    with ok c scheduled_ok [OF st] show ?thesis by (auto simp: controller_ok_def)
  next
    case (Start i k cr alloc rid)
    with ok c controller_ok_start show ?thesis by auto
  next
    case (Continue i k rec M l)
    with ok c controller_ok_continue show ?thesis by auto
  next
    case (Request i k rec M q l)
    with ok c controller_ok_continue show ?thesis by auto
  qed (use ok in \<open>auto simp: controller_ok_def\<close>)
qed

section \<open>Responses to reads\<close>

definition is_ok_get_response_msg :: "Message \<Rightarrow> bool" where
  "is_ok_get_response_msg msg \<longleftrightarrow> msg_src msg = APIServer \<and>
     (case msg_content msg of APIResponseMsg (GetResp (Inr obj)) \<Rightarrow> True | _ \<Rightarrow> False)"

definition get_response_object :: "Message \<Rightarrow> DynamicObjectView" where
  "get_response_object msg = (case msg_content msg of APIResponseMsg (GetResp res) \<Rightarrow> projr res)"

definition is_ok_get_response_msg_and_matches_key :: "ObjectRef \<Rightarrow> Message \<Rightarrow> bool" where
  "is_ok_get_response_msg_and_matches_key key msg \<longleftrightarrow>
     is_ok_get_response_msg msg \<and> object_ref (get_response_object msg) = key"

definition object_in_ok_get_response_has_smaller_rv_than_etcd :: "ClusterState StatePred" where
  "object_in_ok_get_response_has_smaller_rv_than_etcd = (\<lambda>s.
     \<forall>msg. msg \<in># cs_in_flight s \<and> is_ok_get_response_msg msg \<longrightarrow>
       om_resource_version (obj_metadata (get_response_object msg)) \<noteq> None \<and>
       the (om_resource_version (obj_metadata (get_response_object msg))) < resource_version_counter (cs_api_server s))"

definition object_in_ok_get_resp_is_same_as_etcd_with_same_rv :: "ObjectRef \<Rightarrow> ClusterState StatePred" where
  "object_in_ok_get_resp_is_same_as_etcd_with_same_rv key = (\<lambda>s.
     \<forall>msg. msg \<in># cs_in_flight s \<and> is_ok_get_response_msg_and_matches_key key msg \<and> cs_resources s key \<noteq> None \<and>
       the (om_resource_version (obj_metadata (the (cs_resources s key)))) =
         the (om_resource_version (obj_metadata (get_response_object msg))) \<longrightarrow>
       the (cs_resources s key) = get_response_object msg)"

text \<open>On the view: an object that was read has a version that was handed out, and is the stored object as long as
  the version is the same.\<close>

definition read_ok :: "APIServerState \<Rightarrow> DynamicObjectView \<Rightarrow> bool" where
  "read_ok s obj \<longleftrightarrow> om_resource_version (obj_metadata obj) \<noteq> None \<and> obj_rv obj < resource_version_counter s \<and>
     (\<forall>cur. resources s (object_ref obj) = Some cur \<longrightarrow> obj_rv cur = obj_rv obj \<longrightarrow> cur = obj)"

definition reads_ok :: "ClusterView \<Rightarrow> bool" where
  "reads_ok v \<longleftrightarrow> (\<forall>m obj. m \<in># v_msgs v \<longrightarrow> msg_content m = APIResponseMsg (GetResp (Inr obj)) \<longrightarrow> read_ok (v_store v) obj)"

lemma read_ok_store_step: "store_step env it s s' \<Longrightarrow> read_ok s obj \<Longrightarrow> read_ok s' obj"
  by (erule store_step.cases) (auto simp: read_ok_def)

lemma read_ok_current: "store_invariant s \<Longrightarrow> resources s key = Some obj \<Longrightarrow> read_ok s obj"
  using weakly_well_formedD [of s key obj] by (simp add: store_invariant_def read_ok_def well_formed_for_namespaced_def)

lemma get_response_read:
  "handle_api_request env it req s = (s', GetResp (Inr obj)) \<Longrightarrow> s' = s \<and> (\<exists>key. resources s key = Some obj)"
  by (cases req) (auto simp: split_beta handle_get_request_def split: if_splits option.splits)

lemma err_response_no_read: "err_response req err \<noteq> GetResp (Inr obj)"
  by (cases req) simp_all

lemma reads_ok_sub: "reads_ok v \<Longrightarrow> set_mset M \<subseteq> set_mset (v_msgs v) \<Longrightarrow> m \<in># M \<Longrightarrow>
    msg_content m = APIResponseMsg (GetResp (Inr obj)) \<Longrightarrow> read_ok (v_store v) obj"
  unfolding reads_ok_def by blast

lemma consumed_sub: "consumed c k rec M N \<Longrightarrow> set_mset N \<subseteq> set_mset M"
  by (auto elim!: consumed.cases dest: in_diffD)

lemma request_no_read:
  "is_api_request (msg_content m) \<Longrightarrow> msg_content m \<noteq> APIResponseMsg r"
  "request_sent_by_controller_with_key c k m \<Longrightarrow> msg_content m \<noteq> APIResponseMsg r"
  by (auto simp: request_sent_by_controller_with_key_def)

lemma reads_ok_step:
  assumes I: "reads_ok v" and st: "store_invariant (v_store v)" and step: "view_step env cl v v'"
  shows "reads_ok v'"
  unfolding reads_ok_def
proof (intro allI impI)
  fix m obj
  assume m: "m \<in># v_msgs v'" "msg_content m = APIResponseMsg (GetResp (Inr obj))"
  from step show "read_ok (v_store v') obj"
  proof (cases rule: view_step.cases)
    case (Serve x s r)
    have "store_step (env_api env) (installed_types cl) (v_store v) s"
      using request_step [OF st, of "env_api env" "installed_types cl" "api_request (msg_content x)"] Serve(5) by simp
    note keep = read_ok_store_step [OF this]
    show ?thesis
    proof (cases "m = form_api_resp_msg x r")
      case True
      with m(2) have "r = GetResp (Inr obj)" by simp
      with Serve get_response_read [of "env_api env" "installed_types cl" "api_request (msg_content x)" "v_store v" s obj]
        read_ok_current [OF st] show ?thesis by auto
    next
      case False
      with m Serve have "m \<in># v_msgs v" by (auto dest: in_diffD)
      with I m(2) keep Serve show ?thesis by (auto simp: reads_ok_def)
    qed
  next
    case (Drop x err)
    with m I show ?thesis
      by (auto simp: form_matched_err_resp_msg_def reads_ok_def err_response_no_read dest: in_diffD)
  next
    case (Answer x c e)
    with m I show ?thesis by (auto simp: form_external_resp_msg_def reads_ok_def dest: in_diffD)
  next
    case (Ask q)
    with m I show ?thesis by (auto simp: reads_ok_def)
  next
    case (Continue c k rec M l)
    with m reads_ok_sub [OF I consumed_sub] show ?thesis by auto
  next
    case (Request c k rec M q l)
    with m reads_ok_sub [OF I consumed_sub] show ?thesis by (auto dest: request_no_read)
  qed (use m I in \<open>auto simp: reads_ok_def\<close>)
qed

section \<open>The invariant of the runtime\<close>

definition runtime_invariant :: "Cluster \<Rightarrow> ClusterView \<Rightarrow> bool" where
  "runtime_invariant cl v \<longleftrightarrow> store_invariant (v_store v) \<and> unique_ids (v_msgs v) (v_ids v) \<and> pending_tracked cl v \<and>
     controllers_ok cl v \<and> reads_ok v"

lemma view_step_store:
  "view_step env cl v v' \<Longrightarrow> v_store v' = v_store v \<or>
     (\<exists>req. v_store v' = fst (handle_api_request (env_api env) (installed_types cl) req (v_store v)))"
  by (erule view_step.cases) (auto, metis fst_conv)

lemma runtime_invariant_step: "runtime_invariant cl v \<Longrightarrow> view_step env cl v v' \<Longrightarrow> runtime_invariant cl v'"
  unfolding runtime_invariant_def
  using view_step_store [of env cl v v'] request_invariant unique_ids_step pending_tracked_step controllers_ok_step
    reads_ok_step by metis

lemma runtime_invariant_init: "view_init cl v \<Longrightarrow> runtime_invariant cl v"
  by (simp add: view_init_def runtime_invariant_def store_invariant_def each_object_in_etcd_is_weakly_well_formed_def
    etcd_objects_have_unique_uids_def each_object_in_etcd_has_at_most_one_controller_owner_def
    terminating_objects_have_finalizers_def etcd_is_finite_def unique_ids_def pending_tracked_def controllers_ok_def
    controller_ok_def reads_ok_def)

lemma runtime_invariant_always:
  assumes "\<And>s. runtime_invariant cl (view_of s) \<Longrightarrow> P s"
  shows "entails (cluster_spec env cl) (always (lift_state P))"
  by (rule view_invariant [OF runtime_invariant_init runtime_invariant_step assms])

section \<open>What holds in every state\<close>

text \<open>C37: In every execution of a cluster the object store satisfies its invariants: every object is well formed
  and stored under its own key, with a version and a unique identifier that the server has handed out, at most
  one controller owns it, and an object that is marked for deletion stays only while it has a finalizer.\<close>

theorem store_invariant_always:
  "entails (cluster_spec env cl) (always (lift_state (\<lambda>s. store_invariant (cs_api_server s))))"
  by (rule runtime_invariant_always) (simp add: runtime_invariant_def)

lemma tracked_id:
  assumes "tracked M q"
  shows "\<exists>m. m \<in># M \<and> msg_rpc_id m = msg_rpc_id q \<and> (m = q \<or> resp_msg_matches_req_msg m q)"
  using assms matches_same_rpc_id by (auto simp: tracked_def)

lemma tracked_below: "unique_ids M n \<Longrightarrow> tracked M q \<Longrightarrow> msg_rpc_id q < n"
  using tracked_id [of M q] by (auto simp: unique_ids_def)

lemma tracked_same_id:
  assumes "unique_ids M n" "tracked M q" "tracked M q'" "msg_rpc_id q = msg_rpc_id q'"
    and "request_sent_by_controller_with_key c k q" "request_sent_by_controller_with_key c' k' q'"
  shows "(c, k) = (c', k')"
proof -
  from tracked_id [OF assms(2)] tracked_id [OF assms(3)] obtain m m' where
    m: "m \<in># M" "msg_rpc_id m = msg_rpc_id q" "m = q \<or> resp_msg_matches_req_msg m q"
    and m': "m' \<in># M" "msg_rpc_id m' = msg_rpc_id q'" "m' = q' \<or> resp_msg_matches_req_msg m' q'" by blast
  from unique_ids_distinct [OF assms(1) m(1) m'(1)] m(2) m'(2) assms(4) have "m = m'" by simp
  with m(3) m'(3) assms(5,6) show ?thesis
    by (auto simp: request_sent_by_controller_with_key_def request_not_response resp_msg_matches_req_msg_def)
qed

text \<open>C14: In every execution of a cluster, the request that a reconcile waits for was sent by that reconcile and
  is either still in flight or has a matching response in flight, never both; its identifier was allocated, and
  neither the pending request of another reconcile of the controller nor another request in flight has it.\<close>

theorem pending_requests_are_tracked:
  "entails (cluster_spec env cl) (always (lift_state (\<lambda>s. \<forall>c key. controller_models cl c \<noteq> None \<longrightarrow>
     pending_req_in_flight_xor_resp_in_flight_if_has_pending_req_msg c key s \<and>
     every_pending_req_msg_has_lower_id_than_allocator c s \<and>
     pending_req_of_key_is_unique_with_unique_id c key s \<and>
     every_in_flight_req_msg_has_different_id_from_pending_req_msg_of c key s)))"
proof (rule runtime_invariant_always, intro allI impI)
  fix s c key
  assume "runtime_invariant cl (view_of s)" and c: "controller_models cl c \<noteq> None"
  then have u: "unique_ids (cs_in_flight s) (rpc_id_counter (rpc_id_allocator s))"
    and t: "\<And>k rec q. cs_ongoing_reconciles s c k = Some rec \<Longrightarrow> pending_req_msg rec = Some q \<Longrightarrow>
      request_sent_by_controller_with_key c k q \<and> tracked (cs_in_flight s) q"
    by (auto simp: runtime_invariant_def pending_tracked_def)
  note distinct = unique_ids_distinct [OF u]
  have "pending_req_in_flight_xor_resp_in_flight_if_has_pending_req_msg c key s"
    using t distinct matches_same_rpc_id
    by (fastforce simp: pending_req_in_flight_xor_resp_in_flight_if_has_pending_req_msg_def has_pending_req_msg_def tracked_def
      Let_def request_not_response dest: request_not_response simp del: controller_of_simps)
  moreover have "every_pending_req_msg_has_lower_id_than_allocator c s"
    using t tracked_below [OF u]
    by (auto simp: every_pending_req_msg_has_lower_id_than_allocator_def simp del: controller_of_simps)
  moreover have "pending_req_of_key_is_unique_with_unique_id c key s"
    using t tracked_same_id [OF u]
    by (auto simp: pending_req_of_key_is_unique_with_unique_id_def Let_def simp del: controller_of_simps) blast
  moreover have "every_in_flight_req_msg_has_different_id_from_pending_req_msg_of c key s"
    using t distinct request_not_response
    by (auto simp: every_in_flight_req_msg_has_different_id_from_pending_req_msg_of_def Let_def simp del: controller_of_simps)
      (metis tracked_id)
  ultimately show "pending_req_in_flight_xor_resp_in_flight_if_has_pending_req_msg c key s \<and>
     every_pending_req_msg_has_lower_id_than_allocator c s \<and>
     pending_req_of_key_is_unique_with_unique_id c key s \<and>
     every_in_flight_req_msg_has_different_id_from_pending_req_msg_of c key s" by blast
qed

text \<open>C39: In every execution of a cluster, the objects that a controller has scheduled or reconciles are filed
  under their own keys, well formed, and carry a unique identifier that the server has handed out; the identifiers of
  reconciles were allocated and no two running reconciles of a controller share one.\<close>

theorem reconciles_are_consistent:
  "entails (cluster_spec env cl) (always (lift_state (\<lambda>s. \<forall>c. controller_models cl c \<noteq> None \<longrightarrow>
     each_scheduled_object_has_consistent_key_and_valid_metadata c s \<and>
     each_object_in_reconcile_has_consistent_key_and_valid_metadata c s \<and>
     scheduled_cr_has_lower_uid_than_uid_counter c s \<and> triggering_cr_has_lower_uid_than_uid_counter c s \<and>
     every_ongoing_reconcile_has_lower_id_than_allocator c s \<and> every_ongoing_reconcile_has_unique_id c s)))"
proof (rule runtime_invariant_always, intro allI impI)
  fix s c
  assume "runtime_invariant cl (view_of s)" and "controller_models cl c \<noteq> None"
  then obtain model where "controller_ok model (uid_counter (cs_api_server s)) (controller_of s c)"
    by (auto simp: runtime_invariant_def controllers_ok_def)
  then show "each_scheduled_object_has_consistent_key_and_valid_metadata c s \<and>
     each_object_in_reconcile_has_consistent_key_and_valid_metadata c s \<and>
     scheduled_cr_has_lower_uid_than_uid_counter c s \<and> triggering_cr_has_lower_uid_than_uid_counter c s \<and>
     every_ongoing_reconcile_has_lower_id_than_allocator c s \<and> every_ongoing_reconcile_has_unique_id c s"
    unfolding controller_ok_def cr_ok_def each_scheduled_object_has_consistent_key_and_valid_metadata_def
      each_object_in_reconcile_has_consistent_key_and_valid_metadata_def scheduled_cr_has_lower_uid_than_uid_counter_def
      triggering_cr_has_lower_uid_than_uid_counter_def every_ongoing_reconcile_has_lower_id_than_allocator_def
      every_ongoing_reconcile_has_unique_id_def Let_def
    by (auto simp: well_formed_for_namespaced_def)
qed

text \<open>In every execution of a cluster, an object in the response to a read that is in flight has a version that
  the server has handed out, and as long as the stored object under that key has the same version it is that
  very object: a controller that compares versions does not act on an outdated object.\<close>

theorem reads_with_the_current_version_are_current:
  "entails (cluster_spec env cl) (always (lift_state (\<lambda>s. object_in_ok_get_response_has_smaller_rv_than_etcd s \<and>
     (\<forall>key. object_in_ok_get_resp_is_same_as_etcd_with_same_rv key s))))"
proof (rule runtime_invariant_always)
  fix s
  assume "runtime_invariant cl (view_of s)"
  then have r: "read_ok (cs_api_server s) obj"
    if "m \<in># cs_in_flight s" "msg_content m = APIResponseMsg (GetResp (Inr obj))" for m obj
    using that by (auto simp: runtime_invariant_def reads_ok_def)
  have "read_ok (cs_api_server s) (get_response_object m)" if "m \<in># cs_in_flight s" "is_ok_get_response_msg m" for m
    using that r [of m "get_response_object m"]
    by (auto simp: is_ok_get_response_msg_def get_response_object_def
      split: MessageContent.splits APIResponse.splits sum.splits)
  then show "object_in_ok_get_response_has_smaller_rv_than_etcd s \<and>
     (\<forall>key. object_in_ok_get_resp_is_same_as_etcd_with_same_rv key s)"
    by (auto simp: object_in_ok_get_response_has_smaller_rv_than_etcd_def object_in_ok_get_resp_is_same_as_etcd_with_same_rv_def
      is_ok_get_response_msg_and_matches_key_def read_ok_def cs_resources_def)
qed

end
