(* ===== verification/Anvil_Progress.thy ===== *)
theory Anvil_Progress
  imports Anvil_Runtime
begin

text \<open>
  Progress of a cluster under weak fairness (\<open>kubernetes_cluster/proof/controller_runtime_liveness.rs\<close> below
  \<open>src/projects/anvil-main/src/\<close>): every request is answered and every wait of a reconcile ends.
\<close>

section \<open>Progress\<close>

text \<open>The fairness assumptions of the source: the API server, the external systems and the controllers take a step
  that stays enabled.\<close>

definition fair_cluster :: "cluster_env \<Rightarrow> Cluster \<Rightarrow> ClusterState TempPred" where
  "fair_cluster env cl =
     tla_and (tla_forall (\<lambda>input. action_weak_fairness (api_server_next env cl) input))
       (tla_and (tla_forall (\<lambda>input. action_weak_fairness (external_next cl) input))
                (tla_forall (\<lambda>input. action_weak_fairness (controller_next cl) input)))"

lemma action_pre_forward: "action_pre a input s \<longleftrightarrow> (\<exists>s'. action_forward a input s s')"
  by (simp add: action_pre_def action_forward_def)

text \<open>Steps of the cluster from and to states in which the invariants hold.\<close>

definition good_step :: "cluster_env \<Rightarrow> Cluster \<Rightarrow> ClusterState ActionPred" where
  "good_step env cl = (\<lambda>s s'. cluster_next env cl s s' \<and> runtime_invariant cl (view_of s))"

lemma good_step_always:
  "entails (tla_and (cluster_spec env cl) (fair_cluster env cl)) (always (lift_action (good_step env cl)))"
  using runtime_invariant_always [of cl "\<lambda>s. runtime_invariant cl (view_of s)" env]
  unfolding good_step_def
  by (simp add: entails_iff tla_and_def cluster_spec_def tla_defs)

lemma fair_api_server:
  "entails (tla_and (cluster_spec env cl) (fair_cluster env cl)) (action_weak_fairness (api_server_next env cl) input)"
  by (simp add: entails_iff tla_and_def fair_cluster_def tla_forall_def)

lemma fair_external:
  "entails (tla_and (cluster_spec env cl) (fair_cluster env cl)) (action_weak_fairness (external_next cl) input)"
  by (cases input) (simp add: entails_iff tla_and_def fair_cluster_def tla_forall_def)

lemma fair_controller:
  "entails (tla_and (cluster_spec env cl) (fair_cluster env cl)) (action_weak_fairness (controller_next cl) input)"
  by (cases input) (simp add: entails_iff tla_and_def fair_cluster_def tla_forall_def)

text \<open>A request in flight stays there or is answered.\<close>

definition request_in_flight :: "Message \<Rightarrow> ClusterState StatePred" where
  "request_in_flight q = (\<lambda>s. q \<in># cs_in_flight s)"

definition answered :: "Message \<Rightarrow> ClusterState StatePred" where
  "answered q = (\<lambda>s. \<exists>r. r \<in># cs_in_flight s \<and> resp_msg_matches_req_msg r q)"

lemma request_kept_or_answered:
  assumes "view_step env cl v v'" "q \<in># v_msgs v" "is_api_request (msg_content q) \<or> is_external_request (msg_content q)"
  shows "q \<in># v_msgs v' \<or> (\<exists>r. r \<in># v_msgs v' \<and> resp_msg_matches_req_msg r q)"
  using assms(1)
proof (cases rule: view_step.cases)
  case (Serve m st r)
  from Serve(5) have "same_method r (api_request (msg_content m))" using same_method_response by (metis snd_conv)
  with Serve assms(2) in_remove [of q "v_msgs v" m] form_api_resp_matches [of m r] show ?thesis by (cases "q = m") auto
next
  case (Drop m err)
  with assms(2) in_remove [of q "v_msgs v" m] err_resp_matches [of m err] show ?thesis by (cases "q = m") auto
next
  case (Answer m c e)
  with assms(2) in_remove [of q "v_msgs v" m] external_resp_matches [of m e] show ?thesis by (cases "q = m") auto
next
  case (Continue c k rec M l)
  from Continue(4) assms(2,3) have "q \<in># M"
    by (cases rule: consumed.cases) (auto intro: in_remove dest: request_not_response)
  with Continue show ?thesis by simp
next
  case (Request c k rec M q' l)
  from Request(4) assms(2,3) have "q \<in># M"
    by (cases rule: consumed.cases) (auto intro: in_remove dest: request_not_response)
  with Request show ?thesis by simp
qed (use assms(2) in auto)

text \<open>Every request to the API server is answered.\<close>

lemma api_requests_answered:
  assumes "msg_dst q = APIServer" and "is_api_request (msg_content q)"
  shows "entails (tla_and (cluster_spec env cl) (fair_cluster env cl))
    (leads_to (lift_state (request_in_flight q)) (lift_state (answered q)))"
proof (rule action_wf1 [where a = "api_server_next env cl" and input = "Some q", OF _ _ good_step_always _ fair_api_server])
  fix s s'
  assume p: "request_in_flight q s" and step: "good_step env cl s s'"
  then have "view_step env cl (view_of s) (view_of s')" by (simp add: good_step_def cluster_next_view_step)
  from request_kept_or_answered [OF this] p assms(2) show "request_in_flight q s' \<or> answered q s'"
    by (auto simp: request_in_flight_def answered_def)
next
  fix s s'
  assume "request_in_flight q s" "good_step env cl s s'" "action_forward (api_server_next env cl) (Some q) s s'"
  then show "answered q s'"
    using form_api_resp_matches [OF assms(2)] same_method_response
    by (auto simp: api_server_forward transition_by_etcd_def split_beta answered_def cs_in_flight_def)
next
  fix s
  assume "request_in_flight q s"
  with assms show "action_pre (api_server_next env cl) (Some q) s"
    by (simp add: action_pre_forward api_server_forward request_in_flight_def)
qed

text \<open>The same for the external system of a controller, if the controller has one.\<close>

lemma external_requests_are_answered:
  assumes "msg_dst q = External c" and "is_external_request (msg_content q)"
    and "controller_models cl c = Some model" and "external_model model \<noteq> None"
  shows "entails (tla_and (cluster_spec env cl) (fair_cluster env cl))
    (leads_to (lift_state (request_in_flight q)) (lift_state (answered q)))"
proof (rule action_wf1 [where a = "external_next cl" and input = "(c, Some q)", OF _ _ good_step_always _ fair_external])
  fix s s'
  assume p: "request_in_flight q s" and step: "good_step env cl s s'"
  then have "view_step env cl (view_of s) (view_of s')" by (simp add: good_step_def cluster_next_view_step)
  from request_kept_or_answered [OF this] p assms(2) show "request_in_flight q s' \<or> answered q s'"
    by (auto simp: request_in_flight_def answered_def)
next
  fix s s'
  assume "request_in_flight q s" "good_step env cl s s'" "action_forward (external_next cl) (c, Some q) s s'"
  then show "answered q s'"
    using external_resp_matches [OF assms(2)]
    by (auto simp: external_forward transition_by_external_def split_beta Let_def answered_def cs_in_flight_def)
next
  fix s
  assume "request_in_flight q s"
  with assms show "action_pre (external_next cl) (c, Some q) s"
    by (simp add: action_pre_forward external_forward request_in_flight_def)
qed

subsection \<open>A reconcile does not wait for ever\<close>

abbreviation waits :: "int \<Rightarrow> ObjectRef \<Rightarrow> OngoingReconcile \<Rightarrow> ClusterState StatePred" where
  "waits c k rec \<equiv> (\<lambda>s. cs_ongoing_reconciles s c k = Some rec)"

definition pending_req_msg_is :: "int \<Rightarrow> ClusterState \<Rightarrow> ObjectRef \<Rightarrow> Message \<Rightarrow> bool" where
  "pending_req_msg_is controller_id s key req \<longleftrightarrow> pending_req_msg (the (cs_ongoing_reconciles s controller_id key)) = Some req"

definition waits_for :: "int \<Rightarrow> ObjectRef \<Rightarrow> Message \<Rightarrow> ClusterState StatePred" where
  "waits_for c k q = (\<lambda>s. cs_ongoing_reconciles s c k \<noteq> None \<and> pending_req_msg_is c s k q)"

lemma waits_for_iff: "waits_for c k q s \<longleftrightarrow> pending (view_of s) c k q"
  by (auto simp: waits_for_def pending_req_msg_is_def)

lemma pending_below:
  assumes "runtime_invariant cl v" "controller_models cl c \<noteq> None" "pending v c k q"
  shows "msg_rpc_id q < v_ids v"
  using assms tracked_below unfolding runtime_invariant_def pending_tracked_def by blast

lemma wait_kept:
  assumes I: "runtime_invariant cl v" and step: "view_step env cl v v'" and c: "controller_models cl c \<noteq> None"
    and rec: "ongoing_reconciles (v_ctrl v c) k = Some rec" "pending_req_msg rec = Some q"
  shows "ongoing_reconciles (v_ctrl v' c) k = Some rec \<or> \<not> pending v' c k q"
proof -
  from pending_below [OF I c] rec have "msg_rpc_id q < v_ids v" by blast
  with step rec show ?thesis by (cases rule: view_step.cases) auto
qed

text \<open>While the reconcile waits, a response to it stays in flight.\<close>

lemma response_kept:
  assumes I: "runtime_invariant cl v" and step: "view_step env cl v v'" and c: "controller_models cl c \<noteq> None"
    and rec: "ongoing_reconciles (v_ctrl v c) k = Some rec" "pending_req_msg rec = Some q"
    and r: "r \<in># v_msgs v" "resp_msg_matches_req_msg r q"
  shows "r \<in># v_msgs v' \<or> \<not> pending v' c k q"
proof -
  from I c rec have q: "request_sent_by_controller_with_key c k q"
    unfolding runtime_invariant_def pending_tracked_def by blast
  then have dst: "msg_dst r = Controller c k"
    using r(2) by (auto simp: request_sent_by_controller_with_key_def resp_msg_matches_req_msg_def)
  have id: "msg_rpc_id q < v_ids v" using pending_below [OF I c] rec by blast
  have read: "r \<in># M" if "consumed i j rec' (v_msgs v) M" "(i, j) \<noteq> (c, k)" for i j rec' M
    using that dst r(1) by (auto elim!: consumed.cases intro: in_remove)
  from step show ?thesis
  proof (cases rule: view_step.cases)
    case (Serve m st resp)
    with r show ?thesis by (auto simp: request_not_response intro: in_remove)
  next
    case (Drop m err)
    with r show ?thesis by (auto simp: request_not_response intro: in_remove)
  next
    case (Answer m i e)
    with r show ?thesis by (auto simp: request_not_response intro: in_remove)
  next
    case (Continue i j rec' M l)
    with read show ?thesis by (cases "(i, j) = (c, k)") auto
  next
    case (Request i j rec' M q' l)
    with read id show ?thesis by (cases "(i, j) = (c, k)") auto
  qed (use r in auto)
qed

lemma controller_pre:
  assumes "precondition (controller_action cl c step) (controller_input s recv k) (controller_of s c)"
    and "controller_models cl c \<noteq> None" and "received_msg_destined_for recv (Controller c k)"
    and "\<forall>m. recv = Some m \<longrightarrow> m \<in># cs_in_flight s"
  shows "action_pre (controller_next cl) (c, recv, Some k) s"
proof -
  let ?sm = "controller (reconcile_model (controller_model cl c)) c"
  have "action_input ?sm step x = x" for step x by (simp add: controller_def)
  with assms(1) have "next_result ?sm choose_controller_step (controller_input s recv k) (controller_of s c) \<noteq> Disabled"
    by (auto simp: next_result_def Let_def)
  with assms(2-4) show ?thesis
    by (cases recv) (auto simp: action_pre_def controller_next_def chosen_controller_next_def Let_def controller_of_def cs_in_flight_def)
qed

lemma controller_ends_wait:
  assumes I: "runtime_invariant cl (view_of s)" and f: "action_forward (controller_next cl) (c, recv, Some k) s s'"
    and rec: "waits c k rec s" "pending_req_msg rec = Some q"
  shows "\<not> waits_for c k q s'"
proof -
  from controller_forward [OF f] obtain step where c: "controller_models cl c \<noteq> None"
    and recv: "received_msg_destined_for recv (Controller c k)" "\<forall>m. recv = Some m \<longrightarrow> m \<in># cs_in_flight s"
    and pre: "precondition (controller_action cl c step) (controller_input s recv k) (controller_of s c)"
    and s': "controller_of s' c = fst (transition (controller_action cl c step) (controller_input s recv k) (controller_of s c))"
    by (auto simp: controller_of_def split_beta Let_def)
  obtain st out where
    tr: "transition (controller_action cl c step) (controller_input s recv k) (controller_of s c) = (st, out)" by fastforce
  from pending_below [OF I c] rec have id: "msg_rpc_id q < rpc_id_counter (rpc_id_allocator s)" by auto
  show ?thesis
  proof (cases step)
    case RunScheduledReconcile
    with pre rec(1) show ?thesis by (simp add: controller_def run_scheduled_reconcile_def)
  next
    case ContinueReconcile
    with pre tr have p: "precondition (continue_reconcile (reconcile_model (controller_model cl c)) c) (controller_input s recv k) (controller_of s c)"
      "transition (continue_reconcile (reconcile_model (controller_model cl c)) c) (controller_input s recv k) (controller_of s c) = (st, out)"
      by (simp_all add: controller_def)
    from controller_continue [OF p recv] s' tr id show ?thesis by (auto simp: waits_for_iff)
  next
    case EndReconcile
    with pre tr have "ongoing_reconciles st k = None" by (auto simp: controller_def end_reconcile_def Let_def)
    with s' tr show ?thesis by (auto simp: waits_for_iff)
  qed
qed

text \<open>The step of the controller that ends a wait: it ends the reconcile if that is done or has failed, and
  otherwise it reads the response.\<close>

lemma leads_to_lift:
  "entails spec (leads_to (lift_state p) (lift_state q)) \<longleftrightarrow> (\<forall>ex. spec ex \<longrightarrow> (\<forall>i. p (ex i) \<longrightarrow> (\<exists>j. q (ex (i + j)))))"
  by (simp add: entails_iff leads_to_iff lift_state_def)

lemma wait_ends_by:
  assumes keep: "\<And>s s'. good_step env cl s s' \<Longrightarrow> waits c k rec s \<Longrightarrow> p s \<Longrightarrow> p s' \<or> \<not> waits_for c k q s'"
    and pre: "\<And>s. runtime_invariant cl (view_of s) \<Longrightarrow> waits c k rec s \<Longrightarrow> p s \<Longrightarrow> action_pre (controller_next cl) (c, recv, Some k) s"
    and c: "controller_models cl c \<noteq> None" and rec: "pending_req_msg rec = Some q"
  shows "entails (tla_and (cluster_spec env cl) (fair_cluster env cl))
    (leads_to (lift_state (\<lambda>s. runtime_invariant cl (view_of s) \<and> waits c k rec s \<and> p s)) (lift_state (\<lambda>s. \<not> waits_for c k q s)))"
proof (rule action_wf1 [where a = "controller_next cl" and input = "(c, recv, Some k)", OF _ _ good_step_always _ fair_controller])
  fix s s'
  assume s: "runtime_invariant cl (view_of s) \<and> waits c k rec s \<and> p s" and step: "good_step env cl s s'"
  then have v: "view_step env cl (view_of s) (view_of s')" by (simp add: good_step_def cluster_next_view_step)
  from s have I: "runtime_invariant cl (view_of s)" and w: "ongoing_reconciles (v_ctrl (view_of s) c) k = Some rec" by simp_all
  from wait_kept [OF I v c w rec] have "waits c k rec s' \<or> \<not> waits_for c k q s'" by (simp add: waits_for_iff)
  with keep [OF step] s runtime_invariant_step [OF I v]
  show "(runtime_invariant cl (view_of s') \<and> waits c k rec s' \<and> p s') \<or> \<not> waits_for c k q s'" by blast
qed (use controller_ends_wait rec pre in blast)+

lemma finished_wait_ends:
  assumes c: "controller_models cl c = Some model" and rec: "pending_req_msg rec = Some q"
    and fin: "rm_done (reconcile_model model) (local_state rec) \<or> rm_error (reconcile_model model) (local_state rec)"
    and ex: "cluster_spec env cl ex" "fair_cluster env cl ex" and w: "waits c k rec (ex i)"
    and I: "runtime_invariant cl (view_of (ex i))"
  shows "\<exists>j. \<not> waits_for c k q (ex (i + j))"
proof -
  have "action_pre (controller_next cl) (c, None, Some k) s" if "runtime_invariant cl (view_of s)" "waits c k rec s" for s
  proof -
    have "ref_kind k = rm_kind (reconcile_model model)"
      using that c by (auto simp: runtime_invariant_def controllers_ok_def controller_ok_def cr_ok_def)
    then show ?thesis using controller_pre [of cl c EndReconcile None k s] that c fin
      by (simp add: controller_def end_reconcile_def received_msg_destined_for_def)
  qed
  from wait_ends_by [where p = "\<lambda>s. True" and recv = None, OF _ this _ rec, of env] c ex w I
  show ?thesis by (simp add: leads_to_lift tla_and_def)
qed

lemma answered_wait_ends:
  assumes c: "controller_models cl c = Some model" and rec: "pending_req_msg rec = Some q"
    and not_fin: "\<not> rm_done (reconcile_model model) (local_state rec)" "\<not> rm_error (reconcile_model model) (local_state rec)"
    and ex: "cluster_spec env cl ex" "fair_cluster env cl ex" and w: "waits c k rec (ex i)"
    and I: "runtime_invariant cl (view_of (ex i))" and r: "r \<in># cs_in_flight (ex i)" "resp_msg_matches_req_msg r q"
  shows "\<exists>j. \<not> waits_for c k q (ex (i + j))"
proof -
  have resp: "is_api_response (msg_content r) \<or> is_external_response (msg_content r)"
    using r(2) by (auto simp: resp_msg_matches_req_msg_def)
  have keep: "r \<in># cs_in_flight s' \<or> \<not> waits_for c k q s'"
    if "good_step env cl s s'" "waits c k rec s" "r \<in># cs_in_flight s" for s s'
    using that response_kept [of cl "view_of s" env "view_of s'" c k rec q r] c rec r(2)
    by (simp add: good_step_def cluster_next_view_step waits_for_iff)
  have pre: "action_pre (controller_next cl) (c, Some r, Some k) s"
    if "runtime_invariant cl (view_of s)" "waits c k rec s" "r \<in># cs_in_flight s" for s
  proof -
    have "ref_kind k = rm_kind (reconcile_model model)"
      using that(1,2) c by (auto simp: runtime_invariant_def controllers_ok_def controller_ok_def cr_ok_def)
    moreover    have "request_sent_by_controller_with_key c k q"
      using that(1,2) c rec unfolding runtime_invariant_def pending_tracked_def by auto
    then have "msg_dst r = Controller c k"
      using r(2) by (auto simp: request_sent_by_controller_with_key_def resp_msg_matches_req_msg_def)
    ultimately show ?thesis using controller_pre [of cl c ContinueReconcile "Some r" k s] that c rec not_fin resp r(2)
      by (simp add: controller_def continue_reconcile_def received_msg_destined_for_def)
  qed
  from wait_ends_by [where p = "\<lambda>s. r \<in># cs_in_flight s" and recv = "Some r", OF keep pre _ rec, of env] c ex w I r(1)
  show ?thesis by (simp add: leads_to_lift tla_and_def)
qed

text \<open>C6: In an execution in which the API server, the external systems and the controllers are fair, no reconcile
  waits for ever: if a reconcile waits for a request to the API server, or to an external system that exists,
  then at some later time it does not wait for that request any more. This holds although requests may be dropped,
  controllers may crash, and other hosts may change the store at any time.\<close>

theorem no_reconcile_waits_for_ever:
  assumes c: "controller_models cl c = Some model" and dst: "msg_dst q = APIServer \<or> external_model model \<noteq> None"
  shows "entails (tla_and (cluster_spec env cl) (fair_cluster env cl))
    (leads_to (lift_state (waits_for c k q)) (lift_state (\<lambda>s. \<not> waits_for c k q s)))"
  unfolding leads_to_lift
proof (intro allI impI)
  fix ex i
  assume spec: "tla_and (cluster_spec env cl) (fair_cluster env cl) ex" and w: "waits_for c k q (ex i)"
  then have ex: "cluster_spec env cl ex" "fair_cluster env cl ex" by (simp_all add: tla_and_def)
  have inv: "runtime_invariant cl (view_of (ex i))" for i
    using runtime_invariant_always [of cl "\<lambda>s. runtime_invariant cl (view_of s)" env] ex(1) by (simp add: always_lift_state)
  have ends: "\<exists>j. \<not> waits_for c k q (ex (i + j))" if "waits_for c k q (ex i)" "answered q (ex i)" for i
    using that finished_wait_ends [OF c _ _ ex _ inv] answered_wait_ends [OF c _ _ _ ex _ inv]
    by (auto simp: waits_for_iff answered_def) blast+
  from inv [of i] w c have q: "request_sent_by_controller_with_key c k q" "tracked (cs_in_flight (ex i)) q"
    by (auto simp: runtime_invariant_def pending_tracked_def waits_for_iff)
  have "\<exists>j. answered q (ex (i + j))"
  proof (cases "answered q (ex i)")
    case True
    then show ?thesis by (intro exI [of _ 0]) simp
  next
    case False
    with q(2) have "request_in_flight q (ex i)" by (auto simp: tracked_def answered_def request_in_flight_def)
    with api_requests_answered [of q env cl] external_requests_are_answered [of q c cl model env] q(1) c dst spec
    show ?thesis by (auto simp: request_sent_by_controller_with_key_def leads_to_lift)
  qed
  then obtain j where "answered q (ex (i + j))" ..
  then show "\<exists>j. \<not> waits_for c k q (ex (i + j))" using ends [of "i + j"] by (metis add.assoc)
qed

section \<open>Failures stop\<close>

definition crash_disabled :: "int \<Rightarrow> ClusterState StatePred" where
  "crash_disabled controller_id = (\<lambda>s. \<not> crash_enabled (the (controller_and_externals s controller_id)))"

definition req_drop_disabled :: "ClusterState StatePred" where
  "req_drop_disabled = (\<lambda>s. \<not> req_drop_enabled s)"

definition pod_monkey_disabled :: "ClusterState StatePred" where
  "pod_monkey_disabled = (\<lambda>s. \<not> pod_monkey_enabled s)"

lemma controller_forward_flags:
  assumes "action_forward (controller_next cl) input s s'"
  shows "req_drop_enabled s' = req_drop_enabled s" "pod_monkey_enabled s' = pod_monkey_enabled s"
    "crash_enabled (the (controller_and_externals s' c)) = crash_enabled (the (controller_and_externals s c))"
  using assms controller_forward [of cl "fst input" "fst (snd input)" "snd (snd input)" s s']
  by (auto simp: split_beta Let_def split: if_splits)

text \<open>No step enables a failure.\<close>

lemma failures_stay_disabled:
  assumes "cluster_next env cl s s'"
  shows "req_drop_disabled s \<Longrightarrow> req_drop_disabled s'" "pod_monkey_disabled s \<Longrightarrow> pod_monkey_disabled s'"
    "crash_disabled c s \<Longrightarrow> crash_disabled c s'"
proof -
  from assms obtain step where step: "cluster_next_step env cl s s' step" by (auto simp: cluster_next_def)
  have "(req_drop_enabled s' \<longrightarrow> req_drop_enabled s) \<and> (pod_monkey_enabled s' \<longrightarrow> pod_monkey_enabled s) \<and>
    (crash_enabled (the (controller_and_externals s' c)) \<longrightarrow> crash_enabled (the (controller_and_externals s c)))"
  proof (cases step)
    case (APIServerStep input)
    with step show ?thesis by (auto simp: api_server_forward split_beta Let_def)
  next
    case (BuiltinControllersStep input)
    with step builtin_controllers_forward show ?thesis by fastforce
  next
    case (ControllerStep input)
    with step controller_forward_flags [of cl input s s'] show ?thesis by simp
  next
    case (DropReqStep input)
    with step drop_req_forward show ?thesis by fastforce
  next
    case (PodMonkeyStep input)
    with step pod_monkey_forward show ?thesis by fastforce
  next
    case (ExternalStep input)
    with step show ?thesis by (cases input) (auto simp: external_forward split_beta Let_def split: if_splits)
  next
    case (ScheduleControllerReconcileStep input)
    with step show ?thesis by (cases input) (auto simp: action_forward_def schedule_controller_reconcile_def Let_def split: if_splits)
  qed (use step in \<open>auto simp: action_forward_def restart_controller_def disable_crash_def disable_req_drop_def
    disable_pod_monkey_def stutter_def Let_def split: if_splits\<close>)
  then show "req_drop_disabled s \<Longrightarrow> req_drop_disabled s'" "pod_monkey_disabled s \<Longrightarrow> pod_monkey_disabled s'"
    "crash_disabled c s \<Longrightarrow> crash_disabled c s'"
    by (auto simp: req_drop_disabled_def pod_monkey_disabled_def crash_disabled_def)
qed

text \<open>A stable condition that a fair action reaches from every state holds from some time on.\<close>

lemma disabled_for_ever:
  assumes stable: "\<And>s s'. cluster_next env cl s s' \<Longrightarrow> P s \<Longrightarrow> P s'"
    and reach: "\<And>s s'. action_forward a input s s' \<Longrightarrow> P s'" and pre: "\<And>s. action_pre a input s"
    and ex: "cluster_spec env cl ex" "action_weak_fairness a input ex"
  shows "\<exists>i. \<forall>j\<ge>i. P (ex j)"
proof -
  have nxt: "cluster_next env cl (ex i) (ex (Suc i))" for i
    using ex(1) by (simp add: cluster_spec_def tla_and_def tla_defs)
  from ex(2) pre obtain i where "action_forward a input (ex i) (ex (Suc i))"
    by (auto simp: action_weak_fairness_def leads_to_iff tla_defs)
  then have "P (ex (Suc i))" by (rule reach)
  then have "P (ex (Suc i + n))" for n by (induction n) (auto intro: stable [OF nxt])
  then have "\<forall>j\<ge>Suc i. P (ex j)" by (metis le_iff_add)
  then show ?thesis ..
qed

text \<open>In an execution in which the actions that disable failures are fair, failures stop: from some time on no
  controller that is given crashes, no request is dropped, and the pod monkey does nothing.\<close>

theorem failures_stop:
  assumes "controller_models cl c \<noteq> None"
  shows "entails (tla_and (cluster_spec env cl) (tla_and (action_weak_fairness (disable_crash cl) c)
      (tla_and (action_weak_fairness disable_req_drop ()) (action_weak_fairness disable_pod_monkey ()))))
    (leads_to true_pred (always (lift_state (\<lambda>s. crash_disabled c s \<and> req_drop_disabled s \<and> pod_monkey_disabled s))))"
proof (rule entailsI, unfold leads_to_iff, intro allI impI)
  fix ex n
  assume spec: "tla_and (cluster_spec env cl) (tla_and (action_weak_fairness (disable_crash cl) c)
      (tla_and (action_weak_fairness disable_req_drop ()) (action_weak_fairness disable_pod_monkey ()))) ex"
  then have ex: "cluster_spec env cl ex" and fair: "action_weak_fairness (disable_crash cl) c ex"
    "action_weak_fairness disable_req_drop () ex" "action_weak_fairness disable_pod_monkey () ex" by (simp_all add: tla_and_def)
  have "\<exists>i. \<forall>j\<ge>i. crash_disabled c (ex j)"
    by (rule disabled_for_ever [OF _ _ _ ex fair(1)], erule (1) failures_stay_disabled(3))
      (use assms in \<open>auto simp: action_forward_def action_pre_def disable_crash_def crash_disabled_def\<close>)
  then obtain i1 where "\<forall>j\<ge>i1. crash_disabled c (ex j)" ..
  moreover have "\<exists>i. \<forall>j\<ge>i. req_drop_disabled (ex j)"
    by (rule disabled_for_ever [OF _ _ _ ex fair(2)], erule (1) failures_stay_disabled(1))
      (auto simp: action_forward_def action_pre_def disable_req_drop_def req_drop_disabled_def)
  then obtain i2 where "\<forall>j\<ge>i2. req_drop_disabled (ex j)" ..
  moreover have "\<exists>i. \<forall>j\<ge>i. pod_monkey_disabled (ex j)"
    by (rule disabled_for_ever [OF _ _ _ ex fair(3)], erule (1) failures_stay_disabled(2))
      (auto simp: action_forward_def action_pre_def disable_pod_monkey_def pod_monkey_disabled_def)
  then obtain i3 where "\<forall>j\<ge>i3. pod_monkey_disabled (ex j)" ..
  ultimately show "\<exists>j. always (lift_state (\<lambda>s. crash_disabled c s \<and> req_drop_disabled s \<and> pod_monkey_disabled s)) (ex_suffix ex (n + j))"
    by (intro exI [of _ "i1 + i2 + i3"]) (simp add: always_def lift_state_def)
qed

end
