(* ===== verification/Anvil_Guarantees.thy ===== *)
theory Anvil_Guarantees
  imports Anvil_Store
begin

text \<open>
  What the API server guarantees to its clients over sequences of requests from any of them: no update is
  lost, an identifier names one incarnation of an object, a deletion that was started is carried
  through, and transactions do not conflict.
\<close>

section \<open>Sequences of requests\<close>

fun handle_requests :: "api_env \<Rightarrow> InstalledTypes \<Rightarrow> APIRequest list \<Rightarrow> APIServerState \<Rightarrow> APIServerState" where
  "handle_requests env it [] s = s"
| "handle_requests env it (req # reqs) s = handle_requests env it reqs (fst (handle_api_request env it req s))"

lemma handle_requests_append: "handle_requests env it (xs @ ys) s = handle_requests env it ys (handle_requests env it xs s)"
  by (induction xs arbitrary: s) simp_all

lemma handle_requests_invariant: "store_invariant s \<Longrightarrow> store_invariant (handle_requests env it reqs s)"
  by (induction reqs arbitrary: s) (simp_all add: request_invariant)

lemma handle_requests_counters:
  assumes "store_invariant s"
  shows "resource_version_counter s \<le> resource_version_counter (handle_requests env it reqs s) \<and>
    uid_counter s \<le> uid_counter (handle_requests env it reqs s)"
  using assms
proof (induction reqs arbitrary: s)
  case (Cons req reqs)
  from store_step_counters [OF request_step [OF Cons.prems], of env it req]
    Cons.IH [OF request_invariant [OF Cons.prems], of env it req]
  show ?case by simp
qed simp

text \<open>An object with a version from before the step has not been touched by it; an object with an
  identifier from before the step was there before.\<close>

lemma store_step_old_version:
  assumes "store_step env it s s'" "resources s' key = Some x" "obj_rv x < resource_version_counter s"
  shows "resources s key = Some x"
  using assms by (auto elim!: store_step.cases split: if_splits)

lemma store_step_old_uid:
  assumes "store_step env it s s'" "resources s' key = Some x" "uid_of x < uid_counter s"
  shows "\<exists>y. resources s key = Some y \<and> uid_of y = uid_of x"
  using assms by (cases rule: store_step.cases) (auto split: if_splits)

lemma old_version_unchanged:
  assumes "store_invariant s" "resources (handle_requests env it reqs s) key = Some x" "obj_rv x < resource_version_counter s"
  shows "resources s key = Some x"
  using assms
proof (induction reqs arbitrary: s)
  case (Cons req reqs)
  let ?s = "fst (handle_api_request env it req s)"
  note step = request_step [OF Cons.prems(1), of env it req]
  have "obj_rv x < resource_version_counter ?s" using store_step_counters [OF step] Cons.prems(3) by simp
  with Cons have "resources ?s key = Some x" by (simp add: request_invariant)
  from store_step_old_version [OF step this Cons.prems(3)] show ?case .
qed simp

lemma old_uid_was_there:
  assumes "store_invariant s" "resources (handle_requests env it reqs s) key = Some x" "uid_of x < uid_counter s"
  shows "\<exists>y. resources s key = Some y \<and> uid_of y = uid_of x"
  using assms
proof (induction reqs arbitrary: s)
  case (Cons req reqs)
  let ?s = "fst (handle_api_request env it req s)"
  note step = request_step [OF Cons.prems(1), of env it req]
  have less: "uid_of x < uid_counter ?s" using store_step_counters [OF step] Cons.prems(3) by simp
  from Cons.IH [OF request_invariant [OF Cons.prems(1)] _ less] Cons.prems(2)
  obtain z where z: "resources ?s key = Some z" "uid_of z = uid_of x" by auto
  from store_step_old_uid [OF step z(1)] Cons.prems(3) z(2) show ?case by simp
qed auto

section \<open>An example store\<close>

definition permissive_type :: InstalledType where
  "permissive_type =
     \<lparr>it_unmarshallable_spec = \<lambda>_. True, it_unmarshallable_status = \<lambda>_. True, it_valid_object = \<lambda>_. True,
      it_valid_transition = \<lambda>_ _. True, it_marshalled_default_status = []\<rparr>"

definition example_env :: api_env where
  "example_env =
     \<lparr>env_builtin = \<lambda>_. permissive_type, env_generated_name = \<lambda>s n. n @ ''-x'', env_deletion_timestamp = ''now'',
      env_to_seq = \<lambda>A. []\<rparr>"

definition example_pod :: "StringView option \<Rightarrow> DynamicObjectView" where
  "example_pod stamp =
     \<lparr>obj_kind = PodKind,
      obj_metadata = object_meta_default\<lparr>om_name := Some ''p'', om_namespace := Some ''n'', om_resource_version := Some 1,
        om_uid := Some 1, om_finalizers := Some [''f''], om_deletion_timestamp := stamp\<rparr>,
      obj_spec = ''a'', obj_status = []\<rparr>"

definition example_key :: ObjectRef where
  "example_key = \<lparr>ref_kind = PodKind, ref_name = ''p'', ref_namespace = ''n''\<rparr>"

definition example_store :: "StringView option \<Rightarrow> APIServerState" where
  "example_store stamp =
     \<lparr>resources = [example_key \<mapsto> example_pod stamp], uid_counter = 2, resource_version_counter = 2\<rparr>"

lemmas example_defs = example_env_def permissive_type_def example_pod_def example_key_def example_store_def
  object_meta_default_def

lemma example_store_invariant: "store_invariant (example_store stamp)"
  by (simp add: store_invariant_def each_object_in_etcd_is_weakly_well_formed_def etcd_object_is_weakly_well_formed_def
      unique_uids_iff at_most_one_controller_owner_iff one_controller_owner_def terminating_objects_have_finalizers_def
      etcd_is_finite_def example_defs well_formed_for_namespaced_def object_ref_def has_finalizers_def)

definition example_update :: UpdateRequest where
  "example_update =
     \<lparr>update_namespace = ''n'', update_name = ''p'', update_obj = (example_pod None)\<lparr>obj_spec := ''b''\<rparr>\<rparr>"

section \<open>No update is lost\<close>

text \<open>C13: no update is lost. Whatever requests come between, an update that names the version of an object
  that was read succeeds only if the stored object is still exactly the one that was read; otherwise it
  is rejected and changes nothing.\<close>

theorem no_lost_update:
  assumes "store_invariant s0" and "handle_get_request \<lparr>get_key = update_request_key req\<rparr> s0 = Inr obj"
    and "om_resource_version (obj_metadata (update_obj req)) = om_resource_version (obj_metadata obj)"
    and "s1 = handle_requests env it reqs s0" and "handle_update_request env it req s1 = (s2, r)"
  shows "case r of Inl _ \<Rightarrow> s2 = s1 | Inr _ \<Rightarrow> resources s1 (update_request_key req) = Some obj"
proof (cases r)
  case (Inl e)
  with assms(5) show ?thesis
    by (auto simp: handle_update_request_def Let_def split: option.splits if_splits)
next
  case (Inr new)
  have obj: "resources s0 (update_request_key req) = Some obj"
    using assms(2) by (simp add: handle_get_request_def split: option.splits)
  have wf0: "each_object_in_etcd_is_weakly_well_formed s0" using assms(1) by (simp add: store_invariant_def)
  note wf_obj = weakly_well_formedD [OF wf0 obj]
  from assms(5) Inr have "update_request_admission_check env it req s1 = None"
    by (auto simp: handle_update_request_def split: option.splits)
  note adm = admissionD [OF this [unfolded update_request_admission_check_def], folded update_request_key_def]
  then obtain cur where cur: "resources s1 (update_request_key req) = Some cur" by blast
  have "om_resource_version (obj_metadata cur) = om_resource_version (obj_metadata obj)"
    using adm(4) cur assms(3) wf_obj(1) by (simp add: well_formed_for_namespaced_def)
  with wf_obj(3) have "obj_rv cur < resource_version_counter s0" by simp
  with old_version_unchanged [OF assms(1)] cur obj assms(4) show ?thesis by (simp add: Inr)
qed

theorem no_lost_update_witness:
  "\<not> isl (snd (handle_update_request example_env Map.empty example_update
       (handle_requests example_env Map.empty [GetReq \<lparr>get_key = example_key\<rparr>] (example_store None)))) \<and>
   resources (handle_requests example_env Map.empty [GetReq \<lparr>get_key = example_key\<rparr>] (example_store None)) example_key =
     Some (example_pod None)"
proof -
  let ?s = "handle_requests example_env Map.empty [GetReq \<lparr>get_key = example_key\<rparr>] (example_store None)"
  have key: "update_request_key example_update = example_key"
    by (simp add: example_update_def update_request_key_def example_defs)
  have "\<not> isl (snd (handle_update_request example_env Map.empty example_update ?s))"
    by (simp add: handle_update_request_def update_request_admission_check_def update_request_admission_check_helper_def
        update_request_key_def updated_object_def updated_object_validity_check_def metadata_validity_check_def
        metadata_transition_validity_check_def object_validity_check_def object_transition_validity_check_def
        valid_object_def valid_transition_def unmarshallable_object_def unmarshallable_spec_def unmarshallable_status_def
        type_of_kind_def example_update_def example_defs with_resource_version_def Let_def)
  moreover have "case snd (handle_update_request example_env Map.empty example_update ?s) of
      Inl _ \<Rightarrow> fst (handle_update_request example_env Map.empty example_update ?s) = ?s
    | Inr _ \<Rightarrow> resources ?s (update_request_key example_update) = Some (example_pod None)"
    by (rule no_lost_update [OF example_store_invariant [of None], where reqs = "[GetReq \<lparr>get_key = example_key\<rparr>]"])
      (simp_all add: key, simp_all add: handle_get_request_def example_update_def example_defs)
  ultimately show ?thesis by (simp add: key split: sum.splits)
qed

section \<open>Identifiers and deletion\<close>

text \<open>An identifier names one incarnation of an object. If an object with the identifier of an earlier
  one is in the store after any requests, it is stored under the same reference, and it has been there
  after each of the requests: it was never removed and created again.\<close>

theorem uid_names_one_incarnation:
  assumes "store_invariant s0" and "resources s0 key = Some obj"
    and "resources (handle_requests env it (reqs @ reqs') s0) key' = Some obj'" and "uid_of obj' = uid_of obj"
  shows "key' = key \<and> (\<exists>x. resources (handle_requests env it reqs s0) key = Some x \<and> uid_of x = uid_of obj)"
proof -
  let ?s = "handle_requests env it reqs s0"
  have inv: "store_invariant ?s" using assms(1) by (rule handle_requests_invariant)
  have "uid_of obj < uid_counter s0"
    using weakly_well_formedD(4) assms(1,2) by (simp add: store_invariant_def)
  moreover from this have "uid_of obj' < uid_counter ?s"
    using handle_requests_counters [OF assms(1), of env it reqs] assms(4) by simp
  with old_uid_was_there [OF inv assms(3) [unfolded handle_requests_append]] obtain y
    where y: "resources ?s key' = Some y" "uid_of y = uid_of obj'" by blast
  ultimately obtain z where z: "resources s0 key' = Some z" "uid_of z = uid_of obj"
    using old_uid_was_there [OF assms(1) y(1)] assms(4) by auto
  have "key' = key"
    using assms(1,2) z unfolding store_invariant_def unique_uids_iff by metis
  with y assms(4) show ?thesis by simp
qed

theorem uid_names_one_incarnation_witness:
  "\<exists>x. resources (handle_requests example_env Map.empty [GetReq \<lparr>get_key = example_key\<rparr>] (example_store None)) example_key =
     Some x \<and> uid_of x = uid_of (example_pod None)"
  by (rule conjunct2 [OF uid_names_one_incarnation [OF example_store_invariant [of None], where reqs' = "[]" and key' = example_key
      and obj' = "example_pod None"]])
    (simp_all add: example_store_def)

text \<open>A deletion that names an identifier, as the garbage collector issues it, deletes only the object
  with this identifier: against any other content of the store it fails and changes nothing.\<close>

theorem delete_with_uid_exact:
  assumes "handle_delete_request env \<lparr>delete_key = key, delete_preconditions = Some \<lparr>pre_uid = Some u, pre_resource_version = None\<rparr>\<rparr> s = (s', r)"
  shows "if (\<exists>obj. resources s key = Some obj \<and> om_uid (obj_metadata obj) = Some u)
    then r = Inr () \<and> (resources s' key = None \<or>
      (\<exists>obj. resources s' key = Some obj \<and> om_uid (obj_metadata obj) = Some u \<and> om_deletion_timestamp (obj_metadata obj) \<noteq> None)) \<and>
      (\<forall>k. k \<noteq> key \<longrightarrow> resources s' k = resources s k)
    else isl r \<and> s' = s"
proof (cases "resources s key")
  case None
  with assms show ?thesis by (auto simp: handle_delete_request_def delete_request_admission_check_def)
next
  case (Some obj)
  show ?thesis
  proof (cases "om_uid (obj_metadata obj) = Some u")
    case True
    with Some assms show ?thesis
      by (auto simp: handle_delete_request_def delete_request_admission_check_def Let_def with_simps split: if_splits)
  next
    case False
    with Some assms show ?thesis
      by (auto simp: handle_delete_request_def delete_request_admission_check_def Let_def split: if_splits)
  qed
qed

theorem delete_with_uid_exact_witness:
  "fst (handle_delete_request example_env
     \<lparr>delete_key = example_key, delete_preconditions = Some \<lparr>pre_uid = Some 7, pre_resource_version = None\<rparr>\<rparr>
     (example_store None)) = example_store None"
proof -
  let ?d = "handle_delete_request example_env
     \<lparr>delete_key = example_key, delete_preconditions = Some \<lparr>pre_uid = Some 7, pre_resource_version = None\<rparr>\<rparr> (example_store None)"
  have "?d = (fst ?d, snd ?d)" by simp
  from delete_with_uid_exact [OF this] show ?thesis by (simp add: example_store_def example_pod_def)
qed

lemma store_step_terminating_object:
  assumes "store_step env it s s'" "store_invariant s" "resources s key = Some x" "om_deletion_timestamp (obj_metadata x) \<noteq> None"
    and "resources s' key = Some y"
  shows "om_deletion_timestamp (obj_metadata y) = om_deletion_timestamp (obj_metadata x) \<and>
    finalizers_as_set (obj_metadata y) \<subseteq> finalizers_as_set (obj_metadata x)"
  using assms by (cases rule: store_step.cases) (auto split: if_splits)

text \<open>A deletion that was started is carried through. Whatever requests follow, an object that is marked
  for deletion keeps the mark and gets no new finalizers as long as the same incarnation is stored.\<close>

theorem terminating_object_stays_terminating:
  assumes "store_invariant s0" and "resources s0 key = Some obj" and "om_deletion_timestamp (obj_metadata obj) \<noteq> None"
    and "resources (handle_requests env it reqs s0) key = Some obj'" and "uid_of obj' = uid_of obj"
  shows "om_deletion_timestamp (obj_metadata obj') = om_deletion_timestamp (obj_metadata obj) \<and>
    finalizers_as_set (obj_metadata obj') \<subseteq> finalizers_as_set (obj_metadata obj) \<and> has_finalizers (obj_metadata obj')"
proof -
  have "om_deletion_timestamp (obj_metadata obj') = om_deletion_timestamp (obj_metadata obj) \<and>
    finalizers_as_set (obj_metadata obj') \<subseteq> finalizers_as_set (obj_metadata obj)"
    using assms
  proof (induction reqs arbitrary: s0 obj)
    case (Cons req reqs)
    let ?s = "fst (handle_api_request env it req s0)"
    note inv = request_invariant [OF Cons.prems(1), of env it req] and step = request_step [OF Cons.prems(1), of env it req]
    have "uid_of obj' < uid_counter s0"
      using weakly_well_formedD(4) [OF _ Cons.prems(2)] Cons.prems(1,5) by (simp add: store_invariant_def)
    with store_step_counters [OF step] have "uid_of obj' < uid_counter ?s" by simp
    with old_uid_was_there [OF inv] Cons.prems(4) obtain x where x: "resources ?s key = Some x" "uid_of x = uid_of obj'"
      by fastforce
    note t = store_step_terminating_object [OF step Cons.prems(1,2,3) x(1)]
    with Cons.IH [OF inv x(1)] Cons.prems(3,4) x(2) show ?case by auto
  qed simp
  moreover from this assms have "has_finalizers (obj_metadata obj')"
    using handle_requests_invariant [OF assms(1), of env it reqs]
    by (auto simp: store_invariant_def terminating_objects_have_finalizers_def)
  ultimately show ?thesis by blast
qed

theorem terminating_object_stays_terminating_witness:
  "has_finalizers (obj_metadata (example_pod (Some ''now''))) \<and>
   resources (handle_requests example_env Map.empty [DeleteReq \<lparr>delete_key = example_key, delete_preconditions = None\<rparr>]
     (example_store (Some ''now''))) example_key = Some (example_pod (Some ''now''))"
proof -
  have r: "resources (handle_requests example_env Map.empty [DeleteReq \<lparr>delete_key = example_key, delete_preconditions = None\<rparr>]
     (example_store (Some ''now''))) example_key = Some (example_pod (Some ''now''))"
    by (simp add: handle_delete_request_def delete_request_admission_check_def has_finalizers_def example_defs)
  with terminating_object_stays_terminating [OF example_store_invariant [of "Some ''now''"] _ _ r]
  show ?thesis by (simp add: example_store_def example_pod_def)
qed

section \<open>Transactions\<close>

lemma validity_no_conflict: "updated_object_validity_check env it obj old \<noteq> Some Conflict"
  by (simp add: updated_object_validity_check_def metadata_validity_check_def metadata_transition_validity_check_def
      object_validity_check_def object_transition_validity_check_def Let_def)

lemma update_no_conflict:
  assumes "resources s (update_request_key req) = Some cur"
    and "om_resource_version (obj_metadata (update_obj req)) = om_resource_version (obj_metadata cur)"
    and "om_uid (obj_metadata (update_obj req)) = om_uid (obj_metadata cur)"
  shows "snd (handle_update_request env it req s) \<noteq> Inl Conflict"
proof -
  have "update_request_admission_check env it req s \<noteq> Some Conflict"
    unfolding update_request_admission_check_def update_request_admission_check_helper_def Let_def
      update_request_key_def [symmetric] using assms by simp
  with validity_no_conflict show ?thesis
    by (auto simp: handle_update_request_def Let_def split: option.splits)
qed

lemma get_then_update_owned:
  assumes "fst (handle_get_then_update_request env it req s) \<noteq> s"
  shows "\<exists>obj. resources s (get_then_update_request_key req) = Some obj \<and>
    owner_references_contains (obj_metadata obj) (get_then_update_owner_ref req)"
  using assms
  by (auto simp: handle_get_then_update_request_def handle_get_request_def Let_def split: option.splits if_splits)

lemma get_then_delete_owned:
  assumes "fst (handle_get_then_delete_request env req s) \<noteq> s"
  shows "\<exists>obj. resources s (get_then_delete_key req) = Some obj \<and>
    owner_references_contains (obj_metadata obj) (get_then_delete_owner_ref req)"
  using assms
  by (auto simp: handle_get_then_delete_request_def handle_get_request_def Let_def split: option.splits if_splits)

lemma get_then_update_no_conflict: "snd (handle_get_then_update_request env it req s) \<noteq> Inl Conflict"
proof (cases "resources s (get_then_update_request_key req)")
  case (Some cur)
  let ?obj = "get_then_update_obj req"
  have "snd (handle_update_request env it
      \<lparr>update_namespace = get_then_update_namespace req, update_name = get_then_update_name req,
       update_obj = ?obj\<lparr>obj_metadata := obj_metadata ?obj\<lparr>om_resource_version := om_resource_version (obj_metadata cur),
         om_uid := om_uid (obj_metadata cur)\<rparr>\<rparr>\<rparr> s) \<noteq> Inl Conflict"
    by (rule update_no_conflict [where cur = cur])
      (use Some in \<open>simp_all add: update_request_key_def get_then_update_request_key_def\<close>)
  with Some show ?thesis by (simp add: handle_get_then_update_request_def handle_get_request_def Let_def)
qed (simp add: handle_get_then_update_request_def handle_get_request_def)

lemma get_then_delete_no_conflict: "snd (handle_get_then_delete_request env req s) \<noteq> Inl Conflict"
  by (auto simp: handle_get_then_delete_request_def handle_get_request_def handle_delete_request_def
      delete_request_admission_check_def Let_def split: option.splits)

text \<open>The transactional requests never fail with a conflict, and they change the store only if the
  object is owned by the owner that the request names.\<close>

theorem transactions_do_not_conflict:
  "snd (handle_get_then_update_request env it ureq s) \<noteq> Inl Conflict \<and>
   snd (handle_get_then_delete_request env dreq s) \<noteq> Inl Conflict \<and>
   (fst (handle_get_then_update_request env it ureq s) = s \<or>
      (\<exists>obj. resources s (get_then_update_request_key ureq) = Some obj \<and>
         owner_references_contains (obj_metadata obj) (get_then_update_owner_ref ureq))) \<and>
   (fst (handle_get_then_delete_request env dreq s) = s \<or>
      (\<exists>obj. resources s (get_then_delete_key dreq) = Some obj \<and>
         owner_references_contains (obj_metadata obj) (get_then_delete_owner_ref dreq)))"
  using get_then_update_no_conflict get_then_delete_no_conflict get_then_update_owned get_then_delete_owned by blast

end
