(* ===== verification/Anvil_Example.thy ===== *)
theory Anvil_Example
  imports Anvil_Progress Anvil_Guarantees
begin

text \<open>
  An example: a cluster with one controller for pods, which reads the pod that it reconciles. In the execution below
  the pod monkey creates a pod, the controller reconciles it and waits for the response to its read, and the reconcile
  ends. The execution is fair, and the properties of executions apply to it.
\<close>

section \<open>The cluster\<close>

definition example_model :: ReconcileModel where
  "example_model =
     \<lparr>rm_kind = PodKind, rm_init = ''init'',
      rm_transition = (\<lambda>cr resp l. if l = ''init'' then (''read'', Some (KubernetesRequest (GetReq \<lparr>get_key = example_key\<rparr>)))
                                   else (''done'', None)),
      rm_done = (\<lambda>l. l = ''done''), rm_error = (\<lambda>l. False)\<rparr>"

definition example_cluster :: Cluster where
  "example_cluster =
     \<lparr>installed_types = Map.empty, controller_models = [1 \<mapsto> \<lparr>reconcile_model = example_model, external_model = None\<rparr>]\<rparr>"

definition example_cluster_env :: cluster_env where
  "example_cluster_env = \<lparr>env_api = example_env, env_pick_pod_step = (\<lambda>_. CreatePod)\<rparr>"

definition example_pod_view :: MarshalledPod where
  "example_pod_view =
     \<lparr>mpod_metadata = object_meta_default\<lparr>om_name := Some ''p'', om_namespace := Some ''n''\<rparr>, mpod_spec = ''a'', mpod_status = []\<rparr>"

definition stored_pod :: DynamicObjectView where
  "stored_pod =
     \<lparr>obj_kind = PodKind,
      obj_metadata = object_meta_default\<lparr>om_name := Some ''p'', om_namespace := Some ''n'', om_resource_version := Some 0,
        om_uid := Some 0\<rparr>, obj_spec = ''a'', obj_status = []\<rparr>"

definition pod_create_msg :: Message where
  "pod_create_msg = pod_monkey_req_msg 0 (create_req_msg_content ''n'' (pod_marshal example_pod_view))"

definition pod_created_msg :: Message where
  "pod_created_msg = form_api_resp_msg pod_create_msg (CreateResp (Inr stored_pod))"

definition pod_get_msg :: Message where
  "pod_get_msg = controller_req_msg 1 example_key 1 (GetReq \<lparr>get_key = example_key\<rparr>)"

definition pod_got_msg :: Message where
  "pod_got_msg = form_api_resp_msg pod_get_msg (GetResp (Inr stored_pod))"

definition example_state ::
    "APIServerState \<Rightarrow> Message multiset \<Rightarrow> RPCId \<Rightarrow> (ObjectRef \<rightharpoonup> OngoingReconcile) \<Rightarrow> (ObjectRef \<rightharpoonup> DynamicObjectView) \<Rightarrow>
       ReconcileId \<Rightarrow> ClusterState" where
  "example_state store msgs ids ongoing scheduled rid =
     \<lparr>cs_api_server = store,
      controller_and_externals = [1 \<mapsto> \<lparr>ce_controller = \<lparr>ongoing_reconciles = ongoing, scheduled_reconciles = scheduled,
         reconcile_id_allocator = \<lparr>reconcile_id_counter = rid\<rparr>\<rparr>, ce_external = None, crash_enabled = True\<rparr>],
      cs_network = \<lparr>in_flight = msgs\<rparr>, rpc_id_allocator = \<lparr>rpc_id_counter = ids\<rparr>, req_drop_enabled = True,
      pod_monkey_enabled = True\<rparr>"

definition empty_store :: APIServerState where
  "empty_store = \<lparr>resources = Map.empty, uid_counter = 0, resource_version_counter = 0\<rparr>"

definition pod_store :: APIServerState where
  "pod_store = \<lparr>resources = [example_key \<mapsto> stored_pod], uid_counter = 1, resource_version_counter = 1\<rparr>"

definition example_rec :: "Message option \<Rightarrow> ReconcileLocalState \<Rightarrow> OngoingReconcile" where
  "example_rec p l = \<lparr>triggering_cr = stored_pod, pending_req_msg = p, local_state = l, reconcile_id = 0\<rparr>"

definition example_run :: "ClusterState list" where
  "example_run =
     [example_state empty_store {#} 0 Map.empty Map.empty 0,
      example_state empty_store {#pod_create_msg#} 1 Map.empty Map.empty 0,
      example_state pod_store {#pod_created_msg#} 1 Map.empty Map.empty 0,
      example_state pod_store {#pod_created_msg#} 1 Map.empty [example_key \<mapsto> stored_pod] 0,
      example_state pod_store {#pod_created_msg#} 1 [example_key \<mapsto> example_rec None ''init''] Map.empty 1,
      example_state pod_store {#pod_created_msg, pod_get_msg#} 2 [example_key \<mapsto> example_rec (Some pod_get_msg) ''read''] Map.empty 1,
      example_state pod_store {#pod_created_msg, pod_got_msg#} 2 [example_key \<mapsto> example_rec (Some pod_get_msg) ''read''] Map.empty 1,
      example_state pod_store {#pod_created_msg#} 2 [example_key \<mapsto> example_rec None ''done''] Map.empty 1,
      example_state pod_store {#pod_created_msg#} 2 Map.empty Map.empty 1]"

definition example_steps :: "Step list" where
  "example_steps =
     [PodMonkeyStep example_pod_view, APIServerStep (Some pod_create_msg), ScheduleControllerReconcileStep (1, example_key),
      ControllerStep (1, None, Some example_key), ControllerStep (1, None, Some example_key), APIServerStep (Some pod_get_msg),
      ControllerStep (1, Some pod_got_msg, Some example_key), ControllerStep (1, None, Some example_key)]"

definition example_ex :: "nat \<Rightarrow> ClusterState" where
  "example_ex i = example_run ! min i 8"

section \<open>Its steps\<close>

lemma example_state_in_flight [simp]: "cs_in_flight (example_state store msgs ids ongoing scheduled rid) = msgs"
  by (simp add: cs_in_flight_def example_state_def)

lemma ex_PodMonkeyStep: "(\<exists>step. P step) \<longleftrightarrow> P CreatePod \<or> P UpdatePod \<or> P UpdatePodStatus \<or> P DeletePod"
  by (metis PodMonkeyStep.exhaust)

lemma ex_ControllerStep: "(\<exists>step. P step) \<longleftrightarrow> P RunScheduledReconcile \<or> P ContinueReconcile \<or> P EndReconcile"
  by (metis ControllerStep.exhaust)

lemma example_pod_monkey_step:
  "action_forward (pod_monkey_next example_cluster_env) example_pod_view
     (example_state empty_store {#} 0 Map.empty Map.empty 0) (example_state empty_store {#pod_create_msg#} 1 Map.empty Map.empty 0)"
  by (simp add: action_forward_def pod_monkey_next_def next_result_def ex_PodMonkeyStep pod_monkey_def create_pod_def
    pod_monkey_action_def example_cluster_env_def example_state_def rpc_allocate_def pod_create_msg_def example_pod_view_def Let_def)

lemma example_create:
  "handle_api_request example_env Map.empty (CreateReq \<lparr>create_namespace = ''n'', create_obj = pod_marshal example_pod_view\<rparr>) empty_store =
     (pod_store, CreateResp (Inr stored_pod))"
  by (simp add: handle_create_request_def create_request_admission_check_def created_object_def created_object_validity_check_def
    metadata_validity_check_def object_validity_check_def valid_object_def unmarshallable_object_def unmarshallable_spec_def
    unmarshallable_status_def marshalled_default_status_def type_of_kind_def pod_marshal_def example_pod_view_def empty_store_def
    pod_store_def stored_pod_def example_defs object_ref_def Let_def)

lemma example_create_step:
  "action_forward (api_server_next example_cluster_env example_cluster) (Some pod_create_msg)
     (example_state empty_store {#pod_create_msg#} 1 Map.empty Map.empty 0)
     (example_state pod_store {#pod_created_msg#} 1 Map.empty Map.empty 0)"
  using example_create
  by (simp add: api_server_forward transition_by_etcd_def example_cluster_env_def example_cluster_def example_state_def
    cs_in_flight_def pod_created_msg_def) (simp add: pod_create_msg_def pod_monkey_req_msg_def create_req_msg_content_def)

lemma example_schedule_step:
  "action_forward (schedule_controller_reconcile example_cluster) (1, example_key)
     (example_state pod_store M n Map.empty Map.empty 0) (example_state pod_store M n Map.empty [example_key \<mapsto> stored_pod] 0)"
  by (simp add: action_forward_def schedule_controller_reconcile_def example_state_def cs_resources_def pod_store_def
    example_cluster_def example_model_def example_key_def Let_def)

lemmas example_controller_defs = action_forward_def controller_next_def chosen_controller_next_def next_result_def
  ex_ControllerStep choose_controller_step_def controller_def run_scheduled_reconcile_def continue_reconcile_def end_reconcile_def
  example_state_def example_cluster_def example_model_def example_rec_def received_msg_destined_for_def
  reconcile_allocate_def rpc_allocate_def Let_def

lemma example_start_step:
  "action_forward (controller_next example_cluster) (1, None, Some example_key)
     (example_state pod_store M n Map.empty [example_key \<mapsto> stored_pod] 0)
     (example_state pod_store M n [example_key \<mapsto> example_rec None ''init''] Map.empty 1)"
  by (simp add: example_controller_defs) (simp add: example_key_def)

lemma example_request_step:
  "action_forward (controller_next example_cluster) (1, None, Some example_key)
     (example_state pod_store {#pod_created_msg#} 1 [example_key \<mapsto> example_rec None ''init''] Map.empty 1)
     (example_state pod_store {#pod_created_msg, pod_get_msg#} 2 [example_key \<mapsto> example_rec (Some pod_get_msg) ''read''] Map.empty 1)"
  by (simp add: example_controller_defs pod_get_msg_def) (simp add: example_key_def)

lemma example_get_step:
  "action_forward (api_server_next example_cluster_env example_cluster) (Some pod_get_msg)
     (example_state pod_store {#pod_created_msg, pod_get_msg#} 2 ongoing scheduled rid)
     (example_state pod_store {#pod_created_msg, pod_got_msg#} 2 ongoing scheduled rid)"
  by (simp add: api_server_forward transition_by_etcd_def example_cluster_env_def example_cluster_def example_state_def
    cs_in_flight_def pod_got_msg_def)
    (simp add: pod_get_msg_def controller_req_msg_def handle_get_request_def pod_store_def)

lemma example_read_step:
  "action_forward (controller_next example_cluster) (1, Some pod_got_msg, Some example_key)
     (example_state pod_store {#pod_created_msg, pod_got_msg#} 2 [example_key \<mapsto> example_rec (Some pod_get_msg) ''read''] Map.empty 1)
     (example_state pod_store {#pod_created_msg#} 2 [example_key \<mapsto> example_rec None ''done''] Map.empty 1)"
proof -
  have "resp_msg_matches_req_msg pod_got_msg pod_get_msg" "msg_dst pod_got_msg = Controller 1 example_key"
    "is_api_response (msg_content pod_got_msg)" "ref_kind example_key = PodKind"
    by (simp_all add: resp_msg_matches_req_msg_def pod_got_msg_def pod_get_msg_def controller_req_msg_def example_key_def)
  then show ?thesis by (simp add: example_controller_defs)
qed

lemma example_end_step:
  "action_forward (controller_next example_cluster) (1, None, Some example_key)
     (example_state pod_store M n [example_key \<mapsto> example_rec None ''done''] Map.empty 1)
     (example_state pod_store M n Map.empty Map.empty 1)"
  by (simp add: example_controller_defs) (simp add: example_key_def)

lemma example_run_steps:
  "i < 8 \<Longrightarrow> cluster_next_step example_cluster_env example_cluster (example_run ! i) (example_run ! Suc i) (example_steps ! i)"
  using example_pod_monkey_step example_create_step example_schedule_step example_start_step example_request_step
    example_get_step example_read_step example_end_step
  by (simp add: numeral_eq_Suc less_Suc_eq example_run_def example_steps_def) (auto simp: numeral_eq_Suc)

lemma example_ex_next: "cluster_next example_cluster_env example_cluster (example_ex i) (example_ex (Suc i))"
proof (cases "i < 8")
  case True
  then have "min i 8 = i" "min (Suc i) 8 = Suc i" by simp_all
  with example_run_steps [OF True] show ?thesis by (auto simp: cluster_next_def example_ex_def)
next
  case False
  then have "example_ex (Suc i) = example_ex i" by (simp add: example_ex_def)
  then show ?thesis unfolding cluster_next_def by (intro exI [of _ StutterStep]) (simp add: action_forward_def stutter_def)
qed

lemma example_ex_init: "cluster_init example_cluster_env example_cluster (example_ex 0)"
  by (simp add: cluster_init_def example_ex_def example_run_def example_state_def empty_store_def api_server_def
    builtin_controllers_def network_def controller_def example_cluster_def)

lemma example_ex_spec: "cluster_spec example_cluster_env example_cluster example_ex"
  by (simp add: cluster_spec_def tla_and_def lift_state_def head_def example_ex_init always_def lift_action_def
    head_next_def example_ex_next ex_suffix_def)

section \<open>It is fair\<close>

text \<open>In the last state no step of the API server, an external system or the controller is enabled.\<close>

lemma example_quiet:
  assumes "8 \<le> i"
  shows "\<not> action_pre (api_server_next example_cluster_env example_cluster) x (example_ex i)"
    "\<not> action_pre (external_next example_cluster) y (example_ex i)"
    "\<not> action_pre (controller_next example_cluster) z (example_ex i)"
proof -
  let ?s = "example_state pod_store {#pod_created_msg#} 2 Map.empty Map.empty 1"
  have s: "example_ex i = ?s" using assms by (simp add: example_ex_def example_run_def)
  have m: "msg_dst pod_created_msg = PodMonkey" by (simp add: pod_created_msg_def pod_create_msg_def pod_monkey_req_msg_def)
  show "\<not> action_pre (api_server_next example_cluster_env example_cluster) x (example_ex i)"
    by (auto simp: action_pre_forward api_server_forward s m)
  show "\<not> action_pre (external_next example_cluster) y (example_ex i)"
    by (cases y) (auto simp: action_pre_forward external_forward s m)
  show "\<not> action_pre (controller_next example_cluster) z (example_ex i)"
    by (cases z) (auto simp: action_pre_def s example_controller_defs split: option.splits if_splits)
qed

lemma quiet_fair:
  assumes "\<And>i. 8 \<le> i \<Longrightarrow> \<not> action_pre a input (ex i)"
  shows "action_weak_fairness a input ex"
proof -
  have "\<not> always (lift_state (action_pre a input)) (ex_suffix ex i)" for i
    using assms [of "8 + i"] by (auto simp: always_def lift_state_def head_def ex_suffix_def intro!: exI [of _ 8])
  then show ?thesis by (simp add: action_weak_fairness_def leads_to_iff)
qed

lemma example_ex_fair: "fair_cluster example_cluster_env example_cluster example_ex"
  unfolding fair_cluster_def tla_and_def tla_forall_def
  by (intro conjI allI quiet_fair) (simp_all only: example_quiet not_False_eq_True)

section \<open>The properties of executions, for the example\<close>

text \<open>In the fifth state of the execution the reconcile waits, and its request is in flight; in the sixth the response is.\<close>

lemma example_waits: "waits_for 1 example_key pod_get_msg (example_ex 5)"
  by (simp add: waits_for_iff example_ex_def example_run_def example_state_def controller_of_def example_rec_def)

theorem pending_requests_are_tracked_witness:
  "controller_models example_cluster 1 \<noteq> None \<and> has_pending_req_msg 1 (example_ex 5) example_key \<and>
   pod_get_msg \<in># cs_in_flight (example_ex 5) \<and>
   pending_req_in_flight_xor_resp_in_flight_if_has_pending_req_msg 1 example_key (example_ex 5)"
proof -
  have c: "controller_models example_cluster 1 \<noteq> None" by (simp add: example_cluster_def)
  moreover have "has_pending_req_msg 1 (example_ex 5) example_key" "pod_get_msg \<in># cs_in_flight (example_ex 5)"
    by (simp_all add: has_pending_req_msg_def example_ex_def example_run_def example_state_def controller_of_def example_rec_def
      pod_get_msg_def controller_req_msg_def cs_in_flight_def)
  moreover have "pending_req_in_flight_xor_resp_in_flight_if_has_pending_req_msg 1 example_key (example_ex 5)"
    using pending_requests_are_tracked [unfolded always_lift_state, rule_format, OF example_ex_spec c] by blast
  ultimately show ?thesis by blast
qed

theorem reconciles_are_consistent_witness:
  "controller_models example_cluster 1 \<noteq> None \<and> cs_ongoing_reconciles (example_ex 5) 1 example_key \<noteq> None \<and>
   each_object_in_reconcile_has_consistent_key_and_valid_metadata 1 (example_ex 5) \<and>
   every_ongoing_reconcile_has_unique_id 1 (example_ex 5)"
proof -
  have c: "controller_models example_cluster 1 \<noteq> None" by (simp add: example_cluster_def)
  moreover have "cs_ongoing_reconciles (example_ex 5) 1 example_key \<noteq> None" using example_waits by (auto simp: waits_for_def)
  moreover note reconciles_are_consistent [unfolded always_lift_state, rule_format, OF example_ex_spec c, of 5]
  ultimately show ?thesis by blast
qed

theorem no_reconcile_waits_for_ever_witness:
  "waits_for 1 example_key pod_get_msg (example_ex 5) \<and> (\<exists>j. \<not> waits_for 1 example_key pod_get_msg (example_ex (5 + j)))"
proof -
  have c: "controller_models example_cluster 1 = Some \<lparr>reconcile_model = example_model, external_model = None\<rparr>"
    by (simp add: example_cluster_def)
  have dst: "msg_dst pod_get_msg = APIServer \<or> external_model \<lparr>reconcile_model = example_model, external_model = None\<rparr> \<noteq> None"
    by (simp add: pod_get_msg_def controller_req_msg_def)
  have "tla_and (cluster_spec example_cluster_env example_cluster) (fair_cluster example_cluster_env example_cluster) example_ex"
    by (simp add: tla_and_def example_ex_spec example_ex_fair)
  from no_reconcile_waits_for_ever [OF c dst, unfolded leads_to_lift, rule_format, OF this example_waits] example_waits
  show ?thesis by blast
qed

end
