(* ===== verification/Prelude.thy ===== *)
theory Prelude
  imports Main "HOL-Library.Word" "HOL-Library.AList"
begin

text \<open>
  Shared vocabulary of the development: the machine types of the Rust sources, the result type
  \<open>outcome\<close> of code that may panic or fail to return, the vector primitives of the Rust standard
  library that the sources call with an index they do not check, and the list, map and word lemmas
  that several components use. The collection \<open>outcome_simps\<close> holds the equations that evaluate
  monadic code.
\<close>

named_theorems outcome_simps \<open>evaluation of code over outcomes\<close>

section \<open>Machine types\<close>

type_synonym u8 = "8 word"
type_synonym u64 = "64 word"
type_synonym bytes = "u8 list"

text \<open>The targets are 64-bit: a \<open>usize\<close> ranges over the values below \<open>2 ^ 64\<close>. Vector lengths and
  indices are natural numbers; code that compares them with the limit names it.\<close>

definition usize_max :: nat where
  "usize_max = 2 ^ 64 - 1"

definition isize_max :: nat where
  "isize_max = 2 ^ 63 - 1"

definition u64_max :: u64 where
  "u64_max = 0xffffffffffffffff"

section \<open>Outcomes\<close>

text \<open>The result of running Rust code: a value, a panic (an explicit \<open>panic!()\<close>, an index out of
  range, an \<open>unwrap\<close> of \<open>None\<close>, a capacity overflow), or no return at all.\<close>

datatype 'a outcome = Ret 'a | Panic | Diverge

fun bind_outcome :: "'a outcome \<Rightarrow> ('a \<Rightarrow> 'b outcome) \<Rightarrow> 'b outcome" where
  "bind_outcome (Ret a) f = f a"
| "bind_outcome Panic f = Panic"
| "bind_outcome Diverge f = Diverge"

fun unwrap :: "'a option \<Rightarrow> 'a outcome" where
  "unwrap (Some a) = Ret a"
| "unwrap None = Panic"

declare bind_outcome.simps [outcome_simps] unwrap.simps [outcome_simps]

lemma bind_outcome_Ret_iff [outcome_simps]:
  "bind_outcome m f = Ret b \<longleftrightarrow> (\<exists>a. m = Ret a \<and> f a = Ret b)"
  by (cases m) auto

lemma bind_outcome_assoc:
  "bind_outcome (bind_outcome m f) g = bind_outcome m (\<lambda>a. bind_outcome (f a) g)"
  by (cases m) auto

lemma unwrap_Ret_iff [outcome_simps]: "unwrap x = Ret a \<longleftrightarrow> x = Some a"
  by (cases x) auto

lemma bind_outcome_cong [fundef_cong]:
  "m = m' \<Longrightarrow> (\<And>a. m' = Ret a \<Longrightarrow> f a = f' a) \<Longrightarrow> bind_outcome m f = bind_outcome m' f'"
  by (cases m') auto

section \<open>Vectors\<close>

text \<open>Subtraction on \<open>usize\<close>, which panics below zero, and the indexed operations of \<open>Vec\<close>, which panic out of range.\<close>

definition usize_sub :: "nat \<Rightarrow> nat \<Rightarrow> nat outcome" where
  "usize_sub a b = (if b \<le> a then Ret (a - b) else Panic)"

definition vec_index :: "'a list \<Rightarrow> nat \<Rightarrow> 'a outcome" where
  "vec_index v i = (if i < length v then Ret (v ! i) else Panic)"

definition vec_set :: "'a list \<Rightarrow> nat \<Rightarrow> 'a \<Rightarrow> 'a list outcome" where
  "vec_set v i x = (if i < length v then Ret (v[i := x]) else Panic)"

definition vec_remove :: "'a list \<Rightarrow> nat \<Rightarrow> ('a \<times> 'a list) outcome" where
  "vec_remove v i = (if i < length v then Ret (v ! i, take i v @ drop (Suc i) v) else Panic)"

definition vec_insert :: "'a list \<Rightarrow> nat \<Rightarrow> 'a \<Rightarrow> 'a list outcome" where
  "vec_insert v i x = (if i \<le> length v then Ret (take i v @ x # drop i v) else Panic)"

lemma vec_index_Ret [outcome_simps]: "i < length v \<Longrightarrow> vec_index v i = Ret (v ! i)"
  by (simp add: vec_index_def)

lemma vec_set_Ret [outcome_simps]: "i < length v \<Longrightarrow> vec_set v i x = Ret (v[i := x])"
  by (simp add: vec_set_def)

lemma vec_remove_Ret [outcome_simps]:
  "i < length v \<Longrightarrow> vec_remove v i = Ret (v ! i, take i v @ drop (Suc i) v)"
  by (simp add: vec_remove_def)

lemma vec_insert_Ret [outcome_simps]:
  "i \<le> length v \<Longrightarrow> vec_insert v i x = Ret (take i v @ x # drop i v)"
  by (simp add: vec_insert_def)

section \<open>Loops over vectors\<close>

text \<open>\<open>while i < v.len() && P(v[i]) { i = i + 1 }\<close>\<close>

function scan_while :: "('a \<Rightarrow> bool) \<Rightarrow> 'a list \<Rightarrow> nat \<Rightarrow> nat" where
  "scan_while P v i = (if i < length v \<and> P (v ! i) then scan_while P v (Suc i) else i)"
  by pat_completeness auto
termination
  by (relation "measure (\<lambda>(P, v, i). length v - i)") auto

declare scan_while.simps [simp del]

lemma scan_while_eq: "i \<le> length v \<Longrightarrow> scan_while P v i = i + length (takeWhile P (drop i v))"
proof (induction P v i rule: scan_while.induct)
  case (1 P v i)
  show ?case
  proof (cases "i < length v")
    case True
    then have "drop i v = v ! i # drop (Suc i) v" by (simp add: Cons_nth_drop_Suc)
    with True 1 show ?thesis by (subst scan_while.simps) auto
  next
    case False
    with 1 show ?thesis by (subst scan_while.simps) auto
  qed
qed

section \<open>Lists\<close>

text \<open>On a sorted list, the prefix satisfying a downward closed predicate is a filter.\<close>

lemma sorted_wrt_takeWhile_dropWhile:
  assumes "sorted_wrt R xs" and "\<And>x y. R x y \<Longrightarrow> P y \<Longrightarrow> P x"
  shows "takeWhile P xs = filter P xs" and "dropWhile P xs = filter (\<lambda>x. \<not> P x) xs"
proof -
  have "takeWhile P xs = filter P xs \<and> dropWhile P xs = filter (\<lambda>x. \<not> P x) xs"
    using assms(1)
  proof (induction xs)
    case (Cons x xs)
    show ?case
    proof (cases "P x")
      case False
      with Cons.prems assms(2) have "filter P xs = []" "filter (\<lambda>x. \<not> P x) xs = xs"
        by (auto simp: filter_empty_conv filter_id_conv)
      with False show ?thesis by simp
    qed (use Cons in simp)
  qed simp
  then show "takeWhile P xs = filter P xs" and "dropWhile P xs = filter (\<lambda>x. \<not> P x) xs"
    by simp_all
qed

lemma take_length_takeWhile [simp]: "take (length (takeWhile P xs)) xs = takeWhile P xs"
  by (metis takeWhile_eq_take)

lemma drop_length_takeWhile [simp]: "drop (length (takeWhile P xs)) xs = dropWhile P xs"
  by (metis dropWhile_eq_drop)

text \<open>One step of a loop whose invariant is about the indices still to come.\<close>

lemma all_from_Suc:
  "i < n \<Longrightarrow> (\<forall>j. i \<le> j \<and> j < n \<longrightarrow> P j) \<longleftrightarrow> P i \<and> (\<forall>j. Suc i \<le> j \<and> j < n \<longrightarrow> P j)"
  by (metis Suc_leD Suc_leI le_eq_less_or_eq order_refl)

lemma set_take_insert_drop: "set (take i xs @ x # drop i xs) = insert x (set xs)"
proof -
  have "set xs = set (take i xs) \<union> set (drop i xs)"
    by (metis append_take_drop_id set_append)
  then show ?thesis by auto
qed

lemma zip_take_insert_drop:
  "length xs = length ys \<Longrightarrow>
   zip (take i xs @ x # drop i xs) (take i ys @ y # drop i ys) =
   take i (zip xs ys) @ (x, y) # drop i (zip xs ys)"
  by (simp add: take_zip drop_zip)

lemma zip_take_drop_erase:
  "length xs = length ys \<Longrightarrow>
   zip (take i xs @ drop j xs) (take i ys @ drop j ys) = take i (zip xs ys) @ drop j (zip xs ys)"
  by (simp add: take_zip drop_zip)

lemma map_of_insert_at:
  "k \<notin> fst ` set z \<Longrightarrow> map_of (take i z @ (k, v) # drop i z) = (map_of z)(k \<mapsto> v)"
proof -
  assume k: "k \<notin> fst ` set z"
  have "fst ` set (take i z) \<subseteq> fst ` set z"
    by (intro image_mono set_take_subset)
  then have tk: "map_of (take i z) k = None"
    using k by (auto simp: map_of_eq_None_iff)
  have "map_of z = map_of (drop i z) ++ map_of (take i z)"
    by (metis append_take_drop_id map_of_append)
  with tk show ?thesis
    by (auto simp: fun_eq_iff map_add_def split: option.splits)
qed

lemma map_of_erase:
  assumes "distinct (map fst (xs @ ys @ zs))"
  shows "map_of (xs @ zs) = map_of (xs @ ys @ zs) |` (fst ` set (xs @ zs))"
proof
  fix k
  show "map_of (xs @ zs) k = (map_of (xs @ ys @ zs) |` (fst ` set (xs @ zs))) k"
  proof (cases "k \<in> fst ` set (xs @ zs)")
    case True
    with assms have "map_of ys k = None" by (auto simp: map_of_eq_None_iff)
    with True show ?thesis by (auto simp: map_add_def split: option.splits)
  next
    case False
    then show ?thesis by (simp add: restrict_map_def map_of_eq_None_iff del: map_of_append)
  qed
qed

lemma map_of_zip_index:
  "distinct ks \<Longrightarrow> length ks = length vs \<Longrightarrow> i < length ks \<Longrightarrow> map_of (zip ks vs) (ks ! i) = Some (vs ! i)"
  by (simp add: map_of_zip_nth)

lemma dom_map_of_zip': "length ks = length vs \<Longrightarrow> dom (map_of (zip ks vs)) = set ks"
  by (simp add: dom_map_of_zip)

end
