(* ===== verification/Anvil_Pod_Types.thy ===== *)
theory Anvil_Pod_Types
  imports Anvil_Objects
begin

text \<open>
  The data of a pod as Anvil's specifications see it (\<open>affinity.rs\<close>, \<open>toleration.rs\<close>, \<open>resource_requirements.rs\<close>,
  \<open>label_selector.rs\<close>, \<open>volume.rs\<close>, \<open>container.rs\<close>, \<open>pod.rs\<close>, \<open>pod_template_spec.rs\<close> in \<open>kubernetes_api_objects/spec/\<close> below
  \<open>src/projects/anvil-main/src/\<close>): one record per struct with its default value and the functions that set one field.
  The name of a field is preceded by the name of its struct.
\<close>

type_synonym EmptyStatusView = unit
type_synonym PodStatusView = EmptyStatusView

datatype AffinityView = AffinityView

definition affinity_default :: AffinityView where
  "affinity_default =
     AffinityView"

datatype TolerationView = TolerationView

definition toleration_default :: TolerationView where
  "toleration_default =
     TolerationView"

record ResourceRequirementsView =
  requirements_limits :: "(StringView \<rightharpoonup> StringView) option"
  requirements_requests :: "(StringView \<rightharpoonup> StringView) option"

definition requirements_default :: ResourceRequirementsView where
  "requirements_default =
     \<lparr>requirements_limits = None, requirements_requests = None\<rparr>"

definition requirements_with_limits :: "ResourceRequirementsView \<Rightarrow> (StringView \<rightharpoonup> StringView) \<Rightarrow> ResourceRequirementsView" where
  "requirements_with_limits s x = s\<lparr>requirements_limits := Some x\<rparr>"

definition requirements_with_requests :: "ResourceRequirementsView \<Rightarrow> (StringView \<rightharpoonup> StringView) \<Rightarrow> ResourceRequirementsView" where
  "requirements_with_requests s x = s\<lparr>requirements_requests := Some x\<rparr>"

record LabelSelectorView =
  selector_match_labels :: "(StringView \<rightharpoonup> StringView) option"

definition selector_default :: LabelSelectorView where
  "selector_default =
     \<lparr>selector_match_labels = None\<rparr>"

definition selector_with_match_labels :: "LabelSelectorView \<Rightarrow> (StringView \<rightharpoonup> StringView) \<Rightarrow> LabelSelectorView" where
  "selector_with_match_labels s x = s\<lparr>selector_match_labels := Some x\<rparr>"

record EmptyDirVolumeSourceView =
  empty_dir_source_medium :: "StringView option"
  empty_dir_source_size_limit :: "StringView option"

definition empty_dir_source_default :: EmptyDirVolumeSourceView where
  "empty_dir_source_default =
     \<lparr>empty_dir_source_medium = None, empty_dir_source_size_limit = None\<rparr>"

record HostPathVolumeSourceView =
  host_path_source_path :: StringView

definition host_path_source_default :: HostPathVolumeSourceView where
  "host_path_source_default =
     \<lparr>host_path_source_path = []\<rparr>"

definition host_path_source_with_path :: "HostPathVolumeSourceView \<Rightarrow> StringView \<Rightarrow> HostPathVolumeSourceView" where
  "host_path_source_with_path s x = s\<lparr>host_path_source_path := x\<rparr>"

record ConfigMapVolumeSourceView =
  config_map_source_name :: "StringView option"

definition config_map_source_default :: ConfigMapVolumeSourceView where
  "config_map_source_default =
     \<lparr>config_map_source_name = None\<rparr>"

definition config_map_source_with_name :: "ConfigMapVolumeSourceView \<Rightarrow> StringView \<Rightarrow> ConfigMapVolumeSourceView" where
  "config_map_source_with_name s x = s\<lparr>config_map_source_name := Some x\<rparr>"

record SecretVolumeSourceView =
  secret_source_secret_name :: "StringView option"

definition secret_source_default :: SecretVolumeSourceView where
  "secret_source_default =
     \<lparr>secret_source_secret_name = None\<rparr>"

definition secret_source_with_secret_name :: "SecretVolumeSourceView \<Rightarrow> StringView \<Rightarrow> SecretVolumeSourceView" where
  "secret_source_with_secret_name s x = s\<lparr>secret_source_secret_name := Some x\<rparr>"

record KeyToPathView =
  key_to_path_key :: StringView
  key_to_path_path :: StringView

definition key_to_path_default :: KeyToPathView where
  "key_to_path_default =
     \<lparr>key_to_path_key = [], key_to_path_path = []\<rparr>"

definition key_to_path_with_key :: "KeyToPathView \<Rightarrow> StringView \<Rightarrow> KeyToPathView" where
  "key_to_path_with_key s x = s\<lparr>key_to_path_key := x\<rparr>"

definition key_to_path_with_path :: "KeyToPathView \<Rightarrow> StringView \<Rightarrow> KeyToPathView" where
  "key_to_path_with_path s x = s\<lparr>key_to_path_path := x\<rparr>"

record ConfigMapProjectionView =
  config_map_projection_items :: "KeyToPathView list option"
  config_map_projection_name :: "StringView option"

definition config_map_projection_default :: ConfigMapProjectionView where
  "config_map_projection_default =
     \<lparr>config_map_projection_items = None, config_map_projection_name = None\<rparr>"

definition config_map_projection_with_items :: "ConfigMapProjectionView \<Rightarrow> KeyToPathView list \<Rightarrow> ConfigMapProjectionView" where
  "config_map_projection_with_items s x = s\<lparr>config_map_projection_items := Some x\<rparr>"

definition config_map_projection_with_name :: "ConfigMapProjectionView \<Rightarrow> StringView \<Rightarrow> ConfigMapProjectionView" where
  "config_map_projection_with_name s x = s\<lparr>config_map_projection_name := Some x\<rparr>"

record SecretProjectionView =
  secret_projection_items :: "KeyToPathView list option"
  secret_projection_name :: "StringView option"

definition secret_projection_default :: SecretProjectionView where
  "secret_projection_default =
     \<lparr>secret_projection_items = None, secret_projection_name = None\<rparr>"

definition secret_projection_with_items :: "SecretProjectionView \<Rightarrow> KeyToPathView list \<Rightarrow> SecretProjectionView" where
  "secret_projection_with_items s x = s\<lparr>secret_projection_items := Some x\<rparr>"

definition secret_projection_with_name :: "SecretProjectionView \<Rightarrow> StringView \<Rightarrow> SecretProjectionView" where
  "secret_projection_with_name s x = s\<lparr>secret_projection_name := Some x\<rparr>"

record VolumeProjectionView =
  volume_projection_config_map :: "ConfigMapProjectionView option"
  volume_projection_secret :: "SecretProjectionView option"

definition volume_projection_default :: VolumeProjectionView where
  "volume_projection_default =
     \<lparr>volume_projection_config_map = None, volume_projection_secret = None\<rparr>"

definition volume_projection_with_config_map :: "VolumeProjectionView \<Rightarrow> ConfigMapProjectionView \<Rightarrow> VolumeProjectionView" where
  "volume_projection_with_config_map s x = s\<lparr>volume_projection_config_map := Some x\<rparr>"

definition volume_projection_with_secret :: "VolumeProjectionView \<Rightarrow> SecretProjectionView \<Rightarrow> VolumeProjectionView" where
  "volume_projection_with_secret s x = s\<lparr>volume_projection_secret := Some x\<rparr>"

record ProjectedVolumeSourceView =
  projected_source_sources :: "VolumeProjectionView list option"

definition projected_source_default :: ProjectedVolumeSourceView where
  "projected_source_default =
     \<lparr>projected_source_sources = None\<rparr>"

definition projected_source_with_sources :: "ProjectedVolumeSourceView \<Rightarrow> VolumeProjectionView list \<Rightarrow> ProjectedVolumeSourceView" where
  "projected_source_with_sources s x = s\<lparr>projected_source_sources := Some x\<rparr>"

record ObjectFieldSelectorView =
  field_selector_field_path :: StringView
  field_selector_api_version :: "StringView option"

definition field_selector_default :: ObjectFieldSelectorView where
  "field_selector_default =
     \<lparr>field_selector_field_path = [], field_selector_api_version = None\<rparr>"

definition field_selector_with_field_path :: "ObjectFieldSelectorView \<Rightarrow> StringView \<Rightarrow> ObjectFieldSelectorView" where
  "field_selector_with_field_path s x = s\<lparr>field_selector_field_path := x\<rparr>"

definition field_selector_with_api_version :: "ObjectFieldSelectorView \<Rightarrow> StringView \<Rightarrow> ObjectFieldSelectorView" where
  "field_selector_with_api_version s x = s\<lparr>field_selector_api_version := Some x\<rparr>"

record DownwardAPIVolumeFileView =
  downward_api_file_field_ref :: "ObjectFieldSelectorView option"
  downward_api_file_path :: StringView

definition downward_api_file_default :: DownwardAPIVolumeFileView where
  "downward_api_file_default =
     \<lparr>downward_api_file_field_ref = None, downward_api_file_path = []\<rparr>"

definition downward_api_file_with_field_ref :: "DownwardAPIVolumeFileView \<Rightarrow> ObjectFieldSelectorView \<Rightarrow> DownwardAPIVolumeFileView" where
  "downward_api_file_with_field_ref s x = s\<lparr>downward_api_file_field_ref := Some x\<rparr>"

definition downward_api_file_with_path :: "DownwardAPIVolumeFileView \<Rightarrow> StringView \<Rightarrow> DownwardAPIVolumeFileView" where
  "downward_api_file_with_path s x = s\<lparr>downward_api_file_path := x\<rparr>"

record DownwardAPIVolumeSourceView =
  downward_api_source_items :: "DownwardAPIVolumeFileView list option"

definition downward_api_source_default :: DownwardAPIVolumeSourceView where
  "downward_api_source_default =
     \<lparr>downward_api_source_items = None\<rparr>"

definition downward_api_source_with_items :: "DownwardAPIVolumeSourceView \<Rightarrow> DownwardAPIVolumeFileView list \<Rightarrow> DownwardAPIVolumeSourceView" where
  "downward_api_source_with_items s x = s\<lparr>downward_api_source_items := Some x\<rparr>"

record PersistentVolumeClaimVolumeSourceView =
  claim_source_claim_name :: StringView
  claim_source_read_only :: "bool option"

definition claim_source_default :: PersistentVolumeClaimVolumeSourceView where
  "claim_source_default =
     \<lparr>claim_source_claim_name = [], claim_source_read_only = None\<rparr>"

definition claim_source_with_claim_name :: "PersistentVolumeClaimVolumeSourceView \<Rightarrow> StringView \<Rightarrow> PersistentVolumeClaimVolumeSourceView" where
  "claim_source_with_claim_name s x = s\<lparr>claim_source_claim_name := x\<rparr>"

definition claim_source_with_read_only :: "PersistentVolumeClaimVolumeSourceView \<Rightarrow> bool \<Rightarrow> PersistentVolumeClaimVolumeSourceView" where
  "claim_source_with_read_only s x = s\<lparr>claim_source_read_only := Some x\<rparr>"

record VolumeView =
  volume_host_path :: "HostPathVolumeSourceView option"
  volume_config_map :: "ConfigMapVolumeSourceView option"
  volume_name :: StringView
  volume_projected :: "ProjectedVolumeSourceView option"
  volume_secret :: "SecretVolumeSourceView option"
  volume_downward_api :: "DownwardAPIVolumeSourceView option"
  volume_empty_dir :: "EmptyDirVolumeSourceView option"
  volume_persistent_volume_claim :: "PersistentVolumeClaimVolumeSourceView option"

definition volume_default :: VolumeView where
  "volume_default =
     \<lparr>volume_host_path = None, volume_config_map = None, volume_name = [], volume_projected = None,
      volume_secret = None, volume_downward_api = None, volume_empty_dir = None,
      volume_persistent_volume_claim = None\<rparr>"

definition volume_with_host_path :: "VolumeView \<Rightarrow> HostPathVolumeSourceView \<Rightarrow> VolumeView" where
  "volume_with_host_path s x = s\<lparr>volume_host_path := Some x\<rparr>"

definition volume_with_config_map :: "VolumeView \<Rightarrow> ConfigMapVolumeSourceView \<Rightarrow> VolumeView" where
  "volume_with_config_map s x = s\<lparr>volume_config_map := Some x\<rparr>"

definition volume_with_name :: "VolumeView \<Rightarrow> StringView \<Rightarrow> VolumeView" where
  "volume_with_name s x = s\<lparr>volume_name := x\<rparr>"

definition volume_with_projected :: "VolumeView \<Rightarrow> ProjectedVolumeSourceView \<Rightarrow> VolumeView" where
  "volume_with_projected s x = s\<lparr>volume_projected := Some x\<rparr>"

definition volume_with_secret :: "VolumeView \<Rightarrow> SecretVolumeSourceView \<Rightarrow> VolumeView" where
  "volume_with_secret s x = s\<lparr>volume_secret := Some x\<rparr>"

definition volume_with_empty_dir :: "VolumeView \<Rightarrow> EmptyDirVolumeSourceView \<Rightarrow> VolumeView" where
  "volume_with_empty_dir s x = s\<lparr>volume_empty_dir := Some x\<rparr>"

definition volume_with_downward_api :: "VolumeView \<Rightarrow> DownwardAPIVolumeSourceView \<Rightarrow> VolumeView" where
  "volume_with_downward_api s x = s\<lparr>volume_downward_api := Some x\<rparr>"

definition volume_with_persistent_volume_claim_source :: "VolumeView \<Rightarrow> PersistentVolumeClaimVolumeSourceView \<Rightarrow> VolumeView" where
  "volume_with_persistent_volume_claim_source s x = s\<lparr>volume_persistent_volume_claim := Some x\<rparr>"

record ExecActionView =
  exec_action_command :: "StringView list option"

definition exec_action_default :: ExecActionView where
  "exec_action_default =
     \<lparr>exec_action_command = None\<rparr>"

definition exec_action_with_command :: "ExecActionView \<Rightarrow> StringView list \<Rightarrow> ExecActionView" where
  "exec_action_with_command s x = s\<lparr>exec_action_command := Some x\<rparr>"

record LifecycleHandlerView =
  lifecycle_handler_exec :: "ExecActionView option"

definition lifecycle_handler_default :: LifecycleHandlerView where
  "lifecycle_handler_default =
     \<lparr>lifecycle_handler_exec = None\<rparr>"

definition lifecycle_handler_with_exec :: "LifecycleHandlerView \<Rightarrow> ExecActionView \<Rightarrow> LifecycleHandlerView" where
  "lifecycle_handler_with_exec s x = s\<lparr>lifecycle_handler_exec := Some x\<rparr>"

record LifecycleView =
  lifecycle_pre_stop :: "LifecycleHandlerView option"

definition lifecycle_default :: LifecycleView where
  "lifecycle_default =
     \<lparr>lifecycle_pre_stop = None\<rparr>"

definition lifecycle_with_pre_stop :: "LifecycleView \<Rightarrow> LifecycleHandlerView \<Rightarrow> LifecycleView" where
  "lifecycle_with_pre_stop s x = s\<lparr>lifecycle_pre_stop := Some x\<rparr>"

record ContainerPortView =
  container_port_container_port :: int
  container_port_name :: "StringView option"
  container_port_protocol :: "StringView option"

definition container_port_default :: ContainerPortView where
  "container_port_default =
     \<lparr>container_port_container_port = 0, container_port_name = None, container_port_protocol = None\<rparr>"

definition container_port_with_container_port :: "ContainerPortView \<Rightarrow> int \<Rightarrow> ContainerPortView" where
  "container_port_with_container_port s x = s\<lparr>container_port_container_port := x\<rparr>"

definition container_port_with_name :: "ContainerPortView \<Rightarrow> StringView \<Rightarrow> ContainerPortView" where
  "container_port_with_name s x = s\<lparr>container_port_name := Some x\<rparr>"

definition container_port_with_protocol :: "ContainerPortView \<Rightarrow> StringView \<Rightarrow> ContainerPortView" where
  "container_port_with_protocol s x = s\<lparr>container_port_protocol := Some x\<rparr>"

record VolumeMountView =
  volume_mount_mount_path :: StringView
  volume_mount_name :: StringView
  volume_mount_read_only :: "bool option"
  volume_mount_sub_path :: "StringView option"
  volume_mount_mount_propagation :: "StringView option"

definition volume_mount_default :: VolumeMountView where
  "volume_mount_default =
     \<lparr>volume_mount_mount_path = [], volume_mount_name = [], volume_mount_read_only = Some False,
      volume_mount_sub_path = None, volume_mount_mount_propagation = None\<rparr>"

definition volume_mount_with_mount_path :: "VolumeMountView \<Rightarrow> StringView \<Rightarrow> VolumeMountView" where
  "volume_mount_with_mount_path s x = s\<lparr>volume_mount_mount_path := x\<rparr>"

definition volume_mount_with_name :: "VolumeMountView \<Rightarrow> StringView \<Rightarrow> VolumeMountView" where
  "volume_mount_with_name s x = s\<lparr>volume_mount_name := x\<rparr>"

definition volume_mount_with_read_only :: "VolumeMountView \<Rightarrow> bool \<Rightarrow> VolumeMountView" where
  "volume_mount_with_read_only s x = s\<lparr>volume_mount_read_only := Some x\<rparr>"

definition volume_mount_with_sub_path :: "VolumeMountView \<Rightarrow> StringView \<Rightarrow> VolumeMountView" where
  "volume_mount_with_sub_path s x = s\<lparr>volume_mount_sub_path := Some x\<rparr>"

definition volume_mount_with_mount_propagation :: "VolumeMountView \<Rightarrow> StringView \<Rightarrow> VolumeMountView" where
  "volume_mount_with_mount_propagation s x = s\<lparr>volume_mount_mount_propagation := Some x\<rparr>"

record TCPSocketActionView =
  tcp_socket_host :: "StringView option"
  tcp_socket_port :: int

definition tcp_socket_default :: TCPSocketActionView where
  "tcp_socket_default =
     \<lparr>tcp_socket_host = None, tcp_socket_port = 0\<rparr>"

definition tcp_socket_with_host :: "TCPSocketActionView \<Rightarrow> StringView \<Rightarrow> TCPSocketActionView" where
  "tcp_socket_with_host s x = s\<lparr>tcp_socket_host := Some x\<rparr>"

definition tcp_socket_with_port :: "TCPSocketActionView \<Rightarrow> int \<Rightarrow> TCPSocketActionView" where
  "tcp_socket_with_port s x = s\<lparr>tcp_socket_port := x\<rparr>"

record ProbeView =
  probe_exec :: "ExecActionView option"
  probe_failure_threshold :: "int option"
  probe_initial_delay_seconds :: "int option"
  probe_period_seconds :: "int option"
  probe_success_threshold :: "int option"
  probe_tcp_socket :: "TCPSocketActionView option"
  probe_timeout_seconds :: "int option"

definition probe_default :: ProbeView where
  "probe_default =
     \<lparr>probe_exec = None, probe_failure_threshold = None, probe_initial_delay_seconds = None,
      probe_period_seconds = None, probe_success_threshold = None, probe_tcp_socket = None,
      probe_timeout_seconds = None\<rparr>"

definition probe_with_exec :: "ProbeView \<Rightarrow> ExecActionView \<Rightarrow> ProbeView" where
  "probe_with_exec s x = s\<lparr>probe_exec := Some x\<rparr>"

definition probe_with_failure_threshold :: "ProbeView \<Rightarrow> int \<Rightarrow> ProbeView" where
  "probe_with_failure_threshold s x = s\<lparr>probe_failure_threshold := Some x\<rparr>"

definition probe_with_initial_delay_seconds :: "ProbeView \<Rightarrow> int \<Rightarrow> ProbeView" where
  "probe_with_initial_delay_seconds s x = s\<lparr>probe_initial_delay_seconds := Some x\<rparr>"

definition probe_with_period_seconds :: "ProbeView \<Rightarrow> int \<Rightarrow> ProbeView" where
  "probe_with_period_seconds s x = s\<lparr>probe_period_seconds := Some x\<rparr>"

definition probe_with_success_threshold :: "ProbeView \<Rightarrow> int \<Rightarrow> ProbeView" where
  "probe_with_success_threshold s x = s\<lparr>probe_success_threshold := Some x\<rparr>"

definition probe_with_tcp_socket :: "ProbeView \<Rightarrow> TCPSocketActionView \<Rightarrow> ProbeView" where
  "probe_with_tcp_socket s x = s\<lparr>probe_tcp_socket := Some x\<rparr>"

definition probe_with_timeout_seconds :: "ProbeView \<Rightarrow> int \<Rightarrow> ProbeView" where
  "probe_with_timeout_seconds s x = s\<lparr>probe_timeout_seconds := Some x\<rparr>"

record EnvVarSourceView =
  env_var_source_field_ref :: "ObjectFieldSelectorView option"

definition env_var_source_default :: EnvVarSourceView where
  "env_var_source_default =
     \<lparr>env_var_source_field_ref = None\<rparr>"

definition env_var_source_with_field_ref :: "EnvVarSourceView \<Rightarrow> ObjectFieldSelectorView \<Rightarrow> EnvVarSourceView" where
  "env_var_source_with_field_ref s x = s\<lparr>env_var_source_field_ref := Some x\<rparr>"

record EnvVarView =
  env_var_name :: StringView
  env_var_value :: "StringView option"
  env_var_value_from :: "EnvVarSourceView option"

definition env_var_default :: EnvVarView where
  "env_var_default =
     \<lparr>env_var_name = [], env_var_value = None, env_var_value_from = None\<rparr>"

definition env_var_with_name :: "EnvVarView \<Rightarrow> StringView \<Rightarrow> EnvVarView" where
  "env_var_with_name s x = s\<lparr>env_var_name := x\<rparr>"

definition env_var_with_value :: "EnvVarView \<Rightarrow> StringView \<Rightarrow> EnvVarView" where
  "env_var_with_value s x = s\<lparr>env_var_value := Some x\<rparr>"

definition env_var_with_value_from :: "EnvVarView \<Rightarrow> EnvVarSourceView \<Rightarrow> EnvVarView" where
  "env_var_with_value_from s x = s\<lparr>env_var_value_from := Some x\<rparr>"

datatype SecurityContextView = SecurityContextView

definition security_context_default :: SecurityContextView where
  "security_context_default =
     SecurityContextView"

record ContainerView =
  container_env :: "EnvVarView list option"
  container_image :: "StringView option"
  container_name :: StringView
  container_ports :: "ContainerPortView list option"
  container_volume_mounts :: "VolumeMountView list option"
  container_lifecycle :: "LifecycleView option"
  container_resources :: "ResourceRequirementsView option"
  container_readiness_probe :: "ProbeView option"
  container_liveness_probe :: "ProbeView option"
  container_command :: "StringView list option"
  container_image_pull_policy :: "StringView option"
  container_args :: "StringView list option"
  container_security_context :: "SecurityContextView option"

definition container_default :: ContainerView where
  "container_default =
     \<lparr>container_env = None, container_image = None, container_name = [], container_ports = None,
      container_volume_mounts = None, container_lifecycle = None, container_resources = None,
      container_readiness_probe = None, container_liveness_probe = None, container_command = None,
      container_image_pull_policy = None, container_args = None, container_security_context = None\<rparr>"

definition container_with_env :: "ContainerView \<Rightarrow> EnvVarView list \<Rightarrow> ContainerView" where
  "container_with_env s x = s\<lparr>container_env := Some x\<rparr>"

definition container_with_image :: "ContainerView \<Rightarrow> StringView \<Rightarrow> ContainerView" where
  "container_with_image s x = s\<lparr>container_image := Some x\<rparr>"

definition container_with_name :: "ContainerView \<Rightarrow> StringView \<Rightarrow> ContainerView" where
  "container_with_name s x = s\<lparr>container_name := x\<rparr>"

definition container_with_ports :: "ContainerView \<Rightarrow> ContainerPortView list \<Rightarrow> ContainerView" where
  "container_with_ports s x = s\<lparr>container_ports := Some x\<rparr>"

definition container_with_volume_mounts :: "ContainerView \<Rightarrow> VolumeMountView list \<Rightarrow> ContainerView" where
  "container_with_volume_mounts s x = s\<lparr>container_volume_mounts := Some x\<rparr>"

definition container_with_lifecycle :: "ContainerView \<Rightarrow> LifecycleView \<Rightarrow> ContainerView" where
  "container_with_lifecycle s x = s\<lparr>container_lifecycle := Some x\<rparr>"

definition container_with_resources :: "ContainerView \<Rightarrow> ResourceRequirementsView \<Rightarrow> ContainerView" where
  "container_with_resources s x = s\<lparr>container_resources := Some x\<rparr>"

definition container_without_resources :: "ContainerView \<Rightarrow> ContainerView" where
  "container_without_resources s = s\<lparr>container_resources := None\<rparr>"

definition container_with_readiness_probe :: "ContainerView \<Rightarrow> ProbeView \<Rightarrow> ContainerView" where
  "container_with_readiness_probe s x = s\<lparr>container_readiness_probe := Some x\<rparr>"

definition container_with_liveness_probe :: "ContainerView \<Rightarrow> ProbeView \<Rightarrow> ContainerView" where
  "container_with_liveness_probe s x = s\<lparr>container_liveness_probe := Some x\<rparr>"

definition container_with_command :: "ContainerView \<Rightarrow> StringView list \<Rightarrow> ContainerView" where
  "container_with_command s x = s\<lparr>container_command := Some x\<rparr>"

definition container_with_image_pull_policy :: "ContainerView \<Rightarrow> StringView \<Rightarrow> ContainerView" where
  "container_with_image_pull_policy s x = s\<lparr>container_image_pull_policy := Some x\<rparr>"

definition container_with_args :: "ContainerView \<Rightarrow> StringView list \<Rightarrow> ContainerView" where
  "container_with_args s x = s\<lparr>container_args := Some x\<rparr>"

definition container_with_security_context :: "ContainerView \<Rightarrow> SecurityContextView \<Rightarrow> ContainerView" where
  "container_with_security_context s x = s\<lparr>container_security_context := Some x\<rparr>"

datatype PodSecurityContextView = PodSecurityContextView

definition pod_security_context_default :: PodSecurityContextView where
  "pod_security_context_default =
     PodSecurityContextView"

datatype LocalObjectReferenceView = LocalObjectReferenceView

definition local_reference_default :: LocalObjectReferenceView where
  "local_reference_default =
     LocalObjectReferenceView"

record PodSpecView =
  pod_spec_affinity :: "AffinityView option"
  pod_spec_containers :: "ContainerView list"
  pod_spec_volumes :: "VolumeView list option"
  pod_spec_init_containers :: "ContainerView list option"
  pod_spec_service_account_name :: "StringView option"
  pod_spec_tolerations :: "TolerationView list option"
  pod_spec_node_selector :: "(StringView \<rightharpoonup> StringView) option"
  pod_spec_runtime_class_name :: "StringView option"
  pod_spec_dns_policy :: "StringView option"
  pod_spec_priority_class_name :: "StringView option"
  pod_spec_scheduler_name :: "StringView option"
  pod_spec_security_context :: "PodSecurityContextView option"
  pod_spec_host_network :: "bool option"
  pod_spec_termination_grace_period_seconds :: "int option"
  pod_spec_image_pull_secrets :: "LocalObjectReferenceView list option"
  pod_spec_hostname :: "StringView option"
  pod_spec_subdomain :: "StringView option"

definition pod_spec_default :: PodSpecView where
  "pod_spec_default =
     \<lparr>pod_spec_affinity = None, pod_spec_containers = [], pod_spec_volumes = None,
      pod_spec_init_containers = None, pod_spec_service_account_name = None, pod_spec_tolerations = None,
      pod_spec_node_selector = None, pod_spec_runtime_class_name = None, pod_spec_dns_policy = None,
      pod_spec_priority_class_name = None, pod_spec_scheduler_name = None, pod_spec_security_context = None,
      pod_spec_host_network = None, pod_spec_termination_grace_period_seconds = None,
      pod_spec_image_pull_secrets = None, pod_spec_hostname = None, pod_spec_subdomain = None\<rparr>"

definition pod_spec_with_affinity :: "PodSpecView \<Rightarrow> AffinityView \<Rightarrow> PodSpecView" where
  "pod_spec_with_affinity s x = s\<lparr>pod_spec_affinity := Some x\<rparr>"

definition pod_spec_without_affinity :: "PodSpecView \<Rightarrow> PodSpecView" where
  "pod_spec_without_affinity s = s\<lparr>pod_spec_affinity := None\<rparr>"

definition pod_spec_with_containers :: "PodSpecView \<Rightarrow> ContainerView list \<Rightarrow> PodSpecView" where
  "pod_spec_with_containers s x = s\<lparr>pod_spec_containers := x\<rparr>"

definition pod_spec_with_volumes :: "PodSpecView \<Rightarrow> VolumeView list \<Rightarrow> PodSpecView" where
  "pod_spec_with_volumes s x = s\<lparr>pod_spec_volumes := Some x\<rparr>"

definition pod_spec_without_volumes :: "PodSpecView \<Rightarrow> PodSpecView" where
  "pod_spec_without_volumes s = s\<lparr>pod_spec_volumes := None\<rparr>"

definition pod_spec_with_init_containers :: "PodSpecView \<Rightarrow> ContainerView list \<Rightarrow> PodSpecView" where
  "pod_spec_with_init_containers s x = s\<lparr>pod_spec_init_containers := Some x\<rparr>"

definition pod_spec_with_service_account_name :: "PodSpecView \<Rightarrow> StringView \<Rightarrow> PodSpecView" where
  "pod_spec_with_service_account_name s x = s\<lparr>pod_spec_service_account_name := Some x\<rparr>"

definition pod_spec_with_tolerations :: "PodSpecView \<Rightarrow> TolerationView list \<Rightarrow> PodSpecView" where
  "pod_spec_with_tolerations s x = s\<lparr>pod_spec_tolerations := Some x\<rparr>"

definition pod_spec_without_tolerations :: "PodSpecView \<Rightarrow> PodSpecView" where
  "pod_spec_without_tolerations s = s\<lparr>pod_spec_tolerations := None\<rparr>"

definition pod_spec_with_node_selector :: "PodSpecView \<Rightarrow> (StringView \<rightharpoonup> StringView) \<Rightarrow> PodSpecView" where
  "pod_spec_with_node_selector s x = s\<lparr>pod_spec_node_selector := Some x\<rparr>"

definition pod_spec_with_runtime_class_name :: "PodSpecView \<Rightarrow> StringView \<Rightarrow> PodSpecView" where
  "pod_spec_with_runtime_class_name s x = s\<lparr>pod_spec_runtime_class_name := Some x\<rparr>"

definition pod_spec_with_dns_policy :: "PodSpecView \<Rightarrow> StringView \<Rightarrow> PodSpecView" where
  "pod_spec_with_dns_policy s x = s\<lparr>pod_spec_dns_policy := Some x\<rparr>"

definition pod_spec_with_scheduler_name :: "PodSpecView \<Rightarrow> StringView \<Rightarrow> PodSpecView" where
  "pod_spec_with_scheduler_name s x = s\<lparr>pod_spec_scheduler_name := Some x\<rparr>"

definition pod_spec_with_priority_class_name :: "PodSpecView \<Rightarrow> StringView \<Rightarrow> PodSpecView" where
  "pod_spec_with_priority_class_name s x = s\<lparr>pod_spec_priority_class_name := Some x\<rparr>"

definition pod_spec_with_security_context :: "PodSpecView \<Rightarrow> PodSecurityContextView \<Rightarrow> PodSpecView" where
  "pod_spec_with_security_context s x = s\<lparr>pod_spec_security_context := Some x\<rparr>"

definition pod_spec_with_host_network :: "PodSpecView \<Rightarrow> bool \<Rightarrow> PodSpecView" where
  "pod_spec_with_host_network s x = s\<lparr>pod_spec_host_network := Some x\<rparr>"

definition pod_spec_with_termination_grace_period_seconds :: "PodSpecView \<Rightarrow> int \<Rightarrow> PodSpecView" where
  "pod_spec_with_termination_grace_period_seconds s x = s\<lparr>pod_spec_termination_grace_period_seconds := Some x\<rparr>"

definition pod_spec_with_image_pull_secrets :: "PodSpecView \<Rightarrow> LocalObjectReferenceView list \<Rightarrow> PodSpecView" where
  "pod_spec_with_image_pull_secrets s x = s\<lparr>pod_spec_image_pull_secrets := Some x\<rparr>"

definition pod_spec_with_hostname :: "PodSpecView \<Rightarrow> StringView \<Rightarrow> PodSpecView" where
  "pod_spec_with_hostname s x = s\<lparr>pod_spec_hostname := Some x\<rparr>"

definition pod_spec_with_subdomain :: "PodSpecView \<Rightarrow> StringView \<Rightarrow> PodSpecView" where
  "pod_spec_with_subdomain s x = s\<lparr>pod_spec_subdomain := Some x\<rparr>"

record PodView =
  pod_metadata :: ObjectMetaView
  pod_spec :: "PodSpecView option"
  pod_status :: "PodStatusView option"

definition pod_with_metadata :: "PodView \<Rightarrow> ObjectMetaView \<Rightarrow> PodView" where
  "pod_with_metadata s x = s\<lparr>pod_metadata := x\<rparr>"

definition pod_with_spec :: "PodView \<Rightarrow> PodSpecView \<Rightarrow> PodView" where
  "pod_with_spec s x = s\<lparr>pod_spec := Some x\<rparr>"

record PodTemplateSpecView =
  template_metadata :: "ObjectMetaView option"
  template_spec :: "PodSpecView option"

definition template_default :: PodTemplateSpecView where
  "template_default =
     \<lparr>template_metadata = None, template_spec = None\<rparr>"

definition template_with_metadata :: "PodTemplateSpecView \<Rightarrow> ObjectMetaView \<Rightarrow> PodTemplateSpecView" where
  "template_with_metadata s x = s\<lparr>template_metadata := Some x\<rparr>"

definition template_with_spec :: "PodTemplateSpecView \<Rightarrow> PodSpecView \<Rightarrow> PodTemplateSpecView" where
  "template_with_spec s x = s\<lparr>template_spec := Some x\<rparr>"

end
