(* ===== verification/Anvil_Resources.thy ===== *)
theory Anvil_Resources
  imports Prelude Anvil_Pod_Types Anvil_Api_Server "HOL-Library.List_Lexorder" "HOL-Library.Char_ord"
begin

text \<open>
  Resources of Kubernetes as typed objects (\<open>kubernetes_api_objects/spec/resource.rs\<close> and \<open>object_meta.rs\<close>, the label
  selectors of \<open>spec/\<close> and \<open>exec/label_selector.rs\<close>, \<open>installed_type\<close> of \<open>kubernetes_cluster/spec/install_helpers.rs\<close>; paths
  are below \<open>src/projects/anvil-main/src/\<close>). The traits \<open>Marshallable\<close>, \<open>ResourceView\<close> and \<open>CustomResourceView\<close> are
  records of functions with their laws as locales; the macro \<open>implement_resource_view_trait\<close> is a function that builds
  such a record.

  The functions that marshal a specification or a status belong to a serialization library; the source leaves them
  uninterpreted. Here they are a \<open>codec\<close>, a parameter. The source assumes that a codec gives back every value, which no
  codec does for a type with maps (\<open>no_codec_for_all_maps\<close>), so that the law is stated here for the values of a predicate.
\<close>

section \<open>Metadata\<close>

definition om_with_name :: "ObjectMetaView \<Rightarrow> StringView \<Rightarrow> ObjectMetaView" where
  "om_with_name s x = s\<lparr>om_name := Some x\<rparr>"

definition om_with_generate_name :: "ObjectMetaView \<Rightarrow> StringView \<Rightarrow> ObjectMetaView" where
  "om_with_generate_name s x = s\<lparr>om_generate_name := Some x\<rparr>"

definition om_with_namespace :: "ObjectMetaView \<Rightarrow> StringView \<Rightarrow> ObjectMetaView" where
  "om_with_namespace s x = s\<lparr>om_namespace := Some x\<rparr>"

definition om_with_labels :: "ObjectMetaView \<Rightarrow> (StringView \<rightharpoonup> StringView) \<Rightarrow> ObjectMetaView" where
  "om_with_labels s x = s\<lparr>om_labels := Some x\<rparr>"

definition om_with_annotations :: "ObjectMetaView \<Rightarrow> (StringView \<rightharpoonup> StringView) \<Rightarrow> ObjectMetaView" where
  "om_with_annotations s x = s\<lparr>om_annotations := Some x\<rparr>"

definition om_with_resource_version :: "ObjectMetaView \<Rightarrow> ResourceVersion \<Rightarrow> ObjectMetaView" where
  "om_with_resource_version s x = s\<lparr>om_resource_version := Some x\<rparr>"

definition om_without_resource_version :: "ObjectMetaView \<Rightarrow> ObjectMetaView" where
  "om_without_resource_version s = s\<lparr>om_resource_version := None\<rparr>"

definition om_with_owner_references :: "ObjectMetaView \<Rightarrow> OwnerReferenceView list \<Rightarrow> ObjectMetaView" where
  "om_with_owner_references s x = s\<lparr>om_owner_references := Some x\<rparr>"

definition om_with_finalizers :: "ObjectMetaView \<Rightarrow> StringView list \<Rightarrow> ObjectMetaView" where
  "om_with_finalizers s x = s\<lparr>om_finalizers := Some x\<rparr>"

definition om_without_finalizers :: "ObjectMetaView \<Rightarrow> ObjectMetaView" where
  "om_without_finalizers s = s\<lparr>om_finalizers := None\<rparr>"

definition om_with_deletion_timestamp :: "ObjectMetaView \<Rightarrow> StringView \<Rightarrow> ObjectMetaView" where
  "om_with_deletion_timestamp s x = s\<lparr>om_deletion_timestamp := Some x\<rparr>"

definition om_add_label :: "ObjectMetaView \<Rightarrow> StringView \<Rightarrow> StringView \<Rightarrow> ObjectMetaView" where
  "om_add_label s key val =
     (let old_map = (if om_labels s = None then Map.empty else the (om_labels s)) in s\<lparr>om_labels := Some (old_map(key \<mapsto> val))\<rparr>)"

definition om_without_label :: "ObjectMetaView \<Rightarrow> StringView \<Rightarrow> ObjectMetaView" where
  "om_without_label s key =
     (if om_labels s \<noteq> None then s\<lparr>om_labels := Some ((the (om_labels s))(key := None))\<rparr> else s)"

definition om_add_annotation :: "ObjectMetaView \<Rightarrow> StringView \<Rightarrow> StringView \<Rightarrow> ObjectMetaView" where
  "om_add_annotation s key val =
     (let old_map = (if om_annotations s = None then Map.empty else the (om_annotations s))
      in s\<lparr>om_annotations := Some (old_map(key \<mapsto> val))\<rparr>)"

section \<open>Label selectors\<close>

definition selector_matches :: "LabelSelectorView \<Rightarrow> (StringView \<rightharpoonup> StringView) \<Rightarrow> bool" where
  "selector_matches sel labels \<longleftrightarrow>
     (case selector_match_labels sel of
        None \<Rightarrow> True
      | Some match_labels \<Rightarrow> \<forall>k v. match_labels k = Some v \<longrightarrow> labels k = Some v)"

text \<open>The code goes through the keys of the selector, in the order of the \<open>BTreeMap\<close>.\<close>

fun matches_keys :: "(StringView \<rightharpoonup> StringView) \<Rightarrow> (StringView \<rightharpoonup> StringView) \<Rightarrow> StringView list \<Rightarrow> bool outcome" where
  "matches_keys match_labels labels [] = Ret True"
| "matches_keys match_labels labels (key # keys) =
     bind_outcome (unwrap (match_labels key)) (\<lambda>val.
       let val_or_not = labels key
       in if \<not> (val_or_not \<noteq> None \<and> the val_or_not = val) then Ret False else matches_keys match_labels labels keys)"

definition exec_selector_matches :: "LabelSelectorView \<Rightarrow> (StringView \<rightharpoonup> StringView) \<Rightarrow> bool outcome" where
  "exec_selector_matches sel labels =
     (if selector_match_labels sel = None then Ret True
      else let match_labels = the (selector_match_labels sel)
           in matches_keys match_labels labels (sorted_list_of_set (dom match_labels)))"

lemma matches_keys_eq:
  "set keys \<subseteq> dom m \<Longrightarrow> matches_keys m labels keys = Ret (\<forall>k\<in>set keys. labels k = m k)"
  by (induction keys) (auto simp: Let_def)

lemma exec_selector_matches_eq:
  assumes "\<And>m. selector_match_labels sel = Some m \<Longrightarrow> finite (dom m)"
  shows "exec_selector_matches sel labels = Ret (selector_matches sel labels)"
proof (cases "selector_match_labels sel")
  case (Some m)
  have "(\<forall>k\<in>dom m. labels k = m k) = (\<forall>k v. m k = Some v \<longrightarrow> labels k = Some v)" by force
  with Some assms show ?thesis
    by (simp add: exec_selector_matches_def selector_matches_def matches_keys_eq)
qed (simp add: exec_selector_matches_def selector_matches_def)

section \<open>Marshalling\<close>

type_synonym UnmarshalError = unit

record 'a codec =
  co_marshal :: "'a \<Rightarrow> Value"
  co_unmarshal :: "Value \<Rightarrow> UnmarshalError + 'a"

locale Marshallable =
  fixes M :: "'a codec" and ok :: "'a \<Rightarrow> bool"
  assumes marshal_preserves_integrity: "ok a \<Longrightarrow> co_unmarshal M (co_marshal M a) = Inr a"
begin

lemma marshal_injective: "ok a \<Longrightarrow> ok b \<Longrightarrow> co_marshal M a = co_marshal M b \<Longrightarrow> a = b"
  by (metis marshal_preserves_integrity sum.inject(2))

end

text \<open>The map that differs from what a string unmarshals to at this string is not given back.\<close>

lemma no_codec_for_all_maps:
  fixes M :: "'a codec" and f :: "'a \<Rightarrow> Value \<rightharpoonup> Value"
  assumes "surj f"
  shows "\<not> Marshallable M (\<lambda>_. True)"
proof
  assume M: "Marshallable M (\<lambda>_. True)"
  define d :: "Value \<rightharpoonup> Value" where
    "d = (\<lambda>s. case co_unmarshal M s of Inl _ \<Rightarrow> None | Inr a \<Rightarrow> (if f a s = None then Some [] else None))"
  obtain a where a: "f a = d" using assms by (metis surjD)
  have "co_unmarshal M (co_marshal M a) = Inr a" using M by (simp add: Marshallable_def)
  then have "d (co_marshal M a) = (if f a (co_marshal M a) = None then Some [] else None)" by (simp add: d_def)
  with a show False by (cases "d (co_marshal M a)") auto
qed

text \<open>A codec that gives back one value, and the one of the trivial type.\<close>

definition one_value_codec :: "'a \<Rightarrow> 'a codec" where
  "one_value_codec a = \<lparr>co_marshal = \<lambda>_. [], co_unmarshal = \<lambda>_. Inr a\<rparr>"

interpretation one_value: Marshallable "one_value_codec a" "(=) a" for a
  by unfold_locales (simp add: one_value_codec_def)

section \<open>The trait of resources\<close>

record ('o, 'spec, 'status) resource_trait =
  rt_default :: 'o
  rt_metadata :: "'o \<Rightarrow> ObjectMetaView"
  rt_kind :: Kind
  rt_object_ref :: "'o \<Rightarrow> ObjectRef"
  rt_spec :: "'o \<Rightarrow> 'spec"
  rt_status :: "'o \<Rightarrow> 'status"
  rt_marshal :: "'o \<Rightarrow> DynamicObjectView"
  rt_unmarshal :: "DynamicObjectView \<Rightarrow> UnmarshalError + 'o"
  rt_spec_codec :: "'spec codec"
  rt_status_codec :: "'status codec"
  rt_state_validation :: "'o \<Rightarrow> bool"
  rt_transition_validation :: "'o \<Rightarrow> 'o \<Rightarrow> bool"

locale ResourceView =
  fixes T :: "('o, 'spec, 'status) resource_trait" and ok_spec :: "'spec \<Rightarrow> bool" and ok_status :: "'status \<Rightarrow> bool"
  assumes object_ref_is_well_formed:
      "rt_object_ref T o1 = \<lparr>ref_kind = rt_kind T, ref_name = the (om_name (rt_metadata T o1)),
         ref_namespace = the (om_namespace (rt_metadata T o1))\<rparr>"
    and marshal_preserves_integrity:
      "ok_spec (rt_spec T o1) \<Longrightarrow> ok_status (rt_status T o1) \<Longrightarrow> rt_unmarshal T (rt_marshal T o1) = Inr o1"
    and marshal_preserves_metadata: "rt_unmarshal T d = Inr o1 \<Longrightarrow> obj_metadata d = rt_metadata T o1"
    and marshal_preserves_kind: "rt_unmarshal T d = Inr o1 \<Longrightarrow> obj_kind d = rt_kind T"
    and marshal_spec_preserves_integrity: "Marshallable (rt_spec_codec T) ok_spec"
    and marshal_status_preserves_integrity: "Marshallable (rt_status_codec T) ok_status"
    and unmarshal_ok:
      "obj_kind d = rt_kind T \<Longrightarrow> (\<exists>o1. rt_unmarshal T d = Inr o1) \<longleftrightarrow>
         (\<exists>s. co_unmarshal (rt_spec_codec T) (obj_spec d) = Inr s) \<and> (\<exists>s. co_unmarshal (rt_status_codec T) (obj_status d) = Inr s)"
    and unmarshal_parts:
      "rt_unmarshal T d = Inr o1 \<Longrightarrow> co_unmarshal (rt_spec_codec T) (obj_spec d) = Inr (rt_spec T o1) \<and>
         co_unmarshal (rt_status_codec T) (obj_status d) = Inr (rt_status T o1)"

text \<open>The two forms of the macro. The second takes the functions that the first builds from a constructor.\<close>

definition implement_resource_view_trait_with ::
    "'o \<Rightarrow> ('o \<Rightarrow> ObjectMetaView) \<Rightarrow> Kind \<Rightarrow> ('o \<Rightarrow> 'spec) \<Rightarrow> ('o \<Rightarrow> 'status) \<Rightarrow> (DynamicObjectView \<Rightarrow> 'o) \<Rightarrow>
       ('o \<Rightarrow> bool) \<Rightarrow> ('o \<Rightarrow> 'o \<Rightarrow> bool) \<Rightarrow> 'spec codec \<Rightarrow> 'status codec \<Rightarrow> ('o, 'spec, 'status) resource_trait" where
  "implement_resource_view_trait_with dflt metadata kind spec status unmarshal_helper state_validation transition_validation ms mt =
     \<lparr>rt_default = dflt, rt_metadata = metadata, rt_kind = kind,
      rt_object_ref = (\<lambda>o1. \<lparr>ref_kind = kind, ref_name = the (om_name (metadata o1)), ref_namespace = the (om_namespace (metadata o1))\<rparr>),
      rt_spec = spec, rt_status = status,
      rt_marshal = (\<lambda>o1. \<lparr>obj_kind = kind, obj_metadata = metadata o1, obj_spec = co_marshal ms (spec o1),
        obj_status = co_marshal mt (status o1)\<rparr>),
      rt_unmarshal = (\<lambda>d. if obj_kind d \<noteq> kind then Inl ()
        else if isl (co_unmarshal ms (obj_spec d)) then Inl ()
        else if isl (co_unmarshal mt (obj_status d)) then Inl ()
        else Inr (unmarshal_helper d)),
      rt_spec_codec = ms, rt_status_codec = mt,
      rt_state_validation = state_validation, rt_transition_validation = transition_validation\<rparr>"

definition implement_resource_view_trait ::
    "(ObjectMetaView \<Rightarrow> 'spec \<Rightarrow> 'status \<Rightarrow> 'o) \<Rightarrow> ('o \<Rightarrow> ObjectMetaView) \<Rightarrow> ('o \<Rightarrow> 'spec) \<Rightarrow> ('o \<Rightarrow> 'status) \<Rightarrow> 'spec \<Rightarrow> 'status \<Rightarrow> Kind \<Rightarrow>
       ('o \<Rightarrow> bool) \<Rightarrow> ('o \<Rightarrow> 'o \<Rightarrow> bool) \<Rightarrow> 'spec codec \<Rightarrow> 'status codec \<Rightarrow> ('o, 'spec, 'status) resource_trait" where
  "implement_resource_view_trait build metadata spec status spec_default status_default kind state_validation transition_validation ms mt =
     implement_resource_view_trait_with (build object_meta_default spec_default status_default) metadata kind spec status
       (\<lambda>d. build (obj_metadata d) (projr (co_unmarshal ms (obj_spec d))) (projr (co_unmarshal mt (obj_status d))))
       state_validation transition_validation ms mt"

text \<open>What the macro is used with: an object consists of its metadata, specification and status.\<close>

locale resource_parts = spec: Marshallable ms ok_spec + status: Marshallable mt ok_status
  for ms :: "'spec codec" and mt :: "'status codec" and ok_spec :: "'spec \<Rightarrow> bool" and ok_status :: "'status \<Rightarrow> bool" +
  fixes metadata :: "'o \<Rightarrow> ObjectMetaView" and spec :: "'o \<Rightarrow> 'spec" and status :: "'o \<Rightarrow> 'status"
    and helper :: "DynamicObjectView \<Rightarrow> 'o"
  assumes helper_metadata: "metadata (helper d) = obj_metadata d"
    and helper_spec: "co_unmarshal ms (obj_spec d) = Inr s \<Longrightarrow> spec (helper d) = s"
    and helper_status: "co_unmarshal mt (obj_status d) = Inr t \<Longrightarrow> status (helper d) = t"
    and parts: "metadata o1 = metadata o2 \<Longrightarrow> spec o1 = spec o2 \<Longrightarrow> status o1 = status o2 \<Longrightarrow> o1 = o2"

sublocale resource_parts < resource: ResourceView
  "implement_resource_view_trait_with dflt metadata kind spec status helper sv tv ms mt" ok_spec ok_status
  for dflt kind sv tv
proof (rule ResourceView.intro)
  let ?T = "implement_resource_view_trait_with dflt metadata kind spec status helper sv tv ms mt"
  note T = implement_resource_view_trait_with_def
  fix o1 d
  show "rt_object_ref ?T o1 = \<lparr>ref_kind = rt_kind ?T, ref_name = the (om_name (rt_metadata ?T o1)),
      ref_namespace = the (om_namespace (rt_metadata ?T o1))\<rparr>" by (simp add: T)
  show "rt_unmarshal ?T (rt_marshal ?T o1) = Inr o1" if "ok_spec (rt_spec ?T o1)" "ok_status (rt_status ?T o1)"
  proof -
    have restored: "co_unmarshal ms (co_marshal ms (spec o1)) = Inr (spec o1)"
      "co_unmarshal mt (co_marshal mt (status o1)) = Inr (status o1)"
      using that spec.marshal_preserves_integrity status.marshal_preserves_integrity by (simp_all add: T)
    let ?d = "rt_marshal ?T o1"
    have "spec (helper ?d) = spec o1" by (rule helper_spec) (simp add: T restored)
    moreover have "status (helper ?d) = status o1" by (rule helper_status) (simp add: T restored)
    moreover have "metadata (helper ?d) = metadata o1" by (simp add: helper_metadata T)
    ultimately have "helper ?d = o1" by (intro parts)
    then show ?thesis by (simp add: T restored)
  qed
  show "obj_metadata d = rt_metadata ?T o1" if "rt_unmarshal ?T d = Inr o1"
    using that by (auto simp: T helper_metadata split: if_splits)
  show "obj_kind d = rt_kind ?T" if "rt_unmarshal ?T d = Inr o1" using that by (auto simp: T split: if_splits)
  show "Marshallable (rt_spec_codec ?T) ok_spec" "Marshallable (rt_status_codec ?T) ok_status"
    by (simp_all add: T spec.Marshallable_axioms status.Marshallable_axioms)
  show "(\<exists>o1. rt_unmarshal ?T d = Inr o1) \<longleftrightarrow> (\<exists>s. co_unmarshal (rt_spec_codec ?T) (obj_spec d) = Inr s) \<and>
      (\<exists>s. co_unmarshal (rt_status_codec ?T) (obj_status d) = Inr s)" if "obj_kind d = rt_kind ?T"
    using that by (cases "co_unmarshal ms (obj_spec d)"; cases "co_unmarshal mt (obj_status d)") (simp_all add: T)
  show "co_unmarshal (rt_spec_codec ?T) (obj_spec d) = Inr (rt_spec ?T o1) \<and>
      co_unmarshal (rt_status_codec ?T) (obj_status d) = Inr (rt_status ?T o1)" if "rt_unmarshal ?T d = Inr o1"
    using that
    by (cases "co_unmarshal ms (obj_spec d)"; cases "co_unmarshal mt (obj_status d)")
      (auto simp: T helper_spec helper_status split: if_splits)
qed

context resource_parts
begin

lemma implemented:
  "ResourceView (implement_resource_view_trait_with dflt metadata kind spec status helper sv tv ms mt) ok_spec ok_status"
  by (rule resource.ResourceView_axioms)

end

section \<open>Installed types\<close>

definition installed_type :: "('o, 'spec, 'status) resource_trait \<Rightarrow> InstalledType" where
  "installed_type T =
     \<lparr>it_unmarshallable_spec = (\<lambda>v. \<not> isl (co_unmarshal (rt_spec_codec T) v)),
      it_unmarshallable_status = (\<lambda>v. \<not> isl (co_unmarshal (rt_status_codec T) v)),
      it_valid_object = (\<lambda>obj. rt_state_validation T (projr (rt_unmarshal T obj))),
      it_valid_transition = (\<lambda>obj old_obj. rt_transition_validation T (projr (rt_unmarshal T obj)) (projr (rt_unmarshal T old_obj))),
      it_marshalled_default_status = co_marshal (rt_status_codec T) (rt_status T (rt_default T))\<rparr>"

text \<open>A custom resource is of a custom kind, and its validation does not look at the metadata.\<close>

locale CustomResourceView = ResourceView T ok_spec ok_status
  for T :: "('o, 'spec, 'status) resource_trait" and ok_spec ok_status +
  fixes spec_status_validation :: "'spec \<Rightarrow> 'status \<Rightarrow> bool"
  assumes kind_is_custom_resource: "\<exists>name. rt_kind T = CustomResourceKind name"
    and validation_result_determined_by_spec_and_status:
      "rt_state_validation T o1 = spec_status_validation (rt_spec T o1) (rt_status T o1)"
begin

lemma custom_type_well_behaved:
  assumes "ok_status (rt_status T (rt_default T))"
  shows "it_unmarshallable_status (installed_type T) (it_marshalled_default_status (installed_type T))"
    "it_valid_object (installed_type T) (obj\<lparr>obj_metadata := m\<rparr>) = it_valid_object (installed_type T) obj"
proof -
  show "it_unmarshallable_status (installed_type T) (it_marshalled_default_status (installed_type T))"
    using marshal_status_preserves_integrity assms by (simp add: installed_type_def Marshallable_def)
  let ?obj = "obj\<lparr>obj_metadata := m\<rparr>"
  show "it_valid_object (installed_type T) ?obj = it_valid_object (installed_type T) obj"
  proof (cases "\<exists>o1. rt_unmarshal T obj = Inr o1")
    case True
    then obtain o1 where o1: "rt_unmarshal T obj = Inr o1" by blast
    with marshal_preserves_kind unmarshal_ok [of ?obj] unmarshal_ok [of obj] obtain o2 where o2: "rt_unmarshal T ?obj = Inr o2" by auto
    from unmarshal_parts [OF o1] unmarshal_parts [OF o2] have "rt_spec T o1 = rt_spec T o2" "rt_status T o1 = rt_status T o2" by simp_all
    with o1 o2 show ?thesis by (simp add: installed_type_def validation_result_determined_by_spec_and_status)
  next
    case False
    have "\<nexists>o1. rt_unmarshal T ?obj = Inr o1"
      using False marshal_preserves_kind [of ?obj] unmarshal_ok [of ?obj] unmarshal_ok [of obj] by force
    with False have "rt_unmarshal T ?obj = rt_unmarshal T obj" by (cases "rt_unmarshal T ?obj"; cases "rt_unmarshal T obj") auto
    then show ?thesis by (simp add: installed_type_def)
  qed
qed

end

definition type_is_installed_in_cluster :: "InstalledTypes \<Rightarrow> ('o, 'spec, 'status) resource_trait \<Rightarrow> bool" where
  "type_is_installed_in_cluster it T \<longleftrightarrow> (\<exists>name. rt_kind T = CustomResourceKind name \<and> it name = Some (installed_type T))"

end
