(* ===== verification/Anvil_Kinds.thy ===== *)
theory Anvil_Kinds
  imports Anvil_Resources Anvil_Guarantees
begin

text \<open>
  The built-in kinds of objects (\<open>config_map.rs\<close>, \<open>daemon_set.rs\<close>, \<open>persistent_volume_claim.rs\<close>, \<open>pod.rs\<close>, \<open>role.rs\<close>,
  \<open>role_binding.rs\<close>, \<open>secret.rs\<close>, \<open>service.rs\<close>, \<open>service_account.rs\<close>, \<open>stateful_set.rs\<close> in \<open>kubernetes_api_objects/spec/\<close> below
  \<open>src/projects/anvil-main/src/\<close>): their data, their validation, the instance of the resource trait that the macro builds
  for each, and the dispatch of the API server on these kinds. The codecs of the kinds are a parameter.
\<close>

section \<open>Data\<close>

type_synonym ConfigMapSpecView = "(StringView \<rightharpoonup> StringView) option"
type_synonym SecretSpecView = "(StringView \<rightharpoonup> StringView) option"
type_synonym ServiceAccountSpecView = "bool option"
type_synonym ServiceStatusView = EmptyStatusView
type_synonym PersistentVolumeClaimStatusView = EmptyStatusView

record VolumeResourceRequirementsView =
  volume_requirements_limits :: "(StringView \<rightharpoonup> StringView) option"
  volume_requirements_requests :: "(StringView \<rightharpoonup> StringView) option"

definition volume_requirements_default :: VolumeResourceRequirementsView where
  "volume_requirements_default =
     \<lparr>volume_requirements_limits = None, volume_requirements_requests = None\<rparr>"

definition volume_requirements_with_limits :: "VolumeResourceRequirementsView \<Rightarrow> (StringView \<rightharpoonup> StringView) \<Rightarrow> VolumeResourceRequirementsView" where
  "volume_requirements_with_limits s x = s\<lparr>volume_requirements_limits := Some x\<rparr>"

definition volume_requirements_with_requests :: "VolumeResourceRequirementsView \<Rightarrow> (StringView \<rightharpoonup> StringView) \<Rightarrow> VolumeResourceRequirementsView" where
  "volume_requirements_with_requests s x = s\<lparr>volume_requirements_requests := Some x\<rparr>"

record PersistentVolumeClaimSpecView =
  claim_spec_storage_class_name :: "StringView option"
  claim_spec_access_modes :: "StringView list option"
  claim_spec_resources :: "VolumeResourceRequirementsView option"

definition claim_spec_default :: PersistentVolumeClaimSpecView where
  "claim_spec_default =
     \<lparr>claim_spec_storage_class_name = None, claim_spec_access_modes = None,
      claim_spec_resources = None\<rparr>"

definition claim_spec_with_access_modes :: "PersistentVolumeClaimSpecView \<Rightarrow> StringView list \<Rightarrow> PersistentVolumeClaimSpecView" where
  "claim_spec_with_access_modes s x = s\<lparr>claim_spec_access_modes := Some x\<rparr>"

definition claim_spec_with_resources :: "PersistentVolumeClaimSpecView \<Rightarrow> VolumeResourceRequirementsView \<Rightarrow> PersistentVolumeClaimSpecView" where
  "claim_spec_with_resources s x = s\<lparr>claim_spec_resources := Some x\<rparr>"

definition claim_spec_with_storage_class_name :: "PersistentVolumeClaimSpecView \<Rightarrow> StringView \<Rightarrow> PersistentVolumeClaimSpecView" where
  "claim_spec_with_storage_class_name s x = s\<lparr>claim_spec_storage_class_name := Some x\<rparr>"

record PersistentVolumeClaimView =
  claim_metadata :: ObjectMetaView
  claim_spec :: "PersistentVolumeClaimSpecView option"
  claim_status :: "PersistentVolumeClaimStatusView option"

definition claim_with_metadata :: "PersistentVolumeClaimView \<Rightarrow> ObjectMetaView \<Rightarrow> PersistentVolumeClaimView" where
  "claim_with_metadata s x = s\<lparr>claim_metadata := x\<rparr>"

definition claim_with_spec :: "PersistentVolumeClaimView \<Rightarrow> PersistentVolumeClaimSpecView \<Rightarrow> PersistentVolumeClaimView" where
  "claim_with_spec s x = s\<lparr>claim_spec := Some x\<rparr>"

record ConfigMapView =
  config_map_metadata :: ObjectMetaView
  config_map_data :: "(StringView \<rightharpoonup> StringView) option"

definition config_map_with_metadata :: "ConfigMapView \<Rightarrow> ObjectMetaView \<Rightarrow> ConfigMapView" where
  "config_map_with_metadata s x = s\<lparr>config_map_metadata := x\<rparr>"

definition config_map_with_data :: "ConfigMapView \<Rightarrow> (StringView \<rightharpoonup> StringView) \<Rightarrow> ConfigMapView" where
  "config_map_with_data s x = s\<lparr>config_map_data := Some x\<rparr>"

definition config_map_default :: ConfigMapView where
  "config_map_default =
     \<lparr>config_map_metadata = object_meta_default, config_map_data = None\<rparr>"

record DaemonSetSpecView =
  daemon_set_spec_selector :: LabelSelectorView
  daemon_set_spec_template :: PodTemplateSpecView

definition daemon_set_spec_default :: DaemonSetSpecView where
  "daemon_set_spec_default =
     \<lparr>daemon_set_spec_selector = selector_default, daemon_set_spec_template = template_default\<rparr>"

definition daemon_set_spec_with_selector :: "DaemonSetSpecView \<Rightarrow> LabelSelectorView \<Rightarrow> DaemonSetSpecView" where
  "daemon_set_spec_with_selector s x = s\<lparr>daemon_set_spec_selector := x\<rparr>"

definition daemon_set_spec_with_template :: "DaemonSetSpecView \<Rightarrow> PodTemplateSpecView \<Rightarrow> DaemonSetSpecView" where
  "daemon_set_spec_with_template s x = s\<lparr>daemon_set_spec_template := x\<rparr>"

record DaemonSetStatusView =
  daemon_set_status_number_ready :: int

definition daemon_set_status_default :: DaemonSetStatusView where
  "daemon_set_status_default =
     \<lparr>daemon_set_status_number_ready = 0\<rparr>"

record DaemonSetView =
  daemon_set_metadata :: ObjectMetaView
  daemon_set_spec :: "DaemonSetSpecView option"
  daemon_set_status :: "DaemonSetStatusView option"

definition daemon_set_with_metadata :: "DaemonSetView \<Rightarrow> ObjectMetaView \<Rightarrow> DaemonSetView" where
  "daemon_set_with_metadata s x = s\<lparr>daemon_set_metadata := x\<rparr>"

definition daemon_set_with_spec :: "DaemonSetView \<Rightarrow> DaemonSetSpecView \<Rightarrow> DaemonSetView" where
  "daemon_set_with_spec s x = s\<lparr>daemon_set_spec := Some x\<rparr>"

record PolicyRuleView =
  policy_rule_api_groups :: "StringView list option"
  policy_rule_resources :: "StringView list option"
  policy_rule_verbs :: "StringView list"

definition policy_rule_default :: PolicyRuleView where
  "policy_rule_default =
     \<lparr>policy_rule_api_groups = None, policy_rule_resources = None, policy_rule_verbs = []\<rparr>"

definition policy_rule_with_api_groups :: "PolicyRuleView \<Rightarrow> StringView list \<Rightarrow> PolicyRuleView" where
  "policy_rule_with_api_groups s x = s\<lparr>policy_rule_api_groups := Some x\<rparr>"

definition policy_rule_with_resources :: "PolicyRuleView \<Rightarrow> StringView list \<Rightarrow> PolicyRuleView" where
  "policy_rule_with_resources s x = s\<lparr>policy_rule_resources := Some x\<rparr>"

definition policy_rule_with_verbs :: "PolicyRuleView \<Rightarrow> StringView list \<Rightarrow> PolicyRuleView" where
  "policy_rule_with_verbs s x = s\<lparr>policy_rule_verbs := x\<rparr>"

record RoleView =
  role_metadata :: ObjectMetaView
  role_policy_rules :: "PolicyRuleView list option"

definition role_with_metadata :: "RoleView \<Rightarrow> ObjectMetaView \<Rightarrow> RoleView" where
  "role_with_metadata s x = s\<lparr>role_metadata := x\<rparr>"

definition role_with_rules :: "RoleView \<Rightarrow> PolicyRuleView list \<Rightarrow> RoleView" where
  "role_with_rules s x = s\<lparr>role_policy_rules := Some x\<rparr>"

definition role_default :: RoleView where
  "role_default =
     \<lparr>role_metadata = object_meta_default, role_policy_rules = None\<rparr>"

record RoleRefView =
  role_ref_api_group :: StringView
  role_ref_kind :: StringView
  role_ref_name :: StringView

definition role_ref_default :: RoleRefView where
  "role_ref_default =
     \<lparr>role_ref_api_group = [], role_ref_kind = [], role_ref_name = []\<rparr>"

definition role_ref_with_api_group :: "RoleRefView \<Rightarrow> StringView \<Rightarrow> RoleRefView" where
  "role_ref_with_api_group s x = s\<lparr>role_ref_api_group := x\<rparr>"

definition role_ref_with_kind :: "RoleRefView \<Rightarrow> StringView \<Rightarrow> RoleRefView" where
  "role_ref_with_kind s x = s\<lparr>role_ref_kind := x\<rparr>"

definition role_ref_with_name :: "RoleRefView \<Rightarrow> StringView \<Rightarrow> RoleRefView" where
  "role_ref_with_name s x = s\<lparr>role_ref_name := x\<rparr>"

record SubjectView =
  subject_kind :: StringView
  subject_name :: StringView
  subject_namespace :: "StringView option"

definition subject_default :: SubjectView where
  "subject_default =
     \<lparr>subject_kind = [], subject_name = [], subject_namespace = None\<rparr>"

definition subject_with_kind :: "SubjectView \<Rightarrow> StringView \<Rightarrow> SubjectView" where
  "subject_with_kind s x = s\<lparr>subject_kind := x\<rparr>"

definition subject_with_name :: "SubjectView \<Rightarrow> StringView \<Rightarrow> SubjectView" where
  "subject_with_name s x = s\<lparr>subject_name := x\<rparr>"

definition subject_with_namespace :: "SubjectView \<Rightarrow> StringView \<Rightarrow> SubjectView" where
  "subject_with_namespace s x = s\<lparr>subject_namespace := Some x\<rparr>"

record RoleBindingView =
  role_binding_metadata :: ObjectMetaView
  role_binding_role_ref :: RoleRefView
  role_binding_subjects :: "SubjectView list option"

definition role_binding_with_metadata :: "RoleBindingView \<Rightarrow> ObjectMetaView \<Rightarrow> RoleBindingView" where
  "role_binding_with_metadata s x = s\<lparr>role_binding_metadata := x\<rparr>"

definition role_binding_with_role_ref :: "RoleBindingView \<Rightarrow> RoleRefView \<Rightarrow> RoleBindingView" where
  "role_binding_with_role_ref s x = s\<lparr>role_binding_role_ref := x\<rparr>"

definition role_binding_with_subjects :: "RoleBindingView \<Rightarrow> SubjectView list \<Rightarrow> RoleBindingView" where
  "role_binding_with_subjects s x = s\<lparr>role_binding_subjects := Some x\<rparr>"

definition role_binding_default :: RoleBindingView where
  "role_binding_default =
     \<lparr>role_binding_metadata = object_meta_default, role_binding_role_ref = role_ref_default,
      role_binding_subjects = None\<rparr>"

record SecretView =
  secret_metadata :: ObjectMetaView
  secret_data :: "(StringView \<rightharpoonup> StringView) option"

definition secret_with_metadata :: "SecretView \<Rightarrow> ObjectMetaView \<Rightarrow> SecretView" where
  "secret_with_metadata s x = s\<lparr>secret_metadata := x\<rparr>"

definition secret_with_data :: "SecretView \<Rightarrow> (StringView \<rightharpoonup> StringView) \<Rightarrow> SecretView" where
  "secret_with_data s x = s\<lparr>secret_data := Some x\<rparr>"

definition secret_default :: SecretView where
  "secret_default =
     \<lparr>secret_metadata = object_meta_default, secret_data = None\<rparr>"

record ServicePortView =
  service_port_name :: "StringView option"
  service_port_port :: int
  service_port_app_protocol :: "StringView option"
  service_port_protocol :: "StringView option"

definition service_port_default :: ServicePortView where
  "service_port_default =
     \<lparr>service_port_name = None, service_port_port = 0, service_port_app_protocol = None,
      service_port_protocol = None\<rparr>"

definition service_port_with_name :: "ServicePortView \<Rightarrow> StringView \<Rightarrow> ServicePortView" where
  "service_port_with_name s x = s\<lparr>service_port_name := Some x\<rparr>"

definition service_port_with_port :: "ServicePortView \<Rightarrow> int \<Rightarrow> ServicePortView" where
  "service_port_with_port s x = s\<lparr>service_port_port := x\<rparr>"

definition service_port_with_app_protocol :: "ServicePortView \<Rightarrow> StringView \<Rightarrow> ServicePortView" where
  "service_port_with_app_protocol s x = s\<lparr>service_port_app_protocol := Some x\<rparr>"

definition service_port_with_protocol :: "ServicePortView \<Rightarrow> StringView \<Rightarrow> ServicePortView" where
  "service_port_with_protocol s x = s\<lparr>service_port_protocol := Some x\<rparr>"

record ServiceSpecView =
  service_spec_cluster_ip :: "StringView option"
  service_spec_ports :: "ServicePortView list option"
  service_spec_selector :: "(StringView \<rightharpoonup> StringView) option"
  service_spec_publish_not_ready_addresses :: "bool option"

definition service_spec_default :: ServiceSpecView where
  "service_spec_default =
     \<lparr>service_spec_cluster_ip = None, service_spec_ports = None, service_spec_selector = None,
      service_spec_publish_not_ready_addresses = None\<rparr>"

definition service_spec_with_cluster_ip :: "ServiceSpecView \<Rightarrow> StringView \<Rightarrow> ServiceSpecView" where
  "service_spec_with_cluster_ip s x = s\<lparr>service_spec_cluster_ip := Some x\<rparr>"

definition service_spec_with_ports :: "ServiceSpecView \<Rightarrow> ServicePortView list \<Rightarrow> ServiceSpecView" where
  "service_spec_with_ports s x = s\<lparr>service_spec_ports := Some x\<rparr>"

definition service_spec_with_selector :: "ServiceSpecView \<Rightarrow> (StringView \<rightharpoonup> StringView) \<Rightarrow> ServiceSpecView" where
  "service_spec_with_selector s x = s\<lparr>service_spec_selector := Some x\<rparr>"

definition service_spec_with_publish_not_ready_addresses :: "ServiceSpecView \<Rightarrow> bool \<Rightarrow> ServiceSpecView" where
  "service_spec_with_publish_not_ready_addresses s x = s\<lparr>service_spec_publish_not_ready_addresses := Some x\<rparr>"

definition service_spec_without_publish_not_ready_addresses :: "ServiceSpecView \<Rightarrow> ServiceSpecView" where
  "service_spec_without_publish_not_ready_addresses s = s\<lparr>service_spec_publish_not_ready_addresses := None\<rparr>"

record ServiceView =
  service_metadata :: ObjectMetaView
  service_spec :: "ServiceSpecView option"
  service_status :: "ServiceStatusView option"

definition service_with_metadata :: "ServiceView \<Rightarrow> ObjectMetaView \<Rightarrow> ServiceView" where
  "service_with_metadata s x = s\<lparr>service_metadata := x\<rparr>"

definition service_with_spec :: "ServiceView \<Rightarrow> ServiceSpecView \<Rightarrow> ServiceView" where
  "service_with_spec s x = s\<lparr>service_spec := Some x\<rparr>"

record ServiceAccountView =
  service_account_metadata :: ObjectMetaView
  service_account_automount_service_account_token :: "bool option"

definition service_account_with_metadata :: "ServiceAccountView \<Rightarrow> ObjectMetaView \<Rightarrow> ServiceAccountView" where
  "service_account_with_metadata s x = s\<lparr>service_account_metadata := x\<rparr>"

definition service_account_default :: ServiceAccountView where
  "service_account_default =
     \<lparr>service_account_metadata = object_meta_default,
      service_account_automount_service_account_token = None\<rparr>"

record StatefulSetPersistentVolumeClaimRetentionPolicyView =
  retention_policy_when_deleted :: "StringView option"
  retention_policy_when_scaled :: "StringView option"

definition retention_policy_default :: StatefulSetPersistentVolumeClaimRetentionPolicyView where
  "retention_policy_default =
     \<lparr>retention_policy_when_deleted = None, retention_policy_when_scaled = None\<rparr>"

definition retention_policy_with_when_deleted :: "StatefulSetPersistentVolumeClaimRetentionPolicyView \<Rightarrow> StringView \<Rightarrow> StatefulSetPersistentVolumeClaimRetentionPolicyView" where
  "retention_policy_with_when_deleted s x = s\<lparr>retention_policy_when_deleted := Some x\<rparr>"

definition retention_policy_with_when_scaled :: "StatefulSetPersistentVolumeClaimRetentionPolicyView \<Rightarrow> StringView \<Rightarrow> StatefulSetPersistentVolumeClaimRetentionPolicyView" where
  "retention_policy_with_when_scaled s x = s\<lparr>retention_policy_when_scaled := Some x\<rparr>"

record StatefulSetOrdinalsView =
  ordinals_start :: "int option"

definition ordinals_default :: StatefulSetOrdinalsView where
  "ordinals_default =
     \<lparr>ordinals_start = None\<rparr>"

definition ordinals_with_start :: "StatefulSetOrdinalsView \<Rightarrow> int \<Rightarrow> StatefulSetOrdinalsView" where
  "ordinals_with_start s x = s\<lparr>ordinals_start := Some x\<rparr>"

record RollingUpdateStatefulSetStrategyView =
  rolling_update_partition :: "int option"
  rolling_update_max_unavailable :: "int option"

definition rolling_update_default :: RollingUpdateStatefulSetStrategyView where
  "rolling_update_default =
     \<lparr>rolling_update_partition = None, rolling_update_max_unavailable = None\<rparr>"

definition rolling_update_with_partition :: "RollingUpdateStatefulSetStrategyView \<Rightarrow> int \<Rightarrow> RollingUpdateStatefulSetStrategyView" where
  "rolling_update_with_partition s x = s\<lparr>rolling_update_partition := Some x\<rparr>"

definition rolling_update_with_max_unavailable :: "RollingUpdateStatefulSetStrategyView \<Rightarrow> int \<Rightarrow> RollingUpdateStatefulSetStrategyView" where
  "rolling_update_with_max_unavailable s x = s\<lparr>rolling_update_max_unavailable := Some x\<rparr>"

record StatefulSetUpdateStrategyView =
  update_strategy_type :: "StringView option"
  update_strategy_rolling_update :: "RollingUpdateStatefulSetStrategyView option"

definition update_strategy_default :: StatefulSetUpdateStrategyView where
  "update_strategy_default =
     \<lparr>update_strategy_type = None, update_strategy_rolling_update = None\<rparr>"

definition update_strategy_with_type :: "StatefulSetUpdateStrategyView \<Rightarrow> StringView \<Rightarrow> StatefulSetUpdateStrategyView" where
  "update_strategy_with_type s x = s\<lparr>update_strategy_type := Some x\<rparr>"

definition update_strategy_with_rolling_update :: "StatefulSetUpdateStrategyView \<Rightarrow> RollingUpdateStatefulSetStrategyView \<Rightarrow> StatefulSetUpdateStrategyView" where
  "update_strategy_with_rolling_update s x = s\<lparr>update_strategy_rolling_update := Some x\<rparr>"

record StatefulSetSpecView =
  stateful_set_spec_min_ready_seconds :: "int option"
  stateful_set_spec_ordinals :: "StatefulSetOrdinalsView option"
  stateful_set_spec_persistent_volume_claim_retention_policy :: "StatefulSetPersistentVolumeClaimRetentionPolicyView option"
  stateful_set_spec_pod_management_policy :: "StringView option"
  stateful_set_spec_replicas :: "int option"
  stateful_set_spec_revision_history_limit :: "int option"
  stateful_set_spec_selector :: LabelSelectorView
  stateful_set_spec_service_name :: StringView
  stateful_set_spec_template :: PodTemplateSpecView
  stateful_set_spec_update_strategy :: "StatefulSetUpdateStrategyView option"
  stateful_set_spec_volume_claim_templates :: "PersistentVolumeClaimView list option"

definition stateful_set_spec_default :: StatefulSetSpecView where
  "stateful_set_spec_default =
     \<lparr>stateful_set_spec_min_ready_seconds = None, stateful_set_spec_ordinals = None,
      stateful_set_spec_persistent_volume_claim_retention_policy = None,
      stateful_set_spec_pod_management_policy = None, stateful_set_spec_replicas = None,
      stateful_set_spec_revision_history_limit = None, stateful_set_spec_selector = selector_default,
      stateful_set_spec_service_name = [], stateful_set_spec_template = template_default,
      stateful_set_spec_update_strategy = None, stateful_set_spec_volume_claim_templates = None\<rparr>"

definition stateful_set_spec_with_replicas :: "StatefulSetSpecView \<Rightarrow> int \<Rightarrow> StatefulSetSpecView" where
  "stateful_set_spec_with_replicas s x = s\<lparr>stateful_set_spec_replicas := Some x\<rparr>"

definition stateful_set_spec_with_selector :: "StatefulSetSpecView \<Rightarrow> LabelSelectorView \<Rightarrow> StatefulSetSpecView" where
  "stateful_set_spec_with_selector s x = s\<lparr>stateful_set_spec_selector := x\<rparr>"

definition stateful_set_spec_with_service_name :: "StatefulSetSpecView \<Rightarrow> StringView \<Rightarrow> StatefulSetSpecView" where
  "stateful_set_spec_with_service_name s x = s\<lparr>stateful_set_spec_service_name := x\<rparr>"

definition stateful_set_spec_with_template :: "StatefulSetSpecView \<Rightarrow> PodTemplateSpecView \<Rightarrow> StatefulSetSpecView" where
  "stateful_set_spec_with_template s x = s\<lparr>stateful_set_spec_template := x\<rparr>"

definition stateful_set_spec_with_volume_claim_templates :: "StatefulSetSpecView \<Rightarrow> PersistentVolumeClaimView list \<Rightarrow> StatefulSetSpecView" where
  "stateful_set_spec_with_volume_claim_templates s x = s\<lparr>stateful_set_spec_volume_claim_templates := Some x\<rparr>"

definition stateful_set_spec_with_pod_management_policy :: "StatefulSetSpecView \<Rightarrow> StringView \<Rightarrow> StatefulSetSpecView" where
  "stateful_set_spec_with_pod_management_policy s x = s\<lparr>stateful_set_spec_pod_management_policy := Some x\<rparr>"

definition stateful_set_spec_with_pvc_retention_policy :: "StatefulSetSpecView \<Rightarrow> StatefulSetPersistentVolumeClaimRetentionPolicyView \<Rightarrow> StatefulSetSpecView" where
  "stateful_set_spec_with_pvc_retention_policy s x = s\<lparr>stateful_set_spec_persistent_volume_claim_retention_policy := Some x\<rparr>"

definition stateful_set_spec_without_pvc_retention_policy :: "StatefulSetSpecView \<Rightarrow> StatefulSetSpecView" where
  "stateful_set_spec_without_pvc_retention_policy s = s\<lparr>stateful_set_spec_persistent_volume_claim_retention_policy := None\<rparr>"

record StatefulSetStatusView =
  stateful_set_status_ready_replicas :: "int option"

definition stateful_set_status_default :: StatefulSetStatusView where
  "stateful_set_status_default =
     \<lparr>stateful_set_status_ready_replicas = None\<rparr>"

record StatefulSetView =
  stateful_set_metadata :: ObjectMetaView
  stateful_set_spec :: "StatefulSetSpecView option"
  stateful_set_status :: "StatefulSetStatusView option"

definition stateful_set_with_metadata :: "StatefulSetView \<Rightarrow> ObjectMetaView \<Rightarrow> StatefulSetView" where
  "stateful_set_with_metadata s x = s\<lparr>stateful_set_metadata := x\<rparr>"

definition stateful_set_with_spec :: "StatefulSetView \<Rightarrow> StatefulSetSpecView \<Rightarrow> StatefulSetView" where
  "stateful_set_with_spec s x = s\<lparr>stateful_set_spec := Some x\<rparr>"

type_synonym RoleSpecView = "PolicyRuleView list option"
type_synonym RoleBindingSpecView = "RoleRefView \<times> SubjectView list option"

definition empty_status :: EmptyStatusView where
  "empty_status = ()"

section \<open>Validation\<close>

definition config_map_state_validation :: "ConfigMapView \<Rightarrow> bool" where
  "config_map_state_validation x \<longleftrightarrow> True"

definition config_map_transition_validation :: "ConfigMapView \<Rightarrow> ConfigMapView \<Rightarrow> bool" where
  "config_map_transition_validation x old \<longleftrightarrow> True"

definition daemon_set_state_validation :: "DaemonSetView \<Rightarrow> bool" where
  "daemon_set_state_validation x \<longleftrightarrow> daemon_set_spec x \<noteq> None"

definition daemon_set_transition_validation :: "DaemonSetView \<Rightarrow> DaemonSetView \<Rightarrow> bool" where
  "daemon_set_transition_validation x old \<longleftrightarrow>
     (let old_spec = the (daemon_set_spec old); new_spec = the (daemon_set_spec x)
      in daemon_set_spec_selector old_spec = daemon_set_spec_selector new_spec)"

definition claim_state_validation :: "PersistentVolumeClaimView \<Rightarrow> bool" where
  "claim_state_validation x \<longleftrightarrow> claim_spec x \<noteq> None"

definition claim_transition_validation :: "PersistentVolumeClaimView \<Rightarrow> PersistentVolumeClaimView \<Rightarrow> bool" where
  "claim_transition_validation x old \<longleftrightarrow> True"

definition pod_state_validation :: "PodView \<Rightarrow> bool" where
  "pod_state_validation x \<longleftrightarrow> pod_spec x \<noteq> None"

definition pod_transition_validation :: "PodView \<Rightarrow> PodView \<Rightarrow> bool" where
  "pod_transition_validation x old \<longleftrightarrow> True"

definition policy_rule_state_validation :: "PolicyRuleView \<Rightarrow> bool" where
  "policy_rule_state_validation r \<longleftrightarrow>
     policy_rule_api_groups r \<noteq> None \<and> length (the (policy_rule_api_groups r)) > 0 \<and>
     policy_rule_resources r \<noteq> None \<and> length (the (policy_rule_resources r)) > 0 \<and> length (policy_rule_verbs r) > 0"

definition role_state_validation :: "RoleView \<Rightarrow> bool" where
  "role_state_validation x \<longleftrightarrow>
     (role_policy_rules x \<noteq> None \<longrightarrow>
        (\<forall>i<length (the (role_policy_rules x)). policy_rule_state_validation (the (role_policy_rules x) ! i)))"

definition role_transition_validation :: "RoleView \<Rightarrow> RoleView \<Rightarrow> bool" where
  "role_transition_validation x old \<longleftrightarrow> True"

definition subject_state_validation :: "SubjectView \<Rightarrow> bool \<Rightarrow> bool" where
  "subject_state_validation x is_namespaced \<longleftrightarrow>
     subject_kind x = ''ServiceAccount'' \<and>
     (is_namespaced \<longrightarrow> subject_namespace x \<noteq> None \<and> length (the (subject_namespace x)) > 0)"

definition role_binding_state_validation :: "RoleBindingView \<Rightarrow> bool" where
  "role_binding_state_validation x \<longleftrightarrow>
     role_ref_api_group (role_binding_role_ref x) = ''rbac.authorization.k8s.io'' \<and>
     (role_ref_kind (role_binding_role_ref x) = ''Role'' \<or> role_ref_kind (role_binding_role_ref x) = ''ClusterRole'')"

definition role_binding_transition_validation :: "RoleBindingView \<Rightarrow> RoleBindingView \<Rightarrow> bool" where
  "role_binding_transition_validation x old \<longleftrightarrow> role_binding_role_ref old = role_binding_role_ref x"

definition secret_state_validation :: "SecretView \<Rightarrow> bool" where
  "secret_state_validation x \<longleftrightarrow> True"

definition secret_transition_validation :: "SecretView \<Rightarrow> SecretView \<Rightarrow> bool" where
  "secret_transition_validation x old \<longleftrightarrow> True"

definition service_state_validation :: "ServiceView \<Rightarrow> bool" where
  "service_state_validation x \<longleftrightarrow> service_spec x \<noteq> None"

definition service_transition_validation :: "ServiceView \<Rightarrow> ServiceView \<Rightarrow> bool" where
  "service_transition_validation x old \<longleftrightarrow> True"

definition service_account_state_validation :: "ServiceAccountView \<Rightarrow> bool" where
  "service_account_state_validation x \<longleftrightarrow> True"

definition service_account_transition_validation :: "ServiceAccountView \<Rightarrow> ServiceAccountView \<Rightarrow> bool" where
  "service_account_transition_validation x old \<longleftrightarrow> True"

definition retention_policy_state_validation :: "StatefulSetPersistentVolumeClaimRetentionPolicyView \<Rightarrow> bool" where
  "retention_policy_state_validation p \<longleftrightarrow>
     (retention_policy_when_deleted p \<noteq> None \<longrightarrow>
        the (retention_policy_when_deleted p) = ''Retain'' \<or> the (retention_policy_when_deleted p) = ''Delete'') \<and>
     (retention_policy_when_scaled p \<noteq> None \<longrightarrow>
        the (retention_policy_when_scaled p) = ''Retain'' \<or> the (retention_policy_when_scaled p) = ''Delete'')"

definition stateful_set_state_validation :: "StatefulSetView \<Rightarrow> bool" where
  "stateful_set_state_validation x \<longleftrightarrow>
     (let new_spec = the (stateful_set_spec x)
      in stateful_set_spec x \<noteq> None \<and>
         (stateful_set_spec_replicas new_spec \<noteq> None \<longrightarrow> the (stateful_set_spec_replicas new_spec) \<ge> 0))"

definition stateful_set_transition_validation :: "StatefulSetView \<Rightarrow> StatefulSetView \<Rightarrow> bool" where
  "stateful_set_transition_validation x old \<longleftrightarrow>
     (let old_spec = the (stateful_set_spec old); new_spec = the (stateful_set_spec x)
      in old_spec = new_spec
           \<lparr>stateful_set_spec_replicas := stateful_set_spec_replicas old_spec,
            stateful_set_spec_template := stateful_set_spec_template old_spec,
            stateful_set_spec_persistent_volume_claim_retention_policy :=
              stateful_set_spec_persistent_volume_claim_retention_policy old_spec\<rparr>)"

section \<open>Instances of the resource trait\<close>

definition daemon_set_trait :: "(DaemonSetSpecView option) codec \<Rightarrow> (DaemonSetStatusView option) codec \<Rightarrow> (DaemonSetView, DaemonSetSpecView option, DaemonSetStatusView option) resource_trait" where
  "daemon_set_trait =
     implement_resource_view_trait (\<lambda>m s t. \<lparr>daemon_set_metadata = m, daemon_set_spec = s, daemon_set_status = t\<rparr>) daemon_set_metadata daemon_set_spec daemon_set_status
       None None DaemonSetKind daemon_set_state_validation daemon_set_transition_validation"

definition claim_trait :: "(PersistentVolumeClaimSpecView option) codec \<Rightarrow> (PersistentVolumeClaimStatusView option) codec \<Rightarrow> (PersistentVolumeClaimView, PersistentVolumeClaimSpecView option, PersistentVolumeClaimStatusView option) resource_trait" where
  "claim_trait =
     implement_resource_view_trait (\<lambda>m s t. \<lparr>claim_metadata = m, claim_spec = s, claim_status = t\<rparr>) claim_metadata claim_spec claim_status
       None None PersistentVolumeClaimKind claim_state_validation claim_transition_validation"

definition pod_trait :: "(PodSpecView option) codec \<Rightarrow> (PodStatusView option) codec \<Rightarrow> (PodView, PodSpecView option, PodStatusView option) resource_trait" where
  "pod_trait =
     implement_resource_view_trait (\<lambda>m s t. \<lparr>pod_metadata = m, pod_spec = s, pod_status = t\<rparr>) pod_metadata pod_spec pod_status
       None None PodKind pod_state_validation pod_transition_validation"

definition service_trait :: "(ServiceSpecView option) codec \<Rightarrow> (ServiceStatusView option) codec \<Rightarrow> (ServiceView, ServiceSpecView option, ServiceStatusView option) resource_trait" where
  "service_trait =
     implement_resource_view_trait (\<lambda>m s t. \<lparr>service_metadata = m, service_spec = s, service_status = t\<rparr>) service_metadata service_spec service_status
       None None ServiceKind service_state_validation service_transition_validation"

definition stateful_set_trait :: "(StatefulSetSpecView option) codec \<Rightarrow> (StatefulSetStatusView option) codec \<Rightarrow> (StatefulSetView, StatefulSetSpecView option, StatefulSetStatusView option) resource_trait" where
  "stateful_set_trait =
     implement_resource_view_trait (\<lambda>m s t. \<lparr>stateful_set_metadata = m, stateful_set_spec = s, stateful_set_status = t\<rparr>) stateful_set_metadata stateful_set_spec stateful_set_status
       None None StatefulSetKind stateful_set_state_validation stateful_set_transition_validation"

definition config_map_spec_of :: "ConfigMapView \<Rightarrow> ConfigMapSpecView" where
  "config_map_spec_of x = config_map_data x"

definition config_map_status_of :: "ConfigMapView \<Rightarrow> EmptyStatusView" where
  "config_map_status_of x = empty_status"

definition config_map_unmarshal_helper :: "ConfigMapSpecView codec \<Rightarrow> DynamicObjectView \<Rightarrow> ConfigMapView" where
  "config_map_unmarshal_helper ms d =
     \<lparr>config_map_metadata = obj_metadata d,
        config_map_data = projr (co_unmarshal ms (obj_spec d))\<rparr>"

definition config_map_trait :: "ConfigMapSpecView codec \<Rightarrow> EmptyStatusView codec \<Rightarrow> (ConfigMapView, ConfigMapSpecView, EmptyStatusView) resource_trait" where
  "config_map_trait ms =
     implement_resource_view_trait_with config_map_default config_map_metadata ConfigMapKind config_map_spec_of config_map_status_of
       (config_map_unmarshal_helper ms) config_map_state_validation config_map_transition_validation ms"

definition role_spec_of :: "RoleView \<Rightarrow> RoleSpecView" where
  "role_spec_of x = role_policy_rules x"

definition role_status_of :: "RoleView \<Rightarrow> EmptyStatusView" where
  "role_status_of x = empty_status"

definition role_unmarshal_helper :: "RoleSpecView codec \<Rightarrow> DynamicObjectView \<Rightarrow> RoleView" where
  "role_unmarshal_helper ms d =
     \<lparr>role_metadata = obj_metadata d,
        role_policy_rules = projr (co_unmarshal ms (obj_spec d))\<rparr>"

definition role_trait :: "RoleSpecView codec \<Rightarrow> EmptyStatusView codec \<Rightarrow> (RoleView, RoleSpecView, EmptyStatusView) resource_trait" where
  "role_trait ms =
     implement_resource_view_trait_with role_default role_metadata RoleKind role_spec_of role_status_of
       (role_unmarshal_helper ms) role_state_validation role_transition_validation ms"

definition role_binding_spec_of :: "RoleBindingView \<Rightarrow> RoleBindingSpecView" where
  "role_binding_spec_of x = (role_binding_role_ref x, role_binding_subjects x)"

definition role_binding_status_of :: "RoleBindingView \<Rightarrow> EmptyStatusView" where
  "role_binding_status_of x = empty_status"

definition role_binding_unmarshal_helper :: "RoleBindingSpecView codec \<Rightarrow> DynamicObjectView \<Rightarrow> RoleBindingView" where
  "role_binding_unmarshal_helper ms d =
     \<lparr>role_binding_metadata = obj_metadata d,
        role_binding_role_ref = fst (projr (co_unmarshal ms (obj_spec d))),
        role_binding_subjects = snd (projr (co_unmarshal ms (obj_spec d)))\<rparr>"

definition role_binding_trait :: "RoleBindingSpecView codec \<Rightarrow> EmptyStatusView codec \<Rightarrow> (RoleBindingView, RoleBindingSpecView, EmptyStatusView) resource_trait" where
  "role_binding_trait ms =
     implement_resource_view_trait_with role_binding_default role_binding_metadata RoleBindingKind role_binding_spec_of role_binding_status_of
       (role_binding_unmarshal_helper ms) role_binding_state_validation role_binding_transition_validation ms"

definition secret_spec_of :: "SecretView \<Rightarrow> SecretSpecView" where
  "secret_spec_of x = secret_data x"

definition secret_status_of :: "SecretView \<Rightarrow> EmptyStatusView" where
  "secret_status_of x = empty_status"

definition secret_unmarshal_helper :: "SecretSpecView codec \<Rightarrow> DynamicObjectView \<Rightarrow> SecretView" where
  "secret_unmarshal_helper ms d =
     \<lparr>secret_metadata = obj_metadata d,
        secret_data = projr (co_unmarshal ms (obj_spec d))\<rparr>"

definition secret_trait :: "SecretSpecView codec \<Rightarrow> EmptyStatusView codec \<Rightarrow> (SecretView, SecretSpecView, EmptyStatusView) resource_trait" where
  "secret_trait ms =
     implement_resource_view_trait_with secret_default secret_metadata SecretKind secret_spec_of secret_status_of
       (secret_unmarshal_helper ms) secret_state_validation secret_transition_validation ms"

definition service_account_spec_of :: "ServiceAccountView \<Rightarrow> ServiceAccountSpecView" where
  "service_account_spec_of x = service_account_automount_service_account_token x"

definition service_account_status_of :: "ServiceAccountView \<Rightarrow> EmptyStatusView" where
  "service_account_status_of x = empty_status"

definition service_account_unmarshal_helper :: "ServiceAccountSpecView codec \<Rightarrow> DynamicObjectView \<Rightarrow> ServiceAccountView" where
  "service_account_unmarshal_helper ms d =
     \<lparr>service_account_metadata = obj_metadata d,
        service_account_automount_service_account_token = projr (co_unmarshal ms (obj_spec d))\<rparr>"

definition service_account_trait :: "ServiceAccountSpecView codec \<Rightarrow> EmptyStatusView codec \<Rightarrow> (ServiceAccountView, ServiceAccountSpecView, EmptyStatusView) resource_trait" where
  "service_account_trait ms =
     implement_resource_view_trait_with service_account_default service_account_metadata ServiceAccountKind service_account_spec_of service_account_status_of
       (service_account_unmarshal_helper ms) service_account_state_validation service_account_transition_validation ms"

definition pod_default :: PodView where
  "pod_default = \<lparr>pod_metadata = object_meta_default, pod_spec = None, pod_status = None\<rparr>"

lemma pod_default_is_default: "pod_default = rt_default (pod_trait ms mt)"
  by (simp add: pod_default_def pod_trait_def implement_resource_view_trait_def implement_resource_view_trait_with_def)

text \<open>Each is an instance of the trait, for the values that its codecs give back.\<close>

lemmas macro_defs = implement_resource_view_trait_def implement_resource_view_trait_with_def

lemma daemon_set_parts:
  assumes "Marshallable ms ok_spec" "Marshallable mt ok_status"
  shows "resource_parts ms mt ok_spec ok_status daemon_set_metadata daemon_set_spec daemon_set_status
    (\<lambda>d. \<lparr>daemon_set_metadata = obj_metadata d, daemon_set_spec = projr (co_unmarshal ms (obj_spec d)),
      daemon_set_status = projr (co_unmarshal mt (obj_status d))\<rparr>)"
  using assms by (intro resource_parts.intro resource_parts_axioms.intro) simp_all

lemma daemon_set_resource:
  "Marshallable ms ok_spec \<Longrightarrow> Marshallable mt ok_status \<Longrightarrow> ResourceView (daemon_set_trait ms mt) ok_spec ok_status"
  unfolding daemon_set_trait_def implement_resource_view_trait_def
  by (rule resource_parts.implemented [OF daemon_set_parts])

lemma claim_parts:
  assumes "Marshallable ms ok_spec" "Marshallable mt ok_status"
  shows "resource_parts ms mt ok_spec ok_status claim_metadata claim_spec claim_status
    (\<lambda>d. \<lparr>claim_metadata = obj_metadata d, claim_spec = projr (co_unmarshal ms (obj_spec d)),
      claim_status = projr (co_unmarshal mt (obj_status d))\<rparr>)"
  using assms by (intro resource_parts.intro resource_parts_axioms.intro) simp_all

lemma claim_resource:
  "Marshallable ms ok_spec \<Longrightarrow> Marshallable mt ok_status \<Longrightarrow> ResourceView (claim_trait ms mt) ok_spec ok_status"
  unfolding claim_trait_def implement_resource_view_trait_def
  by (rule resource_parts.implemented [OF claim_parts])

lemma pod_parts:
  assumes "Marshallable ms ok_spec" "Marshallable mt ok_status"
  shows "resource_parts ms mt ok_spec ok_status pod_metadata pod_spec pod_status
    (\<lambda>d. \<lparr>pod_metadata = obj_metadata d, pod_spec = projr (co_unmarshal ms (obj_spec d)),
      pod_status = projr (co_unmarshal mt (obj_status d))\<rparr>)"
  using assms by (intro resource_parts.intro resource_parts_axioms.intro) simp_all

lemma pod_resource:
  "Marshallable ms ok_spec \<Longrightarrow> Marshallable mt ok_status \<Longrightarrow> ResourceView (pod_trait ms mt) ok_spec ok_status"
  unfolding pod_trait_def implement_resource_view_trait_def
  by (rule resource_parts.implemented [OF pod_parts])

lemma service_parts:
  assumes "Marshallable ms ok_spec" "Marshallable mt ok_status"
  shows "resource_parts ms mt ok_spec ok_status service_metadata service_spec service_status
    (\<lambda>d. \<lparr>service_metadata = obj_metadata d, service_spec = projr (co_unmarshal ms (obj_spec d)),
      service_status = projr (co_unmarshal mt (obj_status d))\<rparr>)"
  using assms by (intro resource_parts.intro resource_parts_axioms.intro) simp_all

lemma service_resource:
  "Marshallable ms ok_spec \<Longrightarrow> Marshallable mt ok_status \<Longrightarrow> ResourceView (service_trait ms mt) ok_spec ok_status"
  unfolding service_trait_def implement_resource_view_trait_def
  by (rule resource_parts.implemented [OF service_parts])

lemma stateful_set_parts:
  assumes "Marshallable ms ok_spec" "Marshallable mt ok_status"
  shows "resource_parts ms mt ok_spec ok_status stateful_set_metadata stateful_set_spec stateful_set_status
    (\<lambda>d. \<lparr>stateful_set_metadata = obj_metadata d, stateful_set_spec = projr (co_unmarshal ms (obj_spec d)),
      stateful_set_status = projr (co_unmarshal mt (obj_status d))\<rparr>)"
  using assms by (intro resource_parts.intro resource_parts_axioms.intro) simp_all

lemma stateful_set_resource:
  "Marshallable ms ok_spec \<Longrightarrow> Marshallable mt ok_status \<Longrightarrow> ResourceView (stateful_set_trait ms mt) ok_spec ok_status"
  unfolding stateful_set_trait_def implement_resource_view_trait_def
  by (rule resource_parts.implemented [OF stateful_set_parts])

lemma config_map_parts:
  assumes "Marshallable ms ok_spec" "Marshallable mt ok_status"
  shows "resource_parts ms mt ok_spec ok_status config_map_metadata config_map_spec_of config_map_status_of (config_map_unmarshal_helper ms)"
  using assms
  by (intro resource_parts.intro resource_parts_axioms.intro)
    (auto simp: config_map_spec_of_def config_map_status_of_def config_map_unmarshal_helper_def)

lemma config_map_resource:
  "Marshallable ms ok_spec \<Longrightarrow> Marshallable mt ok_status \<Longrightarrow> ResourceView (config_map_trait ms mt) ok_spec ok_status"
  unfolding config_map_trait_def by (rule resource_parts.implemented [OF config_map_parts])

lemma role_parts:
  assumes "Marshallable ms ok_spec" "Marshallable mt ok_status"
  shows "resource_parts ms mt ok_spec ok_status role_metadata role_spec_of role_status_of (role_unmarshal_helper ms)"
  using assms
  by (intro resource_parts.intro resource_parts_axioms.intro)
    (auto simp: role_spec_of_def role_status_of_def role_unmarshal_helper_def)

lemma role_resource:
  "Marshallable ms ok_spec \<Longrightarrow> Marshallable mt ok_status \<Longrightarrow> ResourceView (role_trait ms mt) ok_spec ok_status"
  unfolding role_trait_def by (rule resource_parts.implemented [OF role_parts])

lemma role_binding_parts:
  assumes "Marshallable ms ok_spec" "Marshallable mt ok_status"
  shows "resource_parts ms mt ok_spec ok_status role_binding_metadata role_binding_spec_of role_binding_status_of (role_binding_unmarshal_helper ms)"
  using assms
  by (intro resource_parts.intro resource_parts_axioms.intro)
    (auto simp: role_binding_spec_of_def role_binding_status_of_def role_binding_unmarshal_helper_def)

lemma role_binding_resource:
  "Marshallable ms ok_spec \<Longrightarrow> Marshallable mt ok_status \<Longrightarrow> ResourceView (role_binding_trait ms mt) ok_spec ok_status"
  unfolding role_binding_trait_def by (rule resource_parts.implemented [OF role_binding_parts])

lemma secret_parts:
  assumes "Marshallable ms ok_spec" "Marshallable mt ok_status"
  shows "resource_parts ms mt ok_spec ok_status secret_metadata secret_spec_of secret_status_of (secret_unmarshal_helper ms)"
  using assms
  by (intro resource_parts.intro resource_parts_axioms.intro)
    (auto simp: secret_spec_of_def secret_status_of_def secret_unmarshal_helper_def)

lemma secret_resource:
  "Marshallable ms ok_spec \<Longrightarrow> Marshallable mt ok_status \<Longrightarrow> ResourceView (secret_trait ms mt) ok_spec ok_status"
  unfolding secret_trait_def by (rule resource_parts.implemented [OF secret_parts])

lemma service_account_parts:
  assumes "Marshallable ms ok_spec" "Marshallable mt ok_status"
  shows "resource_parts ms mt ok_spec ok_status service_account_metadata service_account_spec_of service_account_status_of (service_account_unmarshal_helper ms)"
  using assms
  by (intro resource_parts.intro resource_parts_axioms.intro)
    (auto simp: service_account_spec_of_def service_account_status_of_def service_account_unmarshal_helper_def)

lemma service_account_resource:
  "Marshallable ms ok_spec \<Longrightarrow> Marshallable mt ok_status \<Longrightarrow> ResourceView (service_account_trait ms mt) ok_spec ok_status"
  unfolding service_account_trait_def by (rule resource_parts.implemented [OF service_account_parts])

interpretation pod_object: ResourceView "pod_trait (one_value_codec a) (one_value_codec b)" "(=) a" "(=) b" for a b
  by (rule pod_resource [OF one_value.Marshallable_axioms one_value.Marshallable_axioms])

interpretation role_object: resource_parts "one_value_codec a" "one_value_codec b" "(=) a" "(=) b"
  role_metadata role_spec_of role_status_of "role_unmarshal_helper (one_value_codec a)" for a b
  by (rule role_parts [OF one_value.Marshallable_axioms one_value.Marshallable_axioms])

section \<open>The dispatch of the API server\<close>

record kind_codecs =
  kc_config_map_spec :: "ConfigMapSpecView codec"
  kc_config_map_status :: "EmptyStatusView codec"
  kc_daemon_set_spec :: "(DaemonSetSpecView option) codec"
  kc_daemon_set_status :: "(DaemonSetStatusView option) codec"
  kc_claim_spec :: "(PersistentVolumeClaimSpecView option) codec"
  kc_claim_status :: "(PersistentVolumeClaimStatusView option) codec"
  kc_pod_spec :: "(PodSpecView option) codec"
  kc_pod_status :: "(PodStatusView option) codec"
  kc_role_binding_spec :: "RoleBindingSpecView codec"
  kc_role_binding_status :: "EmptyStatusView codec"
  kc_role_spec :: "RoleSpecView codec"
  kc_role_status :: "EmptyStatusView codec"
  kc_secret_spec :: "SecretSpecView codec"
  kc_secret_status :: "EmptyStatusView codec"
  kc_service_spec :: "(ServiceSpecView option) codec"
  kc_service_status :: "(ServiceStatusView option) codec"
  kc_stateful_set_spec :: "(StatefulSetSpecView option) codec"
  kc_stateful_set_status :: "(StatefulSetStatusView option) codec"
  kc_service_account_spec :: "ServiceAccountSpecView codec"
  kc_service_account_status :: "EmptyStatusView codec"

text \<open>The five functions of the API server that dispatch on the kind, for the built-in kinds.\<close>

fun builtin_type :: "kind_codecs \<Rightarrow> Kind \<Rightarrow> InstalledType" where
  "builtin_type c ConfigMapKind = installed_type (config_map_trait (kc_config_map_spec c) (kc_config_map_status c))"
| "builtin_type c DaemonSetKind = installed_type (daemon_set_trait (kc_daemon_set_spec c) (kc_daemon_set_status c))"
| "builtin_type c PersistentVolumeClaimKind = installed_type (claim_trait (kc_claim_spec c) (kc_claim_status c))"
| "builtin_type c PodKind = installed_type (pod_trait (kc_pod_spec c) (kc_pod_status c))"
| "builtin_type c RoleBindingKind = installed_type (role_binding_trait (kc_role_binding_spec c) (kc_role_binding_status c))"
| "builtin_type c RoleKind = installed_type (role_trait (kc_role_spec c) (kc_role_status c))"
| "builtin_type c SecretKind = installed_type (secret_trait (kc_secret_spec c) (kc_secret_status c))"
| "builtin_type c ServiceKind = installed_type (service_trait (kc_service_spec c) (kc_service_status c))"
| "builtin_type c StatefulSetKind = installed_type (stateful_set_trait (kc_stateful_set_spec c) (kc_stateful_set_status c))"
| "builtin_type c ServiceAccountKind = installed_type (service_account_trait (kc_service_account_spec c) (kc_service_account_status c))"
| "builtin_type c (CustomResourceKind s) = undefined"

definition kubernetes_env ::
    "kind_codecs \<Rightarrow> (APIServerState \<Rightarrow> StringView \<Rightarrow> StringView) \<Rightarrow> StringView \<Rightarrow>
       (DynamicObjectView set \<Rightarrow> DynamicObjectView list) \<Rightarrow> api_env" where
  "kubernetes_env c generated_name deletion_timestamp to_seq =
     \<lparr>env_builtin = builtin_type c, env_generated_name = generated_name, env_deletion_timestamp = deletion_timestamp,
      env_to_seq = to_seq\<rparr>"

definition default_statuses_kept :: "kind_codecs \<Rightarrow> bool" where
  "default_statuses_kept c \<longleftrightarrow>
     co_unmarshal (kc_config_map_status c) (co_marshal (kc_config_map_status c) empty_status) = Inr empty_status \<and>
     co_unmarshal (kc_daemon_set_status c) (co_marshal (kc_daemon_set_status c) None) = Inr None \<and>
     co_unmarshal (kc_claim_status c) (co_marshal (kc_claim_status c) None) = Inr None \<and>
     co_unmarshal (kc_pod_status c) (co_marshal (kc_pod_status c) None) = Inr None \<and>
     co_unmarshal (kc_role_binding_status c) (co_marshal (kc_role_binding_status c) empty_status) = Inr empty_status \<and>
     co_unmarshal (kc_role_status c) (co_marshal (kc_role_status c) empty_status) = Inr empty_status \<and>
     co_unmarshal (kc_secret_status c) (co_marshal (kc_secret_status c) empty_status) = Inr empty_status \<and>
     co_unmarshal (kc_service_status c) (co_marshal (kc_service_status c) None) = Inr None \<and>
     co_unmarshal (kc_stateful_set_status c) (co_marshal (kc_stateful_set_status c) None) = Inr None \<and>
     co_unmarshal (kc_service_account_status c) (co_marshal (kc_service_account_status c) empty_status) = Inr empty_status"

text \<open>Validation of a built-in kind looks at the specification only.\<close>

lemmas full_trait_defs = daemon_set_trait_def claim_trait_def pod_trait_def service_trait_def stateful_set_trait_def
  macro_defs
lemmas part_trait_defs = config_map_trait_def role_trait_def role_binding_trait_def secret_trait_def service_account_trait_def
  config_map_unmarshal_helper_def role_unmarshal_helper_def role_binding_unmarshal_helper_def secret_unmarshal_helper_def
  service_account_unmarshal_helper_def macro_defs
lemmas state_validation_defs = config_map_state_validation_def daemon_set_state_validation_def claim_state_validation_def
  pod_state_validation_def role_state_validation_def role_binding_state_validation_def secret_state_validation_def
  service_state_validation_def service_account_state_validation_def stateful_set_state_validation_def
lemmas status_of_defs = config_map_status_of_def role_status_of_def role_binding_status_of_def secret_status_of_def
  service_account_status_of_def empty_status_def

lemma builtin_validation_ignores_metadata:
  assumes "\<And>s. kind \<noteq> CustomResourceKind s"
  shows "it_valid_object (builtin_type c kind) (obj\<lparr>obj_metadata := m\<rparr>) = it_valid_object (builtin_type c kind) obj"
  using assms
  by (cases kind) (auto simp: installed_type_def full_trait_defs part_trait_defs state_validation_defs)

lemma builtin_default_status:
  assumes "\<And>s. kind \<noteq> CustomResourceKind s" "default_statuses_kept c"
  shows "it_unmarshallable_status (builtin_type c kind) (it_marshalled_default_status (builtin_type c kind))"
  using assms
  by (cases kind)
    (auto simp: installed_type_def full_trait_defs part_trait_defs default_statuses_kept_def status_of_defs)

lemma builtin_types_well_behaved:
  assumes "default_statuses_kept c"
    and "\<forall>name T. it name = Some T \<longrightarrow> it_unmarshallable_status T (it_marshalled_default_status T) \<and>
      (\<forall>obj m. it_valid_object T (obj\<lparr>obj_metadata := m\<rparr>) = it_valid_object T obj)"
  shows "well_behaved_types (kubernetes_env c gn ts sq) it"
  unfolding well_behaved_types_def
proof (intro allI impI conjI)
  let ?env = "kubernetes_env c gn ts sq"
  fix kind obj m
  assume inst: "installed_kind it kind"
  show "it_unmarshallable_status (type_of_kind ?env it kind) (it_marshalled_default_status (type_of_kind ?env it kind))"
  proof (cases "\<exists>s. kind = CustomResourceKind s")
    case True
    with inst assms(2) show ?thesis by (auto simp: installed_kind_def type_of_kind_def)
  next
    case False
    with builtin_default_status [of kind, OF _ assms(1)] show ?thesis
      by (cases kind) (simp_all add: type_of_kind_def kubernetes_env_def)
  qed
  show "it_valid_object (type_of_kind ?env it kind) (obj\<lparr>obj_metadata := m\<rparr>) = it_valid_object (type_of_kind ?env it kind) obj"
  proof (cases "\<exists>s. kind = CustomResourceKind s")
    case True
    with inst assms(2) show ?thesis by (auto simp: installed_kind_def type_of_kind_def)
  next
    case False
    with builtin_validation_ignores_metadata [of kind c m obj] show ?thesis
      by (cases kind) (simp_all add: type_of_kind_def kubernetes_env_def)
  qed
qed

lemma requests_keep_well_formed:
  assumes "well_behaved_types env it" "store_invariant s" "each_installed_object_in_etcd_is_well_formed env it s"
  shows "each_installed_object_in_etcd_is_well_formed env it (handle_requests env it reqs s)"
  using assms(2,3)
proof (induction reqs arbitrary: s)
  case (Cons req reqs)
  have "each_object_in_etcd_is_weakly_well_formed s" using Cons.prems(1) by (simp add: store_invariant_def)
  from store_step_well_formed [OF request_step [OF Cons.prems(1)] assms(1) this Cons.prems(2)]
    request_invariant [OF Cons.prems(1), of env it req] Cons.IH show ?case by simp
qed simp

text \<open>The built-in kinds meet what the API server relies on: validation does not depend on the metadata, and the
  status of a new object can be unmarshalled. With custom types that do too, the well-formedness of all stored objects
  is therefore kept by every request.\<close>

theorem builtin_kinds_well_behaved:
  assumes "default_statuses_kept c"
    and "\<forall>name T. it name = Some T \<longrightarrow> it_unmarshallable_status T (it_marshalled_default_status T) \<and>
      (\<forall>obj m. it_valid_object T (obj\<lparr>obj_metadata := m\<rparr>) = it_valid_object T obj)"
    and "store_invariant s" and "each_installed_object_in_etcd_is_well_formed (kubernetes_env c gn ts sq) it s"
  shows "each_installed_object_in_etcd_is_well_formed (kubernetes_env c gn ts sq) it
    (handle_requests (kubernetes_env c gn ts sq) it reqs s)"
  using requests_keep_well_formed [OF builtin_types_well_behaved [OF assms(1,2)] assms(3,4)] .

section \<open>Examples\<close>

text \<open>Codecs that give back one specification and one status of each kind. The templates are those of an example pod.\<close>

definition example_codecs :: kind_codecs where
  "example_codecs =
     \<lparr>kc_config_map_spec = one_value_codec None, kc_config_map_status = one_value_codec empty_status,
      kc_daemon_set_spec = one_value_codec None, kc_daemon_set_status = one_value_codec None,
      kc_claim_spec = one_value_codec None, kc_claim_status = one_value_codec None,
      kc_pod_spec = one_value_codec (Some pod_spec_default), kc_pod_status = one_value_codec None,
      kc_role_binding_spec = one_value_codec (role_ref_default, None), kc_role_binding_status = one_value_codec empty_status,
      kc_role_spec = one_value_codec None, kc_role_status = one_value_codec empty_status,
      kc_secret_spec = one_value_codec None, kc_secret_status = one_value_codec empty_status,
      kc_service_spec = one_value_codec None, kc_service_status = one_value_codec None,
      kc_stateful_set_spec = one_value_codec None, kc_stateful_set_status = one_value_codec None,
      kc_service_account_spec = one_value_codec None, kc_service_account_status = one_value_codec empty_status\<rparr>"

lemma example_statuses_kept: "default_statuses_kept example_codecs"
  by (simp add: default_statuses_kept_def example_codecs_def one_value_codec_def)

section \<open>What the API server promises about names and lists\<close>

definition dash_free :: "StringView \<Rightarrow> bool" where
  "dash_free s \<longleftrightarrow> CHR ''-'' \<notin> set s"

text \<open>The names that the server generates are not in use, if the store is finite, and a list has the objects of a set.\<close>

locale api_env_laws =
  fixes env :: api_env
  assumes generated_name_spec:
      "finite (dom (resources s)) \<Longrightarrow> resources s key \<noteq> None \<Longrightarrow> ref_name key \<noteq> env_generated_name env s n"
      "\<exists>suffix. env_generated_name env s n = n @ suffix \<and> dash_free suffix"
    and to_seq: "finite A \<Longrightarrow> set (env_to_seq env A) = A" "finite A \<Longrightarrow> distinct (env_to_seq env A)"

text \<open>Such an environment: a name that is longer than all names in use.\<close>

definition long_name :: "APIServerState \<Rightarrow> StringView \<Rightarrow> StringView" where
  "long_name s n = n @ replicate (Suc (Max (insert 0 (length ` ref_name ` dom (resources s))))) CHR ''x''"

definition some_order :: "DynamicObjectView set \<Rightarrow> DynamicObjectView list" where
  "some_order A = (SOME xs. set xs = A \<and> distinct xs)"

interpretation some_env: api_env_laws "kubernetes_env c long_name ts some_order" for c ts
proof unfold_locales
  fix s :: APIServerState and key n
  assume fin: "finite (dom (resources s))" and key: "resources s key \<noteq> None"
  have "length (ref_name key) \<le> Max (insert 0 (length ` ref_name ` dom (resources s)))"
    using fin key by (intro Max_ge) auto
  then have "length (ref_name key) < length (long_name s n)" by (simp add: long_name_def)
  then show "ref_name key \<noteq> env_generated_name (kubernetes_env c long_name ts some_order) s n"
    by (auto simp: kubernetes_env_def)
next
  fix s n
  show "\<exists>suffix. env_generated_name (kubernetes_env c long_name ts some_order) s n = n @ suffix \<and> dash_free suffix"
    by (auto simp: kubernetes_env_def long_name_def dash_free_def)
next
  fix A :: "DynamicObjectView set"
  assume "finite A"
  then have "\<exists>xs. set xs = A \<and> distinct xs" using finite_distinct_list by blast
  then have "set (some_order A) = A \<and> distinct (some_order A)" unfolding some_order_def by (rule someI_ex)
  then show "set (env_to_seq (kubernetes_env c long_name ts some_order) A) = A"
    "distinct (env_to_seq (kubernetes_env c long_name ts some_order) A)" by (simp_all add: kubernetes_env_def)
qed

theorem builtin_kinds_well_behaved_witness:
  "each_installed_object_in_etcd_is_well_formed (kubernetes_env example_codecs long_name [] some_order) Map.empty
    (handle_requests (kubernetes_env example_codecs long_name [] some_order) Map.empty
      [UpdateReq example_update, DeleteReq \<lparr>delete_key = example_key, delete_preconditions = None\<rparr>] (example_store None))"
proof (rule builtin_kinds_well_behaved [OF example_statuses_kept _ example_store_invariant])
  show "each_installed_object_in_etcd_is_well_formed (kubernetes_env example_codecs long_name [] some_order) Map.empty (example_store None)"
    by (simp add: each_installed_object_in_etcd_is_well_formed_def etcd_object_is_well_formed_def etcd_object_is_weakly_well_formed_def
        unmarshallable_object_def unmarshallable_spec_def unmarshallable_status_def valid_object_def type_of_kind_def
        kubernetes_env_def installed_type_def full_trait_defs pod_state_validation_def example_codecs_def one_value_codec_def
        example_defs well_formed_for_namespaced_def object_ref_def)
qed simp

definition map_of_option :: "(StringView \<rightharpoonup> StringView) option \<Rightarrow> StringView \<rightharpoonup> StringView" where
  "map_of_option x = (case x of None \<Rightarrow> Map.empty | Some m \<Rightarrow> m)"

lemma surj_map_of_option: "surj map_of_option"
  by (rule surjI [of _ Some]) (simp add: map_of_option_def)

text \<open>C40: two laws that the sources assume without proof hold for no function. A name that differs from all stored
  ones does not exist for every store, as a store of the specification may be infinite; and strings cannot hold all maps, so
  that no functions marshal config maps, secrets and pods as the trait demands.\<close>

theorem assumed_laws_unsatisfiable:
  "\<not> (\<forall>s n. env_generated_name env s n \<notin> ref_name ` dom (resources s)) \<and>
   \<not> ResourceView (config_map_trait config_map_codec status_codec) (\<lambda>_. True) ok \<and>
   \<not> ResourceView (secret_trait secret_codec status_codec) (\<lambda>_. True) ok \<and>
   \<not> ResourceView (pod_trait pod_codec pod_status_codec) (\<lambda>_. True) ok'"
proof (intro conjI notI)
  assume fresh: "\<forall>s n. env_generated_name env s n \<notin> ref_name ` dom (resources s)"
  let ?s = "\<lparr>resources = \<lambda>_. Some undefined, uid_counter = 0, resource_version_counter = 0\<rparr>"
  let ?key = "\<lparr>ref_kind = PodKind, ref_name = env_generated_name env ?s [], ref_namespace = []\<rparr>"
  have "?key \<in> dom (resources ?s)" by simp
  then have "ref_name ?key \<in> ref_name ` dom (resources ?s)" by (rule imageI)
  with fresh [rule_format, of ?s "[]"] show False by simp
next
  assume "ResourceView (config_map_trait config_map_codec status_codec) (\<lambda>_. True) ok"
  from ResourceView.marshal_spec_preserves_integrity [OF this] no_codec_for_all_maps [OF surj_map_of_option]
  show False by (simp add: config_map_trait_def macro_defs)
next
  assume "ResourceView (secret_trait secret_codec status_codec) (\<lambda>_. True) ok"
  from ResourceView.marshal_spec_preserves_integrity [OF this] no_codec_for_all_maps [OF surj_map_of_option]
  show False by (simp add: secret_trait_def macro_defs)
next
  let ?f = "\<lambda>x :: PodSpecView option. case x of None \<Rightarrow> Map.empty | Some p \<Rightarrow> map_of_option (pod_spec_node_selector p)"
  have "surj ?f"
    by (rule surjI [of _ "\<lambda>m. Some (pod_spec_default\<lparr>pod_spec_node_selector := Some m\<rparr>)"]) (simp add: map_of_option_def)
  assume "ResourceView (pod_trait pod_codec pod_status_codec) (\<lambda>_. True) ok'"
  from ResourceView.marshal_spec_preserves_integrity [OF this] no_codec_for_all_maps [OF \<open>surj ?f\<close>]
  show False by (simp add: pod_trait_def macro_defs)
qed

end
