(* ===== verification/Anvil_Shim.thy ===== *)
theory Anvil_Shim
  imports Anvil_Guarantees
begin

text \<open>
  The part of the shim layer that implements transactions (\<open>shim_layer/controller_runtime.rs\<close> below
  \<open>src/projects/anvil-main/src/\<close>): a conditional deletion and a conditional update that read the object, check it
  and write it back under the version that was read, again and again until the write does not conflict. The API
  server of the cluster model has these transactions as atomic requests; the loops are proved to implement them.

  The client library is not part of the source. A call of it is one request to the API server, after the requests
  of other clients that have arrived in between (\<open>kw_others\<close>); the errors that it reports are a parameter
  \<open>to_kube\<close>, of which the locale \<open>kube_client\<close> states the reasons that the code looks at.
\<close>

section \<open>Errors\<close>

datatype kube_error = Api string | Not_Api

definition kube_error_to_api_error :: "kube_error \<Rightarrow> APIError" where
  "kube_error_to_api_error error =
     (case error of
        Api reason \<Rightarrow>
          if reason = ''NotFound'' then ObjectNotFound
          else if reason = ''AlreadyExists'' then ObjectAlreadyExists
          else if reason = ''BadRequest'' then BadRequest
          else if reason = ''Conflict'' then Conflict
          else if reason = ''Invalid'' then Invalid
          else if reason = ''InternalError'' then InternalError
          else if reason = ''Timeout'' then Timeout
          else if reason = ''ServerTimeout'' then ServerTimeout
          else OtherAPIError
      | Not_Api \<Rightarrow> OtherAPIError)"

lemma conflict_reason_iff: "kube_error_to_api_error err = Conflict \<longleftrightarrow> err = Api ''Conflict''"
  by (cases err) (simp_all add: kube_error_to_api_error_def)

locale kube_client =
  fixes to_kube :: "APIError \<Rightarrow> kube_error"
  assumes not_found: "to_kube ObjectNotFound = Api ''NotFound''"
    and conflict: "to_kube e = Api ''Conflict'' \<longleftrightarrow> e = Conflict"
    and bad_request: "to_kube BadRequest = Api ''BadRequest''"
    and invalid: "to_kube Invalid = Api ''Invalid''"
begin

lemma reported_not_found: "kube_error_to_api_error (to_kube ObjectNotFound) = ObjectNotFound"
  by (simp add: kube_error_to_api_error_def not_found)

lemma reported_conflict_iff: "kube_error_to_api_error (to_kube e) = Conflict \<longleftrightarrow> e = Conflict"
  by (simp add: conflict_reason_iff conflict)

lemma reported_request_errors:
  "kube_error_to_api_error (to_kube BadRequest) = BadRequest" "kube_error_to_api_error (to_kube Invalid) = Invalid"
  by (simp_all add: kube_error_to_api_error_def bad_request invalid)

end

text \<open>The reasons that the API server of Kubernetes uses.\<close>

definition kube_reason :: "APIError \<Rightarrow> kube_error" where
  "kube_reason e =
     (case e of
        BadRequest \<Rightarrow> Api ''BadRequest'' | Conflict \<Rightarrow> Api ''Conflict'' | Forbidden \<Rightarrow> Api ''Forbidden''
      | Invalid \<Rightarrow> Api ''Invalid'' | ObjectNotFound \<Rightarrow> Api ''NotFound'' | ObjectAlreadyExists \<Rightarrow> Api ''AlreadyExists''
      | InternalError \<Rightarrow> Api ''InternalError'' | Timeout \<Rightarrow> Api ''Timeout'' | ServerTimeout \<Rightarrow> Api ''ServerTimeout''
      | _ \<Rightarrow> Not_Api)"

interpretation kube_reasons: kube_client kube_reason
  by unfold_locales (auto simp: kube_reason_def split: APIError.splits)

section \<open>Calls of the client\<close>

record kube_world =
  kw_store :: APIServerState
  kw_others :: "nat \<Rightarrow> APIRequest list"
  kw_calls :: nat

text \<open>The store at the time of the next call.\<close>

definition store_at_call :: "api_env \<Rightarrow> InstalledTypes \<Rightarrow> kube_world \<Rightarrow> APIServerState" where
  "store_at_call env it w = handle_requests env it (kw_others w (kw_calls w)) (kw_store w)"

definition after_call :: "kube_world \<Rightarrow> APIServerState \<Rightarrow> kube_world" where
  "after_call w s = w\<lparr>kw_store := s, kw_calls := kw_calls w + 1\<rparr>"

definition api_get ::
    "api_env \<Rightarrow> InstalledTypes \<Rightarrow> (APIError \<Rightarrow> kube_error) \<Rightarrow> ObjectRef \<Rightarrow> kube_world \<Rightarrow> kube_world \<times> (kube_error + DynamicObjectView)" where
  "api_get env it to_kube key w =
     (let s = store_at_call env it w
      in (after_call w s, map_sum to_kube id (handle_get_request \<lparr>get_key = key\<rparr> s)))"

definition api_delete ::
    "api_env \<Rightarrow> InstalledTypes \<Rightarrow> (APIError \<Rightarrow> kube_error) \<Rightarrow> DeleteRequest \<Rightarrow> kube_world \<Rightarrow> kube_world \<times> (kube_error + unit)" where
  "api_delete env it to_kube req w =
     (let (s, r) = handle_delete_request env req (store_at_call env it w) in (after_call w s, map_sum to_kube id r))"

definition api_replace ::
    "api_env \<Rightarrow> InstalledTypes \<Rightarrow> (APIError \<Rightarrow> kube_error) \<Rightarrow> UpdateRequest \<Rightarrow> kube_world \<Rightarrow>
       kube_world \<times> (kube_error + DynamicObjectView)" where
  "api_replace env it to_kube req w =
     (let (s, r) = handle_update_request env it req (store_at_call env it w) in (after_call w s, map_sum to_kube id r))"

section \<open>The loops\<close>

partial_function (option) transactional_get_then_delete_by_retry ::
    "api_env \<Rightarrow> InstalledTypes \<Rightarrow> (APIError \<Rightarrow> kube_error) \<Rightarrow> GetThenDeleteRequest \<Rightarrow> kube_world \<Rightarrow>
       (kube_world \<times> (APIError + unit)) option" where
  "transactional_get_then_delete_by_retry env it to_kube req w =
     (let (w1, get_result) = api_get env it to_kube (get_then_delete_key req) w
      in case get_result of
           Inl err \<Rightarrow> Some (w1, Inl (kube_error_to_api_error err))
         | Inr current_obj \<Rightarrow>
             if \<not> owner_references_contains (obj_metadata current_obj) (get_then_delete_owner_ref req)
             then Some (w1, Inl TransactionAbort)
             else
               let (w2, delete_result) = api_delete env it to_kube
                     \<lparr>delete_key = get_then_delete_key req,
                      delete_preconditions = Some \<lparr>pre_uid = om_uid (obj_metadata current_obj),
                        pre_resource_version = om_resource_version (obj_metadata current_obj)\<rparr>\<rparr> w1
               in case delete_result of
                    Inl err \<Rightarrow>
                      (let api_err = kube_error_to_api_error err
                       in if api_err = Conflict then transactional_get_then_delete_by_retry env it to_kube req w2
                          else Some (w2, Inl api_err))
                  | Inr obj \<Rightarrow> Some (w2, Inr ()))"

partial_function (option) transactional_get_then_update_by_retry ::
    "api_env \<Rightarrow> InstalledTypes \<Rightarrow> (APIError \<Rightarrow> kube_error) \<Rightarrow> GetThenUpdateRequest \<Rightarrow> kube_world \<Rightarrow>
       (kube_world \<times> (APIError + DynamicObjectView)) option" where
  "transactional_get_then_update_by_retry env it to_kube req w =
     (let (w1, get_result) = api_get env it to_kube (get_then_update_request_key req) w
      in case get_result of
           Inl err \<Rightarrow> Some (w1, Inl (kube_error_to_api_error err))
         | Inr current_obj \<Rightarrow>
             if \<not> owner_references_contains (obj_metadata current_obj) (get_then_update_owner_ref req)
             then Some (w1, Inl TransactionAbort)
             else
               let obj = get_then_update_obj req;
                   obj_to_update = obj\<lparr>obj_metadata := obj_metadata obj
                     \<lparr>om_resource_version := om_resource_version (obj_metadata current_obj),
                      om_uid := om_uid (obj_metadata current_obj)\<rparr>\<rparr>;
                   (w2, update_result) = api_replace env it to_kube
                     \<lparr>update_namespace = get_then_update_namespace req, update_name = get_then_update_name req,
                      update_obj = obj_to_update\<rparr> w1
               in case update_result of
                    Inl err \<Rightarrow>
                      (let api_err = kube_error_to_api_error err
                       in if api_err = Conflict then transactional_get_then_update_by_retry env it to_kube req w2
                          else Some (w2, Inl api_err))
                  | Inr obj \<Rightarrow> Some (w2, Inr obj))"

section \<open>Retrying\<close>

text \<open>Both loops repeat one attempt until it has a result.\<close>

definition attempt ::
    "api_env \<Rightarrow> InstalledTypes \<Rightarrow> (APIError \<Rightarrow> kube_error) \<Rightarrow> ObjectRef \<Rightarrow> (DynamicObjectView \<Rightarrow> bool) \<Rightarrow>
       (DynamicObjectView \<Rightarrow> APIServerState \<Rightarrow> APIServerState \<times> (APIError + 'r)) \<Rightarrow> kube_world \<Rightarrow>
       kube_world \<times> (APIError + 'r) option" where
  "attempt env it to_kube key check write w =
     (let s1 = store_at_call env it w; w1 = after_call w s1
      in case resources s1 key of
           None \<Rightarrow> (w1, Some (Inl (kube_error_to_api_error (to_kube ObjectNotFound))))
         | Some obj \<Rightarrow>
             if \<not> check obj then (w1, Some (Inl TransactionAbort))
             else
               let (s2, r) = write obj (store_at_call env it w1)
               in (after_call w1 s2,
                   case r of
                     Inl e \<Rightarrow> if kube_error_to_api_error (to_kube e) = Conflict then None
                              else Some (Inl (kube_error_to_api_error (to_kube e)))
                   | Inr x \<Rightarrow> Some (Inr x)))"

inductive retries :: "('w \<Rightarrow> 'w \<times> 'r option) \<Rightarrow> 'w \<Rightarrow> 'w \<Rightarrow> 'r \<Rightarrow> bool" for att where
  Done: "att w = (w', Some r) \<Longrightarrow> retries att w w' r"
| Again: "att w = (w1, None) \<Longrightarrow> retries att w1 w' r \<Longrightarrow> retries att w w' r"

definition delete_write :: "api_env \<Rightarrow> GetThenDeleteRequest \<Rightarrow> DynamicObjectView \<Rightarrow> APIServerState \<Rightarrow> APIServerState \<times> (APIError + unit)" where
  "delete_write env req obj =
     handle_delete_request env
       \<lparr>delete_key = get_then_delete_key req,
        delete_preconditions = Some \<lparr>pre_uid = om_uid (obj_metadata obj), pre_resource_version = om_resource_version (obj_metadata obj)\<rparr>\<rparr>"

definition update_write ::
    "api_env \<Rightarrow> InstalledTypes \<Rightarrow> GetThenUpdateRequest \<Rightarrow> DynamicObjectView \<Rightarrow> APIServerState \<Rightarrow>
       APIServerState \<times> (APIError + DynamicObjectView)" where
  "update_write env it req obj =
     handle_update_request env it
       \<lparr>update_namespace = get_then_update_namespace req, update_name = get_then_update_name req,
        update_obj = (get_then_update_obj req)\<lparr>obj_metadata := obj_metadata (get_then_update_obj req)
          \<lparr>om_resource_version := om_resource_version (obj_metadata obj), om_uid := om_uid (obj_metadata obj)\<rparr>\<rparr>\<rparr>"

abbreviation delete_attempt :: "api_env \<Rightarrow> InstalledTypes \<Rightarrow> (APIError \<Rightarrow> kube_error) \<Rightarrow> GetThenDeleteRequest \<Rightarrow> kube_world \<Rightarrow>
    kube_world \<times> (APIError + unit) option" where
  "delete_attempt env it to_kube req \<equiv>
     attempt env it to_kube (get_then_delete_key req)
       (\<lambda>obj. owner_references_contains (obj_metadata obj) (get_then_delete_owner_ref req)) (delete_write env req)"

abbreviation update_attempt :: "api_env \<Rightarrow> InstalledTypes \<Rightarrow> (APIError \<Rightarrow> kube_error) \<Rightarrow> GetThenUpdateRequest \<Rightarrow> kube_world \<Rightarrow>
    kube_world \<times> (APIError + DynamicObjectView) option" where
  "update_attempt env it to_kube req \<equiv>
     attempt env it to_kube (get_then_update_request_key req)
       (\<lambda>obj. owner_references_contains (obj_metadata obj) (get_then_update_owner_ref req)) (update_write env it req)"

lemma delete_loop_unfold:
  "transactional_get_then_delete_by_retry env it to_kube req w =
     (case delete_attempt env it to_kube req w of
        (w', Some r) \<Rightarrow> Some (w', r)
      | (w', None) \<Rightarrow> transactional_get_then_delete_by_retry env it to_kube req w')"
  by (subst transactional_get_then_delete_by_retry.simps)
    (auto simp: attempt_def api_get_def handle_get_request_def api_delete_def delete_write_def Let_def
      split: option.splits sum.splits prod.splits)

lemma update_loop_unfold:
  "transactional_get_then_update_by_retry env it to_kube req w =
     (case update_attempt env it to_kube req w of
        (w', Some r) \<Rightarrow> Some (w', r)
      | (w', None) \<Rightarrow> transactional_get_then_update_by_retry env it to_kube req w')"
  by (subst transactional_get_then_update_by_retry.simps)
    (auto simp: attempt_def api_get_def handle_get_request_def api_replace_def update_write_def Let_def
      split: option.splits sum.splits prod.splits)

lemma attempt_others: "attempt env it to_kube key check put w = (w', res) \<Longrightarrow> kw_others w' = kw_others w"
  by (auto simp: attempt_def after_call_def Let_def split_beta split: option.splits if_splits)

lemma retries_others:
  "retries (attempt env it to_kube key check put) w w' r \<Longrightarrow> kw_others w' = kw_others w"
  by (induction rule: retries.induct) (auto dest: attempt_others)

lemma retries_delete_loop:
  "retries (delete_attempt env it to_kube req) w w' r \<Longrightarrow> transactional_get_then_delete_by_retry env it to_kube req w = Some (w', r)"
  by (induction rule: retries.induct) (simp_all add: delete_loop_unfold)

lemma retries_update_loop:
  "retries (update_attempt env it to_kube req) w w' r \<Longrightarrow> transactional_get_then_update_by_retry env it to_kube req w = Some (w', r)"
  by (induction rule: retries.induct) (simp_all add: update_loop_unfold)

lemma delete_loop_retries:
  assumes "transactional_get_then_delete_by_retry env it to_kube req w = Some (w', r)"
  shows "retries (delete_attempt env it to_kube req) w w' r"
proof -
  have "case y of (w', r) \<Rightarrow> retries (delete_attempt env it to_kube req) w w' r"
    if "transactional_get_then_delete_by_retry env it to_kube req w = Some y" for y
    using that
  proof (induction rule: transactional_get_then_delete_by_retry.raw_induct [rotated, consumes 1, case_names step])
    case (step loop env it to_kube req w y)
    let ?att = "delete_attempt env it to_kube req w"
    have "Some y = (case ?att of (w', Some r) \<Rightarrow> Some (w', r) | (w', None) \<Rightarrow> loop env it to_kube req w')"
      by (subst step(2) [symmetric])
        (auto simp: attempt_def api_get_def handle_get_request_def api_delete_def delete_write_def Let_def
          split: option.splits sum.splits prod.splits)
    with step(1) show ?case
      by (auto split: prod.splits option.splits intro: retries.intros)
  qed
  from this [OF assms] show ?thesis by simp
qed

lemma update_loop_retries:
  assumes "transactional_get_then_update_by_retry env it to_kube req w = Some (w', r)"
  shows "retries (update_attempt env it to_kube req) w w' r"
proof -
  have "case y of (w', r) \<Rightarrow> retries (update_attempt env it to_kube req) w w' r"
    if "transactional_get_then_update_by_retry env it to_kube req w = Some y" for y
    using that
  proof (induction rule: transactional_get_then_update_by_retry.raw_induct [rotated, consumes 1, case_names step])
    case (step loop env it to_kube req w y)
    let ?att = "update_attempt env it to_kube req w"
    have "Some y = (case ?att of (w', Some r) \<Rightarrow> Some (w', r) | (w', None) \<Rightarrow> loop env it to_kube req w')"
      by (subst step(2) [symmetric])
        (auto simp: attempt_def api_get_def handle_get_request_def api_replace_def update_write_def Let_def
          split: option.splits sum.splits prod.splits)
    with step(1) show ?case
      by (auto split: prod.splits option.splits intro: retries.intros)
  qed
  from this [OF assms] show ?thesis by simp
qed

section \<open>Transactions\<close>

lemma same_version_same_object:
  assumes "store_invariant s" "resources s key = Some obj" "resources (handle_requests env it reqs s) key = Some cur"
    and "om_resource_version (obj_metadata cur) = om_resource_version (obj_metadata obj)"
  shows "cur = obj"
proof -
  have "obj_rv obj < resource_version_counter s"
    using assms(1,2) by (simp add: store_invariant_def weakly_well_formedD)
  with old_version_unchanged [OF assms(1,3)] assms(2,4) show ?thesis by simp
qed

text \<open>The transaction: read, check and write at once.\<close>

definition transact ::
    "ObjectRef \<Rightarrow> (DynamicObjectView \<Rightarrow> bool) \<Rightarrow> (DynamicObjectView \<Rightarrow> APIServerState \<Rightarrow> APIServerState \<times> (APIError + 'r)) \<Rightarrow>
       APIServerState \<Rightarrow> APIServerState \<times> (APIError + 'r)" where
  "transact key check put s =
     (case resources s key of
        None \<Rightarrow> (s, Inl ObjectNotFound)
      | Some obj \<Rightarrow> if check obj then put obj s else (s, Inl TransactionAbort))"

text \<open>What makes a conditional write, after a check of the object that was read, an implementation of an atomic
  transaction: under the version of the stored object it is the transaction; under another version it changes
  nothing and fails with a conflict, because the object is gone, or for a reason that is in the request.\<close>

locale transaction =
  fixes key :: ObjectRef and put :: "DynamicObjectView \<Rightarrow> APIServerState \<Rightarrow> APIServerState \<times> (APIError + 'r)"
  assumes no_conflict: "resources s key = Some obj \<Longrightarrow> snd (put obj s) \<noteq> Inl Conflict"
    and no_abort: "snd (put obj s) \<noteq> Inl TransactionAbort"
    and stale:
      "well_formed_for_namespaced (obj_metadata obj) \<Longrightarrow>
       \<forall>cur. resources s key = Some cur \<longrightarrow> om_resource_version (obj_metadata cur) \<noteq> om_resource_version (obj_metadata obj) \<Longrightarrow>
       \<exists>e. put obj s = (s, Inl e) \<and>
         (e = Conflict \<or> (e = ObjectNotFound \<and> resources s key = None) \<or>
          (\<forall>s'. resources s' key = Some obj \<longrightarrow> put obj s' = (s', Inl e)))"
begin

lemma write_after_read:
  assumes "store_invariant s" "resources s key = Some obj" "s' = handle_requests env it reqs s"
  shows "resources s' key = Some obj \<or>
    (\<exists>e. put obj s' = (s', Inl e) \<and>
       (e = Conflict \<or> (e = ObjectNotFound \<and> resources s' key = None) \<or> put obj s = (s, Inl e)))"
proof (cases "resources s' key = Some obj")
  case False
  have "well_formed_for_namespaced (obj_metadata obj)"
    using assms(1) weakly_well_formedD(1) [OF _ assms(2)] by (simp add: store_invariant_def)
  moreover have "\<forall>cur. resources s' key = Some cur \<longrightarrow> om_resource_version (obj_metadata cur) \<noteq> om_resource_version (obj_metadata obj)"
    using same_version_same_object [OF assms(1,2)] assms(3) False by blast
  ultimately show ?thesis using stale assms(2) by blast
qed simp

end

definition reported :: "(APIError \<Rightarrow> kube_error) \<Rightarrow> APIError \<Rightarrow> APIError" where
  "reported to_kube e = (if e = TransactionAbort then TransactionAbort else kube_error_to_api_error (to_kube e))"

text \<open>The requests of other clients between two states of the world, and that a transaction has been executed at
  once between two of them.\<close>

definition requests_between :: "kube_world \<Rightarrow> kube_world \<Rightarrow> APIRequest list" where
  "requests_between w w' = concat (map (kw_others w) [kw_calls w..<kw_calls w'])"

definition executed_atomically ::
    "api_env \<Rightarrow> InstalledTypes \<Rightarrow> (APIError \<Rightarrow> kube_error) \<Rightarrow> (APIServerState \<Rightarrow> APIServerState \<times> (APIError + 'r)) \<Rightarrow>
       kube_world \<Rightarrow> kube_world \<Rightarrow> APIError + 'r \<Rightarrow> bool" where
  "executed_atomically env it to_kube atomic w w' r \<longleftrightarrow>
     (\<exists>before after s' a.
        requests_between w w' = before @ after \<and> atomic (handle_requests env it before (kw_store w)) = (s', a) \<and>
        kw_store w' = handle_requests env it after s' \<and> r = map_sum (reported to_kube) id a)"

lemma executed_atomicallyI:
  assumes "requests_between w w' = before @ after" and "atomic (handle_requests env it before (kw_store w)) = (s', a)"
    and "kw_store w' = handle_requests env it after s'" and "r = map_sum (reported to_kube) id a"
  shows "executed_atomically env it to_kube atomic w w' r"
  unfolding executed_atomically_def using assms by blast

lemma attempt_calls:
  "attempt env it to_kube key check put w = (w', res) \<Longrightarrow> kw_calls w < kw_calls w' \<and> kw_calls w' \<le> kw_calls w + 2"
  by (auto simp: attempt_def after_call_def Let_def split_beta split: option.splits if_splits)

locale client_transaction = kube_client to_kube + transaction key put
  for to_kube :: "APIError \<Rightarrow> kube_error" and key :: ObjectRef
    and put :: "DynamicObjectView \<Rightarrow> APIServerState \<Rightarrow> APIServerState \<times> (APIError + 'r)"
begin

lemma attempt_again:
  assumes "attempt env it to_kube key check put w = (w1, None)" and inv: "store_invariant (kw_store w)"
  shows "w1 = w\<lparr>kw_store := handle_requests env it (kw_others w (kw_calls w) @ kw_others w (kw_calls w + 1)) (kw_store w),
    kw_calls := kw_calls w + 2\<rparr>"
proof -
  let ?s1 = "store_at_call env it w"
  let ?s2 = "handle_requests env it (kw_others w (kw_calls w + 1)) ?s1"
  have inv1: "store_invariant ?s1" using inv by (simp add: store_at_call_def handle_requests_invariant)
  have s2: "store_at_call env it (after_call w ?s1) = ?s2" by (simp add: store_at_call_def after_call_def)
  from assms(1) obtain obj where obj: "resources ?s1 key = Some obj" and conf: "snd (put obj ?s2) = Inl Conflict"
    and w1: "w1 = after_call (after_call w ?s1) (fst (put obj ?s2))"
    by (auto simp: attempt_def Let_def s2 split_beta reported_conflict_iff split: option.splits if_splits sum.splits)
  from write_after_read [OF inv1 obj refl] no_conflict [of ?s2 obj] conf have "fst (put obj ?s2) = ?s2"
    by (metis fst_conv)
  with w1 show ?thesis by (simp add: after_call_def handle_requests_append store_at_call_def)
qed

lemma attempt_rejected:
  assumes "attempt env it to_kube key check put w = (w', Some r)" and s1: "s1 = store_at_call env it w"
    and rej: "transact key check put s1 = (s1, Inl e)" "resources s1 key = None \<or> \<not> check (the (resources s1 key))"
  shows "executed_atomically env it to_kube (transact key check put) w w' r"
proof (rule executed_atomicallyI)
  have "w' = after_call w s1" and r: "r = Inl (reported to_kube e)"
    using assms by (auto simp: attempt_def transact_def reported_def Let_def split: option.splits if_splits)
  then have w': "kw_calls w' = Suc (kw_calls w)" "kw_store w' = s1" by (simp_all add: after_call_def)
  show "requests_between w w' = kw_others w (kw_calls w) @ []" by (simp add: requests_between_def w')
  show "transact key check put (handle_requests env it (kw_others w (kw_calls w)) (kw_store w)) = (s1, Inl e)"
    using rej(1) s1 by (simp add: store_at_call_def)
  show "kw_store w' = handle_requests env it [] s1" by (simp add: w')
  show "r = map_sum (reported to_kube) id (Inl e)" by (simp add: r)
qed

lemma attempt_written:
  assumes "attempt env it to_kube key check put w = (w', Some r)" and inv: "store_invariant (kw_store w)"
    and s1: "s1 = store_at_call env it w" and obj: "resources s1 key = Some obj" and ok: "check obj"
  shows "executed_atomically env it to_kube (transact key check put) w w' r"
proof -
  let ?o1 = "kw_others w (kw_calls w)" and ?o2 = "kw_others w (kw_calls w + 1)"
  define s2 where "s2 = handle_requests env it ?o2 s1"
  have at1: "handle_requests env it ?o1 (kw_store w) = s1" by (simp add: s1 store_at_call_def)
  have at2: "handle_requests env it (?o1 @ ?o2) (kw_store w) = s2" by (simp add: handle_requests_append at1 s2_def)
  have s2: "store_at_call env it (after_call w s1) = s2" by (simp add: store_at_call_def after_call_def s2_def)
  have inv1: "store_invariant s1" using inv by (simp add: s1 store_at_call_def handle_requests_invariant)
  obtain s' a where a: "put obj s2 = (s', a)" by (cases "put obj s2")
  have att: "w' = after_call (after_call w s1) s'" "r = map_sum (reported to_kube) id a" "a \<noteq> Inl Conflict"
    using assms(1) obj ok a no_abort [of obj s2]
    by (auto simp: attempt_def Let_def s1 [symmetric] s2 reported_def reported_conflict_iff split: if_splits sum.splits)
  then have w': "kw_calls w' = Suc (Suc (kw_calls w))" "kw_store w' = s'" by (simp_all add: after_call_def)
  have between: "requests_between w w' = ?o1 @ ?o2" by (simp add: requests_between_def w' upt_rec)
  have last: ?thesis if "transact key check put s2 = (s', a)"
    by (rule executed_atomicallyI [where before = "?o1 @ ?o2" and after = "[]" and s' = s' and a = a])
      (use that between att(2) w' at2 in simp_all)
  from write_after_read [OF inv1 obj s2_def] show ?thesis
  proof (elim disjE exE conjE)
    assume "resources s2 key = Some obj"
    with last a ok show ?thesis by (simp add: transact_def)
  next
    fix e assume "put obj s2 = (s2, Inl e)" "e = Conflict"
    with a att(3) show ?thesis by simp
  next
    fix e assume "put obj s2 = (s2, Inl e)" "e = ObjectNotFound" "resources s2 key = None"
    with last a show ?thesis by (simp add: transact_def)
  next
    fix e assume e: "put obj s2 = (s2, Inl e)" "put obj s1 = (s1, Inl e)"
    show ?thesis
      by (rule executed_atomicallyI [where before = ?o1 and after = ?o2 and s' = s1 and a = a])
        (use between att(2) w' at1 s2_def a e obj ok in \<open>simp_all add: transact_def\<close>)
  qed
qed

lemma attempt_done:
  assumes "attempt env it to_kube key check put w = (w', Some r)" and "store_invariant (kw_store w)"
  shows "executed_atomically env it to_kube (transact key check put) w w' r"
proof (cases "resources (store_at_call env it w) key")
  case None
  with attempt_rejected [OF assms(1) refl] show ?thesis by (simp add: transact_def)
next
  case (Some obj)
  with attempt_rejected [OF assms(1) refl] attempt_written [OF assms refl Some] show ?thesis
    by (cases "check obj") (simp_all add: transact_def)
qed

lemma retries_atomically:
  assumes "retries (attempt env it to_kube key check put) w w' r" and "store_invariant (kw_store w)"
  shows "kw_calls w < kw_calls w' \<and> executed_atomically env it to_kube (transact key check put) w w' r"
  using assms
proof (induction rule: retries.induct)
  case (Done w w' r)
  with attempt_done attempt_calls show ?case by blast
next
  case (Again w w1 w' r)
  let ?o1 = "kw_others w (kw_calls w)" and ?o2 = "kw_others w (kw_calls w + 1)"
  note w1 = attempt_again [OF Again.hyps(1) Again.prems]
  have "store_invariant (kw_store w1)" using Again.prems by (simp add: w1 handle_requests_invariant)
  note IH = Again.IH [OF this]
  then have later: "kw_calls w + 2 < kw_calls w'" by (simp add: w1)
  then have "[kw_calls w..<kw_calls w'] = kw_calls w # Suc (kw_calls w) # [kw_calls w + 2..<kw_calls w']"
    by (simp add: upt_conv_Cons)
  then have between: "requests_between w w' = ?o1 @ ?o2 @ requests_between w1 w'"
    by (simp add: requests_between_def w1)
  from IH obtain before after s' a where run: "requests_between w1 w' = before @ after"
    "transact key check put (handle_requests env it before (kw_store w1)) = (s', a)" "kw_store w' = handle_requests env it after s'"
    "r = map_sum (reported to_kube) id a"
    by (auto simp: executed_atomically_def)
  then have "transact key check put (handle_requests env it (?o1 @ ?o2 @ before) (kw_store w)) = (s', a)"
    by (simp add: w1 handle_requests_append)
  with run between later show ?case
    by (intro conjI executed_atomicallyI [where before = "?o1 @ ?o2 @ before" and after = after]) auto
qed

lemma attempt_undisturbed:
  assumes "kw_others w (kw_calls w + 1) = []"
  shows "snd (attempt env it to_kube key check put w) \<noteq> None"
proof -
  have "store_at_call env it (after_call w (store_at_call env it w)) = store_at_call env it w"
    using assms by (simp add: store_at_call_def after_call_def)
  with no_conflict [of "store_at_call env it w"] show ?thesis
    by (auto simp: attempt_def Let_def split_beta reported_conflict_iff split: option.splits sum.splits)
qed

lemma retries_end:
  assumes "store_invariant (kw_store w)" and "kw_others w (kw_calls w + 2 * k + 1) = []"
  shows "\<exists>w' r. retries (attempt env it to_kube key check put) w w' r \<and> kw_calls w' \<le> kw_calls w + 2 * k + 2"
  using assms
proof (induction k arbitrary: w)
  case 0
  then obtain w' r where "attempt env it to_kube key check put w = (w', Some r)"
    using attempt_undisturbed [of w env it check] by (cases "attempt env it to_kube key check put w") auto
  with attempt_calls [OF this] show ?case by (auto intro: retries.Done)
next
  case (Suc k)
  show ?case
  proof (cases "attempt env it to_kube key check put w")
    case (Pair w1 res)
    show ?thesis
    proof (cases res)
      case None
      with Pair have att: "attempt env it to_kube key check put w = (w1, None)" by simp
      note w1 = attempt_again [OF this Suc.prems(1)]
      have "store_invariant (kw_store w1)" "kw_others w1 (kw_calls w1 + 2 * k + 1) = []"
        using Suc.prems by (simp_all add: w1 handle_requests_invariant algebra_simps)
      from Suc.IH [OF this] obtain w' r where "retries (attempt env it to_kube key check put) w1 w' r"
        "kw_calls w' \<le> kw_calls w1 + 2 * k + 2" by blast
      with att show ?thesis by (auto simp: w1 intro: retries.Again)
    next
      case (Some r)
      with Pair attempt_calls [of env it to_kube key check put w w1 res] show ?thesis
        by (intro exI [of _ w1] exI [of _ r]) (auto intro: retries.Done)
    qed
  qed
qed

end

section \<open>The loops implement transactions\<close>

lemma delete_write_stale:
  assumes "well_formed_for_namespaced (obj_metadata obj)"
    and "\<forall>cur. resources s (get_then_delete_key req) = Some cur \<longrightarrow>
      om_resource_version (obj_metadata cur) \<noteq> om_resource_version (obj_metadata obj)"
  shows "delete_write env req obj s =
    (s, Inl (if resources s (get_then_delete_key req) = None then ObjectNotFound else Conflict))"
  using assms
  by (auto simp: delete_write_def handle_delete_request_def delete_request_admission_check_def well_formed_for_namespaced_def
      split: option.splits)

lemma admission_cases:
  "(\<forall>s. update_request_admission_check_helper env it name namespace obj s = Some BadRequest) \<or>
   (\<forall>s. update_request_admission_check_helper env it name namespace obj s =
      (case resources s \<lparr>ref_kind = obj_kind obj, ref_name = name, ref_namespace = namespace\<rparr> of
         None \<Rightarrow> Some ObjectNotFound
       | Some cur \<Rightarrow>
           if om_resource_version (obj_metadata obj) = None \<and> \<not> allow_unconditional_update (obj_kind obj) then Some Invalid
           else if om_resource_version (obj_metadata obj) \<noteq> None \<and>
             om_resource_version (obj_metadata obj) \<noteq> om_resource_version (obj_metadata cur) then Some Conflict
           else if om_uid (obj_metadata obj) \<noteq> None \<and> om_uid (obj_metadata obj) \<noteq> om_uid (obj_metadata cur) then Some Conflict
           else None))"
proof (cases "om_name (obj_metadata obj) = Some name \<and> unmarshallable_object env it obj \<and>
      \<not> (om_namespace (obj_metadata obj) \<noteq> None \<and> namespace \<noteq> the (om_namespace (obj_metadata obj)))")
  case True
  then show ?thesis
    by (intro disjI2 allI) (simp add: update_request_admission_check_helper_def Let_def split: option.split)
next
  case False
  then consider "om_name (obj_metadata obj) = None" | n where "om_name (obj_metadata obj) = Some n" "n \<noteq> name"
    | "om_name (obj_metadata obj) = Some name" "\<not> unmarshallable_object env it obj"
    | ns where "om_name (obj_metadata obj) = Some name" "om_namespace (obj_metadata obj) = Some ns" "namespace \<noteq> ns"
    by (metis not_None_eq option.sel)
  then show ?thesis
    by cases (intro disjI1 allI, simp add: update_request_admission_check_helper_def Let_def)+
qed

lemma update_write_stale:
  assumes "well_formed_for_namespaced (obj_metadata obj)"
    and "\<forall>cur. resources s (get_then_update_request_key req) = Some cur \<longrightarrow>
      om_resource_version (obj_metadata cur) \<noteq> om_resource_version (obj_metadata obj)"
  shows "\<exists>e. update_write env it req obj s = (s, Inl e) \<and>
    (e = Conflict \<or> (e = ObjectNotFound \<and> resources s (get_then_update_request_key req) = None) \<or>
     (\<forall>s'. resources s' (get_then_update_request_key req) = Some obj \<longrightarrow> update_write env it req obj s' = (s', Inl e)))"
proof -
  let ?new = "(get_then_update_obj req)\<lparr>obj_metadata := obj_metadata (get_then_update_obj req)
    \<lparr>om_resource_version := om_resource_version (obj_metadata obj), om_uid := om_uid (obj_metadata obj)\<rparr>\<rparr>"
  from admission_cases [of env it "get_then_update_name req" "get_then_update_namespace req" ?new] show ?thesis
  proof
    assume "\<forall>s. update_request_admission_check_helper env it (get_then_update_name req) (get_then_update_namespace req) ?new s =
      Some BadRequest"
    then have "update_write env it req obj s' = (s', Inl BadRequest)" for s'
      by (simp add: update_write_def handle_update_request_def update_request_admission_check_def)
    then show ?thesis by blast
  next
    assume "\<forall>s. update_request_admission_check_helper env it (get_then_update_name req) (get_then_update_namespace req) ?new s =
      (case resources s \<lparr>ref_kind = obj_kind ?new, ref_name = get_then_update_name req, ref_namespace = get_then_update_namespace req\<rparr> of
         None \<Rightarrow> Some ObjectNotFound
       | Some cur \<Rightarrow>
           if om_resource_version (obj_metadata ?new) = None \<and> \<not> allow_unconditional_update (obj_kind ?new) then Some Invalid
           else if om_resource_version (obj_metadata ?new) \<noteq> None \<and>
             om_resource_version (obj_metadata ?new) \<noteq> om_resource_version (obj_metadata cur) then Some Conflict
           else if om_uid (obj_metadata ?new) \<noteq> None \<and> om_uid (obj_metadata ?new) \<noteq> om_uid (obj_metadata cur) then Some Conflict
           else None)"
    from this [rule_format, of s] assms
    have "update_write env it req obj s =
        (s, Inl (if resources s (get_then_update_request_key req) = None then ObjectNotFound else Conflict))"
      by (cases "resources s (get_then_update_request_key req)")
        (auto simp: update_write_def handle_update_request_def update_request_admission_check_def
          get_then_update_request_key_def well_formed_for_namespaced_def)
    then show ?thesis by auto
  qed
qed

lemma validity_no_abort: "updated_object_validity_check env it obj old \<noteq> Some TransactionAbort"
  by (simp add: updated_object_validity_check_def metadata_validity_check_def metadata_transition_validity_check_def
      object_validity_check_def object_transition_validity_check_def Let_def)

lemma admission_no_abort: "update_request_admission_check env it req s \<noteq> Some TransactionAbort"
  by (simp add: update_request_admission_check_def update_request_admission_check_helper_def Let_def)

interpretation delete_transaction: transaction "get_then_delete_key req" "delete_write env req" for req env
proof unfold_locales
  fix obj s
  show "snd (delete_write env req obj s) \<noteq> Inl TransactionAbort"
    "resources s (get_then_delete_key req) = Some obj \<Longrightarrow> snd (delete_write env req obj s) \<noteq> Inl Conflict"
    by (auto simp: delete_write_def handle_delete_request_def delete_request_admission_check_def Let_def split: option.splits)
qed (simp add: delete_write_stale)

interpretation update_transaction: transaction "get_then_update_request_key req" "update_write env it req" for req env it
proof unfold_locales
  fix obj s
  show "resources s (get_then_update_request_key req) = Some obj \<Longrightarrow> snd (update_write env it req obj s) \<noteq> Inl Conflict"
    unfolding update_write_def
    by (rule update_no_conflict [where cur = obj]) (simp_all add: update_request_key_def get_then_update_request_key_def)
  show "snd (update_write env it req obj s) \<noteq> Inl TransactionAbort"
    using validity_no_abort admission_no_abort by (auto simp: update_write_def handle_update_request_def Let_def split: option.splits)
qed (rule update_write_stale)

sublocale kube_client < delete_client: client_transaction to_kube "get_then_delete_key req" "delete_write env req" for req env
  by unfold_locales

sublocale kube_client < update_client:
  client_transaction to_kube "get_then_update_request_key req" "update_write env it req" for req env it
  by unfold_locales

interpretation reasons_delete: client_transaction kube_reason "get_then_delete_key req" "delete_write env req" for req env
  by (rule kube_reasons.delete_client.client_transaction_axioms)

interpretation reasons_update: client_transaction kube_reason "get_then_update_request_key req" "update_write env it req" for req env it
  by (rule kube_reasons.update_client.client_transaction_axioms)

lemma get_then_delete_transact:
  "get_then_delete_well_formed req \<Longrightarrow> handle_get_then_delete_request env req s =
     transact (get_then_delete_key req)
       (\<lambda>obj. owner_references_contains (obj_metadata obj) (get_then_delete_owner_ref req)) (delete_write env req) s"
  by (auto simp: transact_def handle_get_then_delete_request_def handle_get_request_def delete_write_def Let_def
      handle_delete_request_def delete_request_admission_check_def split: option.split)

lemma get_then_update_transact:
  "get_then_update_well_formed req \<Longrightarrow> handle_get_then_update_request env it req s =
     transact (get_then_update_request_key req)
       (\<lambda>obj. owner_references_contains (obj_metadata obj) (get_then_update_owner_ref req)) (update_write env it req) s"
  by (simp add: transact_def handle_get_then_update_request_def handle_get_request_def update_write_def Let_def
      split: option.split)

context kube_client
begin

lemma delete_loop_atomic:
  assumes "store_invariant (kw_store w)" "get_then_delete_well_formed req"
    and "transactional_get_then_delete_by_retry env it to_kube req w = Some (w', r)"
  shows "executed_atomically env it to_kube (handle_get_then_delete_request env req) w w' r"
  using delete_client.retries_atomically [OF delete_loop_retries [OF assms(3)] assms(1)]
  by (simp add: executed_atomically_def get_then_delete_transact [OF assms(2)])

lemma update_loop_atomic:
  assumes "store_invariant (kw_store w)" "get_then_update_well_formed req"
    and "transactional_get_then_update_by_retry env it to_kube req w = Some (w', r)"
  shows "executed_atomically env it to_kube (handle_get_then_update_request env it req) w w' r"
  using update_client.retries_atomically [OF update_loop_retries [OF assms(3)] assms(1)]
  by (simp add: executed_atomically_def get_then_update_transact [OF assms(2)])

lemma delete_loop_returns:
  assumes "store_invariant (kw_store w)" "kw_others w (kw_calls w + 2 * k + 1) = []"
  shows "\<exists>w' r. transactional_get_then_delete_by_retry env it to_kube req w = Some (w', r) \<and>
    kw_calls w' \<le> kw_calls w + 2 * k + 2"
  using delete_client.retries_end [OF assms] retries_delete_loop by blast

lemma update_loop_returns:
  assumes "store_invariant (kw_store w)" "kw_others w (kw_calls w + 2 * k + 1) = []"
  shows "\<exists>w' r. transactional_get_then_update_by_retry env it to_kube req w = Some (w', r) \<and>
    kw_calls w' \<le> kw_calls w + 2 * k + 2"
  using update_client.retries_end [OF assms] retries_update_loop by blast

end












end
