(* ===== verification/Anvil_Reconciler.thy ===== *)
theory Anvil_Reconciler
  imports Anvil_Resources Anvil_Shim Anvil_Hosts
begin

text \<open>
  Reconcilers and how they are run (\<open>reconciler/spec/\<close>, \<open>reconciler/exec/\<close>, \<open>installed_reconcile_model\<close> of
  \<open>kubernetes_cluster/spec/install_helpers.rs\<close>, \<open>reconcile_with\<close> of \<open>shim_layer/controller_runtime.rs\<close>, all below
  \<open>src/projects/anvil-main/src/\<close>). A reconciler is a state machine: each transition takes the response to the previous
  request and gives the next request. A \<open>Reconciler\<close> is the specification of one, an \<open>ExecReconciler\<close> its code, whose
  transitions may panic; the locale \<open>reconciler_conforms\<close> states what the trait of the code demands. The shim layer runs
  the code against the API server. A request or response of the code and its view are identified.
\<close>

section \<open>Requests and responses of a reconciler\<close>

datatype VoidEReqView = VoidEReqView
datatype VoidERespView = VoidERespView

datatype 't RequestView = KRequest APIRequest | ExternalRequest 't
datatype 't ResponseView = KResponse APIResponse | ExternalResponse 't

type_synonym DefaultResp = "VoidERespView ResponseView option"
type_synonym DefaultReq = "VoidEReqView RequestView option"

fun is_some_k_get_resp_view :: "DefaultResp \<Rightarrow> bool" where
  "is_some_k_get_resp_view (Some (KResponse (GetResp _))) = True"
| "is_some_k_get_resp_view _ = False"

fun is_some_k_create_resp_view :: "DefaultResp \<Rightarrow> bool" where
  "is_some_k_create_resp_view (Some (KResponse (CreateResp _))) = True"
| "is_some_k_create_resp_view _ = False"

fun is_some_k_update_resp_view :: "DefaultResp \<Rightarrow> bool" where
  "is_some_k_update_resp_view (Some (KResponse (UpdateResp _))) = True"
| "is_some_k_update_resp_view _ = False"

fun is_some_k_list_resp_view :: "DefaultResp \<Rightarrow> bool" where
  "is_some_k_list_resp_view (Some (KResponse (ListResp _))) = True"
| "is_some_k_list_resp_view _ = False"

fun is_some_k_delete_resp_view :: "DefaultResp \<Rightarrow> bool" where
  "is_some_k_delete_resp_view (Some (KResponse (DeleteResp _))) = True"
| "is_some_k_delete_resp_view _ = False"

fun is_some_k_get_then_update_resp_view :: "DefaultResp \<Rightarrow> bool" where
  "is_some_k_get_then_update_resp_view (Some (KResponse (GetThenUpdateResp _))) = True"
| "is_some_k_get_then_update_resp_view _ = False"

fun is_some_k_update_status_resp_view :: "DefaultResp \<Rightarrow> bool" where
  "is_some_k_update_status_resp_view (Some (KResponse (UpdateStatusResp _))) = True"
| "is_some_k_update_status_resp_view _ = False"

fun is_some_k_get_then_delete_resp_view :: "DefaultResp \<Rightarrow> bool" where
  "is_some_k_get_then_delete_resp_view (Some (KResponse (GetThenDeleteResp _))) = True"
| "is_some_k_get_then_delete_resp_view _ = False"

text \<open>Only called where the test above holds.\<close>

fun extract_some_k_get_resp_view :: "DefaultResp \<Rightarrow> APIError + DynamicObjectView" where
  "extract_some_k_get_resp_view (Some (KResponse (GetResp res))) = res"

fun extract_some_k_create_resp_view :: "DefaultResp \<Rightarrow> APIError + DynamicObjectView" where
  "extract_some_k_create_resp_view (Some (KResponse (CreateResp res))) = res"

fun extract_some_k_update_resp_view :: "DefaultResp \<Rightarrow> APIError + DynamicObjectView" where
  "extract_some_k_update_resp_view (Some (KResponse (UpdateResp res))) = res"

fun extract_some_k_update_status_resp_view :: "DefaultResp \<Rightarrow> APIError + DynamicObjectView" where
  "extract_some_k_update_status_resp_view (Some (KResponse (UpdateStatusResp res))) = res"

fun extract_some_k_list_resp_view :: "DefaultResp \<Rightarrow> APIError + DynamicObjectView list" where
  "extract_some_k_list_resp_view (Some (KResponse (ListResp res))) = res"

fun extract_some_k_delete_resp_view :: "DefaultResp \<Rightarrow> APIError + unit" where
  "extract_some_k_delete_resp_view (Some (KResponse (DeleteResp res))) = res"

fun extract_some_k_get_then_update_resp_view :: "DefaultResp \<Rightarrow> APIError + DynamicObjectView" where
  "extract_some_k_get_then_update_resp_view (Some (KResponse (GetThenUpdateResp res))) = res"

fun extract_some_k_get_then_delete_resp_view :: "DefaultResp \<Rightarrow> APIError + unit" where
  "extract_some_k_get_then_delete_resp_view (Some (KResponse (GetThenDeleteResp res))) = res"

section \<open>Reconcilers\<close>

record ('k, 's, 'ereq, 'eresp) Reconciler =
  mr_init_state :: 's
  mr_core :: "'k \<Rightarrow> 'eresp ResponseView option \<Rightarrow> 's \<Rightarrow> 's \<times> 'ereq RequestView option"
  mr_done :: "'s \<Rightarrow> bool"
  mr_error :: "'s \<Rightarrow> bool"

record ('k, 's, 'ereq, 'eresp) ExecReconciler =
  er_init_state :: 's
  er_core :: "'k \<Rightarrow> 'eresp ResponseView option \<Rightarrow> 's \<Rightarrow> ('s \<times> 'ereq RequestView option) outcome"
  er_done :: "'s \<Rightarrow> bool"
  er_error :: "'s \<Rightarrow> bool"

text \<open>The specification as the state machine of a controller of the cluster, whose states and messages are marshalled.\<close>

definition installed_reconcile_model ::
    "('k, 's, 'ereq, 'eresp) Reconciler \<Rightarrow> ('k, 'spec, 'status) resource_trait \<Rightarrow> 's codec \<Rightarrow> 'ereq codec \<Rightarrow> 'eresp codec \<Rightarrow> ReconcileModel" where
  "installed_reconcile_model R K ms mreq mresp =
     \<lparr>rm_kind = rt_kind K,
      rm_init = co_marshal ms (mr_init_state R),
      rm_transition = (\<lambda>obj resp_o s.
        let obj_um = projr (rt_unmarshal K obj);
            resp_o_um = map_option (\<lambda>resp. case resp of
                KubernetesResponse api_resp \<Rightarrow> KResponse api_resp
              | ExternalResponseContent ext_resp \<Rightarrow> ExternalResponse (projr (co_unmarshal mresp ext_resp))) resp_o;
            s_um = projr (co_unmarshal ms s);
            (s_prime_um, req_o_um) = mr_core R obj_um resp_o_um s_um
        in (co_marshal ms s_prime_um, map_option (\<lambda>req. case req of
                KRequest api_req \<Rightarrow> KubernetesRequest api_req
              | ExternalRequest ext_req \<Rightarrow> ExternalRequestContent (co_marshal mreq ext_req)) req_o_um)),
      rm_done = (\<lambda>s. mr_done R (projr (co_unmarshal ms s))),
      rm_error = (\<lambda>s. mr_error R (projr (co_unmarshal ms s)))\<rparr>"

section \<open>Running a reconciler\<close>

text \<open>One request to the API server and its response. A transaction may not return.\<close>

definition api_list ::
    "api_env \<Rightarrow> InstalledTypes \<Rightarrow> (APIError \<Rightarrow> kube_error) \<Rightarrow> ListRequest \<Rightarrow> kube_world \<Rightarrow>
       kube_world \<times> (kube_error + DynamicObjectView list)" where
  "api_list env it to_kube req w =
     (let s = store_at_call env it w in (after_call w s, map_sum to_kube id (handle_list_request env req s)))"

definition api_create ::
    "api_env \<Rightarrow> InstalledTypes \<Rightarrow> (APIError \<Rightarrow> kube_error) \<Rightarrow> CreateRequest \<Rightarrow> kube_world \<Rightarrow>
       kube_world \<times> (kube_error + DynamicObjectView)" where
  "api_create env it to_kube req w =
     (let (s, r) = handle_create_request env it req (store_at_call env it w) in (after_call w s, map_sum to_kube id r))"

definition api_replace_status ::
    "api_env \<Rightarrow> InstalledTypes \<Rightarrow> (APIError \<Rightarrow> kube_error) \<Rightarrow> UpdateStatusRequest \<Rightarrow> kube_world \<Rightarrow>
       kube_world \<times> (kube_error + DynamicObjectView)" where
  "api_replace_status env it to_kube req w =
     (let (s, r) = handle_update_status_request env it req (store_at_call env it w) in (after_call w s, map_sum to_kube id r))"

fun send_api_request ::
    "api_env \<Rightarrow> InstalledTypes \<Rightarrow> (APIError \<Rightarrow> kube_error) \<Rightarrow> APIRequest \<Rightarrow> kube_world \<Rightarrow> (kube_world \<times> APIResponse) option" where
  "send_api_request env it to_kube (GetReq req) w =
     (let (w', res) = api_get env it to_kube (get_key req) w in Some (w', GetResp (map_sum kube_error_to_api_error id res)))"
| "send_api_request env it to_kube (ListReq req) w =
     (let (w', res) = api_list env it to_kube req w in Some (w', ListResp (map_sum kube_error_to_api_error id res)))"
| "send_api_request env it to_kube (CreateReq req) w =
     (let (w', res) = api_create env it to_kube req w in Some (w', CreateResp (map_sum kube_error_to_api_error id res)))"
| "send_api_request env it to_kube (DeleteReq req) w =
     (let (w', res) = api_delete env it to_kube req w in Some (w', DeleteResp (map_sum kube_error_to_api_error id res)))"
| "send_api_request env it to_kube (UpdateReq req) w =
     (let (w', res) = api_replace env it to_kube req w in Some (w', UpdateResp (map_sum kube_error_to_api_error id res)))"
| "send_api_request env it to_kube (UpdateStatusReq req) w =
     (let (w', res) = api_replace_status env it to_kube req w in Some (w', UpdateStatusResp (map_sum kube_error_to_api_error id res)))"
| "send_api_request env it to_kube (GetThenDeleteReq req) w =
     map_option (\<lambda>(w', res). (w', GetThenDeleteResp res)) (transactional_get_then_delete_by_retry env it to_kube req w)"
| "send_api_request env it to_kube (GetThenUpdateReq req) w =
     map_option (\<lambda>(w', res). (w', GetThenUpdateResp res)) (transactional_get_then_update_by_retry env it to_kube req w)"

datatype KubeAction = Requeue nat | AwaitChange
datatype ShimError = ShimLayerError | ReconcileCoreError

type_synonym reconcile_result = "kube_world \<times> (ShimError + KubeAction) outcome"

text \<open>The loop of \<open>reconcile_with\<close>, without fault injection (a switch for tests). It is \<open>None\<close> if it does not return;
  \<open>external_call\<close> is the library for external requests.\<close>

partial_function (option) reconcile_loop ::
    "api_env \<Rightarrow> InstalledTypes \<Rightarrow> (APIError \<Rightarrow> kube_error) \<Rightarrow> ('ereq \<Rightarrow> 'eresp outcome) \<Rightarrow> ('k, 's, 'ereq, 'eresp) ExecReconciler \<Rightarrow>
       'k \<Rightarrow> 'eresp ResponseView option \<Rightarrow> 's \<Rightarrow> kube_world \<Rightarrow> reconcile_result option" where
  "reconcile_loop env it to_kube external_call R cr resp_option state w =
     (if er_done R state then Some (w, Ret (Inr (Requeue 60)))
      else if er_error R state then Some (w, Ret (Inl ReconcileCoreError))
      else case er_core R cr resp_option state of
             Ret (state_prime, request_option) \<Rightarrow>
               (case request_option of
                  Some (KRequest req) \<Rightarrow>
                    (case send_api_request env it to_kube req w of
                       None \<Rightarrow> None
                     | Some (w', kube_resp) \<Rightarrow>
                         reconcile_loop env it to_kube external_call R cr (Some (KResponse kube_resp)) state_prime w')
                | Some (ExternalRequest external_req) \<Rightarrow>
                    (case external_call external_req of
                       Ret external_resp \<Rightarrow>
                         reconcile_loop env it to_kube external_call R cr (Some (ExternalResponse external_resp)) state_prime w
                     | Panic \<Rightarrow> Some (w, Panic)
                     | Diverge \<Rightarrow> None)
                | None \<Rightarrow> reconcile_loop env it to_kube external_call R cr None state_prime w)
           | Panic \<Rightarrow> Some (w, Panic)
           | Diverge \<Rightarrow> None)"

definition reconcile_with ::
    "api_env \<Rightarrow> InstalledTypes \<Rightarrow> (APIError \<Rightarrow> kube_error) \<Rightarrow> ('ereq \<Rightarrow> 'eresp outcome) \<Rightarrow> ('k, 's, 'ereq, 'eresp) ExecReconciler \<Rightarrow>
       ('k, 'spec, 'status) resource_trait \<Rightarrow> ObjectMetaView \<Rightarrow> kube_world \<Rightarrow> reconcile_result option" where
  "reconcile_with env it to_kube external_call R K cr_meta w =
     (case om_name cr_meta of
        None \<Rightarrow> Some (w, Ret (Inl ShimLayerError))
      | Some cr_name \<Rightarrow>
          (case om_namespace cr_meta of
             None \<Rightarrow> Some (w, Ret (Inl ShimLayerError))
           | Some cr_namespace \<Rightarrow>
               (let (w1, get_cr_resp) = api_get env it to_kube
                      \<lparr>ref_kind = rt_kind K, ref_name = cr_name, ref_namespace = cr_namespace\<rparr> w
                in case get_cr_resp of
                     Inl err \<Rightarrow> if err = Api ''NotFound'' then Some (w1, Ret (Inr AwaitChange)) else Some (w1, Ret (Inr (Requeue 60)))
                   | Inr obj \<Rightarrow>
                       (case rt_unmarshal K obj of
                          Inl _ \<Rightarrow> Some (w1, Ret (Inr (Requeue 60)))
                        | Inr cr \<Rightarrow> reconcile_loop env it to_kube external_call R cr None (er_init_state R) w1))))"

definition void_external_call :: "VoidEReqView \<Rightarrow> VoidERespView outcome" where
  "void_external_call req = Panic"

section \<open>Code that conforms to its specification\<close>

definition spec_reconciler :: "('k, 's, 'ereq, 'eresp) Reconciler \<Rightarrow> ('k, 's, 'ereq, 'eresp) ExecReconciler" where
  "spec_reconciler M =
     \<lparr>er_init_state = mr_init_state M, er_core = (\<lambda>cr resp_o s. Ret (mr_core M cr resp_o s)), er_done = mr_done M, er_error = mr_error M\<rparr>"

text \<open>Two reconcilers whose transitions agree up to a relation on their states run alike.\<close>

definition same_transitions ::
    "('c \<Rightarrow> 's \<Rightarrow> bool) \<Rightarrow> 'k \<Rightarrow> ('k, 'c, 'ereq, 'eresp) ExecReconciler \<Rightarrow> ('k, 's, 'ereq, 'eresp) ExecReconciler \<Rightarrow> bool" where
  "same_transitions rel cr R R' \<longleftrightarrow>
     (\<forall>s t. rel s t \<longrightarrow> er_done R s = er_done R' t \<and> er_error R s = er_error R' t \<and>
        (\<forall>resp_o. rel_outcome (rel_prod rel (=)) (er_core R cr resp_o s) (er_core R' cr resp_o t)))"

lemma reconcile_loop_transfer:
  assumes "reconcile_loop env it to_kube ext R cr resp_o s w = Some y" "rel s t" "same_transitions rel cr R R'"
  shows "reconcile_loop env it to_kube ext R' cr resp_o t w = Some y"
  using assms
proof (induction arbitrary: t rule: reconcile_loop.raw_induct [rotated, consumes 1, case_names step])
  case (step loop env it to_kube ext R cr resp_o s w y)
  from step.prems have same: "er_done R s = er_done R' t" "er_error R s = er_error R' t"
    and core: "rel_outcome (rel_prod rel (=)) (er_core R cr resp_o s) (er_core R' cr resp_o t)"
    by (auto simp: same_transitions_def)
  note IH = step.IH [OF _ _ step.prems(2)] and unfold = reconcile_loop.simps [of env it to_kube ext R' cr resp_o t w]
  show ?case
  proof (cases "er_core R cr resp_o s")
    case (Ret res)
    obtain s' req where res: "res = (s', req)" by (cases res)
    from core Ret res obtain t' where t': "er_core R' cr resp_o t = Ret (t', req)" "rel s' t'"
      by (cases "er_core R' cr resp_o t") auto
    show ?thesis
    proof (cases "er_done R s \<or> er_error R s")
      case True
      with step.hyps same show ?thesis by (auto simp: unfold)
    next
      case False
      show ?thesis
      proof (cases req)
        case None
        with step.hyps False Ret res t'(1) same show ?thesis by (simp add: unfold IH [OF _ t'(2)])
      next
        case (Some r)
        show ?thesis
        proof (cases r)
          case (KRequest k)
          with step.hyps Some False Ret res t'(1) same show ?thesis
            by (auto simp: unfold split: option.splits intro: IH [OF _ t'(2)])
        next
          case (ExternalRequest x)
          with step.hyps Some False Ret res t'(1) same show ?thesis
            by (cases "ext x") (auto simp: unfold intro: IH [OF _ t'(2)])
        qed
      qed
    qed
  next
    case Panic
    with core have "er_core R' cr resp_o t = Panic" by (cases "er_core R' cr resp_o t") auto
    with step.hyps Panic same show ?thesis by (auto simp: unfold split: if_splits)
  next
    case Diverge
    with core have "er_core R' cr resp_o t = Diverge" by (cases "er_core R' cr resp_o t") auto
    with step.hyps Diverge same show ?thesis by (auto simp: unfold split: if_splits)
  qed
qed

lemma same_transitions_sym: "same_transitions rel cr R R' \<Longrightarrow> same_transitions rel\<inverse>\<inverse> cr R' R"
proof -
  have "rel_outcome (rel_prod rel (=)) x y \<Longrightarrow> rel_outcome (rel_prod rel\<inverse>\<inverse> (=)) y x" for x y
    by (cases x; cases y) (auto simp: rel_prod_sel)
  moreover assume "same_transitions rel cr R R'"
  ultimately show ?thesis unfolding same_transitions_def conversep_iff by blast
qed

lemma reconcile_loop_eq:
  assumes "rel s t" "same_transitions rel cr R R'"
  shows "reconcile_loop env it to_kube ext R cr resp_o s w = reconcile_loop env it to_kube ext R' cr resp_o t w"
proof (cases "reconcile_loop env it to_kube ext R cr resp_o s w")
  case (Some y)
  with reconcile_loop_transfer assms show ?thesis by metis
next
  case None
  have "reconcile_loop env it to_kube ext R' cr resp_o t w \<noteq> Some y" for y
    using reconcile_loop_transfer [of env it to_kube ext R' cr resp_o t w y "rel\<inverse>\<inverse>" s R] assms None
    by (auto simp: same_transitions_sym)
  with None show ?thesis by (cases "reconcile_loop env it to_kube ext R' cr resp_o t w") auto
qed

text \<open>What the trait of the code demands of an instance: on a valid custom resource each function gives the value of the
  specification, and does not panic.\<close>

locale reconciler_conforms =
  fixes R :: "('k, 'c, 'ereq, 'eresp) ExecReconciler" and M :: "('k, 's, 'ereq, 'eresp) Reconciler"
    and state_view :: "'c \<Rightarrow> 's" and valid_cr :: "'k \<Rightarrow> bool"
  assumes init_conforms: "state_view (er_init_state R) = mr_init_state M"
    and core_conforms:
      "valid_cr cr \<Longrightarrow> mr_core M cr resp_o (state_view s) = (t, req) \<Longrightarrow>
         \<exists>s'. er_core R cr resp_o s = Ret (s', req) \<and> state_view s' = t"
    and done_conforms: "er_done R s = mr_done M (state_view s)"
    and error_conforms: "er_error R s = mr_error M (state_view s)"
begin

lemma code_run_is_model_run:
  assumes "valid_cr cr"
  shows "reconcile_loop env it to_kube ext R cr resp_o s w =
    reconcile_loop env it to_kube ext (spec_reconciler M) cr resp_o (state_view s) w"
proof (rule reconcile_loop_eq [where rel = "\<lambda>s t. t = state_view s"])
  have "rel_outcome (rel_prod (\<lambda>s t. t = state_view s) (=)) (er_core R cr resp_o s) (Ret (mr_core M cr resp_o (state_view s)))"
    for resp_o s
  proof -
    obtain t req where m: "mr_core M cr resp_o (state_view s) = (t, req)" by (cases "mr_core M cr resp_o (state_view s)")
    from core_conforms [OF assms m] m show ?thesis by auto
  qed
  then show "same_transitions (\<lambda>s t. t = state_view s) cr R (spec_reconciler M)"
    by (simp add: same_transitions_def spec_reconciler_def done_conforms error_conforms)
qed simp

lemma code_reconcile_is_model_reconcile:
  assumes "\<And>obj cr. rt_unmarshal K obj = Inr cr \<Longrightarrow> resources (store_at_call env it w) (object_ref obj) = Some obj \<Longrightarrow> valid_cr cr"
    and "\<And>key obj. resources (store_at_call env it w) key = Some obj \<Longrightarrow> object_ref obj = key"
  shows "reconcile_with env it to_kube ext R K cr_meta w = reconcile_with env it to_kube ext (spec_reconciler M) K cr_meta w"
proof -
  have init: "er_init_state (spec_reconciler M) = state_view (er_init_state R)"
    by (simp add: spec_reconciler_def init_conforms)
  show ?thesis
    using assms
    by (auto simp: reconcile_with_def api_get_def handle_get_request_def Let_def code_run_is_model_run init
        split: option.splits sum.splits)
qed

end

end
