(* ===== verification/Anvil_VReplicaSet.thy ===== *)
theory Anvil_VReplicaSet
  imports Anvil_Kinds Anvil_Reconciler
begin

text \<open>
  The controller of replica sets (\<open>controllers/vreplicaset_controller/\<close> below \<open>src/projects/anvil-main/src/\<close>): its custom
  resource (\<open>trusted/spec_types.rs\<close>, \<open>trusted/exec_types.rs\<close>), the specification of its reconciler (\<open>model/reconciler.rs\<close>),
  its code (\<open>exec/reconciler.rs\<close>), and what it shall achieve (\<open>trusted/liveness_theorem.rs\<close>,
  \<open>trusted/rely_guarantee.rs\<close>). It lists the pods of a replica set and creates or deletes pods one at a time until there are
  as many as the replica set asks for.

  The code is over \<open>outcome\<close>: it unwraps options, indexes vectors and subtracts unsigned numbers. The parameter \<open>c\<close> has the
  codecs of the built-in kinds, with which pods are marshalled.
\<close>

section \<open>The custom resource\<close>

record VReplicaSetSpecView =
  vrs_spec_replicas :: "int option"
  vrs_spec_selector :: LabelSelectorView
  vrs_spec_template :: "PodTemplateSpecView option"

type_synonym VReplicaSetStatusView = EmptyStatusView

record VReplicaSetView =
  vrs_metadata :: ObjectMetaView
  vrs_spec :: VReplicaSetSpecView
  vrs_status :: "VReplicaSetStatusView option"

definition vrs_spec_default :: VReplicaSetSpecView where
  "vrs_spec_default = \<lparr>vrs_spec_replicas = None, vrs_spec_selector = selector_default, vrs_spec_template = None\<rparr>"

definition vrs_kind :: Kind where
  "vrs_kind = CustomResourceKind ''vreplicaset''"

definition vrs_controller_owner_ref :: "VReplicaSetView \<Rightarrow> OwnerReferenceView" where
  "vrs_controller_owner_ref vrs =
     \<lparr>or_block_owner_deletion = Some True, or_controller = Some True, or_kind = vrs_kind,
      or_name = the (om_name (vrs_metadata vrs)), or_uid = the (om_uid (vrs_metadata vrs))\<rparr>"

definition vrs_state_validation :: "VReplicaSetView \<Rightarrow> bool" where
  "vrs_state_validation vrs \<longleftrightarrow>
     (vrs_spec_replicas (vrs_spec vrs) \<noteq> None \<longrightarrow> the (vrs_spec_replicas (vrs_spec vrs)) \<ge> 0) \<and>
     selector_match_labels (vrs_spec_selector (vrs_spec vrs)) \<noteq> None \<and>
     finite (dom (the (selector_match_labels (vrs_spec_selector (vrs_spec vrs))))) \<and>
     card (dom (the (selector_match_labels (vrs_spec_selector (vrs_spec vrs))))) > 0 \<and>
     vrs_spec_template (vrs_spec vrs) \<noteq> None \<and>
     template_metadata (the (vrs_spec_template (vrs_spec vrs))) \<noteq> None \<and>
     template_spec (the (vrs_spec_template (vrs_spec vrs))) \<noteq> None \<and>
     om_labels (the (template_metadata (the (vrs_spec_template (vrs_spec vrs))))) \<noteq> None \<and>
     finite (dom (the (om_labels (the (template_metadata (the (vrs_spec_template (vrs_spec vrs)))))))) \<and>
     selector_matches (vrs_spec_selector (vrs_spec vrs))
       (the (om_labels (the (template_metadata (the (vrs_spec_template (vrs_spec vrs)))))))"

definition vrs_transition_validation :: "VReplicaSetView \<Rightarrow> VReplicaSetView \<Rightarrow> bool" where
  "vrs_transition_validation vrs old \<longleftrightarrow> True"

definition vrs_well_formed :: "VReplicaSetView \<Rightarrow> bool" where
  "vrs_well_formed vrs \<longleftrightarrow> well_formed_for_namespaced (vrs_metadata vrs) \<and> vrs_state_validation vrs"

definition vrs_spec_status_validation :: "VReplicaSetSpecView \<Rightarrow> VReplicaSetStatusView option \<Rightarrow> bool" where
  "vrs_spec_status_validation spec status =
     vrs_state_validation \<lparr>vrs_metadata = undefined, vrs_spec = spec, vrs_status = status\<rparr>"

definition vrs_trait ::
    "VReplicaSetSpecView codec \<Rightarrow> VReplicaSetStatusView option codec \<Rightarrow>
       (VReplicaSetView, VReplicaSetSpecView, VReplicaSetStatusView option) resource_trait" where
  "vrs_trait =
     implement_resource_view_trait (\<lambda>m s t. \<lparr>vrs_metadata = m, vrs_spec = s, vrs_status = t\<rparr>) vrs_metadata vrs_spec vrs_status
       vrs_spec_default None vrs_kind vrs_state_validation vrs_transition_validation"

interpretation vrs_object: CustomResourceView "vrs_trait (one_value_codec a) (one_value_codec b)" "(=) a" "(=) b"
  vrs_spec_status_validation for a b
proof (intro CustomResourceView.intro CustomResourceView_axioms.intro)
  have "resource_parts (one_value_codec a) (one_value_codec b) ((=) a) ((=) b) vrs_metadata vrs_spec vrs_status
    (\<lambda>d. \<lparr>vrs_metadata = obj_metadata d, vrs_spec = projr (co_unmarshal (one_value_codec a) (obj_spec d)),
      vrs_status = projr (co_unmarshal (one_value_codec b) (obj_status d))\<rparr>)"
    by (intro resource_parts.intro resource_parts_axioms.intro one_value.Marshallable_axioms) simp_all
  then show "ResourceView (vrs_trait (one_value_codec a) (one_value_codec b)) ((=) a) ((=) b)"
    unfolding vrs_trait_def implement_resource_view_trait_def by (rule resource_parts.implemented)
qed (simp_all add: vrs_trait_def macro_defs vrs_kind_def vrs_state_validation_def vrs_spec_status_validation_def)

text \<open>The check of the code (\<open>VReplicaSet::state_validation\<close>). The maps of the code are finite.\<close>

definition exec_vrs_state_validation :: "VReplicaSetView \<Rightarrow> bool outcome" where
  "exec_vrs_state_validation vrs =
     (if (case vrs_spec_replicas (vrs_spec vrs) of Some replicas \<Rightarrow> replicas < 0 | None \<Rightarrow> False) then Ret False
      else case selector_match_labels (vrs_spec_selector (vrs_spec vrs)) of
             None \<Rightarrow> Ret False
           | Some match_labels \<Rightarrow>
               if card (dom match_labels) \<le> 0 then Ret False
               else case vrs_spec_template (vrs_spec vrs) of
                      None \<Rightarrow> Ret False
                    | Some tmpl \<Rightarrow>
                        if template_metadata tmpl = None \<or> template_spec tmpl = None then Ret False
                        else bind_outcome (unwrap (template_metadata tmpl)) (\<lambda>m.
                          case om_labels m of
                            None \<Rightarrow> Ret False
                          | Some labels \<Rightarrow>
                              bind_outcome (exec_selector_matches (vrs_spec_selector (vrs_spec vrs)) labels) (\<lambda>matches.
                                if \<not> matches then Ret False else Ret True)))"

section \<open>The specification of the reconciler\<close>

datatype VReplicaSetRecStepView = Init | AfterListPods | AfterCreatePod nat | AfterDeletePod nat | Done | Error

record VReplicaSetReconcileState =
  vrs_step :: VReplicaSetRecStepView
  vrs_filtered_pods :: "PodView list option"

abbreviation pods_trait :: "kind_codecs \<Rightarrow> (PodView, PodSpecView option, PodStatusView option) resource_trait" where
  "pods_trait c \<equiv> pod_trait (kc_pod_spec c) (kc_pod_status c)"

definition vrs_init_state :: VReplicaSetReconcileState where
  "vrs_init_state = \<lparr>vrs_step = Init, vrs_filtered_pods = None\<rparr>"

definition vrs_reconcile_done :: "VReplicaSetReconcileState \<Rightarrow> bool" where
  "vrs_reconcile_done state = (case vrs_step state of Done \<Rightarrow> True | _ \<Rightarrow> False)"

definition vrs_reconcile_error :: "VReplicaSetReconcileState \<Rightarrow> bool" where
  "vrs_reconcile_error state = (case vrs_step state of Error \<Rightarrow> True | _ \<Rightarrow> False)"

definition vrs_error_state :: "VReplicaSetReconcileState \<Rightarrow> VReplicaSetReconcileState" where
  "vrs_error_state state = state\<lparr>vrs_step := Error\<rparr>"

definition objects_to_pods :: "kind_codecs \<Rightarrow> DynamicObjectView list \<Rightarrow> PodView list option" where
  "objects_to_pods c objs =
     (if length (filter (\<lambda>obj. isl (rt_unmarshal (pods_trait c) obj)) objs) \<noteq> 0 then None
      else Some (map (\<lambda>obj. projr (rt_unmarshal (pods_trait c) obj)) objs))"

definition vrs_pod_filter :: "VReplicaSetView \<Rightarrow> PodView \<Rightarrow> bool" where
  "vrs_pod_filter vrs pod \<longleftrightarrow>
     owner_references_contains (pod_metadata pod) (vrs_controller_owner_ref vrs) \<and>
     selector_matches (vrs_spec_selector (vrs_spec vrs)) (case om_labels (pod_metadata pod) of Some l \<Rightarrow> l | None \<Rightarrow> Map.empty) \<and>
     om_deletion_timestamp (pod_metadata pod) = None"

definition filter_pods :: "PodView list \<Rightarrow> VReplicaSetView \<Rightarrow> PodView list" where
  "filter_pods pods vrs = filter (vrs_pod_filter vrs) pods"

definition make_owner_references :: "VReplicaSetView \<Rightarrow> OwnerReferenceView list" where
  "make_owner_references vrs = [vrs_controller_owner_ref vrs]"

definition make_pod :: "VReplicaSetView \<Rightarrow> PodView" where
  "make_pod vrs =
     (let tmpl = the (vrs_spec_template (vrs_spec vrs)); tm = the (template_metadata tmpl);
          metadata = object_meta_default
            \<lparr>om_labels := om_labels tm, om_annotations := om_annotations tm, om_finalizers := om_finalizers tm\<rparr>;
          metadata = om_with_generate_name metadata (the (om_name (vrs_metadata vrs)) @ ''-'');
          metadata = om_with_owner_references metadata (make_owner_references vrs)
      in pod_default\<lparr>pod_spec := template_spec tmpl, pod_metadata := metadata\<rparr>)"

definition vrs_reconcile_core ::
    "kind_codecs \<Rightarrow> VReplicaSetView \<Rightarrow> DefaultResp \<Rightarrow> VReplicaSetReconcileState \<Rightarrow> VReplicaSetReconcileState \<times> DefaultReq" where
  "vrs_reconcile_core c vrs resp_o state =
     (let namespace = the (om_namespace (vrs_metadata vrs))
      in case vrs_step state of
           Init \<Rightarrow>
             if om_deletion_timestamp (vrs_metadata vrs) \<noteq> None then (state\<lparr>vrs_step := Done\<rparr>, None)
             else (state\<lparr>vrs_step := AfterListPods\<rparr>,
                   Some (KRequest (ListReq \<lparr>list_kind = rt_kind (pods_trait c), list_namespace = namespace\<rparr>)))
         | AfterListPods \<Rightarrow>
             if \<not> (is_some_k_list_resp_view resp_o \<and> \<not> isl (extract_some_k_list_resp_view resp_o))
             then (vrs_error_state state, None)
             else
               let objs = projr (extract_some_k_list_resp_view resp_o); pods_or_none = objects_to_pods c objs
               in if pods_or_none = None then (vrs_error_state state, None)
                  else
                    let pods = the pods_or_none; filtered_pods = filter_pods pods vrs;
                        replicas = (case vrs_spec_replicas (vrs_spec vrs) of Some r \<Rightarrow> r | None \<Rightarrow> 1)
                    in if replicas < 0 then (vrs_error_state state, None)
                       else if int (length filtered_pods) = replicas then (state\<lparr>vrs_step := Done\<rparr>, None)
                       else if int (length filtered_pods) < replicas then
                         let diff = replicas - int (length filtered_pods); pod = make_pod vrs
                         in (state\<lparr>vrs_step := AfterCreatePod (nat (diff - 1))\<rparr>,
                             Some (KRequest (CreateReq \<lparr>create_namespace = namespace, create_obj = rt_marshal (pods_trait c) pod\<rparr>)))
                       else
                         let diff = int (length filtered_pods) - replicas;
                             pod_name_or_none = om_name (pod_metadata (filtered_pods ! nat (diff - 1)))
                         in if pod_name_or_none = None then (vrs_error_state state, None)
                            else (state\<lparr>vrs_step := AfterDeletePod (nat (diff - 1)), vrs_filtered_pods := Some filtered_pods\<rparr>,
                                  Some (KRequest (GetThenDeleteReq
                                    \<lparr>get_then_delete_key = \<lparr>ref_kind = rt_kind (pods_trait c), ref_name = the pod_name_or_none,
                                        ref_namespace = namespace\<rparr>,
                                     get_then_delete_owner_ref = vrs_controller_owner_ref vrs\<rparr>)))
         | AfterCreatePod diff \<Rightarrow>
             if \<not> (is_some_k_create_resp_view resp_o \<and> \<not> isl (extract_some_k_create_resp_view resp_o))
             then (vrs_error_state state, None)
             else if diff = 0 then (state\<lparr>vrs_step := Done\<rparr>, None)
             else
               let pod = make_pod vrs
               in (state\<lparr>vrs_step := AfterCreatePod (diff - 1)\<rparr>,
                   Some (KRequest (CreateReq \<lparr>create_namespace = namespace, create_obj = rt_marshal (pods_trait c) pod\<rparr>)))
         | AfterDeletePod diff \<Rightarrow>
             if \<not> (is_some_k_get_then_delete_resp_view resp_o \<and> \<not> isl (extract_some_k_get_then_delete_resp_view resp_o))
             then (vrs_error_state state, None)
             else if diff = 0 then (state\<lparr>vrs_step := Done\<rparr>, None)
             else if vrs_filtered_pods state = None then (vrs_error_state state, None)
             else if diff > length (the (vrs_filtered_pods state)) then (vrs_error_state state, None)
             else
               let pod_name_or_none = om_name (pod_metadata (the (vrs_filtered_pods state) ! (diff - 1)))
               in if pod_name_or_none = None then (vrs_error_state state, None)
                  else (state\<lparr>vrs_step := AfterDeletePod (diff - 1)\<rparr>,
                        Some (KRequest (GetThenDeleteReq
                          \<lparr>get_then_delete_key = \<lparr>ref_kind = rt_kind (pods_trait c), ref_name = the pod_name_or_none,
                              ref_namespace = namespace\<rparr>,
                           get_then_delete_owner_ref = vrs_controller_owner_ref vrs\<rparr>)))
         | _ \<Rightarrow> (state, None))"

definition vrs_reconciler ::
    "kind_codecs \<Rightarrow> (VReplicaSetView, VReplicaSetReconcileState, VoidEReqView, VoidERespView) Reconciler" where
  "vrs_reconciler c =
     \<lparr>mr_init_state = vrs_init_state, mr_core = vrs_reconcile_core c, mr_done = vrs_reconcile_done, mr_error = vrs_reconcile_error\<rparr>"

section \<open>The code of the reconciler\<close>

text \<open>The loops over vectors. The first argument that changes is the part of the vector that is left.\<close>

fun exec_objects_to_pods :: "kind_codecs \<Rightarrow> DynamicObjectView list \<Rightarrow> PodView list \<Rightarrow> PodView list option outcome" where
  "exec_objects_to_pods c [] pods = Ret (Some pods)"
| "exec_objects_to_pods c (obj # objs) pods =
     (case rt_unmarshal (pods_trait c) obj of
        Inr pod \<Rightarrow> exec_objects_to_pods c objs (pods @ [pod])
      | Inl _ \<Rightarrow> Ret None)"

fun exec_filter_pods :: "VReplicaSetView \<Rightarrow> PodView list \<Rightarrow> PodView list \<Rightarrow> PodView list outcome" where
  "exec_filter_pods vrs [] filtered_pods = Ret filtered_pods"
| "exec_filter_pods vrs (pod # pods) filtered_pods =
     (if owner_references_contains (pod_metadata pod) (vrs_controller_owner_ref vrs) then
        bind_outcome (exec_selector_matches (vrs_spec_selector (vrs_spec vrs))
            (case om_labels (pod_metadata pod) of Some l \<Rightarrow> l | None \<Rightarrow> Map.empty)) (\<lambda>matches.
          if matches \<and> om_deletion_timestamp (pod_metadata pod) = None
          then exec_filter_pods vrs pods (filtered_pods @ [pod])
          else exec_filter_pods vrs pods filtered_pods)
      else exec_filter_pods vrs pods filtered_pods)"

definition exec_make_owner_references :: "VReplicaSetView \<Rightarrow> OwnerReferenceView list" where
  "exec_make_owner_references vrs = [] @ [vrs_controller_owner_ref vrs]"

definition exec_make_pod :: "VReplicaSetView \<Rightarrow> PodView outcome" where
  "exec_make_pod vrs =
     bind_outcome (unwrap (vrs_spec_template (vrs_spec vrs))) (\<lambda>tmpl.
     bind_outcome (unwrap (template_metadata tmpl)) (\<lambda>tm.
     let metadata = object_meta_default;
         metadata = (case om_labels tm of Some labels \<Rightarrow> om_with_labels metadata labels | None \<Rightarrow> metadata);
         metadata = (case om_annotations tm of Some annotations \<Rightarrow> om_with_annotations metadata annotations | None \<Rightarrow> metadata);
         metadata = (case om_finalizers tm of Some finalizers \<Rightarrow> om_with_finalizers metadata finalizers | None \<Rightarrow> metadata)
     in bind_outcome (unwrap (om_name (vrs_metadata vrs))) (\<lambda>name.
        let metadata = om_with_generate_name metadata (name @ ''-'');
            metadata = om_with_owner_references metadata (exec_make_owner_references vrs);
            pod = pod_with_metadata pod_default metadata
        in bind_outcome (unwrap (template_spec tmpl)) (\<lambda>spec. Ret (pod_with_spec pod spec)))))"

text \<open>The request to create a pod and the one to delete a pod.\<close>

definition exec_create_pod :: "kind_codecs \<Rightarrow> VReplicaSetView \<Rightarrow> StringView \<Rightarrow> DefaultReq outcome" where
  "exec_create_pod c vrs namespace =
     bind_outcome (exec_make_pod vrs) (\<lambda>pod.
       Ret (Some (KRequest (CreateReq \<lparr>create_namespace = namespace, create_obj = rt_marshal (pods_trait c) pod\<rparr>))))"

definition exec_delete_pod :: "kind_codecs \<Rightarrow> VReplicaSetView \<Rightarrow> StringView \<Rightarrow> StringView \<Rightarrow> DefaultReq" where
  "exec_delete_pod c vrs namespace name =
     Some (KRequest (GetThenDeleteReq
       \<lparr>get_then_delete_key = \<lparr>ref_kind = rt_kind (pods_trait c), ref_name = name, ref_namespace = namespace\<rparr>,
        get_then_delete_owner_ref = vrs_controller_owner_ref vrs\<rparr>))"

definition vrs_exec_core ::
    "kind_codecs \<Rightarrow> VReplicaSetView \<Rightarrow> DefaultResp \<Rightarrow> VReplicaSetReconcileState \<Rightarrow>
       (VReplicaSetReconcileState \<times> DefaultReq) outcome" where
  "vrs_exec_core c vrs resp_o state =
     bind_outcome (unwrap (om_namespace (vrs_metadata vrs))) (\<lambda>namespace.
       case vrs_step state of
         Init \<Rightarrow>
           if om_deletion_timestamp (vrs_metadata vrs) \<noteq> None then Ret (state\<lparr>vrs_step := Done\<rparr>, None)
           else Ret (state\<lparr>vrs_step := AfterListPods\<rparr>,
                  Some (KRequest (ListReq \<lparr>list_kind = rt_kind (pods_trait c), list_namespace = namespace\<rparr>)))
       | AfterListPods \<Rightarrow>
           (case resp_o of
              Some (KResponse (ListResp (Inr objs))) \<Rightarrow>
                bind_outcome (exec_objects_to_pods c objs []) (\<lambda>pods_or_none.
                  if pods_or_none = None then Ret (vrs_error_state state, None)
                  else bind_outcome (unwrap pods_or_none) (\<lambda>pods.
                       bind_outcome (exec_filter_pods vrs pods []) (\<lambda>filtered_pods.
                       let replicas = (case vrs_spec_replicas (vrs_spec vrs) of Some r \<Rightarrow> r | None \<Rightarrow> 1)
                       in if replicas < 0 then Ret (vrs_error_state state, None)
                          else
                            let desired_replicas = nat replicas
                            in if length filtered_pods = desired_replicas then Ret (state\<lparr>vrs_step := Done\<rparr>, None)
                               else if length filtered_pods < desired_replicas then
                                 bind_outcome (usize_sub desired_replicas (length filtered_pods)) (\<lambda>diff.
                                 bind_outcome (exec_create_pod c vrs namespace) (\<lambda>req.
                                 bind_outcome (usize_sub diff 1) (\<lambda>diff'.
                                   Ret (state\<lparr>vrs_step := AfterCreatePod diff'\<rparr>, req))))
                               else
                                 bind_outcome (usize_sub (length filtered_pods) desired_replicas) (\<lambda>diff.
                                 bind_outcome (usize_sub diff 1) (\<lambda>diff'.
                                 bind_outcome (vec_index filtered_pods diff') (\<lambda>pod.
                                   case om_name (pod_metadata pod) of
                                     None \<Rightarrow> Ret (vrs_error_state state, None)
                                   | Some name \<Rightarrow>
                                       Ret (state\<lparr>vrs_step := AfterDeletePod diff', vrs_filtered_pods := Some filtered_pods\<rparr>,
                                         exec_delete_pod c vrs namespace name)))))))
            | _ \<Rightarrow> Ret (vrs_error_state state, None))
       | AfterCreatePod diff \<Rightarrow>
           (case resp_o of
              Some (KResponse (CreateResp (Inr _))) \<Rightarrow>
                if diff = 0 then Ret (state\<lparr>vrs_step := Done\<rparr>, None)
                else bind_outcome (exec_create_pod c vrs namespace) (\<lambda>req.
                     bind_outcome (usize_sub diff 1) (\<lambda>diff'. Ret (state\<lparr>vrs_step := AfterCreatePod diff'\<rparr>, req)))
            | _ \<Rightarrow> Ret (vrs_error_state state, None))
       | AfterDeletePod diff \<Rightarrow>
           (case resp_o of
              Some (KResponse (GetThenDeleteResp (Inr _))) \<Rightarrow>
                if diff = 0 then Ret (state\<lparr>vrs_step := Done\<rparr>, None)
                else if vrs_filtered_pods state = None then Ret (vrs_error_state state, None)
                else bind_outcome (unwrap (vrs_filtered_pods state)) (\<lambda>filtered_pods.
                  if diff > length filtered_pods then Ret (vrs_error_state state, None)
                  else bind_outcome (usize_sub diff 1) (\<lambda>diff'.
                       bind_outcome (vec_index filtered_pods diff') (\<lambda>pod.
                         case om_name (pod_metadata pod) of
                           None \<Rightarrow> Ret (vrs_error_state state, None)
                         | Some name \<Rightarrow>
                             Ret (state\<lparr>vrs_step := AfterDeletePod diff'\<rparr>, exec_delete_pod c vrs namespace name))))
            | _ \<Rightarrow> Ret (vrs_error_state state, None))
       | _ \<Rightarrow> Ret (state, None))"

definition vrs_exec_reconciler ::
    "kind_codecs \<Rightarrow> (VReplicaSetView, VReplicaSetReconcileState, VoidEReqView, VoidERespView) ExecReconciler" where
  "vrs_exec_reconciler c =
     \<lparr>er_init_state = vrs_init_state, er_core = vrs_exec_core c, er_done = vrs_reconcile_done, er_error = vrs_reconcile_error\<rparr>"

section \<open>The code does what the specification says\<close>

lemma vrs_well_formedD:
  assumes "vrs_well_formed vrs"
  shows "\<exists>name. om_name (vrs_metadata vrs) = Some name" "\<exists>ns. om_namespace (vrs_metadata vrs) = Some ns"
    "\<exists>uid. om_uid (vrs_metadata vrs) = Some uid"
    "\<exists>m. selector_match_labels (vrs_spec_selector (vrs_spec vrs)) = Some m \<and> finite (dom m)"
    "\<exists>tmpl tm spec labels. vrs_spec_template (vrs_spec vrs) = Some tmpl \<and> template_metadata tmpl = Some tm \<and>
       template_spec tmpl = Some spec \<and> om_labels tm = Some labels \<and> selector_matches (vrs_spec_selector (vrs_spec vrs)) labels"
    "\<And>r. vrs_spec_replicas (vrs_spec vrs) = Some r \<Longrightarrow> r \<ge> 0"
  using assms by (auto simp: vrs_well_formed_def vrs_state_validation_def well_formed_for_namespaced_def)

lemma exec_objects_to_pods_eq:
  "exec_objects_to_pods c objs pods = Ret (map_option ((@) pods) (objects_to_pods c objs))"
  by (induction objs arbitrary: pods) (auto simp: objects_to_pods_def split: sum.splits)

lemma exec_filter_pods_eq:
  assumes "vrs_well_formed vrs"
  shows "exec_filter_pods vrs pods filtered = Ret (filtered @ filter_pods pods vrs)"
proof -
  obtain m where m: "selector_match_labels (vrs_spec_selector (vrs_spec vrs)) = Some m" "finite (dom m)"
    using vrs_well_formedD(4) [OF assms] by blast
  then have "exec_selector_matches (vrs_spec_selector (vrs_spec vrs)) labels =
      Ret (selector_matches (vrs_spec_selector (vrs_spec vrs)) labels)" for labels
    by (intro exec_selector_matches_eq) simp
  then show ?thesis
    by (induction pods arbitrary: filtered) (simp_all add: filter_pods_def vrs_pod_filter_def)
qed

lemma exec_make_pod_eq: "vrs_well_formed vrs \<Longrightarrow> exec_make_pod vrs = Ret (make_pod vrs)"
  using vrs_well_formedD(1,5) [of vrs]
  by (auto simp: exec_make_pod_def make_pod_def Let_def exec_make_owner_references_def make_owner_references_def
      om_with_labels_def om_with_annotations_def om_with_finalizers_def om_with_generate_name_def om_with_owner_references_def
      pod_with_metadata_def pod_with_spec_def object_meta_default_def split: option.splits)

lemma exec_vrs_state_validation_eq:
  assumes "\<And>m. selector_match_labels (vrs_spec_selector (vrs_spec vrs)) = Some m \<Longrightarrow> finite (dom m)"
    and "\<And>t m l. vrs_spec_template (vrs_spec vrs) = Some t \<Longrightarrow> template_metadata t = Some m \<Longrightarrow> om_labels m = Some l \<Longrightarrow> finite (dom l)"
  shows "exec_vrs_state_validation vrs = Ret (vrs_state_validation vrs)"
  using assms exec_selector_matches_eq [of "vrs_spec_selector (vrs_spec vrs)"]
  by (auto simp: exec_vrs_state_validation_def vrs_state_validation_def not_less card_gt_0_iff split: option.splits)

lemma not_isl_iff: "\<not> isl x \<longleftrightarrow> (\<exists>y. x = Inr y)"
  by (cases x) auto

lemma list_response_cases:
  "(is_some_k_list_resp_view resp_o \<and> \<not> isl (extract_some_k_list_resp_view resp_o)) \<longleftrightarrow>
     (\<exists>objs. resp_o = Some (KResponse (ListResp (Inr objs))))"
  by (cases resp_o rule: is_some_k_list_resp_view.cases) (auto simp: not_isl_iff)

lemma create_response_cases:
  "(is_some_k_create_resp_view resp_o \<and> \<not> isl (extract_some_k_create_resp_view resp_o)) \<longleftrightarrow>
     (\<exists>obj. resp_o = Some (KResponse (CreateResp (Inr obj))))"
  by (cases resp_o rule: is_some_k_create_resp_view.cases) (auto simp: not_isl_iff)

lemma get_then_delete_response_cases:
  "(is_some_k_get_then_delete_resp_view resp_o \<and> \<not> isl (extract_some_k_get_then_delete_resp_view resp_o)) \<longleftrightarrow>
     (\<exists>u. resp_o = Some (KResponse (GetThenDeleteResp (Inr u))))"
  by (cases resp_o rule: is_some_k_get_then_delete_resp_view.cases) (auto simp: not_isl_iff)

lemma exec_create_pod_eq:
  "vrs_well_formed vrs \<Longrightarrow> exec_create_pod c vrs namespace =
     Ret (Some (KRequest (CreateReq \<lparr>create_namespace = namespace, create_obj = rt_marshal (pods_trait c) (make_pod vrs)\<rparr>)))"
  by (simp add: exec_create_pod_def exec_make_pod_eq)

lemma nat_diff_pred: "int n < r \<Longrightarrow> nat (r - int n - 1) = nat r - n - 1" "r < int n \<Longrightarrow> r \<ge> 0 \<Longrightarrow> nat (int n - r - 1) = n - nat r - 1"
  by linarith+

lemma vrs_after_list:
  assumes "vrs_well_formed vrs" "vrs_step state = AfterListPods"
  shows "vrs_exec_core c vrs resp_o state = Ret (vrs_reconcile_core c vrs resp_o state)"
proof (cases "\<exists>objs. resp_o = Some (KResponse (ListResp (Inr objs)))")
  case False
  obtain ns where "om_namespace (vrs_metadata vrs) = Some ns" using vrs_well_formedD(2) [OF assms(1)] by blast
  with False assms(2) show ?thesis
    by (auto simp: vrs_exec_core_def vrs_reconcile_core_def list_response_cases Let_def
        split: option.splits ResponseView.splits APIResponse.splits sum.splits)
next
  case True
  then obtain objs where objs: "resp_o = Some (KResponse (ListResp (Inr objs)))" by blast
  obtain ns where ns: "om_namespace (vrs_metadata vrs) = Some ns" using vrs_well_formedD(2) [OF assms(1)] by blast
  show ?thesis
  proof (cases "objects_to_pods c objs")
    case None
    with ns objs assms(2) show ?thesis
      by (simp add: vrs_exec_core_def vrs_reconcile_core_def exec_objects_to_pods_eq)
  next
    case (Some pods)
    define fp where "fp = filter_pods pods vrs"
    define r where "r = (case vrs_spec_replicas (vrs_spec vrs) of Some r \<Rightarrow> r | None \<Rightarrow> 1)"
    have r: "r \<ge> 0" using vrs_well_formedD(6) [OF assms(1)] by (simp add: r_def split: option.splits)
    note start = ns objs assms(2) Some exec_objects_to_pods_eq exec_filter_pods_eq [OF assms(1)] fp_def [symmetric] r_def [symmetric]
      exec_create_pod_eq [OF assms(1)]
    consider "int (length fp) = r" | "int (length fp) < r" | "int (length fp) > r" by linarith
    then show ?thesis
    proof cases
      case 1
      with start r show ?thesis by (simp add: vrs_exec_core_def vrs_reconcile_core_def Let_def) linarith
    next
      case 2
      with start r show ?thesis
        by (simp add: vrs_exec_core_def vrs_reconcile_core_def Let_def usize_sub_def nat_diff_pred(1) [OF 2]) linarith
    next
      case 3
      with r have "length fp - nat r - 1 < length fp" by linarith
      with 3 start r show ?thesis
        by (auto simp: vrs_exec_core_def vrs_reconcile_core_def Let_def usize_sub_def nat_diff_pred(2) [OF 3 r] vec_index_def
            exec_delete_pod_def split: option.splits)
    qed
  qed
qed

lemma vrs_exec_core_eq:
  assumes "vrs_well_formed vrs"
  shows "vrs_exec_core c vrs resp_o state = Ret (vrs_reconcile_core c vrs resp_o state)"
proof -
  obtain ns where ns: "om_namespace (vrs_metadata vrs) = Some ns" using vrs_well_formedD(2) [OF assms(1)] by blast
  show ?thesis
  proof (cases "vrs_step state")
    case AfterListPods
    with assms show ?thesis by (rule vrs_after_list)
  next
    case (AfterCreatePod d)
    with ns assms show ?thesis
      by (auto simp: vrs_exec_core_def vrs_reconcile_core_def create_response_cases exec_create_pod_eq usize_sub_def Let_def
          split: option.splits ResponseView.splits APIResponse.splits sum.splits)
  next
    case (AfterDeletePod d)
    with ns show ?thesis
      by (auto simp: vrs_exec_core_def vrs_reconcile_core_def get_then_delete_response_cases usize_sub_def Let_def vec_index_def
          exec_delete_pod_def split: option.splits ResponseView.splits APIResponse.splits sum.splits)
  qed (use ns in \<open>simp_all add: vrs_exec_core_def vrs_reconcile_core_def\<close>)
qed

interpretation vrs: reconciler_conforms "vrs_exec_reconciler c" "vrs_reconciler c" "\<lambda>state. state" vrs_well_formed for c
  by unfold_locales (simp_all add: vrs_exec_reconciler_def vrs_reconciler_def vrs_exec_core_eq)

lemma vrs_maps_finite:
  assumes "exec_vrs_state_validation vrs = Ret True"
    and "\<forall>m. selector_match_labels (vrs_spec_selector (vrs_spec vrs)) = Some m \<longrightarrow> finite (dom m)"
    and "\<forall>t m l. vrs_spec_template (vrs_spec vrs) = Some t \<and> template_metadata t = Some m \<and> om_labels m = Some l \<longrightarrow> finite (dom l)"
  shows "vrs_state_validation vrs"
  using exec_vrs_state_validation_eq [of vrs] assms by auto

text \<open>C10: the code of the replica set controller is its specification. Its validation of a replica set gives the
  verdict of the specification without a panic; and on a replica set that is in the store and passes this validation, each
  transition of its reconciler, from any state and with any response, does not panic (no missing option, no index out of range,
  no subtraction below zero) and gives the next state and request of the specification.\<close>

theorem vrs_code_conforms:
  assumes "\<forall>m. selector_match_labels (vrs_spec_selector (vrs_spec vrs)) = Some m \<longrightarrow> finite (dom m)"
    and "\<forall>t m l. vrs_spec_template (vrs_spec vrs) = Some t \<and> template_metadata t = Some m \<and> om_labels m = Some l \<longrightarrow> finite (dom l)"
  shows "exec_vrs_state_validation vrs = Ret (vrs_state_validation vrs) \<and>
    (well_formed_for_namespaced (vrs_metadata vrs) \<and> exec_vrs_state_validation vrs = Ret True \<longrightarrow>
       vrs_exec_core c vrs resp_o state = Ret (vrs_reconcile_core c vrs resp_o state))"
  using exec_vrs_state_validation_eq [of vrs] assms vrs_maps_finite [OF _ assms] vrs_exec_core_eq [of vrs c resp_o state]
  by (auto simp: vrs_well_formed_def)

text \<open>An example: a replica set that asks for two pods, and its controller after it has listed none.\<close>

definition example_vrs :: VReplicaSetView where
  "example_vrs =
     \<lparr>vrs_metadata = object_meta_default\<lparr>om_name := Some ''web'', om_namespace := Some ''n'', om_uid := Some 0,
        om_resource_version := Some 0\<rparr>,
      vrs_spec = \<lparr>vrs_spec_replicas = Some 2, vrs_spec_selector = \<lparr>selector_match_labels = Some [''app'' \<mapsto> ''web'']\<rparr>,
        vrs_spec_template = Some \<lparr>template_metadata = Some (object_meta_default\<lparr>om_labels := Some [''app'' \<mapsto> ''web'']\<rparr>),
          template_spec = Some pod_spec_default\<rparr>\<rparr>,
      vrs_status = None\<rparr>"

lemma example_vrs_valid: "well_formed_for_namespaced (vrs_metadata example_vrs)" "vrs_state_validation example_vrs"
  by (simp_all add: example_vrs_def object_meta_default_def well_formed_for_namespaced_def vrs_state_validation_def selector_matches_def)

theorem vrs_code_conforms_witness:
  "exec_vrs_state_validation example_vrs = Ret True \<and>
   vrs_exec_core example_codecs example_vrs (Some (KResponse (ListResp (Inr [])))) (vrs_init_state\<lparr>vrs_step := AfterListPods\<rparr>) =
     Ret (vrs_init_state\<lparr>vrs_step := AfterCreatePod 1\<rparr>,
       Some (KRequest (CreateReq \<lparr>create_namespace = ''n'', create_obj = rt_marshal (pods_trait example_codecs) (make_pod example_vrs)\<rparr>)))"
proof -
  have maps: "\<forall>m. selector_match_labels (vrs_spec_selector (vrs_spec example_vrs)) = Some m \<longrightarrow> finite (dom m)"
    "\<forall>t m l. vrs_spec_template (vrs_spec example_vrs) = Some t \<and> template_metadata t = Some m \<and> om_labels m = Some l \<longrightarrow> finite (dom l)"
    by (simp_all add: example_vrs_def object_meta_default_def)
  have "vrs_reconcile_core example_codecs example_vrs (Some (KResponse (ListResp (Inr [])))) (vrs_init_state\<lparr>vrs_step := AfterListPods\<rparr>) =
     (vrs_init_state\<lparr>vrs_step := AfterCreatePod 1\<rparr>,
       Some (KRequest (CreateReq \<lparr>create_namespace = ''n'', create_obj = rt_marshal (pods_trait example_codecs) (make_pod example_vrs)\<rparr>)))"
    by (simp add: vrs_reconcile_core_def objects_to_pods_def filter_pods_def vrs_init_state_def)
      (simp add: example_vrs_def object_meta_default_def)
  then show ?thesis
    using vrs_code_conforms [OF maps, of example_codecs "Some (KResponse (ListResp (Inr [])))" "vrs_init_state\<lparr>vrs_step := AfterListPods\<rparr>"]
      example_vrs_valid by simp
qed

end
