(* ===== verification/Anvil_VReplicaSet_Guarantee.thy ===== *)
theory Anvil_VReplicaSet_Guarantee
  imports Anvil_VReplicaSet Anvil_Runtime
begin

text \<open>
  The replica set controller in a cluster with other controllers
  (\<open>controllers/vreplicaset_controller/trusted/rely_guarantee.rs\<close>, \<open>model/install.rs\<close> and \<open>proof/guarantee.rs\<close> below
  \<open>src/projects/anvil-main/src/\<close>): which requests it sends whatever happens, and which requests it relies on others not to
  send.
\<close>

section \<open>Requests of a controller\<close>

text \<open>If all transitions of a controller keep a condition on requests, so do its requests in flight in every execution.\<close>

definition controller_requests_meet :: "int \<Rightarrow> (APIRequest \<Rightarrow> bool) \<Rightarrow> Message multiset \<Rightarrow> bool" where
  "controller_requests_meet controller_id P M \<longleftrightarrow>
     (\<forall>msg. msg \<in># M \<and> is_api_request (msg_content msg) \<and> is_controller_id (msg_src msg) controller_id \<longrightarrow>
        P (api_request (msg_content msg)))"

definition model_requests_meet :: "ReconcileModel \<Rightarrow> (APIRequest \<Rightarrow> bool) \<Rightarrow> bool" where
  "model_requests_meet model P \<longleftrightarrow>
     (\<forall>cr resp_o l l' req. rm_transition model cr resp_o l = (l', Some (KubernetesRequest req)) \<longrightarrow> P req)"

lemma requests_meet_simps:
  "controller_requests_meet i P {#}"
  "controller_requests_meet i P (add_mset m M) \<longleftrightarrow> (is_api_request (msg_content m) \<and> is_controller_id (msg_src m) i \<longrightarrow>
     P (api_request (msg_content m))) \<and> controller_requests_meet i P M"
  by (auto simp: controller_requests_meet_def)

lemma requests_meet_sub: "controller_requests_meet i P M \<Longrightarrow> set_mset N \<subseteq> set_mset M \<Longrightarrow> controller_requests_meet i P N"
  by (auto simp: controller_requests_meet_def)

lemma requests_meet_consumed: "controller_requests_meet i P M \<Longrightarrow> consumed c k rec M N \<Longrightarrow> controller_requests_meet i P N"
  using requests_meet_sub [OF _ consumed_sub] .

lemma requests_meet_diff: "controller_requests_meet i P M \<Longrightarrow> controller_requests_meet i P (M - D)"
  by (auto simp: controller_requests_meet_def dest: in_diffD)

lemma requested_meets:
  assumes "model_requests_meet model P" "requested model rec l q" "is_api_request (msg_content q)"
  shows "P (api_request (msg_content q))"
proof -
  from assms(2) obtain resp_o content where
    "rm_transition model (triggering_cr rec) resp_o (local_state rec) = (l, Some content)"
    "msg_content q = (case content of KubernetesRequest req \<Rightarrow> APIRequestMsg req | ExternalRequestContent req \<Rightarrow> ExternalRequestMsg req)"
    unfolding requested_def by blast
  with assms(1,3) show ?thesis by (cases content) (auto simp: model_requests_meet_def)
qed

lemma controller_requests_step:
  assumes model: "controller_models cl i = Some m" "model_requests_meet (reconcile_model m) P"
    and "controller_requests_meet i P (v_msgs v)" "view_step env cl v v'"
  shows "controller_requests_meet i P (v_msgs v')"
  using assms(4)
proof cases
  case (Request c k rec M q l)
  have "P (api_request (msg_content q))" if "is_api_request (msg_content q)" "is_controller_id (msg_src q) i"
  proof -
    have "c = i" using Request(5) that(2) by (auto simp: request_sent_by_controller_with_key_def is_controller_id_def)
    with Request(7) model that(1) show ?thesis by (auto intro: requested_meets)
  qed
  with Request assms(3) show ?thesis by (simp add: requests_meet_simps requests_meet_consumed)
qed (use assms(3) in \<open>auto simp: requests_meet_simps requests_meet_diff is_controller_id_def
      form_api_resp_msg_def form_external_resp_msg_def form_matched_err_resp_msg_def form_msg_def intro: requests_meet_consumed\<close>)

lemma controller_requests_always:
  assumes "controller_models cl i = Some m" "model_requests_meet (reconcile_model m) P"
  shows "entails (cluster_spec env cl) (always (lift_state (\<lambda>s. controller_requests_meet i P (cs_in_flight s))))"
  by (rule view_invariant [of cl "\<lambda>v. controller_requests_meet i P (v_msgs v)"])
    (use controller_requests_step [OF assms] in \<open>auto simp: view_init_def requests_meet_simps\<close>)

section \<open>What the controller guarantees\<close>

definition vrs_guarantee_create_req :: "CreateRequest \<Rightarrow> bool" where
  "vrs_guarantee_create_req req \<longleftrightarrow>
     obj_kind (create_obj req) = PodKind \<and> om_owner_references (obj_metadata (create_obj req)) \<noteq> None \<and>
     (\<exists>vrs. the (om_owner_references (obj_metadata (create_obj req))) = [vrs_controller_owner_ref vrs])"

definition vrs_guarantee_get_then_delete_req :: "GetThenDeleteRequest \<Rightarrow> bool" where
  "vrs_guarantee_get_then_delete_req req \<longleftrightarrow>
     ref_kind (get_then_delete_key req) = PodKind \<and> (\<exists>vrs. get_then_delete_owner_ref req = vrs_controller_owner_ref vrs)"

fun vrs_guarantee_req :: "APIRequest \<Rightarrow> bool" where
  "vrs_guarantee_req (ListReq _) = True"
| "vrs_guarantee_req (CreateReq req) = vrs_guarantee_create_req req"
| "vrs_guarantee_req (GetThenDeleteReq req) = vrs_guarantee_get_then_delete_req req"
| "vrs_guarantee_req _ = False"

definition vrs_guarantee :: "int \<Rightarrow> ClusterState StatePred" where
  "vrs_guarantee controller_id = (\<lambda>s.
     \<forall>msg. msg \<in># cs_in_flight s \<and> is_api_request (msg_content msg) \<and> is_controller_id (msg_src msg) controller_id \<longrightarrow>
       vrs_guarantee_req (api_request (msg_content msg)))"

definition vrs_controller_model ::
    "kind_codecs \<Rightarrow> (VReplicaSetView, VReplicaSetSpecView, VReplicaSetStatusView option) resource_trait \<Rightarrow>
       VReplicaSetReconcileState codec \<Rightarrow> VoidEReqView codec \<Rightarrow> VoidERespView codec \<Rightarrow> ControllerModel" where
  "vrs_controller_model c K ms mreq mresp =
     \<lparr>reconcile_model = installed_reconcile_model (vrs_reconciler c) K ms mreq mresp, external_model = None\<rparr>"

lemma make_pod_owner: "om_owner_references (pod_metadata (make_pod vrs)) = Some [vrs_controller_owner_ref vrs]"
  by (simp add: make_pod_def Let_def om_with_owner_references_def make_owner_references_def)

lemma pod_marshalled: "obj_kind (rt_marshal (pods_trait c) p) = PodKind" "obj_metadata (rt_marshal (pods_trait c) p) = pod_metadata p"
  "rt_kind (pods_trait c) = PodKind"
  by (simp_all add: pod_trait_def macro_defs)

lemma vrs_core_guarantee:
  assumes "vrs_reconcile_core c vrs resp_o state = (state', Some (KRequest req))"
  shows "vrs_guarantee_req req"
  using assms
  by (auto simp: vrs_reconcile_core_def Let_def vrs_guarantee_create_req_def vrs_guarantee_get_then_delete_req_def make_pod_owner
      pod_marshalled split: VReplicaSetRecStepView.splits if_splits)

text \<open>C8: in every execution of a cluster that runs the replica set controller, whatever responses it gets and whatever
  other controllers do, each of its requests in flight lists objects, creates a pod that belongs to a replica set alone, or
  deletes a pod if it belongs to a replica set.\<close>

theorem vrs_guarantee_holds:
  assumes "controller_models cl controller_id = Some (vrs_controller_model c K ms mreq mresp)"
  shows "entails (cluster_spec env cl) (always (lift_state (vrs_guarantee controller_id)))"
proof -
  have "model_requests_meet (reconcile_model (vrs_controller_model c K ms mreq mresp)) vrs_guarantee_req"
    unfolding model_requests_meet_def
  proof (intro allI impI)
    fix cr resp_o l l' req
    assume tr: "rm_transition (reconcile_model (vrs_controller_model c K ms mreq mresp)) cr resp_o l = (l', Some (KubernetesRequest req))"
    then obtain vrs resp_o' state state' req' where "vrs_reconcile_core c vrs resp_o' state = (state', Some req')"
      "(case req' of KRequest r \<Rightarrow> KubernetesRequest r | ExternalRequest x \<Rightarrow> ExternalRequestContent (co_marshal mreq x)) = KubernetesRequest req"
      by (auto simp: vrs_controller_model_def installed_reconcile_model_def vrs_reconciler_def split: prod.splits)
    then show "vrs_guarantee_req req" by (cases req') (auto intro: vrs_core_guarantee)
  qed
  from controller_requests_always [OF assms this] show ?thesis
    by (simp add: vrs_guarantee_def [abs_def] controller_requests_meet_def [abs_def])
qed


theorem vrs_guarantee_holds_witness:
  "entails (cluster_spec \<lparr>env_api = example_env, env_pick_pod_step = \<lambda>_. CreatePod\<rparr> \<lparr>installed_types = Map.empty, controller_models =
      [1 \<mapsto> vrs_controller_model example_codecs (vrs_trait (one_value_codec (vrs_spec example_vrs)) (one_value_codec None))
        (one_value_codec vrs_init_state) (one_value_codec VoidEReqView) (one_value_codec VoidERespView)]\<rparr>)
    (always (lift_state (vrs_guarantee 1)))"
  by (rule vrs_guarantee_holds) simp

section \<open>What the controller relies on\<close>

definition vrs_owns :: "OwnerReferenceView list \<Rightarrow> bool" where
  "vrs_owns owner_references \<longleftrightarrow> (\<exists>vrs. vrs_controller_owner_ref vrs \<in> set owner_references)"

definition owned_with_version :: "APIServerState \<Rightarrow> ObjectRef \<Rightarrow> ResourceVersion option \<Rightarrow> bool" where
  "owned_with_version s key rv \<longleftrightarrow>
     resources s key \<noteq> None \<and> om_resource_version (obj_metadata (the (resources s key))) \<noteq> None \<and>
     om_resource_version (obj_metadata (the (resources s key))) = rv \<and>
     om_owner_references (obj_metadata (the (resources s key))) \<noteq> None \<and>
     vrs_owns (the (om_owner_references (obj_metadata (the (resources s key)))))"

definition vrs_rely_create_req :: "CreateRequest \<Rightarrow> APIServerState \<Rightarrow> bool" where
  "vrs_rely_create_req req s \<longleftrightarrow>
     (obj_kind (create_obj req) = PodKind \<longrightarrow>
        \<not> (om_owner_references (obj_metadata (create_obj req)) \<noteq> None \<and>
           vrs_owns (the (om_owner_references (obj_metadata (create_obj req))))))"

definition vrs_rely_update_req :: "UpdateRequest \<Rightarrow> APIServerState \<Rightarrow> bool" where
  "vrs_rely_update_req req s \<longleftrightarrow>
     (obj_kind (update_obj req) = PodKind \<longrightarrow>
        om_resource_version (obj_metadata (update_obj req)) \<noteq> None \<and>
        \<not> owned_with_version s (update_request_key req) (om_resource_version (obj_metadata (update_obj req))) \<and>
        (om_owner_references (obj_metadata (update_obj req)) \<noteq> None \<longrightarrow>
           \<not> vrs_owns (the (om_owner_references (obj_metadata (update_obj req))))))"

definition vrs_rely_get_then_update_req :: "GetThenUpdateRequest \<Rightarrow> APIServerState \<Rightarrow> bool" where
  "vrs_rely_get_then_update_req req s \<longleftrightarrow>
     (obj_kind (get_then_update_obj req) = PodKind \<longrightarrow>
        or_controller (get_then_update_owner_ref req) \<noteq> None \<and> the (or_controller (get_then_update_owner_ref req)) \<and>
        or_kind (get_then_update_owner_ref req) \<noteq> vrs_kind \<and>
        (om_owner_references (obj_metadata (get_then_update_obj req)) \<noteq> None \<longrightarrow>
           \<not> vrs_owns (the (om_owner_references (obj_metadata (get_then_update_obj req))))))"

definition vrs_rely_update_status_req :: "UpdateStatusRequest \<Rightarrow> APIServerState \<Rightarrow> bool" where
  "vrs_rely_update_status_req req s \<longleftrightarrow>
     (obj_kind (update_status_obj req) = PodKind \<longrightarrow>
        om_resource_version (obj_metadata (update_status_obj req)) \<noteq> None \<and>
        \<not> owned_with_version s (update_status_request_key req) (om_resource_version (obj_metadata (update_status_obj req))))"

definition vrs_rely_delete_req :: "DeleteRequest \<Rightarrow> APIServerState \<Rightarrow> bool" where
  "vrs_rely_delete_req req s \<longleftrightarrow>
     (ref_kind (delete_key req) = PodKind \<longrightarrow>
        (\<exists>p. delete_preconditions req = Some p \<and> pre_resource_version p \<noteq> None \<and>
           \<not> owned_with_version s (delete_key req) (pre_resource_version p)))"

definition vrs_rely_get_then_delete_req :: "GetThenDeleteRequest \<Rightarrow> APIServerState \<Rightarrow> bool" where
  "vrs_rely_get_then_delete_req req s \<longleftrightarrow>
     (ref_kind (get_then_delete_key req) = PodKind \<longrightarrow>
        or_controller (get_then_delete_owner_ref req) \<noteq> None \<and> the (or_controller (get_then_delete_owner_ref req)) \<and>
        or_kind (get_then_delete_owner_ref req) \<noteq> vrs_kind)"

fun vrs_rely_req :: "APIRequest \<Rightarrow> APIServerState \<Rightarrow> bool" where
  "vrs_rely_req (CreateReq req) s = vrs_rely_create_req req s"
| "vrs_rely_req (UpdateReq req) s = vrs_rely_update_req req s"
| "vrs_rely_req (GetThenUpdateReq req) s = vrs_rely_get_then_update_req req s"
| "vrs_rely_req (UpdateStatusReq req) s = vrs_rely_update_status_req req s"
| "vrs_rely_req (DeleteReq req) s = vrs_rely_delete_req req s"
| "vrs_rely_req (GetThenDeleteReq req) s = vrs_rely_get_then_delete_req req s"
| "vrs_rely_req _ s = True"

definition vrs_rely :: "int \<Rightarrow> ClusterState StatePred" where
  "vrs_rely other_id = (\<lambda>s.
     \<forall>msg. msg \<in># cs_in_flight s \<and> is_api_request (msg_content msg) \<and> is_controller_id (msg_src msg) other_id \<longrightarrow>
       vrs_rely_req (api_request (msg_content msg)) (cs_api_server s))"

section \<open>Requests that meet the rely condition\<close>

text \<open>A pod that belongs to a replica set.\<close>

definition vrs_pod :: "DynamicObjectView \<Rightarrow> bool" where
  "vrs_pod obj \<longleftrightarrow> obj_kind obj = PodKind \<and>
     (\<exists>refs. om_owner_references (obj_metadata obj) = Some refs \<and> vrs_owns refs)"

definition owned_pods :: "StoredState \<Rightarrow> (ObjectRef \<times> DynamicObjectView) set" where
  "owned_pods rs = {(key, obj). rs key = Some obj \<and> vrs_pod obj}"

lemma owned_pods_update:
  assumes "\<And>obj. rs key = Some obj \<Longrightarrow> \<not> vrs_pod obj" "\<And>obj. v = Some obj \<Longrightarrow> \<not> vrs_pod obj"
  shows "owned_pods (rs(key := v)) = owned_pods rs"
  using assms by (auto simp: owned_pods_def split: if_splits)

text \<open>Each handler changes at most one object, to one whose kind and owners come from the old object or from the request.\<close>

lemma create_changes:
  "resources (fst (handle_create_request env it req s)) = resources s \<or>
   (\<exists>key obj. resources s key = None \<and> resources (fst (handle_create_request env it req s)) = (resources s)(key \<mapsto> obj) \<and>
      obj_kind obj = obj_kind (create_obj req) \<and>
      om_owner_references (obj_metadata obj) = om_owner_references (obj_metadata (create_obj req)))"
proof -
  have "obj_kind (created_object env it req s) = obj_kind (create_obj req)"
    "om_owner_references (obj_metadata (created_object env it req s)) = om_owner_references (obj_metadata (create_obj req))"
    by (simp_all add: created_object_def Let_def)
  then show ?thesis by (fastforce simp: handle_create_request_def Let_def split: option.splits)
qed

lemma delete_changes:
  "resources (fst (handle_delete_request env req s)) = resources s \<or>
   (\<exists>old v. resources s (delete_key req) = Some old \<and> delete_request_admission_check req s = None \<and>
      resources (fst (handle_delete_request env req s)) = (resources s)(delete_key req := v) \<and>
      (\<forall>obj. v = Some obj \<longrightarrow> vrs_pod obj = vrs_pod old))"
  by (auto simp: handle_delete_request_def Let_def delete_request_admission_check_def vrs_pod_def with_simps
      split: option.splits)

lemma update_changes:
  assumes "store_invariant s"
  shows "resources (fst (handle_update_request env it req s)) = resources s \<or>
   (\<exists>old v. resources s (update_request_key req) = Some old \<and> update_request_admission_check env it req s = None \<and>
      resources (fst (handle_update_request env it req s)) = (resources s)(update_request_key req := v) \<and>
      (\<forall>obj. v = Some obj \<longrightarrow> obj_kind obj = obj_kind (update_obj req) \<and>
         om_owner_references (obj_metadata obj) = om_owner_references (obj_metadata (update_obj req))))"
proof (cases "update_request_admission_check env it req s")
  case None
  then obtain old where old: "resources s (update_request_key req) = Some old" and name: "om_name (obj_metadata (update_obj req)) = Some (update_name req)"
    by (auto simp: update_request_admission_check_def update_request_admission_check_helper_def update_request_key_def Let_def split: if_splits)
  have "each_object_in_etcd_is_weakly_well_formed s" using assms by (simp add: store_invariant_def)
  from weakly_well_formedD(5) [OF this old] have kind: "obj_kind old = obj_kind (update_obj req)" by (simp add: update_request_key_def)
  have "object_ref (with_resource_version (updated_object req old) n) = update_request_key req" for n
    using kind name by (simp add: object_ref_def with_simps updated_object_def update_request_key_def)
  with None old kind show ?thesis
    by (auto simp: handle_update_request_def Let_def updated_object_def with_simps split: option.splits)
qed (simp add: handle_update_request_def)

lemma update_status_changes:
  "resources (fst (handle_update_status_request env it req s)) = resources s \<or>
   (\<exists>old obj. resources s (update_status_request_key req) = Some old \<and> update_status_request_admission_check env it req s = None \<and>
      resources (fst (handle_update_status_request env it req s)) = (resources s)(update_status_request_key req \<mapsto> obj) \<and>
      vrs_pod obj = vrs_pod old)"
proof (cases "update_status_request_admission_check env it req s")
  case None
  then obtain old where "resources s (update_status_request_key req) = Some old"
    by (auto simp: update_status_request_admission_check_def update_request_admission_check_helper_def update_status_request_key_def
        Let_def split: if_splits)
  with None show ?thesis
    by (auto simp: handle_update_status_request_def Let_def status_updated_object_def with_simps vrs_pod_def split: option.splits)
qed (simp add: handle_update_status_request_def)


lemma vrs_owned_iff:
  "vrs_pod old \<longleftrightarrow> obj_kind old = PodKind \<and>
     om_owner_references (obj_metadata old) \<noteq> None \<and> vrs_owns (the (om_owner_references (obj_metadata old)))"
  by (auto simp: vrs_pod_def)

lemma rely_update:
  assumes "store_invariant s"
    and old: "\<And>old. resources s (update_request_key req) = Some old \<Longrightarrow> update_request_admission_check env it req s = None \<Longrightarrow> \<not> vrs_pod old"
    and refs: "obj_kind (update_obj req) = PodKind \<Longrightarrow> om_owner_references (obj_metadata (update_obj req)) \<noteq> None \<Longrightarrow>
      \<not> vrs_owns (the (om_owner_references (obj_metadata (update_obj req))))"
  shows "owned_pods (resources (fst (handle_update_request env it req s))) = owned_pods (resources s)"
  using update_changes [OF assms(1), of env it req]
proof (elim disjE exE conjE)
  fix x v
  assume x: "resources s (update_request_key req) = Some x" "update_request_admission_check env it req s = None"
    and s': "resources (fst (handle_update_request env it req s)) = (resources s)(update_request_key req := v)"
    and v: "\<forall>obj. v = Some obj \<longrightarrow> obj_kind obj = obj_kind (update_obj req) \<and>
      om_owner_references (obj_metadata obj) = om_owner_references (obj_metadata (update_obj req))"
  have "\<not> vrs_pod obj" if "v = Some obj" for obj using v that refs by (auto simp: vrs_owned_iff)
  then show ?thesis unfolding s' using old [OF x] x(1) by (intro owned_pods_update) auto
qed simp

lemma rely_delete:
  assumes "\<And>old. resources s (delete_key req) = Some old \<Longrightarrow> delete_request_admission_check req s = None \<Longrightarrow> \<not> vrs_pod old"
  shows "owned_pods (resources (fst (handle_delete_request env req s))) = owned_pods (resources s)"
  using delete_changes [of env req s]
proof (elim disjE exE conjE)
  fix x v
  assume x: "resources s (delete_key req) = Some x" "delete_request_admission_check req s = None"
    and s': "resources (fst (handle_delete_request env req s)) = (resources s)(delete_key req := v)"
    and v: "\<forall>obj. v = Some obj \<longrightarrow> vrs_pod obj = vrs_pod x"
  then show ?thesis unfolding s' using assms [OF x] x(1) by (intro owned_pods_update) auto
qed simp

text \<open>An object with another controller than a replica set belongs to no replica set.\<close>

lemma filter_at_most_one:
  "length (filter P xs) \<le> 1 \<Longrightarrow> a \<in> set xs \<Longrightarrow> P a \<Longrightarrow> b \<in> set xs \<Longrightarrow> P b \<Longrightarrow> a = b"
proof -
  assume one: "length (filter P xs) \<le> 1" and "a \<in> set xs" "P a" "b \<in> set xs" "P b"
  then have "a \<in> set (filter P xs)" "b \<in> set (filter P xs)" by simp_all
  with one show "a = b" by (cases "filter P xs") auto
qed

lemma other_controller:
  assumes "store_invariant s" "resources s key = Some old" "owner_references_contains (obj_metadata old) r"
    and "or_controller r \<noteq> None" "the (or_controller r)" "or_kind r \<noteq> vrs_kind"
  shows "\<not> vrs_pod old"
proof
  assume "vrs_pod old"
  then obtain refs vrs where refs: "om_owner_references (obj_metadata old) = Some refs" "vrs_controller_owner_ref vrs \<in> set refs"
    by (auto simp: vrs_pod_def vrs_owns_def)
  have "length (filter (\<lambda>r. or_controller r \<noteq> None \<and> the (or_controller r)) refs) \<le> 1"
    using assms(1,2) refs(1) by (fastforce simp: store_invariant_def each_object_in_etcd_has_at_most_one_controller_owner_def Let_def)
  from filter_at_most_one [OF this _ _ refs(2), of r] assms(3-5) refs have "r = vrs_controller_owner_ref vrs"
    by (simp add: owner_references_contains_def vrs_controller_owner_ref_def)
  with assms(6) show False by (simp add: vrs_controller_owner_ref_def)
qed

text \<open>An object of another kind, or of a version that the rely condition excludes, belongs to no replica set.\<close>

lemma stored_kind_version:
  assumes "store_invariant s" "resources s key = Some old"
  shows "obj_kind old = ref_kind key" "om_resource_version (obj_metadata old) \<noteq> None"
proof -
  have "each_object_in_etcd_is_weakly_well_formed s" using assms(1) by (simp add: store_invariant_def)
  note wf = weakly_well_formedD [OF this assms(2)]
  from wf(5) show "obj_kind old = ref_kind key" .
  from wf(1) show "om_resource_version (obj_metadata old) \<noteq> None" by (simp add: well_formed_for_namespaced_def)
qed

lemma not_owned_version:
  assumes "store_invariant s" "resources s key = Some old"
    and "ref_kind key = PodKind \<Longrightarrow> \<not> owned_with_version s key (om_resource_version (obj_metadata old))"
  shows "\<not> vrs_pod old"
  using assms stored_kind_version [OF assms(1,2)] by (auto simp: owned_with_version_def vrs_owned_iff)

lemma admitted_version:
  assumes "update_request_admission_check_helper env it name namespace obj s = None"
    and "resources s \<lparr>ref_kind = obj_kind obj, ref_name = name, ref_namespace = namespace\<rparr> = Some old"
    and "om_resource_version (obj_metadata obj) \<noteq> None"
  shows "om_resource_version (obj_metadata old) = om_resource_version (obj_metadata obj)"
  using assms by (auto simp: update_request_admission_check_helper_def Let_def split: if_splits)

lemma rely_keeps_pods:
  assumes inv: "store_invariant s" and rely: "vrs_rely_req req s"
  shows "owned_pods (resources (fst (handle_api_request env it req s))) = owned_pods (resources s)"
proof (cases req)
  case (CreateReq r)
  from create_changes [of env it r s] show ?thesis
  proof (elim disjE exE conjE)
    fix key obj
    assume "resources s key = None" and s': "resources (fst (handle_create_request env it r s)) = (resources s)(key \<mapsto> obj)"
      and "obj_kind obj = obj_kind (create_obj r)"
      and "om_owner_references (obj_metadata obj) = om_owner_references (obj_metadata (create_obj r))"
    with rely CreateReq have "owned_pods ((resources s)(key \<mapsto> obj)) = owned_pods (resources s)"
      by (intro owned_pods_update) (auto simp: vrs_rely_create_req_def vrs_owned_iff)
    then show ?thesis by (simp add: CreateReq split_beta s')
  qed (simp add: CreateReq split_beta)
next
  case (DeleteReq r)
  have "\<not> vrs_pod old" if "resources s (delete_key r) = Some old" "delete_request_admission_check r s = None" for old
    by (rule not_owned_version [OF inv that(1)])
      (use rely DeleteReq that in \<open>auto simp: vrs_rely_delete_req_def delete_request_admission_check_def split: if_splits\<close>)
  then show ?thesis by (simp add: DeleteReq split_beta rely_delete)
next
  case (UpdateReq r)
  have "\<not> vrs_pod old" if "resources s (update_request_key r) = Some old" "update_request_admission_check env it r s = None" for old
    by (rule not_owned_version [OF inv that(1)])
      (use rely UpdateReq that admitted_version [of env it "update_name r" "update_namespace r" "update_obj r" s old] in
        \<open>auto simp: vrs_rely_update_req_def update_request_key_def update_request_admission_check_def\<close>)
  moreover have "\<not> vrs_owns (the (om_owner_references (obj_metadata (update_obj r))))"
    if "obj_kind (update_obj r) = PodKind" "om_owner_references (obj_metadata (update_obj r)) \<noteq> None"
    using rely UpdateReq that by (simp add: vrs_rely_update_req_def)
  ultimately have "owned_pods (resources (fst (handle_update_request env it r s))) = owned_pods (resources s)"
    by (intro rely_update [OF inv])
  then show ?thesis by (simp add: UpdateReq split_beta)
next
  case (UpdateStatusReq r)
  from update_status_changes [of env it r s] show ?thesis
  proof (elim disjE exE conjE)
    fix old obj
    assume old: "resources s (update_status_request_key r) = Some old" and adm: "update_status_request_admission_check env it r s = None"
      and s': "resources (fst (handle_update_status_request env it r s)) = (resources s)(update_status_request_key r \<mapsto> obj)"
      and same: "vrs_pod obj = vrs_pod old"
    have "\<not> vrs_pod old"
      by (rule not_owned_version [OF inv old])
        (use rely UpdateStatusReq old adm
            admitted_version [of env it "update_status_name r" "update_status_namespace r" "update_status_obj r" s old] in
          \<open>auto simp: vrs_rely_update_status_req_def update_status_request_key_def update_status_request_admission_check_def\<close>)
    with old same have "owned_pods ((resources s)(update_status_request_key r \<mapsto> obj)) = owned_pods (resources s)"
      by (intro owned_pods_update) auto
    then show ?thesis by (simp add: UpdateStatusReq split_beta s')
  qed (simp add: UpdateStatusReq split_beta)
next
  case (GetThenDeleteReq r)
  have "\<not> vrs_pod old" if "resources s (get_then_delete_key r) = Some old"
    "owner_references_contains (obj_metadata old) (get_then_delete_owner_ref r)" for old
    using rely GetThenDeleteReq that other_controller [OF inv] stored_kind_version [OF inv that(1)]
    by (cases "ref_kind (get_then_delete_key r) = PodKind") (auto simp: vrs_rely_get_then_delete_req_def vrs_pod_def)
  then show ?thesis
    using rely_delete [of s "\<lparr>delete_key = get_then_delete_key r, delete_preconditions = None\<rparr>" env]
    by (auto simp: GetThenDeleteReq split_beta handle_get_then_delete_request_def handle_get_request_def Let_def split: option.splits)
next
  case (GetThenUpdateReq r)
  let ?key = "get_then_update_request_key r"
  show ?thesis
  proof (cases "get_then_update_well_formed r \<and> (\<exists>old. resources s ?key = Some old \<and>
      owner_references_contains (obj_metadata old) (get_then_update_owner_ref r))")
    case True
    then obtain old where old: "resources s ?key = Some old" "owner_references_contains (obj_metadata old) (get_then_update_owner_ref r)"
      by blast
    define u where "u = \<lparr>update_namespace = get_then_update_namespace r, update_name = get_then_update_name r,
      update_obj = (get_then_update_obj r)\<lparr>obj_metadata := (obj_metadata (get_then_update_obj r))
        \<lparr>om_resource_version := om_resource_version (obj_metadata old), om_uid := om_uid (obj_metadata old)\<rparr>\<rparr>\<rparr>"
    have key: "update_request_key u = ?key" "obj_kind (update_obj u) = obj_kind (get_then_update_obj r)"
      "om_owner_references (obj_metadata (update_obj u)) = om_owner_references (obj_metadata (get_then_update_obj r))"
      by (simp_all add: u_def update_request_key_def get_then_update_request_key_def)
    have "\<not> vrs_pod old"
      using rely GetThenUpdateReq old other_controller [OF inv] stored_kind_version [OF inv old(1)]
      by (cases "ref_kind ?key = PodKind") (auto simp: vrs_rely_get_then_update_req_def vrs_pod_def get_then_update_request_key_def)
    then have "owned_pods (resources (fst (handle_update_request env it u s))) = owned_pods (resources s)"
      using rely GetThenUpdateReq old(1) by (intro rely_update [OF inv]) (auto simp: key vrs_rely_get_then_update_req_def)
    then show ?thesis
      using True old by (simp add: GetThenUpdateReq split_beta handle_get_then_update_request_def handle_get_request_def Let_def u_def)
  qed (auto simp: GetThenUpdateReq split_beta handle_get_then_update_request_def handle_get_request_def Let_def split: option.splits)
qed simp_all

text \<open>C9: a request of another controller that meets the rely condition leaves every pod of a replica set as it is, and adds
  none.\<close>

theorem rely_keeps_owned_pods:
  assumes "store_invariant s" "vrs_rely_req req s"
  shows "owned_pods (resources (fst (handle_api_request env it req s))) = owned_pods (resources s)"
  using assms by (rule rely_keeps_pods)

text \<open>A store with one pod of a replica set, and a request to delete it that names an old version.\<close>

definition owned_example_store :: APIServerState where
  "owned_example_store =
     \<lparr>resources = [example_key \<mapsto> (example_pod None)\<lparr>obj_metadata := (obj_metadata (example_pod None))
        \<lparr>om_owner_references := Some [vrs_controller_owner_ref example_vrs]\<rparr>\<rparr>], uid_counter = 2, resource_version_counter = 2\<rparr>"

lemma owned_example_store_invariant: "store_invariant owned_example_store"
  by (simp add: store_invariant_def each_object_in_etcd_is_weakly_well_formed_def etcd_object_is_weakly_well_formed_def
      unique_uids_iff at_most_one_controller_owner_iff one_controller_owner_def terminating_objects_have_finalizers_def
      etcd_is_finite_def example_defs well_formed_for_namespaced_def object_ref_def has_finalizers_def owned_example_store_def
      vrs_controller_owner_ref_def)

theorem rely_keeps_owned_pods_witness:
  "owned_pods (resources (fst (handle_api_request example_env Map.empty (DeleteReq \<lparr>delete_key = example_key,
      delete_preconditions = Some \<lparr>pre_uid = None, pre_resource_version = Some 0\<rparr>\<rparr>) owned_example_store))) =
    owned_pods (resources owned_example_store) \<and> example_key \<in> fst ` owned_pods (resources owned_example_store)"
proof -
  have "example_key \<in> fst ` owned_pods (resources owned_example_store)"
    by (auto simp: owned_pods_def owned_example_store_def vrs_pod_def vrs_owns_def example_pod_def intro!: image_eqI)
  moreover have "vrs_rely_req (DeleteReq \<lparr>delete_key = example_key,
      delete_preconditions = Some \<lparr>pre_uid = None, pre_resource_version = Some 0\<rparr>\<rparr>) owned_example_store"
    by (simp add: vrs_rely_delete_req_def owned_with_version_def owned_example_store_def example_pod_def object_meta_default_def)
  ultimately show ?thesis using rely_keeps_owned_pods [OF owned_example_store_invariant] by blast
qed

end
