(* ===== verification/Anvil_VReplicaSet_Run.thy ===== *)
theory Anvil_VReplicaSet_Run
  imports Anvil_VReplicaSet_Guarantee
begin

text \<open>
  What a run of the replica set controller achieves (\<open>controllers/vreplicaset_controller/trusted/liveness_theorem.rs\<close> below
  \<open>src/projects/anvil-main/src/\<close>): if the other clients meet the rely condition, one call of \<open>reconcile_with\<close> ends, and
  afterwards there are exactly as many matching pods as the replica set asks for.
\<close>

section \<open>The desired state\<close>












section \<open>Requests of other clients\<close>











lemma after_call_store [simp]: "kw_store (after_call w s) = s"
  by (simp add: after_call_def)




section \<open>Creating and deleting one pod\<close>






section \<open>The loop\<close>
















section \<open>One call of the reconciler\<close>





















end
