(* ===== verification/Vest_Properties.thy ===== *)
theory Vest_Properties
  imports Prelude
begin

text \<open>
  The interface of the parser combinators of Vest (\<open>src/projects/vest-main/vest/src/\<close>): errors
  (\<open>errors.rs\<close>), input and output buffers (\<open>buf_traits.rs\<close>, \<open>utils.rs\<close>), and the traits of
  \<open>properties.rs\<close>. An implementation of \<open>SpecCombinator\<close> and \<open>SecureSpecCombinator\<close> is a value of the
  record \<open>spec_combinator\<close>, an implementation of \<open>Combinator\<close> a value of \<open>exec_combinator\<close>; a value of the
  code and its view are the same value here. The theorems that the traits demand are the assumptions
  of the locales \<open>SecureSpecCombinator\<close> and \<open>Combinator\<close>; beyond the trait, the latter demands that the
  serializer fails only for lack of space.
\<close>

section \<open>Errors\<close>

datatype ParseError =
    AndThenUnusedBytes | UnexpectedEndOfInput | OrdChoiceNoMatch | CondFailed | TryMapFailed
  | RefinedPredicateFailed | NotEof | OtherParse string

datatype SerializeError = InsufficientBuffer | OtherSerialize string

datatype VestError = ParseErr ParseError | SerializeErr SerializeError

type_synonym 'v PResult = "(ParseError + nat \<times> 'v) outcome"
type_synonym SResult = "((SerializeError + nat) \<times> bytes) outcome"

text \<open>The operator \<open>?\<close> on the result of a parser, and on that of a serializer, which carries the
  output buffer along.\<close>

definition try_parse :: "'a PResult \<Rightarrow> (nat \<Rightarrow> 'a \<Rightarrow> 'b PResult) \<Rightarrow> 'b PResult" where
  "try_parse m f = bind_outcome m (\<lambda>r. case r of Inl e \<Rightarrow> Ret (Inl e) | Inr (n, v) \<Rightarrow> f n v)"

definition try_serialize :: "SResult \<Rightarrow> (nat \<Rightarrow> bytes \<Rightarrow> SResult) \<Rightarrow> SResult" where
  "try_serialize m f = bind_outcome m (\<lambda>(r, data). case r of Inl e \<Rightarrow> Ret (Inl e, data) | Inr n \<Rightarrow> f n data)"

section \<open>Machine arithmetic and buffers\<close>

text \<open>Arithmetic on \<open>usize\<close>, which panics on overflow.\<close>

definition usize_add :: "nat \<Rightarrow> nat \<Rightarrow> nat outcome" where
  "usize_add a b = (if a + b \<le> usize_max then Ret (a + b) else Panic)"

lemma usize_add_Ret [outcome_simps]: "a + b \<le> usize_max \<Longrightarrow> usize_add a b = Ret (a + b)"
  by (simp add: usize_add_def)

lemma usize_sub_Ret [outcome_simps]: "b \<le> a \<Longrightarrow> usize_sub a b = Ret (a - b)"
  by (simp add: usize_sub_def)

text \<open>\<open>VestInput::subrange\<close> of a slice.\<close>

definition subrange :: "bytes \<Rightarrow> nat \<Rightarrow> nat \<Rightarrow> bytes outcome" where
  "subrange s i j = (if i \<le> j \<and> j \<le> length s then Ret (take (j - i) (drop i s)) else Panic)"

lemma subrange_Ret [outcome_simps]: "i \<le> j \<Longrightarrow> j \<le> length s \<Longrightarrow> subrange s i j = Ret (take (j - i) (drop i s))"
  by (simp add: subrange_def)

definition seq_splice :: "bytes \<Rightarrow> nat \<Rightarrow> bytes \<Rightarrow> bytes" where
  "seq_splice data pos v = take pos data @ v @ drop (pos + length v) data"

definition vec_u8_extend_from_slice :: "bytes \<Rightarrow> bytes \<Rightarrow> bytes" where
  "vec_u8_extend_from_slice dest src = dest @ src"

text \<open>The loop of \<open>set_range\<close> has set the first \<open>j\<close> bytes; its argument \<open>i\<close> is the index \<open>i + j\<close> of the
  next one and the list is the rest of the input.\<close>

fun set_range_loop :: "bytes \<Rightarrow> nat \<Rightarrow> bytes \<Rightarrow> bytes outcome" where
  "set_range_loop data i [] = Ret data"
| "set_range_loop data i (x # input) = bind_outcome (vec_set data i x) (\<lambda>data. set_range_loop data (i + 1) input)"

definition set_range :: "bytes \<Rightarrow> nat \<Rightarrow> bytes \<Rightarrow> bytes outcome" where
  "set_range data i input = set_range_loop data i input"

function compare_slice_loop :: "bytes \<Rightarrow> bytes \<Rightarrow> nat \<Rightarrow> bool outcome" where
  "compare_slice_loop x y i =
     (if i < length x then
        bind_outcome (vec_index x i) (\<lambda>a. bind_outcome (vec_index y i) (\<lambda>b.
          if a \<noteq> b then Ret False else compare_slice_loop x y (i + 1)))
      else Ret True)"
  by pat_completeness auto
termination
  by (relation "measure (\<lambda>(x, y, i). length x - i)") auto

declare compare_slice_loop.simps [simp del]

definition compare_slice :: "bytes \<Rightarrow> bytes \<Rightarrow> bool outcome" where
  "compare_slice x y = (if length x \<noteq> length y then Ret False else compare_slice_loop x y 0)"

function init_vec_u8_loop :: "nat \<Rightarrow> nat \<Rightarrow> bytes \<Rightarrow> bytes" where
  "init_vec_u8_loop n i ret = (if i < n then init_vec_u8_loop n (i + 1) (ret @ [0]) else ret)"
  by pat_completeness auto
termination
  by (relation "measure (\<lambda>(n, i, ret). n - i)") auto

declare init_vec_u8_loop.simps [simp del]

definition init_vec_u8 :: "nat \<Rightarrow> bytes" where
  "init_vec_u8 n = init_vec_u8_loop n 0 []"

lemma length_seq_splice: "pos + length v \<le> length data \<Longrightarrow> length (seq_splice data pos v) = length data"
  by (simp add: seq_splice_def)

lemma seq_splice_Nil [simp]: "pos \<le> length data \<Longrightarrow> seq_splice data pos [] = data"
  by (simp add: seq_splice_def)

lemma seq_splice_append:
  "pos + length a + length b \<le> length data \<Longrightarrow>
     seq_splice (seq_splice data pos a) (pos + length a) b = seq_splice data pos (a @ b)"
  by (simp add: seq_splice_def ac_simps)

lemma take_drop_seq_splice:
  "pos + length v \<le> length data \<Longrightarrow> take (length v) (drop pos (seq_splice data pos v)) = v"
  by (simp add: seq_splice_def)

lemma set_range_loop_eq:
  "i + length input \<le> length data \<Longrightarrow> set_range_loop data i input = Ret (seq_splice data i input)"
proof (induction data i input rule: set_range_loop.induct)
  case (2 data i x input)
  have "seq_splice (data[i := x]) (i + 1) input = seq_splice data i (x # input)"
    using "2.prems" by (simp add: seq_splice_def take_Suc_conv_app_nth)
  with 2 show ?case by (simp add: outcome_simps)
qed simp

lemma set_range_eq: "i + length input \<le> length data \<Longrightarrow> set_range data i input = Ret (seq_splice data i input)"
  by (simp add: set_range_def set_range_loop_eq)

lemma compare_slice_loop_eq:
  "length x = length y \<Longrightarrow> compare_slice_loop x y i = Ret (drop i x = drop i y)"
proof (induction x y i rule: compare_slice_loop.induct)
  case (1 x y i)
  show ?case
  proof (cases "i < length x")
    case True
    with 1 have "drop i x = drop i y \<longleftrightarrow> x ! i = y ! i \<and> drop (i + 1) x = drop (i + 1) y"
      by (simp add: Cons_nth_drop_Suc [symmetric])
    with True 1 show ?thesis by (subst compare_slice_loop.simps) (simp add: outcome_simps)
  qed (use 1 in \<open>subst compare_slice_loop.simps, simp\<close>)
qed

lemma compare_slice_eq: "compare_slice x y = Ret (x = y)"
  by (auto simp: compare_slice_def compare_slice_loop_eq)

lemma init_vec_u8_loop_eq: "i \<le> n \<Longrightarrow> init_vec_u8_loop n i ret = ret @ replicate (n - i) 0"
proof (induction n i ret rule: init_vec_u8_loop.induct)
  case (1 n i ret)
  show ?case
  proof (cases "i < n")
    case True
    then have "replicate (n - i) (0 :: u8) = 0 # replicate (n - Suc i) 0"
      by (metis Suc_diff_Suc replicate_Suc)
    with True 1 show ?thesis by (subst init_vec_u8_loop.simps) simp
  qed (use 1 in \<open>subst init_vec_u8_loop.simps, simp\<close>)
qed

lemma init_vec_u8_eq: "init_vec_u8 n = replicate n 0"
  by (simp add: init_vec_u8_def init_vec_u8_loop_eq)

section \<open>Combinators\<close>

record 'v spec_combinator =
  sc_requires :: bool
  sc_wf :: "'v \<Rightarrow> bool"
  spec_parse :: "bytes \<Rightarrow> (nat \<times> 'v) option"
  spec_serialize :: "'v \<Rightarrow> bytes"
  is_prefix_secure :: bool
  is_productive :: bool

record 'v exec_combinator =
  c_length :: "'v \<Rightarrow> nat outcome"
  c_parse :: "bytes \<Rightarrow> 'v PResult"
  c_serialize :: "'v \<Rightarrow> bytes \<Rightarrow> nat \<Rightarrow> SResult"

locale SecureSpecCombinator =
  fixes c :: "'v spec_combinator"
  assumes serialize_parse_roundtrip:
    "sc_requires c \<Longrightarrow> sc_wf c v \<Longrightarrow> spec_parse c (spec_serialize c v) = Some (length (spec_serialize c v), v)"
  and parse_serialize_roundtrip:
    "sc_requires c \<Longrightarrow> spec_parse c s = Some (n, v) \<Longrightarrow> sc_wf c v \<and> spec_serialize c v = take n s"
  and prefix_secure:
    "sc_requires c \<Longrightarrow> is_prefix_secure c \<Longrightarrow> spec_parse c s = Some (n, v) \<Longrightarrow> spec_parse c (s @ s') = Some (n, v)"
  and parse_length: "sc_requires c \<Longrightarrow> spec_parse c s = Some (n, v) \<Longrightarrow> n \<le> length s"
  and parse_productive: "sc_requires c \<Longrightarrow> is_productive c \<Longrightarrow> spec_parse c s = Some (n, v) \<Longrightarrow> 0 < n"
begin

lemma parse_surjective: "sc_requires c \<Longrightarrow> sc_wf c v \<Longrightarrow> \<exists>s n. spec_parse c s = Some (n, v)"
  using serialize_parse_roundtrip by blast

lemma serialize_injective:
  "sc_requires c \<Longrightarrow> sc_wf c v \<Longrightarrow> sc_wf c w \<Longrightarrow> spec_serialize c v = spec_serialize c w \<Longrightarrow> v = w"
  by (metis Pair_inject option.inject serialize_parse_roundtrip)

lemma parse_non_malleable:
  "sc_requires c \<Longrightarrow> spec_parse c s = Some (n, v) \<Longrightarrow> spec_parse c s' = Some (n', v) \<Longrightarrow> take n s = take n' s'"
  using parse_serialize_roundtrip [of s n v] parse_serialize_roundtrip [of s' n' v] by simp

lemma serialize_productive:
  "sc_requires c \<Longrightarrow> sc_wf c v \<Longrightarrow> is_productive c \<Longrightarrow> 0 < length (spec_serialize c v)"
  by (rule parse_productive [OF _ _ serialize_parse_roundtrip])

lemma serialize_parse_append:
  "sc_requires c \<Longrightarrow> is_prefix_secure c \<Longrightarrow> sc_wf c v \<Longrightarrow>
     spec_parse c (spec_serialize c v @ s) = Some (length (spec_serialize c v), v)"
  using serialize_parse_roundtrip prefix_secure by blast

lemma serialize_prefix_free:
  assumes "sc_requires c" "is_prefix_secure c" "sc_wf c v" "sc_wf c w" "spec_serialize c w = spec_serialize c v @ s"
  shows "w = v \<and> s = []"
  using serialize_parse_append [OF assms(1-3), of s] serialize_parse_roundtrip [OF assms(1,4)] assms(5) by auto

end

locale Combinator = SecureSpecCombinator c for c :: "'v spec_combinator" +
  fixes e :: "'v exec_combinator"
  assumes parse_correct:
    "sc_requires c \<Longrightarrow> length s \<le> usize_max \<Longrightarrow>
       \<exists>r. c_parse e s = Ret r \<and> spec_parse c s = (case r of Inl _ \<Rightarrow> None | Inr nv \<Rightarrow> Some nv)"
  and serialize_correct:
    "sc_requires c \<Longrightarrow> sc_wf c v \<Longrightarrow> pos \<le> length data \<Longrightarrow> length data \<le> usize_max \<Longrightarrow>
       \<exists>r data'. c_serialize e v data pos = Ret (r, data') \<and>
         (case r of
            Inl _ \<Rightarrow> length data < pos + length (spec_serialize c v)
          | Inr n \<Rightarrow> n = length (spec_serialize c v) \<and> pos + n \<le> length data \<and>
              data' = seq_splice data pos (spec_serialize c v))"
  and length_correct:
    "sc_requires c \<Longrightarrow> sc_wf c v \<Longrightarrow> length (spec_serialize c v) \<le> usize_max \<Longrightarrow>
       c_length e v = Ret (length (spec_serialize c v))"
begin

lemma parse_cases:
  assumes "sc_requires c" "length s \<le> usize_max"
  obtains (ok) n v where "c_parse e s = Ret (Inr (n, v))" "spec_parse c s = Some (n, v)" "n \<le> length s"
  | (err) x where "c_parse e s = Ret (Inl x)" "spec_parse c s = None"
proof -
  obtain r where r: "c_parse e s = Ret r" "spec_parse c s = (case r of Inl _ \<Rightarrow> None | Inr nv \<Rightarrow> Some nv)"
    using parse_correct [OF assms] by blast
  show ?thesis
  proof (cases r)
    case (Inl x)
    with r err show ?thesis by simp
  next
    case (Inr nv)
    with r ok parse_length [OF assms(1)] show ?thesis by (cases nv) simp
  qed
qed

lemma serialize_cases:
  assumes "sc_requires c" "sc_wf c v" "pos \<le> length data" "length data \<le> usize_max"
  obtains (ok) "c_serialize e v data pos = Ret (Inr (length (spec_serialize c v)), seq_splice data pos (spec_serialize c v))"
    "pos + length (spec_serialize c v) \<le> length data"
  | (err) x data' where "c_serialize e v data pos = Ret (Inl x, data')" "length data < pos + length (spec_serialize c v)"
proof -
  obtain r data' where r: "c_serialize e v data pos = Ret (r, data')"
    "case r of Inl _ \<Rightarrow> length data < pos + length (spec_serialize c v)
     | Inr n \<Rightarrow> n = length (spec_serialize c v) \<and> pos + n \<le> length data \<and>
         data' = seq_splice data pos (spec_serialize c v)"
    using serialize_correct [OF assms] by blast
  with ok err show ?thesis by (cases r) auto
qed

lemma serialize_fits:
  assumes "sc_requires c" "sc_wf c v" "pos + length (spec_serialize c v) \<le> length data" "length data \<le> usize_max"
  shows "c_serialize e v data pos = Ret (Inr (length (spec_serialize c v)), seq_splice data pos (spec_serialize c v))"
  by (rule serialize_cases [of v pos data]) (use assms in auto)

text \<open>What the serializer writes, the parser reads back.\<close>

lemma written_then_read:
  assumes "sc_requires c" "sc_wf c v" "pos + length (spec_serialize c v) \<le> length data" "length data \<le> usize_max"
    and "is_prefix_secure c \<or> pos + length (spec_serialize c v) = length data"
  shows "\<exists>n data'. c_serialize e v data pos = Ret (Inr n, data') \<and> c_parse e (drop pos data') = Ret (Inr (n, v))"
proof -
  let ?b = "spec_serialize c v"
  have "drop pos (seq_splice data pos ?b) = ?b @ drop (pos + length ?b) data"
    using assms(3) by (simp add: seq_splice_def)
  moreover have "spec_parse c (?b @ drop (pos + length ?b) data) = Some (length ?b, v)"
    using assms(1,2,5) serialize_parse_append serialize_parse_roundtrip by auto
  ultimately have "spec_parse c (drop pos (seq_splice data pos ?b)) = Some (length ?b, v)" by simp
  moreover have "length (drop pos (seq_splice data pos ?b)) \<le> usize_max"
    using assms(3,4) by (simp add: length_seq_splice)
  ultimately have "c_parse e (drop pos (seq_splice data pos ?b)) = Ret (Inr (length ?b, v))"
    using assms(1) by (metis option.distinct(1) option.inject parse_cases)
  with serialize_fits [OF assms(1-4)] show ?thesis by blast
qed

end

lemmas comb_parse_cases [consumes 3, case_names ok err] = Combinator.parse_cases
lemmas comb_serialize_cases [consumes 5, case_names ok err] = Combinator.serialize_cases

text \<open>The trait \<open>DisjointFrom\<close>: under the condition \<open>d\<close>, where the first combinator succeeds the second one
  fails.\<close>

locale DisjointFrom =
  fixes d :: bool and c :: "'v spec_combinator" and other :: "'w spec_combinator"
  assumes parse_disjoint_on: "d \<Longrightarrow> spec_parse c s = Some r \<Longrightarrow> spec_parse other s = None"

end
