(* ===== verification/Vest_Basic.thy ===== *)
theory Vest_Basic
  imports Vest_Properties
begin

text \<open>
  The combinators without components of \<open>regular/bytes.rs\<close>, \<open>end.rs\<close>, \<open>fail.rs\<close> and \<open>success.rs\<close>, and the
  ones that modify a single combinator (\<open>modifier.rs\<close>). The conversions of \<open>Mapped\<close> and \<open>TryMap\<close> and the
  predicate of \<open>Refined\<close> are functions of the caller; a fallible conversion returns an option, since
  the combinator drops its error.
\<close>

section \<open>Bytes\<close>

definition Variable_spec :: "nat \<Rightarrow> bytes spec_combinator" where
  "Variable_spec n =
     \<lparr>sc_requires = True, sc_wf = (\<lambda>v. length v = n),
      spec_parse = (\<lambda>s. if n \<le> length s then Some (n, take n s) else None),
      spec_serialize = (\<lambda>v. v), is_prefix_secure = True, is_productive = (n > 0)\<rparr>"

definition Variable_exec :: "nat \<Rightarrow> bytes exec_combinator" where
  "Variable_exec n =
     \<lparr>c_length = (\<lambda>v. Ret n),
      c_parse = (\<lambda>s. if n \<le> length s then bind_outcome (subrange s 0 n) (\<lambda>s'. Ret (Inr (n, s')))
                     else Ret (Inl UnexpectedEndOfInput)),
      c_serialize = (\<lambda>v data pos.
        if length v \<le> length data \<and> pos \<le> length data - length v
        then bind_outcome (set_range data pos v) (\<lambda>data. Ret (Inr n, data))
        else Ret (Inl InsufficientBuffer, data))\<rparr>"

text \<open>The constant parameter of \<open>Fixed\<close> is an argument here.\<close>

definition Fixed_spec :: "nat \<Rightarrow> bytes spec_combinator" where
  "Fixed_spec N =
     \<lparr>sc_requires = True, sc_wf = (\<lambda>v. length v = N),
      spec_parse = (\<lambda>s. if N \<le> length s then Some (N, take N s) else None),
      spec_serialize = (\<lambda>v. v), is_prefix_secure = True, is_productive = (N > 0)\<rparr>"

definition Fixed_exec :: "nat \<Rightarrow> bytes exec_combinator" where
  "Fixed_exec N =
     \<lparr>c_length = (\<lambda>v. Ret N),
      c_parse = (\<lambda>s. if N \<le> length s then bind_outcome (subrange s 0 N) (\<lambda>s'. Ret (Inr (N, s')))
                     else Ret (Inl UnexpectedEndOfInput)),
      c_serialize = (\<lambda>v data pos.
        if length v \<le> length data \<and> pos \<le> length data - length v
        then bind_outcome (set_range data pos v) (\<lambda>data. Ret (Inr N, data))
        else Ret (Inl InsufficientBuffer, data))\<rparr>"

definition Tail_spec :: "bytes spec_combinator" where
  "Tail_spec =
     \<lparr>sc_requires = True, sc_wf = (\<lambda>v. True), spec_parse = (\<lambda>s. Some (length s, s)), spec_serialize = (\<lambda>v. v),
      is_prefix_secure = False, is_productive = False\<rparr>"

definition Tail_exec :: "bytes exec_combinator" where
  "Tail_exec =
     \<lparr>c_length = (\<lambda>v. Ret (length v)), c_parse = (\<lambda>s. Ret (Inr (length s, s))),
      c_serialize = (\<lambda>v data pos.
        bind_outcome (usize_sub (length data) pos) (\<lambda>space.
        if length v \<le> space then bind_outcome (set_range data pos v) (\<lambda>data. Ret (Inr (length v), data))
        else Ret (Inl InsufficientBuffer, data)))\<rparr>"

section \<open>End, Fail, Success\<close>

definition End_spec :: "unit spec_combinator" where
  "End_spec =
     \<lparr>sc_requires = True, sc_wf = (\<lambda>v. True),
      spec_parse = (\<lambda>s. if length s = 0 then Some (0, ()) else None), spec_serialize = (\<lambda>v. []),
      is_prefix_secure = False, is_productive = False\<rparr>"

definition End_exec :: "unit exec_combinator" where
  "End_exec =
     \<lparr>c_length = (\<lambda>v. Ret 0), c_parse = (\<lambda>s. if length s = 0 then Ret (Inr (0, ())) else Ret (Inl NotEof)),
      c_serialize = (\<lambda>v data pos. Ret (Inr 0, data))\<rparr>"

definition Fail_spec :: "string \<Rightarrow> unit spec_combinator" where
  "Fail_spec msg =
     \<lparr>sc_requires = True, sc_wf = (\<lambda>v. False), spec_parse = (\<lambda>s. None), spec_serialize = (\<lambda>v. []),
      is_prefix_secure = True, is_productive = False\<rparr>"

definition Fail_exec :: "string \<Rightarrow> unit exec_combinator" where
  "Fail_exec msg =
     \<lparr>c_length = (\<lambda>v. Ret 0), c_parse = (\<lambda>s. Ret (Inl (OtherParse msg))),
      c_serialize = (\<lambda>v data pos. Ret (Inl (OtherSerialize msg), data))\<rparr>"

definition Success_spec :: "unit spec_combinator" where
  "Success_spec =
     \<lparr>sc_requires = True, sc_wf = (\<lambda>v. True), spec_parse = (\<lambda>s. Some (0, ())), spec_serialize = (\<lambda>v. []),
      is_prefix_secure = True, is_productive = False\<rparr>"

definition Success_exec :: "unit exec_combinator" where
  "Success_exec =
     \<lparr>c_length = (\<lambda>v. Ret 0), c_parse = (\<lambda>s. Ret (Inr (0, ()))),
      c_serialize = (\<lambda>v data pos. Ret (Inr 0, data))\<rparr>"

section \<open>Modifiers\<close>

definition Mapped_spec :: "'v spec_combinator \<Rightarrow> ('v \<Rightarrow> 'w) \<Rightarrow> ('w \<Rightarrow> 'v) \<Rightarrow> 'w spec_combinator" where
  "Mapped_spec inner app rev_app =
     \<lparr>sc_requires = sc_requires inner, sc_wf = (\<lambda>v. sc_wf inner (rev_app v)),
      spec_parse = (\<lambda>s. case spec_parse inner s of Some (n, v) \<Rightarrow> Some (n, app v) | None \<Rightarrow> None),
      spec_serialize = (\<lambda>v. spec_serialize inner (rev_app v)),
      is_prefix_secure = is_prefix_secure inner, is_productive = is_productive inner\<rparr>"

definition Mapped_exec :: "'v exec_combinator \<Rightarrow> ('v \<Rightarrow> 'w) \<Rightarrow> ('w \<Rightarrow> 'v) \<Rightarrow> 'w exec_combinator" where
  "Mapped_exec inner app rev_app =
     \<lparr>c_length = (\<lambda>v. c_length inner (rev_app v)),
      c_parse = (\<lambda>s. try_parse (c_parse inner s) (\<lambda>n v. Ret (Inr (n, app v)))),
      c_serialize = (\<lambda>v data pos. c_serialize inner (rev_app v) data pos)\<rparr>"

definition TryMap_spec :: "'v spec_combinator \<Rightarrow> ('v \<Rightarrow> 'w option) \<Rightarrow> ('w \<Rightarrow> 'v option) \<Rightarrow> 'w spec_combinator" where
  "TryMap_spec inner app rev_app =
     \<lparr>sc_requires = sc_requires inner,
      sc_wf = (\<lambda>v. case rev_app v of Some v' \<Rightarrow> sc_wf inner v' | None \<Rightarrow> False),
      spec_parse = (\<lambda>s. case spec_parse inner s of
                          Some (n, v) \<Rightarrow> (case app v of Some v' \<Rightarrow> Some (n, v') | None \<Rightarrow> None)
                        | None \<Rightarrow> None),
      spec_serialize = (\<lambda>v. case rev_app v of Some v' \<Rightarrow> spec_serialize inner v' | None \<Rightarrow> []),
      is_prefix_secure = is_prefix_secure inner, is_productive = is_productive inner\<rparr>"

definition TryMap_exec :: "'v exec_combinator \<Rightarrow> ('v \<Rightarrow> 'w option) \<Rightarrow> ('w \<Rightarrow> 'v option) \<Rightarrow> 'w exec_combinator" where
  "TryMap_exec inner app rev_app =
     \<lparr>c_length = (\<lambda>v. bind_outcome (unwrap (rev_app v)) (c_length inner)),
      c_parse = (\<lambda>s. try_parse (c_parse inner s)
        (\<lambda>n v. case app v of Some v' \<Rightarrow> Ret (Inr (n, v')) | None \<Rightarrow> Ret (Inl TryMapFailed))),
      c_serialize = (\<lambda>v data pos. bind_outcome (unwrap (rev_app v)) (\<lambda>v'. c_serialize inner v' data pos))\<rparr>"

definition Refined_spec :: "'v spec_combinator \<Rightarrow> ('v \<Rightarrow> bool) \<Rightarrow> 'v spec_combinator" where
  "Refined_spec inner predicate =
     \<lparr>sc_requires = sc_requires inner, sc_wf = (\<lambda>v. sc_wf inner v \<and> predicate v),
      spec_parse = (\<lambda>s. case spec_parse inner s of
                          Some (n, v) \<Rightarrow> if predicate v then Some (n, v) else None
                        | None \<Rightarrow> None),
      spec_serialize = spec_serialize inner,
      is_prefix_secure = is_prefix_secure inner, is_productive = is_productive inner\<rparr>"

definition Refined_exec :: "'v exec_combinator \<Rightarrow> ('v \<Rightarrow> bool) \<Rightarrow> 'v exec_combinator" where
  "Refined_exec inner predicate =
     \<lparr>c_length = c_length inner,
      c_parse = (\<lambda>s. try_parse (c_parse inner s)
        (\<lambda>n v. if predicate v then Ret (Inr (n, v)) else Ret (Inl RefinedPredicateFailed))),
      c_serialize = c_serialize inner\<rparr>"

definition Cond_spec :: "bool \<Rightarrow> 'v spec_combinator \<Rightarrow> 'v spec_combinator" where
  "Cond_spec cond inner =
     \<lparr>sc_requires = sc_requires inner, sc_wf = (\<lambda>v. sc_wf inner v \<and> cond),
      spec_parse = (\<lambda>s. if cond then spec_parse inner s else None),
      spec_serialize = spec_serialize inner,
      is_prefix_secure = is_prefix_secure inner, is_productive = is_productive inner\<rparr>"

definition Cond_exec :: "bool \<Rightarrow> 'v exec_combinator \<Rightarrow> 'v exec_combinator" where
  "Cond_exec cond inner =
     \<lparr>c_length = c_length inner,
      c_parse = (\<lambda>s. if cond then c_parse inner s else Ret (Inl CondFailed)),
      c_serialize = c_serialize inner\<rparr>"

text \<open>\<open>AndThen\<close>, whose first combinator is always \<open>Variable(n)\<close>.\<close>

definition AndThen_spec :: "nat \<Rightarrow> 'v spec_combinator \<Rightarrow> 'v spec_combinator" where
  "AndThen_spec n0 next =
     \<lparr>sc_requires = (sc_requires (Variable_spec n0) \<and> sc_requires next),
      sc_wf = (\<lambda>v. sc_wf next v \<and> sc_wf (Variable_spec n0) (spec_serialize next v)),
      spec_parse = (\<lambda>s. case spec_parse (Variable_spec n0) s of
          Some (n, v1) \<Rightarrow> (case spec_parse next v1 of
              Some (m, v2) \<Rightarrow> if m = n then Some (n, v2) else None
            | None \<Rightarrow> None)
        | None \<Rightarrow> None),
      spec_serialize = (\<lambda>v. spec_serialize (Variable_spec n0) (spec_serialize next v)),
      is_prefix_secure = is_prefix_secure (Variable_spec n0),
      is_productive = is_productive (Variable_spec n0)\<rparr>"

definition AndThen_exec :: "nat \<Rightarrow> 'v exec_combinator \<Rightarrow> 'v exec_combinator" where
  "AndThen_exec n0 next =
     \<lparr>c_length = (\<lambda>v. Ret n0),
      c_parse = (\<lambda>s. try_parse (c_parse (Variable_exec n0) s) (\<lambda>n v1.
        try_parse (c_parse next v1) (\<lambda>m v2. if m = n then Ret (Inr (n, v2)) else Ret (Inl AndThenUnusedBytes)))),
      c_serialize = (\<lambda>v data pos. try_serialize (c_serialize next v data pos) (\<lambda>n data. Ret (Inr n, data)))\<rparr>"

lemmas basic_spec_defs = Variable_spec_def Fixed_spec_def Tail_spec_def End_spec_def Fail_spec_def Success_spec_def
lemmas basic_exec_defs = Variable_exec_def Fixed_exec_def Tail_exec_def End_exec_def Fail_exec_def Success_exec_def

section \<open>The basic combinators meet the contract\<close>

lemma set_range_case:
  "(if length v \<le> length data \<and> pos \<le> length data - length v
    then bind_outcome (set_range data pos v) f else x) =
   (if pos + length v \<le> length data then f (seq_splice data pos v) else x)"
  by (auto simp: set_range_eq add.commute)

interpretation variable: Combinator "Variable_spec n" "Variable_exec n" for n
  by unfold_locales
    (auto simp: Variable_spec_def Variable_exec_def set_range_case outcome_simps split: if_splits)

interpretation fixed: Combinator "Fixed_spec n" "Fixed_exec n" for n
  by unfold_locales
    (auto simp: Fixed_spec_def Fixed_exec_def set_range_case outcome_simps split: if_splits)

interpretation tail: Combinator Tail_spec Tail_exec
  by unfold_locales
    (auto simp: Tail_spec_def Tail_exec_def set_range_eq outcome_simps split: if_splits)

interpretation end_: Combinator End_spec End_exec
  by unfold_locales (auto simp: End_spec_def End_exec_def split: if_splits)

interpretation fail: Combinator "Fail_spec msg" "Fail_exec msg" for msg
  by unfold_locales (auto simp: Fail_spec_def Fail_exec_def)

interpretation success: Combinator Success_spec Success_exec
  by unfold_locales (auto simp: Success_spec_def Success_exec_def)

section \<open>The modifiers keep the contract\<close>

lemma try_parse_simps [simp]:
  "try_parse (Ret (Inr (n, v))) f = f n v" "try_parse (Ret (Inl x)) f = Ret (Inl x)"
  by (simp_all add: try_parse_def)

lemma try_serialize_simps [simp]:
  "try_serialize (Ret (Inr n, data)) g = g n data" "try_serialize (Ret (Inl y, data)) g = Ret (Inl y, data)"
  by (simp_all add: try_serialize_def)

context SecureSpecCombinator
begin

lemma mapped_secure:
  assumes "\<And>v. rev_app (app v) = v" "\<And>w. app (rev_app w) = w"
  shows "SecureSpecCombinator (Mapped_spec c app rev_app)"
  by unfold_locales
    (use assms in \<open>auto simp: Mapped_spec_def serialize_parse_roundtrip prefix_secure split: option.splits
       dest: parse_serialize_roundtrip parse_length parse_productive\<close>)

lemma try_map_secure:
  assumes iso: "\<And>v w. app v = Some w \<longleftrightarrow> rev_app w = Some v"
  shows "SecureSpecCombinator (TryMap_spec c app rev_app)"
proof (unfold_locales, goal_cases)
  case (1 v)
  then obtain w where w: "rev_app v = Some w" by (auto simp: TryMap_spec_def split: option.splits)
  moreover from w have "app w = Some v" by (simp add: iso)
  ultimately show ?case using 1 by (simp add: TryMap_spec_def serialize_parse_roundtrip)
next
  case (3 s n v s')
  then show ?case by (auto simp: TryMap_spec_def prefix_secure split: option.splits)
qed (auto simp: TryMap_spec_def iso split: option.splits
       dest: parse_serialize_roundtrip parse_length parse_productive)

lemma refined_secure: "SecureSpecCombinator (Refined_spec c p)"
  by unfold_locales
    (auto simp: Refined_spec_def serialize_parse_roundtrip prefix_secure split: option.splits if_splits
       dest: parse_serialize_roundtrip parse_length parse_productive)

lemma cond_secure: "SecureSpecCombinator (Cond_spec b c)"
  by unfold_locales
    (auto simp: Cond_spec_def serialize_parse_roundtrip prefix_secure split: if_splits
       dest: parse_serialize_roundtrip parse_length parse_productive)

lemma and_then_secure: "SecureSpecCombinator (AndThen_spec n c)"
  by unfold_locales
    (auto simp: AndThen_spec_def Variable_spec_def serialize_parse_roundtrip split: option.splits if_splits
       dest!: parse_serialize_roundtrip)

end

context Combinator
begin

lemma mapped:
  assumes "\<And>v. rev_app (app v) = v" "\<And>w. app (rev_app w) = w"
  shows "Combinator (Mapped_spec c app rev_app) (Mapped_exec e app rev_app)"
proof (rule Combinator.intro [OF mapped_secure [OF assms]], unfold_locales, goal_cases)
  case (1 s)
  then have "sc_requires c" "length s \<le> usize_max" by (simp_all add: Mapped_spec_def)
  then show ?case by (cases rule: parse_cases) (simp_all add: Mapped_spec_def Mapped_exec_def)
next
  case (2 v pos data)
  then have "sc_requires c" "sc_wf c (rev_app v)" "pos \<le> length data" "length data \<le> usize_max" by (simp_all add: Mapped_spec_def)
  then show ?case by (cases rule: serialize_cases) (simp_all add: Mapped_spec_def Mapped_exec_def)
next
  case (3 v)
  then show ?case using length_correct [of "rev_app v"] by (simp add: Mapped_spec_def Mapped_exec_def)
qed

lemma try_map:
  assumes "\<And>v w. app v = Some w \<longleftrightarrow> rev_app w = Some v"
  shows "Combinator (TryMap_spec c app rev_app) (TryMap_exec e app rev_app)"
proof (rule Combinator.intro [OF try_map_secure [OF assms]], unfold_locales, goal_cases)
  case (1 s)
  then have "sc_requires c" "length s \<le> usize_max" by (simp_all add: TryMap_spec_def)
  then show ?case by (cases rule: parse_cases) (simp_all add: TryMap_spec_def TryMap_exec_def split: option.split)
next
  case (2 v pos data)
  then obtain w where w: "rev_app v = Some w" by (auto simp: TryMap_spec_def split: option.splits)
  with 2 have "sc_requires c" "sc_wf c w" "pos \<le> length data" "length data \<le> usize_max"
    by (simp_all add: TryMap_spec_def)
  then show ?case by (cases rule: serialize_cases) (simp_all add: TryMap_spec_def TryMap_exec_def w)
next
  case (3 v)
  then obtain w where w: "rev_app v = Some w" by (auto simp: TryMap_spec_def split: option.splits)
  with 3 show ?case using length_correct [of w] by (simp add: TryMap_spec_def TryMap_exec_def)
qed

lemma refined: "Combinator (Refined_spec c p) (Refined_exec e p)"
proof (rule Combinator.intro [OF refined_secure], unfold_locales, goal_cases)
  case (1 s)
  then have "sc_requires c" "length s \<le> usize_max" by (simp_all add: Refined_spec_def)
  then show ?case by (cases rule: parse_cases) (simp_all add: Refined_spec_def Refined_exec_def)
next
  case (2 v pos data)
  then have "sc_requires c" "sc_wf c v" "pos \<le> length data" "length data \<le> usize_max" by (simp_all add: Refined_spec_def)
  then show ?case by (cases rule: serialize_cases) (simp_all add: Refined_spec_def Refined_exec_def)
next
  case (3 v)
  then show ?case using length_correct [of v] by (simp add: Refined_spec_def Refined_exec_def)
qed

lemma cond: "Combinator (Cond_spec b c) (Cond_exec b e)"
proof (rule Combinator.intro [OF cond_secure], unfold_locales, goal_cases)
  case (1 s)
  then have "sc_requires c" "length s \<le> usize_max" by (simp_all add: Cond_spec_def)
  then show ?case by (cases rule: parse_cases) (simp_all add: Cond_spec_def Cond_exec_def)
next
  case (2 v pos data)
  then have "sc_requires c" "sc_wf c v" "pos \<le> length data" "length data \<le> usize_max" by (simp_all add: Cond_spec_def)
  then show ?case by (cases rule: serialize_cases) (simp_all add: Cond_spec_def Cond_exec_def)
next
  case (3 v)
  then show ?case using length_correct [of v] by (simp add: Cond_spec_def Cond_exec_def)
qed

lemma and_then: "Combinator (AndThen_spec n c) (AndThen_exec n e)"
proof (rule Combinator.intro [OF and_then_secure], unfold_locales, goal_cases)
  case (1 s)
  then have "sc_requires c" "length (take n s) \<le> usize_max" by (simp_all add: AndThen_spec_def)
  then show ?case
    by (cases rule: parse_cases)
      (simp_all add: AndThen_spec_def AndThen_exec_def Variable_spec_def Variable_exec_def outcome_simps)
next
  case (2 v pos data)
  then have "sc_requires c" "sc_wf c v" "pos \<le> length data" "length data \<le> usize_max" "length (spec_serialize c v) = n"
    by (simp_all add: AndThen_spec_def Variable_spec_def)
  then show ?case by (cases rule: serialize_cases) (simp_all add: AndThen_spec_def AndThen_exec_def Variable_spec_def)
qed (simp add: AndThen_spec_def AndThen_exec_def Variable_spec_def)

end

end
