(* ===== verification/Vest_Sequence.thy ===== *)
theory Vest_Sequence
  imports Vest_Basic
begin

text \<open>
  Sequencing (\<open>regular/sequence.rs\<close>): the dependent pair, whose second combinator is chosen by the value
  of the first one, the pair of two fixed combinators, and the pairs that drop one of the values. The
  continuation of the dependent pair is a function in the specification and one in the code. A static
  property of the type of the second combinator is asked of each of its values.
\<close>

definition Pair_spec :: "'a spec_combinator \<Rightarrow> ('a \<Rightarrow> 'b spec_combinator) \<Rightarrow> ('a \<times> 'b) spec_combinator" where
  "Pair_spec fst_c snd_c =
     \<lparr>sc_requires = (is_prefix_secure fst_c \<and> sc_requires fst_c \<and> (\<forall>i. sc_requires (snd_c i))),
      sc_wf = (\<lambda>v. sc_wf fst_c (fst v) \<and> sc_wf (snd_c (fst v)) (snd v)),
      spec_parse = (\<lambda>s. case spec_parse fst_c s of
          Some (n, v1) \<Rightarrow> (case spec_parse (snd_c v1) (drop n s) of
              Some (m, v2) \<Rightarrow> Some (n + m, (v1, v2))
            | None \<Rightarrow> None)
        | None \<Rightarrow> None),
      spec_serialize = (\<lambda>v. spec_serialize fst_c (fst v) @ spec_serialize (snd_c (fst v)) (snd v)),
      is_prefix_secure = (is_prefix_secure fst_c \<and> (\<forall>i. is_prefix_secure (snd_c i))),
      is_productive = (is_productive fst_c \<or> (\<forall>v1. is_productive (snd_c v1)))\<rparr>"

definition Pair_exec :: "'a exec_combinator \<Rightarrow> ('a \<Rightarrow> 'b exec_combinator) \<Rightarrow> ('a \<times> 'b) exec_combinator" where
  "Pair_exec fst_c snd_c =
     \<lparr>c_length = (\<lambda>v.
        bind_outcome (c_length fst_c (fst v)) (\<lambda>a.
        bind_outcome (c_length (snd_c (fst v)) (snd v)) (\<lambda>b. usize_add a b))),
      c_parse = (\<lambda>s.
        try_parse (c_parse fst_c s) (\<lambda>n v1.
        bind_outcome (subrange s n (length s)) (\<lambda>s'.
        try_parse (c_parse (snd_c v1) s') (\<lambda>m v2.
        bind_outcome (usize_add n m) (\<lambda>k. Ret (Inr (k, (v1, v2)))))))),
      c_serialize = (\<lambda>v data pos.
        try_serialize (c_serialize fst_c (fst v) data pos) (\<lambda>n data.
        bind_outcome (usize_add pos n) (\<lambda>pos'.
        try_serialize (c_serialize (snd_c (fst v)) (snd v) data pos') (\<lambda>m data.
        bind_outcome (usize_add n m) (\<lambda>k. Ret (Inr k, data))))))\<rparr>"

definition Tuple_spec :: "'a spec_combinator \<Rightarrow> 'b spec_combinator \<Rightarrow> ('a \<times> 'b) spec_combinator" where
  "Tuple_spec fst_c snd_c =
     (Pair_spec fst_c (\<lambda>r. snd_c))\<lparr>is_prefix_secure := is_prefix_secure fst_c \<and> is_prefix_secure snd_c\<rparr>"

definition Tuple_exec :: "'a exec_combinator \<Rightarrow> 'b exec_combinator \<Rightarrow> ('a \<times> 'b) exec_combinator" where
  "Tuple_exec fst_c snd_c =
     \<lparr>c_length = (\<lambda>v.
        bind_outcome (c_length fst_c (fst v)) (\<lambda>a. bind_outcome (c_length snd_c (snd v)) (\<lambda>b. usize_add a b))),
      c_parse = (\<lambda>s.
        try_parse (c_parse fst_c s) (\<lambda>n v1.
        bind_outcome (subrange s n (length s)) (\<lambda>s'.
        try_parse (c_parse snd_c s') (\<lambda>m v2.
        bind_outcome (usize_add n m) (\<lambda>k. Ret (Inr (k, (v1, v2)))))))),
      c_serialize = (\<lambda>v data pos.
        try_serialize (c_serialize fst_c (fst v) data pos) (\<lambda>n data.
        bind_outcome (usize_add pos n) (\<lambda>pos'.
        try_serialize (c_serialize snd_c (snd v) data pos') (\<lambda>m data.
        bind_outcome (usize_add n m) (\<lambda>k. Ret (Inr k, data))))))\<rparr>"

definition Preceded_spec :: "unit spec_combinator \<Rightarrow> 'b spec_combinator \<Rightarrow> 'b spec_combinator" where
  "Preceded_spec fst_c snd_c =
     \<lparr>sc_requires = sc_requires (Tuple_spec fst_c snd_c), sc_wf = (\<lambda>v. sc_wf (Tuple_spec fst_c snd_c) ((), v)),
      spec_parse = (\<lambda>s. case spec_parse (Tuple_spec fst_c snd_c) s of Some (n, v) \<Rightarrow> Some (n, snd v) | None \<Rightarrow> None),
      spec_serialize = (\<lambda>v. spec_serialize (Tuple_spec fst_c snd_c) ((), v)),
      is_prefix_secure = (is_prefix_secure fst_c \<and> is_prefix_secure snd_c),
      is_productive = is_productive (Tuple_spec fst_c snd_c)\<rparr>"

definition Preceded_exec :: "unit exec_combinator \<Rightarrow> 'b exec_combinator \<Rightarrow> 'b exec_combinator" where
  "Preceded_exec fst_c snd_c =
     \<lparr>c_length = (\<lambda>v. c_length (Tuple_exec fst_c snd_c) ((), v)),
      c_parse = (\<lambda>s. try_parse (c_parse (Tuple_exec fst_c snd_c) s) (\<lambda>n v. Ret (Inr (n, snd v)))),
      c_serialize = (\<lambda>v data pos. c_serialize (Tuple_exec fst_c snd_c) ((), v) data pos)\<rparr>"

definition Terminated_spec :: "'a spec_combinator \<Rightarrow> unit spec_combinator \<Rightarrow> 'a spec_combinator" where
  "Terminated_spec fst_c snd_c =
     \<lparr>sc_requires = sc_requires (Tuple_spec fst_c snd_c), sc_wf = (\<lambda>v. sc_wf (Tuple_spec fst_c snd_c) (v, ())),
      spec_parse = (\<lambda>s. case spec_parse (Tuple_spec fst_c snd_c) s of Some (n, v) \<Rightarrow> Some (n, fst v) | None \<Rightarrow> None),
      spec_serialize = (\<lambda>v. spec_serialize (Tuple_spec fst_c snd_c) (v, ())),
      is_prefix_secure = (is_prefix_secure fst_c \<and> is_prefix_secure snd_c),
      is_productive = is_productive (Tuple_spec fst_c snd_c)\<rparr>"

definition Terminated_exec :: "'a exec_combinator \<Rightarrow> unit exec_combinator \<Rightarrow> 'a exec_combinator" where
  "Terminated_exec fst_c snd_c =
     \<lparr>c_length = (\<lambda>v. c_length (Tuple_exec fst_c snd_c) (v, ())),
      c_parse = (\<lambda>s. try_parse (c_parse (Tuple_exec fst_c snd_c) s) (\<lambda>n v. Ret (Inr (n, fst v)))),
      c_serialize = (\<lambda>v data pos. c_serialize (Tuple_exec fst_c snd_c) (v, ()) data pos)\<rparr>"

section \<open>The specification of the dependent pair\<close>

lemma Pair_spec_parse_iff:
  "spec_parse (Pair_spec c1 c2) s = Some (k, v) \<longleftrightarrow>
     (\<exists>n m. spec_parse c1 s = Some (n, fst v) \<and> spec_parse (c2 (fst v)) (drop n s) = Some (m, snd v) \<and> k = n + m)"
  by (cases v) (auto simp: Pair_spec_def split: option.splits)

text \<open>The laws that need no prefix security of the first combinator.\<close>

lemma pair_parse_laws:
  assumes c1: "SecureSpecCombinator c1" and c2: "\<And>v. SecureSpecCombinator (c2 v)"
    and req: "sc_requires c1" "\<And>v. sc_requires (c2 v)"
    and parse: "spec_parse (Pair_spec c1 c2) s = Some (k, v)"
  shows "sc_wf (Pair_spec c1 c2) v" "spec_serialize (Pair_spec c1 c2) v = take k s" "k \<le> length s"
    "is_productive (Pair_spec c1 c2) \<Longrightarrow> 0 < k"
proof -
  obtain n m where p: "spec_parse c1 s = Some (n, fst v)" "spec_parse (c2 (fst v)) (drop n s) = Some (m, snd v)" "k = n + m"
    using parse by (auto simp: Pair_spec_parse_iff)
  note l1 = SecureSpecCombinator.parse_serialize_roundtrip [OF c1 req(1) p(1)]
    and l2 = SecureSpecCombinator.parse_serialize_roundtrip [OF c2 req(2) p(2)]
  show "sc_wf (Pair_spec c1 c2) v" "spec_serialize (Pair_spec c1 c2) v = take k s"
    using l1 l2 p(3) by (simp_all add: Pair_spec_def take_add)
  show "k \<le> length s"
    using SecureSpecCombinator.parse_length [OF c1 req(1) p(1)] SecureSpecCombinator.parse_length [OF c2 req(2) p(2)] p(3)
    by simp
  show "0 < k" if "is_productive (Pair_spec c1 c2)"
    using that p(3) SecureSpecCombinator.parse_productive [OF c1 req(1) _ p(1)]
      SecureSpecCombinator.parse_productive [OF c2 req(2) _ p(2)]
    by (auto simp: Pair_spec_def)
qed

lemma pair_secure:
  assumes c1: "SecureSpecCombinator c1" and c2: "\<And>v. SecureSpecCombinator (c2 v)"
  shows "SecureSpecCombinator (Pair_spec c1 c2)"
proof (unfold_locales, goal_cases)
  case (1 v)
  then have req: "is_prefix_secure c1" "sc_requires c1" "sc_requires (c2 (fst v))"
    and wf: "sc_wf c1 (fst v)" "sc_wf (c2 (fst v)) (snd v)" by (simp_all add: Pair_spec_def)
  show ?case
    using SecureSpecCombinator.serialize_parse_append [OF c1 req(2,1) wf(1)]
      SecureSpecCombinator.serialize_parse_roundtrip [OF c2 req(3) wf(2)]
    by (simp add: Pair_spec_parse_iff) (simp add: Pair_spec_def)
next
  case (2 s n v)
  then have req: "sc_requires c1" "\<And>i. sc_requires (c2 i)" by (simp_all add: Pair_spec_def)
  from pair_parse_laws(1,2) [OF c1 c2 req 2(2)] show ?case by blast
next
  case (3 s k v s')
  then have req: "sc_requires c1" "\<And>i. sc_requires (c2 i)" "is_prefix_secure c1" "\<And>i. is_prefix_secure (c2 i)"
    by (simp_all add: Pair_spec_def)
  from 3(3) obtain n m where p: "spec_parse c1 s = Some (n, fst v)"
    "spec_parse (c2 (fst v)) (drop n s) = Some (m, snd v)" "k = n + m"
    by (auto simp: Pair_spec_parse_iff)
  have "drop n (s @ s') = drop n s @ s'"
    using SecureSpecCombinator.parse_length [OF c1 req(1) p(1)] by simp
  then show ?case
    using SecureSpecCombinator.prefix_secure [OF c1 req(1,3) p(1)]
      SecureSpecCombinator.prefix_secure [OF c2 req(2,4) p(2)] p(3)
    by (simp add: Pair_spec_parse_iff)
next
  case (4 s n v)
  then have req: "sc_requires c1" "\<And>i. sc_requires (c2 i)" by (simp_all add: Pair_spec_def)
  from pair_parse_laws(3) [OF c1 c2 req 4(2)] show ?case .
next
  case (5 s n v)
  then have req: "sc_requires c1" "\<And>i. sc_requires (c2 i)" by (simp_all add: Pair_spec_def)
  from pair_parse_laws(4) [OF c1 c2 req 5(3,2)] show ?case .
qed

section \<open>The code of the dependent pair\<close>

lemma pair_exec_parse:
  assumes c1: "Combinator c1 e1" and c2: "\<And>v. Combinator (c2 v) (e2 v)"
    and req: "sc_requires c1" "\<And>v. sc_requires (c2 v)" and len: "length s \<le> usize_max"
  shows "\<exists>r. c_parse (Pair_exec e1 e2) s = Ret r \<and>
    spec_parse (Pair_spec c1 c2) s = (case r of Inl _ \<Rightarrow> None | Inr nv \<Rightarrow> Some nv)"
  using c1 req(1) len
proof (cases rule: comb_parse_cases)
  case (ok n v)
  then have len': "length (drop n s) \<le> usize_max" using len by simp
  from c2 req(2) len' show ?thesis
    by (cases rule: comb_parse_cases [of "c2 v" "e2 v" "drop n s"])
      (use ok len in \<open>simp_all add: Pair_exec_def Pair_spec_def outcome_simps\<close>)
qed (simp add: Pair_exec_def Pair_spec_def)

lemma pair_exec_serialize:
  assumes c1: "Combinator c1 e1" and c2: "\<And>v. Combinator (c2 v) (e2 v)"
    and req: "sc_requires c1" "\<And>v. sc_requires (c2 v)" and wf: "sc_wf c1 (fst v)" "sc_wf (c2 (fst v)) (snd v)"
    and pos: "pos \<le> length data" "length data \<le> usize_max"
  shows "\<exists>r data'. c_serialize (Pair_exec e1 e2) v data pos = Ret (r, data') \<and>
    (case r of
       Inl _ \<Rightarrow> length data < pos + length (spec_serialize (Pair_spec c1 c2) v)
     | Inr n \<Rightarrow> n = length (spec_serialize (Pair_spec c1 c2) v) \<and> pos + n \<le> length data \<and>
         data' = seq_splice data pos (spec_serialize (Pair_spec c1 c2) v))"
  using c1 req(1) wf(1) pos
proof (cases rule: comb_serialize_cases)
  case ok
  let ?a = "spec_serialize c1 (fst v)"
  let ?data = "seq_splice data pos ?a"
  have pos': "pos + length ?a \<le> length ?data" "length ?data \<le> usize_max"
    using ok(2) pos by (simp_all add: length_seq_splice)
  from c2 req(2) wf(2) pos' show ?thesis
    by (cases rule: comb_serialize_cases)
      (use ok pos in \<open>simp_all add: Pair_exec_def Pair_spec_def outcome_simps length_seq_splice seq_splice_append\<close>)
next
  case (err x data')
  then show ?thesis by (simp add: Pair_exec_def Pair_spec_def)
qed

lemma pair_exec_length:
  assumes c1: "Combinator c1 e1" and c2: "\<And>v. Combinator (c2 v) (e2 v)"
    and req: "sc_requires c1" "\<And>v. sc_requires (c2 v)" and wf: "sc_wf c1 (fst v)" "sc_wf (c2 (fst v)) (snd v)"
    and len: "length (spec_serialize (Pair_spec c1 c2) v) \<le> usize_max"
  shows "c_length (Pair_exec e1 e2) v = Ret (length (spec_serialize (Pair_spec c1 c2) v))"
  using Combinator.length_correct [OF c1 req(1) wf(1)] Combinator.length_correct [OF c2 req(2) wf(2)] len
  by (simp add: Pair_exec_def Pair_spec_def outcome_simps)

lemma pair_combinator:
  assumes c1: "Combinator c1 e1" and c2: "\<And>v. Combinator (c2 v) (e2 v)"
  shows "Combinator (Pair_spec c1 c2) (Pair_exec e1 e2)"
proof (rule Combinator.intro, rule pair_secure)
  show "SecureSpecCombinator c1" "SecureSpecCombinator (c2 v)" for v
    using c1 c2 Combinator.axioms(1) by blast+
  show "Combinator_axioms (Pair_spec c1 c2) (Pair_exec e1 e2)"
  proof (unfold_locales, goal_cases)
    case (1 s)
    then show ?case by (intro pair_exec_parse [OF c1 c2]) (simp_all add: Pair_spec_def)
  next
    case (2 v pos data)
    then show ?case by (intro pair_exec_serialize [OF c1 c2]) (simp_all add: Pair_spec_def)
  next
    case (3 v)
    then show ?case by (intro pair_exec_length [OF c1 c2]) (simp_all add: Pair_spec_def)
  qed
qed

section \<open>Tuples and their variants\<close>

lemma Tuple_spec_eq: "Tuple_spec c1 c2 = Pair_spec c1 (\<lambda>_. c2)"
  by (simp add: Tuple_spec_def Pair_spec_def)

lemma Tuple_exec_eq: "Tuple_exec e1 e2 = Pair_exec e1 (\<lambda>_. e2)"
  by (simp add: Tuple_exec_def Pair_exec_def)

lemma tuple_combinator: "Combinator c1 e1 \<Longrightarrow> Combinator c2 e2 \<Longrightarrow> Combinator (Tuple_spec c1 c2) (Tuple_exec e1 e2)"
  unfolding Tuple_spec_eq Tuple_exec_eq by (rule pair_combinator)

text \<open>Dropping the unit value is a mapping of the tuple.\<close>

lemma Preceded_eq:
  "Preceded_spec c1 c2 = Mapped_spec (Tuple_spec c1 c2) snd (Pair ())"
  "Preceded_exec e1 e2 = Mapped_exec (Tuple_exec e1 e2) snd (Pair ())"
  by (simp_all add: Preceded_spec_def Preceded_exec_def Mapped_spec_def Mapped_exec_def Tuple_spec_def)

lemma Terminated_eq:
  "Terminated_spec c1 c2 = Mapped_spec (Tuple_spec c1 c2) fst (\<lambda>v. (v, ()))"
  "Terminated_exec e1 e2 = Mapped_exec (Tuple_exec e1 e2) fst (\<lambda>v. (v, ()))"
  by (simp_all add: Terminated_spec_def Terminated_exec_def Mapped_spec_def Mapped_exec_def Tuple_spec_def)

lemma preceded_combinator:
  "Combinator c1 e1 \<Longrightarrow> Combinator c2 e2 \<Longrightarrow> Combinator (Preceded_spec c1 c2) (Preceded_exec e1 e2)"
  unfolding Preceded_eq by (rule Combinator.mapped [OF tuple_combinator]) (simp_all add: prod_eq_iff)

lemma terminated_combinator:
  "Combinator c1 e1 \<Longrightarrow> Combinator c2 e2 \<Longrightarrow> Combinator (Terminated_spec c1 c2) (Terminated_exec e1 e2)"
  unfolding Terminated_eq by (rule Combinator.mapped [OF tuple_combinator]) (simp_all add: prod_eq_iff)

end
