(* ===== verification/Vest_Variant.thy ===== *)
theory Vest_Variant
  imports Vest_Sequence
begin

text \<open>
  Tags (\<open>regular/tag.rs\<close>), alternatives (\<open>regular/variant.rs\<close>) and the conditions under which alternatives
  exclude each other (\<open>regular/disjoint.rs\<close>). The condition that the instance of \<open>DisjointFrom\<close> gives for
  the two components of a choice is an argument of its specification; the instances are the
  definitions \<open>..._disjoint_from\<close>, and the locale \<open>DisjointFrom\<close> is their contract.
\<close>

section \<open>Tags\<close>

definition Tag_spec :: "'v spec_combinator \<Rightarrow> 'v \<Rightarrow> unit spec_combinator" where
  "Tag_spec inner tag =
     (let r = Refined_spec inner (\<lambda>i. i = tag)
      in \<lparr>sc_requires = sc_requires r, sc_wf = (\<lambda>v. sc_wf r tag),
          spec_parse = (\<lambda>s. case spec_parse r s of Some (n, _) \<Rightarrow> Some (n, ()) | None \<Rightarrow> None),
          spec_serialize = (\<lambda>v. spec_serialize r tag),
          is_prefix_secure = is_prefix_secure inner, is_productive = is_productive r\<rparr>)"

definition Tag_exec :: "'v exec_combinator \<Rightarrow> 'v \<Rightarrow> unit exec_combinator" where
  "Tag_exec inner tag =
     (let r = Refined_exec inner (\<lambda>i. i = tag)
      in \<lparr>c_length = (\<lambda>v. c_length r tag),
          c_parse = (\<lambda>s. try_parse (c_parse r s) (\<lambda>n _. Ret (Inr (n, ())))),
          c_serialize = (\<lambda>v data pos. c_serialize r tag data pos)\<rparr>)"

text \<open>The instance for byte arrays, whose predicate compares slices.\<close>

definition FixedTag_exec :: "nat \<Rightarrow> bytes \<Rightarrow> unit exec_combinator" where
  "FixedTag_exec N tag =
     \<lparr>c_length = (\<lambda>v. Ret N),
      c_parse = (\<lambda>s. try_parse (c_parse (Fixed_exec N) s) (\<lambda>n v. bind_outcome (compare_slice tag v) (\<lambda>b.
        if b then Ret (Inr (n, ())) else Ret (Inl RefinedPredicateFailed)))),
      c_serialize = (\<lambda>v data pos. c_serialize (Fixed_exec N) tag data pos)\<rparr>"

section \<open>Alternatives\<close>

datatype ('a, 'b) Either = Left 'a | Right 'b

definition Choice_spec ::
    "bool \<Rightarrow> 'a spec_combinator \<Rightarrow> 'b spec_combinator \<Rightarrow> ('a, 'b) Either spec_combinator" where
  "Choice_spec disjoint c1 c2 =
     \<lparr>sc_requires = (sc_requires c1 \<and> sc_requires c2 \<and> disjoint),
      sc_wf = (\<lambda>v. case v of Left v \<Rightarrow> sc_wf c1 v | Right v \<Rightarrow> sc_wf c2 v),
      spec_parse = (\<lambda>s. case spec_parse c1 s of
          Some (n, v) \<Rightarrow> Some (n, Left v)
        | None \<Rightarrow> (case spec_parse c2 s of Some (n, v) \<Rightarrow> Some (n, Right v) | None \<Rightarrow> None)),
      spec_serialize = (\<lambda>v. case v of Left v \<Rightarrow> spec_serialize c1 v | Right v \<Rightarrow> spec_serialize c2 v),
      is_prefix_secure = (is_prefix_secure c1 \<and> is_prefix_secure c2),
      is_productive = (is_productive c1 \<and> is_productive c2)\<rparr>"

definition Choice_exec :: "'a exec_combinator \<Rightarrow> 'b exec_combinator \<Rightarrow> ('a, 'b) Either exec_combinator" where
  "Choice_exec e1 e2 =
     \<lparr>c_length = (\<lambda>v. case v of Left v \<Rightarrow> c_length e1 v | Right v \<Rightarrow> c_length e2 v),
      c_parse = (\<lambda>s. bind_outcome (c_parse e1 s) (\<lambda>r1. case r1 of
          Inr (n, v) \<Rightarrow> Ret (Inr (n, Left v))
        | Inl _ \<Rightarrow> bind_outcome (c_parse e2 s) (\<lambda>r2. case r2 of
              Inr (n, v) \<Rightarrow> Ret (Inr (n, Right v))
            | Inl _ \<Rightarrow> Ret (Inl OrdChoiceNoMatch)))),
      c_serialize = (\<lambda>v data pos. case v of
          Left v \<Rightarrow> try_serialize (c_serialize e1 v data pos) (\<lambda>n data. Ret (Inr n, data))
        | Right v \<Rightarrow> try_serialize (c_serialize e2 v data pos) (\<lambda>n data. Ret (Inr n, data)))\<rparr>"

definition Opt_spec :: "'a spec_combinator \<Rightarrow> 'a option spec_combinator" where
  "Opt_spec c =
     \<lparr>sc_requires = (sc_requires c \<and> is_productive c),
      sc_wf = (\<lambda>v. case v of Some vv \<Rightarrow> sc_wf c vv | None \<Rightarrow> True),
      spec_parse = (\<lambda>s. case spec_parse c s of Some (n, v) \<Rightarrow> Some (n, Some v) | None \<Rightarrow> Some (0, None)),
      spec_serialize = (\<lambda>v. case v of Some v \<Rightarrow> spec_serialize c v | None \<Rightarrow> []),
      is_prefix_secure = False, is_productive = False\<rparr>"

definition Opt_exec :: "'a exec_combinator \<Rightarrow> 'a option exec_combinator" where
  "Opt_exec e =
     \<lparr>c_length = (\<lambda>v. case v of Some v \<Rightarrow> c_length e v | None \<Rightarrow> Ret 0),
      c_parse = (\<lambda>s. bind_outcome (c_parse e s) (\<lambda>r. case r of
          Inr (n, v) \<Rightarrow> Ret (Inr (n, Some v))
        | Inl _ \<Rightarrow> Ret (Inr (0, None)))),
      c_serialize = (\<lambda>v data pos. case v of
          Some v \<Rightarrow> c_serialize e v data pos
        | None \<Rightarrow> if pos \<le> length data then Ret (Inr 0, data) else Ret (Inl InsufficientBuffer, data))\<rparr>"

definition OptThen_spec ::
    "bool \<Rightarrow> 'a spec_combinator \<Rightarrow> 'b spec_combinator \<Rightarrow> ('a option \<times> 'b) spec_combinator" where
  "OptThen_spec disjoint c1 c2 =
     (let t = Tuple_spec (Opt_spec c1) c2
      in \<lparr>sc_requires = (is_prefix_secure c1 \<and> sc_requires (Opt_spec c1) \<and> sc_requires c2 \<and> disjoint),
          sc_wf = sc_wf t, spec_parse = spec_parse t, spec_serialize = spec_serialize t,
          is_prefix_secure = (is_prefix_secure c1 \<and> is_prefix_secure c2), is_productive = is_productive c2\<rparr>)"

definition OptThen_exec :: "'a exec_combinator \<Rightarrow> 'b exec_combinator \<Rightarrow> ('a option \<times> 'b) exec_combinator" where
  "OptThen_exec e1 e2 =
     \<lparr>c_length = (\<lambda>v.
        bind_outcome (c_length (Opt_exec e1) (fst v)) (\<lambda>a. bind_outcome (c_length e2 (snd v)) (\<lambda>b. usize_add a b))),
      c_parse = (\<lambda>s.
        try_parse (c_parse (Opt_exec e1) s) (\<lambda>n v1.
        bind_outcome (subrange s n (length s)) (\<lambda>s'.
        try_parse (c_parse e2 s') (\<lambda>m v2.
        bind_outcome (usize_add n m) (\<lambda>k. Ret (Inr (k, (v1, v2)))))))),
      c_serialize = (\<lambda>v data pos.
        try_serialize (c_serialize (Opt_exec e1) (fst v) data pos) (\<lambda>n data.
        bind_outcome (usize_add pos n) (\<lambda>pos'.
        try_serialize (c_serialize e2 (snd v) data pos') (\<lambda>m data.
        bind_outcome (usize_add n m) (\<lambda>k. Ret (Inr k, data))))))\<rparr>"

section \<open>Disjointness\<close>

definition refined_disjoint_from ::
    "'v spec_combinator \<Rightarrow> ('v \<Rightarrow> bool) \<Rightarrow> 'v spec_combinator \<Rightarrow> ('v \<Rightarrow> bool) \<Rightarrow> bool" where
  "refined_disjoint_from inner p1 inner' p2 \<longleftrightarrow> inner = inner' \<and> (\<forall>i. p1 i \<longrightarrow> \<not> p2 i)"

definition tag_disjoint_from :: "'v spec_combinator \<Rightarrow> 'v \<Rightarrow> 'v spec_combinator \<Rightarrow> 'v \<Rightarrow> bool" where
  "tag_disjoint_from inner t1 inner' t2 \<longleftrightarrow> refined_disjoint_from inner (\<lambda>i. i = t1) inner' (\<lambda>i. i = t2)"

definition try_map_disjoint_from ::
    "'v spec_combinator \<Rightarrow> ('v \<Rightarrow> 'w option) \<Rightarrow> 'v spec_combinator \<Rightarrow> ('v \<Rightarrow> 'x option) \<Rightarrow> bool" where
  "try_map_disjoint_from inner app1 inner' app2 \<longleftrightarrow> inner = inner' \<and> (\<forall>t. app1 t \<noteq> None \<longrightarrow> app2 t = None)"

definition cond_disjoint_from :: "bool \<Rightarrow> bool \<Rightarrow> bool" where
  "cond_disjoint_from cond1 cond2 \<longleftrightarrow> (cond1 \<longrightarrow> \<not> cond2)"

definition choice_disjoint_from :: "bool \<Rightarrow> bool \<Rightarrow> bool" where
  "choice_disjoint_from d1 d2 \<longleftrightarrow> d1 \<and> d2"

definition opt_then_disjoint_from :: "bool \<Rightarrow> bool \<Rightarrow> bool" where
  "opt_then_disjoint_from d1 d2 \<longleftrightarrow> d1 \<and> d2"

definition end_disjoint_from :: "'v spec_combinator \<Rightarrow> bool" where
  "end_disjoint_from c \<longleftrightarrow> sc_requires c \<and> is_productive c"

interpretation refined_disjoint:
  DisjointFrom "refined_disjoint_from inner p1 inner' p2" "Refined_spec inner p1" "Refined_spec inner' p2"
  for inner p1 inner' p2
  by unfold_locales (auto simp: refined_disjoint_from_def Refined_spec_def split: option.splits if_splits)

interpretation tag_disjoint:
  DisjointFrom "tag_disjoint_from inner t1 inner' t2" "Tag_spec inner t1" "Tag_spec inner' t2"
  for inner t1 inner' t2
  by unfold_locales
    (auto simp: tag_disjoint_from_def Tag_spec_def Let_def dest: refined_disjoint.parse_disjoint_on split: option.splits)

interpretation try_map_disjoint:
  DisjointFrom "try_map_disjoint_from inner app1 inner' app2" "TryMap_spec inner app1 rev1" "TryMap_spec inner' app2 rev2"
  for inner app1 inner' app2 rev1 rev2
  by unfold_locales (auto simp: try_map_disjoint_from_def TryMap_spec_def split: option.splits)

interpretation cond_disjoint:
  DisjointFrom "cond_disjoint_from b1 b2" "Cond_spec b1 c1" "Cond_spec b2 c2"
  for b1 b2 c1 c2
  by unfold_locales (auto simp: cond_disjoint_from_def Cond_spec_def split: if_splits)

interpretation fail_disjoint: DisjointFrom True "Fail_spec msg" c for msg c
  by unfold_locales (simp add: Fail_spec_def)

text \<open>The other instances pass disjointness on.\<close>

context DisjointFrom
begin

lemma pair: "DisjointFrom d (Pair_spec c f) (Pair_spec other g)"
  by unfold_locales (auto simp: Pair_spec_def dest: parse_disjoint_on split: option.splits)

lemma tuple: "DisjointFrom d (Tuple_spec c c2) (Tuple_spec other c3)"
  unfolding Tuple_spec_eq by (rule pair)

lemma mapped: "DisjointFrom d (Mapped_spec c app1 rev1) (Mapped_spec other app2 rev2)"
  by unfold_locales (auto simp: Mapped_spec_def dest: parse_disjoint_on split: option.splits)

lemma choice:
  "DisjointFrom d' c' other \<Longrightarrow> DisjointFrom (choice_disjoint_from d d') (Choice_spec b c c') other"
  using parse_disjoint_on
  by (auto simp: DisjointFrom_def choice_disjoint_from_def Choice_spec_def split: option.splits)

lemma opt_then:
  assumes "DisjointFrom d' c' other"
  shows "DisjointFrom (opt_then_disjoint_from d d') (OptThen_spec b c c') other"
proof
  fix s r
  assume d: "opt_then_disjoint_from d d'" and r: "spec_parse (OptThen_spec b c c') s = Some r"
  show "spec_parse other s = None"
  proof (cases "spec_parse c s")
    case None
    with r obtain r' where "spec_parse c' s = Some r'"
      by (auto simp: OptThen_spec_def Tuple_spec_eq Pair_spec_def Opt_spec_def Let_def split: option.splits)
    moreover from d have d' by (simp add: opt_then_disjoint_from_def)
    ultimately show ?thesis by (rule DisjointFrom.parse_disjoint_on [OF assms, rotated])
  next
    case (Some r')
    moreover from d have d by (simp add: opt_then_disjoint_from_def)
    ultimately show ?thesis by (rule parse_disjoint_on [rotated])
  qed
qed

end

lemma preceded_disjoint: "DisjointFrom d u1 u2 \<Longrightarrow> DisjointFrom d (Preceded_spec u1 v1) (Preceded_spec u2 v2)"
  unfolding Preceded_eq by (intro DisjointFrom.mapped DisjointFrom.tuple)

section \<open>Tags and alternatives keep the contract\<close>

context SecureSpecCombinator
begin

lemma tag_secure: "SecureSpecCombinator (Tag_spec c tag)"
  by unfold_locales
    (auto simp: Tag_spec_def Refined_spec_def Let_def serialize_parse_roundtrip prefix_secure split: option.splits if_splits
       dest: parse_serialize_roundtrip parse_length parse_productive)

lemma parse_empty: "sc_requires c \<Longrightarrow> is_productive c \<Longrightarrow> spec_parse c [] = None"
  using parse_length [of "[]"] parse_productive [of "[]"] by (cases "spec_parse c []") fastforce+

lemma end_disjoint: "DisjointFrom (end_disjoint_from c) End_spec c"
  by unfold_locales (simp add: end_disjoint_from_def End_spec_def parse_empty split: if_splits)

lemma opt_secure: "SecureSpecCombinator (Opt_spec c)"
  by unfold_locales
    (auto simp: Opt_spec_def serialize_parse_roundtrip parse_empty split: option.splits
       dest: parse_serialize_roundtrip parse_length)

end

lemma choice_secure:
  assumes c1: "SecureSpecCombinator c1" and c2: "SecureSpecCombinator c2" and d: "DisjointFrom d c2 c1"
  shows "SecureSpecCombinator (Choice_spec d c1 c2)"
proof (unfold_locales, goal_cases)
  case (1 v)
  then show ?case
    by (auto simp: Choice_spec_def SecureSpecCombinator.serialize_parse_roundtrip [OF c1]
        SecureSpecCombinator.serialize_parse_roundtrip [OF c2]
        DisjointFrom.parse_disjoint_on [OF d _ SecureSpecCombinator.serialize_parse_roundtrip [OF c2]]
        split: Either.splits)
next
  case (3 s n v s')
  then show ?case
    by (auto simp: Choice_spec_def SecureSpecCombinator.prefix_secure [OF c1] SecureSpecCombinator.prefix_secure [OF c2]
        DisjointFrom.parse_disjoint_on [OF d _ SecureSpecCombinator.prefix_secure [OF c2]] split: option.splits)
qed (auto simp: Choice_spec_def split: option.splits
    dest: SecureSpecCombinator.parse_serialize_roundtrip [OF c1] SecureSpecCombinator.parse_serialize_roundtrip [OF c2]
      SecureSpecCombinator.parse_length [OF c1] SecureSpecCombinator.parse_length [OF c2]
      SecureSpecCombinator.parse_productive [OF c1] SecureSpecCombinator.parse_productive [OF c2])


text \<open>An optional combinator before one that excludes it: the laws of pairs carry over except for the
  two that rest on prefix security, where disjointness takes its place.\<close>

lemma opt_then_secure:
  assumes c1: "SecureSpecCombinator c1" and c2: "SecureSpecCombinator c2" and d: "DisjointFrom d c2 c1"
  shows "SecureSpecCombinator (OptThen_spec d c1 c2)"
proof -
  let ?p = "Pair_spec (Opt_spec c1) (\<lambda>_. c2)"
  have sel: "sc_wf (OptThen_spec d c1 c2) = sc_wf ?p" "spec_parse (OptThen_spec d c1 c2) = spec_parse ?p"
    "spec_serialize (OptThen_spec d c1 c2) = spec_serialize ?p"
    "is_productive (OptThen_spec d c1 c2) = is_productive ?p"
    by (simp_all add: OptThen_spec_def Tuple_spec_eq Let_def) (simp add: Pair_spec_def Opt_spec_def)
  have req: "sc_requires (Opt_spec c1)" "sc_requires c2" d "is_prefix_secure c1" "sc_requires c1"
    if "sc_requires (OptThen_spec d c1 c2)"
    using that by (simp_all add: OptThen_spec_def Let_def) (simp add: Opt_spec_def)
  note laws = pair_parse_laws [OF SecureSpecCombinator.opt_secure [OF c1] c2 req(1,2), rotated -1]
  show ?thesis
  proof (unfold_locales, unfold sel, goal_cases)
    case (1 v)
    note r = req [OF 1(1)]
    from 1(2) have wf: "sc_wf (Opt_spec c1) (fst v)" "sc_wf c2 (snd v)" by (simp_all add: Pair_spec_def)
    note p2 = SecureSpecCombinator.serialize_parse_roundtrip [OF c2 r(2) wf(2)]
    have "spec_parse (Opt_spec c1) (spec_serialize (Opt_spec c1) (fst v) @ spec_serialize c2 (snd v)) =
        Some (length (spec_serialize (Opt_spec c1) (fst v)), fst v)"
    proof (cases "fst v")
      case None
      with DisjointFrom.parse_disjoint_on [OF d r(3) p2] show ?thesis by (simp add: Opt_spec_def)
    next
      case (Some w)
      with wf SecureSpecCombinator.serialize_parse_append [OF c1 r(5,4)] show ?thesis by (simp add: Opt_spec_def)
    qed
    with p2 show ?case by (simp add: Pair_spec_parse_iff) (simp add: Pair_spec_def)
  next
    case (2 s n v)
    then show ?case using laws(1,2) by blast
  next
    case (3 s k v s')
    note r = req [OF 3(1)]
    from 3(3) obtain n m where p: "spec_parse (Opt_spec c1) s = Some (n, fst v)" "spec_parse c2 (drop n s) = Some (m, snd v)"
      "k = n + m" by (auto simp: Pair_spec_parse_iff)
    have n: "n \<le> length s"
      by (rule SecureSpecCombinator.parse_length [OF SecureSpecCombinator.opt_secure [OF c1] r(1) p(1)])
    have ps: "is_prefix_secure c2" using 3(2) by (simp add: OptThen_spec_def Let_def)
    note p2 = SecureSpecCombinator.prefix_secure [OF c2 r(2) ps p(2), of s']
    have "spec_parse (Opt_spec c1) (s @ s') = Some (n, fst v)"
    proof (cases "spec_parse c1 s")
      case None
      with p(1) have "n = 0" "fst v = None" by (simp_all add: Opt_spec_def)
      with p2 DisjointFrom.parse_disjoint_on [OF d r(3)] show ?thesis by (simp add: Opt_spec_def)
    next
      case (Some w)
      with p(1) SecureSpecCombinator.prefix_secure [OF c1 r(5,4)] show ?thesis
        by (cases w) (simp add: Opt_spec_def)
    qed
    with p p2 n show ?case by (simp add: Pair_spec_parse_iff)
  next
    case (4 s n v)
    then show ?case using laws(3) by blast
  next
    case (5 s n v)
    then show ?case using laws(4) by blast
  qed
qed

context Combinator
begin

lemma tag: "Combinator (Tag_spec c t) (Tag_exec e t)"
proof (rule Combinator.intro [OF tag_secure], unfold_locales, goal_cases)
  case (1 s)
  then have "sc_requires c" "length s \<le> usize_max" by (simp_all add: Tag_spec_def Refined_spec_def Let_def)
  then show ?case
    by (cases rule: parse_cases) (simp_all add: Tag_spec_def Tag_exec_def Refined_spec_def Refined_exec_def Let_def)
next
  case (2 v pos data)
  then have "sc_requires c" "sc_wf c t" "pos \<le> length data" "length data \<le> usize_max"
    by (simp_all add: Tag_spec_def Refined_spec_def Let_def)
  then show ?case
    by (cases rule: serialize_cases) (simp_all add: Tag_spec_def Tag_exec_def Refined_spec_def Refined_exec_def Let_def)
next
  case (3 v)
  then show ?case
    using length_correct [of t] by (simp add: Tag_spec_def Tag_exec_def Refined_spec_def Refined_exec_def Let_def)
qed

lemma opt: "Combinator (Opt_spec c) (Opt_exec e)"
proof (rule Combinator.intro [OF opt_secure], unfold_locales, goal_cases)
  case (1 s)
  then have "sc_requires c" "length s \<le> usize_max" by (simp_all add: Opt_spec_def)
  then show ?case by (cases rule: parse_cases) (simp_all add: Opt_spec_def Opt_exec_def)
next
  case (2 v pos data)
  show ?case
  proof (cases v)
    case None
    with 2 show ?thesis by (simp add: Opt_spec_def Opt_exec_def)
  next
    case (Some w)
    with 2 have "sc_requires c" "sc_wf c w" "pos \<le> length data" "length data \<le> usize_max"
      by (simp_all add: Opt_spec_def)
    then show ?thesis by (cases rule: serialize_cases) (simp_all add: Opt_spec_def Opt_exec_def Some)
  qed
next
  case (3 v)
  then show ?case using length_correct by (cases v) (simp_all add: Opt_spec_def Opt_exec_def)
qed

end

lemma FixedTag_exec_eq: "FixedTag_exec N tag = Tag_exec (Fixed_exec N) tag"
  by (auto simp: FixedTag_exec_def Tag_exec_def Refined_exec_def Fixed_exec_def Let_def compare_slice_eq try_parse_def subrange_def)

interpretation fixed_tag: Combinator "Tag_spec (Fixed_spec N) tag" "FixedTag_exec N tag" for N tag
  unfolding FixedTag_exec_eq by (rule Combinator.tag [OF fixed.Combinator_axioms])

lemma choice_combinator:
  assumes c1: "Combinator c1 e1" and c2: "Combinator c2 e2" and d: "DisjointFrom d c2 c1"
  shows "Combinator (Choice_spec d c1 c2) (Choice_exec e1 e2)"
proof (rule Combinator.intro [OF choice_secure [OF Combinator.axioms(1) [OF c1] Combinator.axioms(1) [OF c2] d]],
    unfold_locales, goal_cases)
  case (1 s)
  then have req: "sc_requires c1" "sc_requires c2" "length s \<le> usize_max" by (simp_all add: Choice_spec_def)
  from c1 req(1,3) show ?case
  proof (cases rule: comb_parse_cases)
    case (err x)
    from c2 req(2,3) show ?thesis
      by (cases rule: comb_parse_cases) (use err in \<open>simp_all add: Choice_spec_def Choice_exec_def\<close>)
  qed (simp add: Choice_spec_def Choice_exec_def)
next
  case (2 v pos data)
  then have req: "sc_requires c1" "sc_requires c2" "pos \<le> length data" "length data \<le> usize_max"
    by (simp_all add: Choice_spec_def)
  show ?case
  proof (cases v)
    case (Left w)
    with 2 have "sc_wf c1 w" by (simp add: Choice_spec_def)
    with c1 req(1) show ?thesis using req(3,4)
      by (cases rule: comb_serialize_cases) (simp_all add: Choice_spec_def Choice_exec_def Left)
  next
    case (Right w)
    with 2 have "sc_wf c2 w" by (simp add: Choice_spec_def)
    with c2 req(2) show ?thesis using req(3,4)
      by (cases rule: comb_serialize_cases) (simp_all add: Choice_spec_def Choice_exec_def Right)
  qed
next
  case (3 v)
  then show ?case
    using Combinator.length_correct [OF c1] Combinator.length_correct [OF c2]
    by (cases v) (simp_all add: Choice_spec_def Choice_exec_def)
qed

lemma opt_then_combinator:
  assumes c1: "Combinator c1 e1" and c2: "Combinator c2 e2" and d: "DisjointFrom d c2 c1"
  shows "Combinator (OptThen_spec d c1 c2) (OptThen_exec e1 e2)"
proof (rule Combinator.intro [OF opt_then_secure [OF Combinator.axioms(1) [OF c1] Combinator.axioms(1) [OF c2] d]],
    unfold_locales, goal_cases)
  have exec: "OptThen_exec e1 e2 = Pair_exec (Opt_exec e1) (\<lambda>_. e2)" by (simp add: OptThen_exec_def Pair_exec_def)
  note opt = Combinator.opt [OF c1]
  note defs = OptThen_spec_def Tuple_spec_eq Let_def
  have ser: "spec_serialize (OptThen_spec d c1 c2) = spec_serialize (Pair_spec (Opt_spec c1) (\<lambda>_. c2))"
    by (simp add: defs)
  {
    case (1 s)
    then show ?case using pair_exec_parse [OF opt c2, of s] by (simp add: exec defs)
  next
    case (2 v pos data)
    then have "sc_wf (Opt_spec c1) (fst v)" "sc_wf c2 (snd v)" by (simp_all add: defs Pair_spec_def)
    with 2 show ?case
      unfolding exec ser by (intro pair_exec_serialize [OF opt c2]) (simp_all add: OptThen_spec_def Let_def)
  next
    case (3 v)
    then have "sc_wf (Opt_spec c1) (fst v)" "sc_wf c2 (snd v)" by (simp_all add: defs Pair_spec_def)
    with 3 show ?case using pair_exec_length [OF opt c2, of v] by (simp add: exec defs)
  }
qed

end
