(* ===== verification/Vest_Uints.thy ===== *)
theory Vest_Uints
  imports Vest_Basic
begin

text \<open>
  Integers of a fixed size (\<open>regular/uints.rs\<close>). The trait \<open>FromToBytes\<close> is the record \<open>from_to_bytes\<close> with
  the locale \<open>FromToBytes\<close>; the macros that generate the combinators are functions of such a record. The
  conversions of the standard library that the code calls are \<open>std_from_le_bytes\<close> and \<open>std_to_le_bytes\<close> and
  their reversals.
\<close>

unbundle bit_operations_syntax

type_synonym u16 = "16 word"
type_synonym u32 = "32 word"

section \<open>Conversions of the standard library\<close>

definition std_from_le_bytes :: "bytes \<Rightarrow> 'w::len word" where
  "std_from_le_bytes bs = foldr (\<lambda>b acc. ucast b OR push_bit 8 acc) bs 0"

definition std_to_le_bytes :: "nat \<Rightarrow> 'w::len word \<Rightarrow> bytes" where
  "std_to_le_bytes n w = map (\<lambda>i. ucast (drop_bit (8 * i) w)) [0..<n]"

definition std_from_be_bytes :: "bytes \<Rightarrow> 'w::len word" where
  "std_from_be_bytes bs = std_from_le_bytes (rev bs)"

definition std_to_be_bytes :: "nat \<Rightarrow> 'w::len word \<Rightarrow> bytes" where
  "std_to_be_bytes n w = rev (std_to_le_bytes n w)"

lemma bit_std_from_le_bytes:
  "k < LENGTH('w) \<Longrightarrow> bit (std_from_le_bytes bs :: 'w::len word) k \<longleftrightarrow> k div 8 < length bs \<and> bit (bs ! (k div 8)) (k mod 8)"
proof (induction bs arbitrary: k)
  case (Cons b bs)
  show ?case
  proof (cases "k < 8")
    case True
    with Cons.prems show ?thesis
      by (simp add: std_from_le_bytes_def bit_or_iff bit_push_bit_iff bit_unsigned_iff)
  next
    case False
    then have k: "k div 8 = Suc ((k - 8) div 8)" "k mod 8 = (k - 8) mod 8"
      by (simp_all add: le_div_geq le_mod_geq)
    have "\<not> bit b k" using False bit_imp_le_length [of b k] by auto
    with False Cons.prems Cons.IH [of "k - 8"] k show ?thesis
      by (simp add: std_from_le_bytes_def bit_or_iff bit_push_bit_iff bit_unsigned_iff)
  qed
qed (simp add: std_from_le_bytes_def)

lemma length_std_to_le_bytes [simp]: "length (std_to_le_bytes n w) = n"
  by (simp add: std_to_le_bytes_def)

lemma std_to_from_le:
  assumes "LENGTH('w::len) = 8 * n"
  shows "std_from_le_bytes (std_to_le_bytes n (w :: 'w word)) = w"
proof (rule bit_word_eqI)
  fix k
  assume k: "k < LENGTH('w)"
  then have "k div 8 < n" using assms by (simp add: div_less_iff_less_mult mult.commute)
  then have "bit (std_to_le_bytes n w ! (k div 8)) (k mod 8) \<longleftrightarrow> bit w (8 * (k div 8) + k mod 8)"
    by (simp add: std_to_le_bytes_def bit_unsigned_iff bit_drop_bit_eq)
  with k \<open>k div 8 < n\<close> show "bit (std_from_le_bytes (std_to_le_bytes n w) :: 'w word) k \<longleftrightarrow> bit w k"
    by (simp add: bit_std_from_le_bytes)
qed

lemma std_from_to_le:
  assumes "LENGTH('w::len) = 8 * n" and "length bs = n"
  shows "std_to_le_bytes n (std_from_le_bytes bs :: 'w word) = bs"
proof (rule nth_equalityI)
  fix i
  assume "i < length (std_to_le_bytes n (std_from_le_bytes bs :: 'w word))"
  then have i: "i < n" by simp
  show "std_to_le_bytes n (std_from_le_bytes bs :: 'w word) ! i = bs ! i"
  proof (rule bit_word_eqI)
    fix k
    assume "k < LENGTH(8)"
    then have k: "k < 8" by simp
    with i assms(1) have "8 * i + k < LENGTH('w)" by simp
    with k i assms(2) show "bit (std_to_le_bytes n (std_from_le_bytes bs :: 'w word) ! i) k \<longleftrightarrow> bit (bs ! i) k"
      by (simp add: std_to_le_bytes_def bit_unsigned_iff bit_drop_bit_eq bit_std_from_le_bytes)
  qed
qed (use assms in simp)

section \<open>The trait\<close>

record 'w from_to_bytes =
  ftb_size :: nat
  spec_from_le_bytes :: "bytes \<Rightarrow> 'w"
  spec_to_le_bytes :: "'w \<Rightarrow> bytes"
  spec_from_be_bytes :: "bytes \<Rightarrow> 'w"
  spec_to_be_bytes :: "'w \<Rightarrow> bytes"
  ex_from_le_bytes :: "bytes \<Rightarrow> 'w outcome"
  ex_to_le_bytes :: "'w \<Rightarrow> bytes \<Rightarrow> nat \<Rightarrow> bytes outcome"
  ex_from_be_bytes :: "bytes \<Rightarrow> 'w outcome"
  ex_to_be_bytes :: "'w \<Rightarrow> bytes \<Rightarrow> nat \<Rightarrow> bytes outcome"

locale FromToBytes =
  fixes t :: "'w from_to_bytes"
  assumes size_pos: "0 < ftb_size t"
    and to_from_le: "length (spec_to_le_bytes t w) = ftb_size t \<and> spec_from_le_bytes t (spec_to_le_bytes t w) = w"
    and from_to_le: "length s = ftb_size t \<Longrightarrow> spec_to_le_bytes t (spec_from_le_bytes t s) = s"
    and from_le_no_lookahead:
      "ftb_size t \<le> length s \<Longrightarrow> spec_from_le_bytes t (s @ s') = spec_from_le_bytes t s"
    and to_from_be: "length (spec_to_be_bytes t w) = ftb_size t \<and> spec_from_be_bytes t (spec_to_be_bytes t w) = w"
    and from_to_be: "length s = ftb_size t \<Longrightarrow> spec_to_be_bytes t (spec_from_be_bytes t s) = s"
    and from_be_no_lookahead:
      "ftb_size t \<le> length s \<Longrightarrow> spec_from_be_bytes t (s @ s') = spec_from_be_bytes t s"
    and ex_from_le: "length s = ftb_size t \<Longrightarrow> ex_from_le_bytes t s = Ret (spec_from_le_bytes t s)"
    and ex_to_le: "pos + ftb_size t \<le> length data \<Longrightarrow>
      ex_to_le_bytes t w data pos = Ret (seq_splice data pos (spec_to_le_bytes t w))"
    and ex_from_be: "length s = ftb_size t \<Longrightarrow> ex_from_be_bytes t s = Ret (spec_from_be_bytes t s)"
    and ex_to_be: "pos + ftb_size t \<le> length data \<Longrightarrow>
      ex_to_be_bytes t w data pos = Ret (seq_splice data pos (spec_to_be_bytes t w))"

section \<open>The combinators that the macros generate\<close>

definition le_uint_spec :: "'w from_to_bytes \<Rightarrow> 'w spec_combinator" where
  "le_uint_spec t =
     \<lparr>sc_requires = True, sc_wf = (\<lambda>v. True),
      spec_parse = (\<lambda>s. if length s \<ge> ftb_size t then Some (ftb_size t, spec_from_le_bytes t s) else None),
      spec_serialize = spec_to_le_bytes t, is_prefix_secure = True, is_productive = True\<rparr>"

definition le_uint_exec :: "'w from_to_bytes \<Rightarrow> 'w exec_combinator" where
  "le_uint_exec t =
     \<lparr>c_length = (\<lambda>v. Ret (ftb_size t)),
      c_parse = (\<lambda>s.
        if length s \<ge> ftb_size t then
          bind_outcome (subrange s 0 (ftb_size t)) (\<lambda>s'.
          bind_outcome (ex_from_le_bytes t s') (\<lambda>v. Ret (Inr (ftb_size t, v))))
        else Ret (Inl UnexpectedEndOfInput)),
      c_serialize = (\<lambda>v data pos.
        bind_outcome (usize_sub (length data) pos) (\<lambda>space.
        if ftb_size t \<le> space then
          bind_outcome (ex_to_le_bytes t v data pos) (\<lambda>data. Ret (Inr (ftb_size t), data))
        else Ret (Inl InsufficientBuffer, data)))\<rparr>"

definition be_uint_spec :: "'w from_to_bytes \<Rightarrow> 'w spec_combinator" where
  "be_uint_spec t =
     \<lparr>sc_requires = True, sc_wf = (\<lambda>v. True),
      spec_parse = (\<lambda>s. if length s \<ge> ftb_size t then Some (ftb_size t, spec_from_be_bytes t s) else None),
      spec_serialize = spec_to_be_bytes t, is_prefix_secure = True, is_productive = True\<rparr>"

definition be_uint_exec :: "'w from_to_bytes \<Rightarrow> 'w exec_combinator" where
  "be_uint_exec t =
     \<lparr>c_length = (\<lambda>v. Ret (ftb_size t)),
      c_parse = (\<lambda>s.
        if length s \<ge> ftb_size t then
          bind_outcome (subrange s 0 (ftb_size t)) (\<lambda>s'.
          bind_outcome (ex_from_be_bytes t s') (\<lambda>v. Ret (Inr (ftb_size t, v))))
        else Ret (Inl UnexpectedEndOfInput)),
      c_serialize = (\<lambda>v data pos.
        bind_outcome (usize_sub (length data) pos) (\<lambda>space.
        if ftb_size t \<le> space then
          bind_outcome (ex_to_be_bytes t v data pos) (\<lambda>data. Ret (Inr (ftb_size t), data))
        else Ret (Inl InsufficientBuffer, data)))\<rparr>"

context FromToBytes
begin

lemma from_le_take: "ftb_size t \<le> length s \<Longrightarrow> spec_from_le_bytes t (take (ftb_size t) s) = spec_from_le_bytes t s"
  using from_le_no_lookahead [of "take (ftb_size t) s" "drop (ftb_size t) s"] by simp

lemma from_be_take: "ftb_size t \<le> length s \<Longrightarrow> spec_from_be_bytes t (take (ftb_size t) s) = spec_from_be_bytes t s"
  using from_be_no_lookahead [of "take (ftb_size t) s" "drop (ftb_size t) s"] by simp

lemma to_from_take:
  assumes "ftb_size t \<le> length s"
  shows "spec_to_le_bytes t (spec_from_le_bytes t s) = take (ftb_size t) s"
    and "spec_to_be_bytes t (spec_from_be_bytes t s) = take (ftb_size t) s"
  using assms from_to_le [of "take (ftb_size t) s"] from_to_be [of "take (ftb_size t) s"]
  by (simp_all add: from_le_take from_be_take)

lemma le_uint: "Combinator (le_uint_spec t) (le_uint_exec t)"
  by unfold_locales
    (auto simp: le_uint_spec_def le_uint_exec_def to_from_le to_from_take from_le_no_lookahead size_pos from_le_take
      ex_from_le ex_to_le outcome_simps add.commute split: if_splits)

lemma be_uint: "Combinator (be_uint_spec t) (be_uint_exec t)"
  by unfold_locales
    (auto simp: be_uint_spec_def be_uint_exec_def to_from_be to_from_take from_be_no_lookahead size_pos from_be_take
      ex_from_be ex_to_be outcome_simps add.commute split: if_splits)

end

section \<open>The integer types\<close>

definition u8_bytes :: "u8 from_to_bytes" where
  "u8_bytes =
     \<lparr>ftb_size = 1, spec_from_le_bytes = (\<lambda>s. s ! 0), spec_to_le_bytes = (\<lambda>x. [x]),
      spec_from_be_bytes = (\<lambda>s. s ! 0), spec_to_be_bytes = (\<lambda>x. [x]),
      ex_from_le_bytes = (\<lambda>s. vec_index s 0), ex_to_le_bytes = (\<lambda>x s pos. vec_set s pos x),
      ex_from_be_bytes = (\<lambda>s. vec_index s 0), ex_to_be_bytes = (\<lambda>x s pos. vec_set s pos x)\<rparr>"

text \<open>\<open>s.try_into().unwrap()\<close>, which panics unless the slice has the size of the array.\<close>

definition into_array :: "nat \<Rightarrow> bytes \<Rightarrow> bytes outcome" where
  "into_array n s = (if length s = n then Ret s else Panic)"

definition u16_bytes :: "u16 from_to_bytes" where
  "u16_bytes =
     \<lparr>ftb_size = 2,
      spec_from_le_bytes = (\<lambda>s. ucast (s ! 0) OR push_bit 8 (ucast (s ! 1))),
      spec_to_le_bytes = (\<lambda>x. [ucast (x AND 0xff), ucast (drop_bit 8 x AND 0xff)]),
      spec_from_be_bytes = (\<lambda>s. push_bit 8 (ucast (s ! 0)) OR ucast (s ! 1)),
      spec_to_be_bytes = (\<lambda>x. [ucast (drop_bit 8 x AND 0xff), ucast (x AND 0xff)]),
      ex_from_le_bytes = (\<lambda>s. bind_outcome (into_array 2 s) (\<lambda>a. Ret (std_from_le_bytes a))),
      ex_to_le_bytes = (\<lambda>x s pos. set_range s pos (std_to_le_bytes 2 x)),
      ex_from_be_bytes = (\<lambda>s. bind_outcome (into_array 2 s) (\<lambda>a. Ret (std_from_be_bytes a))),
      ex_to_be_bytes = (\<lambda>x s pos. set_range s pos (std_to_be_bytes 2 x))\<rparr>"

definition u32_bytes :: "u32 from_to_bytes" where
  "u32_bytes =
     \<lparr>ftb_size = 4,
      spec_from_le_bytes = (\<lambda>s. ucast (s ! 0) OR push_bit 8 (ucast (s ! 1)) OR push_bit 16 (ucast (s ! 2)) OR
        push_bit 24 (ucast (s ! 3))),
      spec_to_le_bytes = (\<lambda>x. [ucast (x AND 0xff), ucast (drop_bit 8 x AND 0xff), ucast (drop_bit 16 x AND 0xff),
        ucast (drop_bit 24 x AND 0xff)]),
      spec_from_be_bytes = (\<lambda>s. push_bit 24 (ucast (s ! 0)) OR push_bit 16 (ucast (s ! 1)) OR push_bit 8 (ucast (s ! 2)) OR
        ucast (s ! 3)),
      spec_to_be_bytes = (\<lambda>x. [ucast (drop_bit 24 x AND 0xff), ucast (drop_bit 16 x AND 0xff),
        ucast (drop_bit 8 x AND 0xff), ucast (x AND 0xff)]),
      ex_from_le_bytes = (\<lambda>s. bind_outcome (into_array 4 s) (\<lambda>a. Ret (std_from_le_bytes a))),
      ex_to_le_bytes = (\<lambda>x s pos. set_range s pos (std_to_le_bytes 4 x)),
      ex_from_be_bytes = (\<lambda>s. bind_outcome (into_array 4 s) (\<lambda>a. Ret (std_from_be_bytes a))),
      ex_to_be_bytes = (\<lambda>x s pos. set_range s pos (std_to_be_bytes 4 x))\<rparr>"

definition u64_bytes :: "u64 from_to_bytes" where
  "u64_bytes =
     \<lparr>ftb_size = 8,
      spec_from_le_bytes = (\<lambda>s. ucast (s ! 0) OR push_bit 8 (ucast (s ! 1)) OR push_bit 16 (ucast (s ! 2)) OR
        push_bit 24 (ucast (s ! 3)) OR push_bit 32 (ucast (s ! 4)) OR push_bit 40 (ucast (s ! 5)) OR
        push_bit 48 (ucast (s ! 6)) OR push_bit 56 (ucast (s ! 7))),
      spec_to_le_bytes = (\<lambda>x. [ucast (x AND 0xff), ucast (drop_bit 8 x AND 0xff), ucast (drop_bit 16 x AND 0xff),
        ucast (drop_bit 24 x AND 0xff), ucast (drop_bit 32 x AND 0xff), ucast (drop_bit 40 x AND 0xff),
        ucast (drop_bit 48 x AND 0xff), ucast (drop_bit 56 x AND 0xff)]),
      spec_from_be_bytes = (\<lambda>s. push_bit 56 (ucast (s ! 0)) OR push_bit 48 (ucast (s ! 1)) OR push_bit 40 (ucast (s ! 2)) OR
        push_bit 32 (ucast (s ! 3)) OR push_bit 24 (ucast (s ! 4)) OR push_bit 16 (ucast (s ! 5)) OR
        push_bit 8 (ucast (s ! 6)) OR ucast (s ! 7)),
      spec_to_be_bytes = (\<lambda>x. [ucast (drop_bit 56 x AND 0xff), ucast (drop_bit 48 x AND 0xff),
        ucast (drop_bit 40 x AND 0xff), ucast (drop_bit 32 x AND 0xff), ucast (drop_bit 24 x AND 0xff),
        ucast (drop_bit 16 x AND 0xff), ucast (drop_bit 8 x AND 0xff), ucast (x AND 0xff)]),
      ex_from_le_bytes = (\<lambda>s. bind_outcome (into_array 8 s) (\<lambda>a. Ret (std_from_le_bytes a))),
      ex_to_le_bytes = (\<lambda>x s pos. set_range s pos (std_to_le_bytes 8 x)),
      ex_from_be_bytes = (\<lambda>s. bind_outcome (into_array 8 s) (\<lambda>a. Ret (std_from_be_bytes a))),
      ex_to_be_bytes = (\<lambda>x s pos. set_range s pos (std_to_be_bytes 8 x))\<rparr>"

section \<open>The integer types implement the trait\<close>

lemma ucast_and_ff: "ucast (x AND 0xff) = (ucast x :: u8)" for x :: "'w::len word"
proof -
  have "(0xff :: 'w word) = mask 8" by (simp add: mask_eq_exp_minus_1)
  then have "x AND 0xff = take_bit 8 x" by (simp add: take_bit_eq_mask)
  then show ?thesis by (intro bit_word_eqI) (simp add: bit_unsigned_iff bit_take_bit_iff)
qed

lemma take_nths:
  "n \<le> length s \<Longrightarrow> take n s = map ((!) s) [0..<n]"
  by (simp add: list_eq_iff_nth_eq)

lemma take_explicit:
  "2 \<le> length s \<Longrightarrow> take 2 s = [s ! 0, s ! 1]"
  "4 \<le> length s \<Longrightarrow> take 4 s = [s ! 0, s ! 1, s ! 2, s ! 3]"
  "8 \<le> length s \<Longrightarrow> take 8 s = [s ! 0, s ! 1, s ! 2, s ! 3, s ! 4, s ! 5, s ! 6, s ! 7]"
  by (simp_all add: take_nths upt_conv_Cons numeral_eq_Suc)

text \<open>The four types differ only in size: their specifications spell out the conversions of the
  standard library.\<close>

lemma from_to_bytes_intro:
  fixes t :: "'w::len word from_to_bytes"
  assumes size: "LENGTH('w) = 8 * ftb_size t" "0 < ftb_size t"
    and from_le: "\<And>s. ftb_size t \<le> length s \<Longrightarrow> spec_from_le_bytes t s = std_from_le_bytes (take (ftb_size t) s)"
    and to_le: "\<And>w. spec_to_le_bytes t w = std_to_le_bytes (ftb_size t) w"
    and from_be: "\<And>s. ftb_size t \<le> length s \<Longrightarrow> spec_from_be_bytes t s = std_from_be_bytes (take (ftb_size t) s)"
    and to_be: "\<And>w. spec_to_be_bytes t w = std_to_be_bytes (ftb_size t) w"
    and ex: "\<And>s. length s = ftb_size t \<Longrightarrow> ex_from_le_bytes t s = Ret (std_from_le_bytes s)"
      "\<And>s. length s = ftb_size t \<Longrightarrow> ex_from_be_bytes t s = Ret (std_from_be_bytes s)"
      "\<And>w data pos. pos + ftb_size t \<le> length data \<Longrightarrow>
         ex_to_le_bytes t w data pos = set_range data pos (std_to_le_bytes (ftb_size t) w)"
      "\<And>w data pos. pos + ftb_size t \<le> length data \<Longrightarrow>
         ex_to_be_bytes t w data pos = set_range data pos (std_to_be_bytes (ftb_size t) w)"
  shows "FromToBytes t"
  by unfold_locales
    (simp_all add: size from_le to_le from_be to_be ex std_to_from_le std_from_to_le std_from_be_bytes_def
      std_to_be_bytes_def set_range_eq)

lemmas std_unfold = std_from_le_bytes_def std_to_le_bytes_def std_from_be_bytes_def std_to_be_bytes_def take_explicit
  ucast_and_ff upt_conv_Cons push_bit_or or.assoc or.commute or.left_commute into_array_def

interpretation u8_ftb: FromToBytes u8_bytes
proof
  show "ex_to_le_bytes u8_bytes w data pos = Ret (seq_splice data pos (spec_to_le_bytes u8_bytes w))"
    "ex_to_be_bytes u8_bytes w data pos = Ret (seq_splice data pos (spec_to_be_bytes u8_bytes w))"
    if "pos + ftb_size u8_bytes \<le> length data" for pos data w
    using that set_range_loop_eq [of pos "[w]" data] by (simp_all add: u8_bytes_def) (cases "vec_set data pos w"; simp)+
qed (auto simp: u8_bytes_def outcome_simps nth_append length_Suc_conv)

interpretation u16_ftb: FromToBytes u16_bytes
  by (rule from_to_bytes_intro) (simp_all add: u16_bytes_def std_unfold)

interpretation u32_ftb: FromToBytes u32_bytes
  by (rule from_to_bytes_intro) (simp_all add: u32_bytes_def std_unfold)

interpretation u64_ftb: FromToBytes u64_bytes
  by (rule from_to_bytes_intro) (simp_all add: u64_bytes_def std_unfold)

abbreviation U8_spec :: "u8 spec_combinator" where "U8_spec \<equiv> le_uint_spec u8_bytes"
abbreviation U16Le_spec :: "u16 spec_combinator" where "U16Le_spec \<equiv> le_uint_spec u16_bytes"
abbreviation U32Le_spec :: "u32 spec_combinator" where "U32Le_spec \<equiv> le_uint_spec u32_bytes"
abbreviation U64Le_spec :: "u64 spec_combinator" where "U64Le_spec \<equiv> le_uint_spec u64_bytes"
abbreviation U16Be_spec :: "u16 spec_combinator" where "U16Be_spec \<equiv> be_uint_spec u16_bytes"
abbreviation U32Be_spec :: "u32 spec_combinator" where "U32Be_spec \<equiv> be_uint_spec u32_bytes"
abbreviation U64Be_spec :: "u64 spec_combinator" where "U64Be_spec \<equiv> be_uint_spec u64_bytes"
abbreviation U8_exec :: "u8 exec_combinator" where "U8_exec \<equiv> le_uint_exec u8_bytes"
abbreviation U16Le_exec :: "u16 exec_combinator" where "U16Le_exec \<equiv> le_uint_exec u16_bytes"
abbreviation U32Le_exec :: "u32 exec_combinator" where "U32Le_exec \<equiv> le_uint_exec u32_bytes"
abbreviation U64Le_exec :: "u64 exec_combinator" where "U64Le_exec \<equiv> le_uint_exec u64_bytes"
abbreviation U16Be_exec :: "u16 exec_combinator" where "U16Be_exec \<equiv> be_uint_exec u16_bytes"
abbreviation U32Be_exec :: "u32 exec_combinator" where "U32Be_exec \<equiv> be_uint_exec u32_bytes"
abbreviation U64Be_exec :: "u64 exec_combinator" where "U64Be_exec \<equiv> be_uint_exec u64_bytes"

interpretation u8_comb: Combinator U8_spec U8_exec by (rule u8_ftb.le_uint)

interpretation u16le_comb: Combinator U16Le_spec U16Le_exec by (rule u16_ftb.le_uint)

interpretation u32le_comb: Combinator U32Le_spec U32Le_exec by (rule u32_ftb.le_uint)

interpretation u64le_comb: Combinator U64Le_spec U64Le_exec by (rule u64_ftb.le_uint)

interpretation u16be_comb: Combinator U16Be_spec U16Be_exec by (rule u16_ftb.be_uint)

interpretation u32be_comb: Combinator U32Be_spec U32Be_exec by (rule u32_ftb.be_uint)

interpretation u64be_comb: Combinator U64Be_spec U64Be_exec by (rule u64_ftb.be_uint)

section \<open>Three-byte integers\<close>

text \<open>The three bytes of a \<open>u24\<close>, the most significant one first.\<close>

datatype u24 = U24 u8 u8 u8

definition spec_as_u32 :: "u24 \<Rightarrow> u32" where
  "spec_as_u32 x = (case x of U24 a b c \<Rightarrow> spec_from_be_bytes u32_bytes [0, a, b, c])"

definition as_u32 :: "u24 \<Rightarrow> u32 outcome" where
  "as_u32 x =
     (case x of U24 a b c \<Rightarrow>
        bind_outcome (vec_set [0, 0, 0, 0] 1 a) (\<lambda>bytes.
        bind_outcome (vec_set bytes 2 b) (\<lambda>bytes.
        bind_outcome (vec_set bytes 3 c) (\<lambda>bytes.
        ex_from_be_bytes u32_bytes bytes))))"

definition U24Le_spec :: "u24 spec_combinator" where
  "U24Le_spec =
     \<lparr>sc_requires = True, sc_wf = (\<lambda>v. True),
      spec_parse = (\<lambda>s. case spec_parse (Fixed_spec 3) s of
          Some (n, bytes) \<Rightarrow> Some (n, U24 (bytes ! 2) (bytes ! 1) (bytes ! 0))
        | None \<Rightarrow> None),
      spec_serialize = (\<lambda>v. case v of U24 a b c \<Rightarrow> spec_serialize (Fixed_spec 3) [c, b, a]),
      is_prefix_secure = True, is_productive = True\<rparr>"

definition U24Le_exec :: "u24 exec_combinator" where
  "U24Le_exec =
     \<lparr>c_length = (\<lambda>v. Ret 3),
      c_parse = (\<lambda>s. try_parse (c_parse (Fixed_exec 3) s) (\<lambda>n bytes.
        bind_outcome (vec_index bytes 2) (\<lambda>b2. bind_outcome (vec_index bytes 1) (\<lambda>b1.
        bind_outcome (vec_index bytes 0) (\<lambda>b0. Ret (Inr (n, U24 b2 b1 b0))))))),
      c_serialize = (\<lambda>v data pos. case v of U24 a b c \<Rightarrow> c_serialize (Fixed_exec 3) [c, b, a] data pos)\<rparr>"

definition U24Be_spec :: "u24 spec_combinator" where
  "U24Be_spec =
     \<lparr>sc_requires = True, sc_wf = (\<lambda>v. True),
      spec_parse = (\<lambda>s. case spec_parse (Fixed_spec 3) s of
          Some (n, bytes) \<Rightarrow> Some (n, U24 (bytes ! 0) (bytes ! 1) (bytes ! 2))
        | None \<Rightarrow> None),
      spec_serialize = (\<lambda>v. case v of U24 a b c \<Rightarrow> spec_serialize (Fixed_spec 3) [a, b, c]),
      is_prefix_secure = True, is_productive = True\<rparr>"

definition U24Be_exec :: "u24 exec_combinator" where
  "U24Be_exec =
     \<lparr>c_length = (\<lambda>v. Ret 3),
      c_parse = (\<lambda>s. try_parse (c_parse (Fixed_exec 3) s) (\<lambda>n bytes.
        bind_outcome (vec_index bytes 0) (\<lambda>b0. bind_outcome (vec_index bytes 1) (\<lambda>b1.
        bind_outcome (vec_index bytes 2) (\<lambda>b2. Ret (Inr (n, U24 b0 b1 b2))))))),
      c_serialize = (\<lambda>v data pos. case v of U24 a b c \<Rightarrow> c_serialize (Fixed_exec 3) [a, b, c] data pos)\<rparr>"

text \<open>The conversions into \<open>usize\<close>, for words and for \<open>u24\<close>.\<close>

definition word_as_usize :: "'w::len word \<Rightarrow> nat" where
  "word_as_usize x = unat x"

definition u24_as_usize :: "u24 \<Rightarrow> nat outcome" where
  "u24_as_usize x = bind_outcome (as_u32 x) (\<lambda>y. Ret (word_as_usize y))"

lemma as_u32_eq: "as_u32 x = Ret (spec_as_u32 x)"
  using u32_ftb.ex_from_be [of "[0, a, b, c]" for a b c]
  by (cases x) (simp add: as_u32_def spec_as_u32_def outcome_simps u32_bytes_def)

lemma take_3: "3 \<le> length s \<Longrightarrow> take 3 s = [s ! 0, s ! 1, s ! 2]"
  by (simp add: take_nths upt_conv_Cons numeral_eq_Suc)

interpretation u24le_comb: Combinator U24Le_spec U24Le_exec
  by unfold_locales
    (auto simp: U24Le_spec_def U24Le_exec_def Fixed_spec_def Fixed_exec_def outcome_simps take_3 nth_append set_range_eq
      split: u24.splits if_splits)

interpretation u24be_comb: Combinator U24Be_spec U24Be_exec
  by unfold_locales
    (auto simp: U24Be_spec_def U24Be_exec_def Fixed_spec_def Fixed_exec_def outcome_simps take_3 nth_append set_range_eq
      split: u24.splits if_splits)

end
