(* ===== verification/Vest_Varint.thy ===== *)
theory Vest_Varint
  imports Vest_Variant Vest_Uints
begin

text \<open>
  The variable-length integers of Bitcoin (\<open>bitcoin/varint.rs\<close>), a format composed of the combinators of
  the other theories: a byte, a choice that depends on it, and a fallible conversion. The conditions
  of the choices are those that the instances of \<open>DisjointFrom\<close> give. The slice comparison of the code's
  conversion is equality (\<open>compare_slice_eq\<close>), so that specification and code share the conversions.
\<close>

datatype VarInt = VarU8 u8 | VarU16 u16 | VarU32 u32 | VarU64 u64

type_synonym varint_src = "u8 \<times> (bytes, (u16, (u32, u64) Either) Either) Either"

fun varint_as_usize :: "VarInt \<Rightarrow> nat" where
  "varint_as_usize (VarU8 t) = unat t"
| "varint_as_usize (VarU16 t) = unat t"
| "varint_as_usize (VarU32 t) = unat t"
| "varint_as_usize (VarU64 t) = unat t"

definition TAG_U16 :: u8 where "TAG_U16 = 0xFD"
definition TAG_U32 :: u8 where "TAG_U32 = 0xFE"
definition TAG_U64 :: u8 where "TAG_U64 = 0xFF"

definition PredU16LeFit :: "u16 \<Rightarrow> bool" where "PredU16LeFit i \<longleftrightarrow> i \<ge> 0xFD"
definition PredU32LeFit :: "u32 \<Rightarrow> bool" where "PredU32LeFit i \<longleftrightarrow> i \<ge> 0x10000"
definition PredU64LeFit :: "u64 \<Rightarrow> bool" where "PredU64LeFit i \<longleftrightarrow> i \<ge> 0x100000000"

fun varint_try_from :: "varint_src \<Rightarrow> VarInt option" where
  "varint_try_from (t, Left x) = (if x = [] then Some (VarU8 t) else None)"
| "varint_try_from (t, Right (Left x)) = (if t = TAG_U16 then Some (VarU16 x) else None)"
| "varint_try_from (t, Right (Right (Left x))) = (if t = TAG_U32 then Some (VarU32 x) else None)"
| "varint_try_from (t, Right (Right (Right x))) = (if t = TAG_U64 then Some (VarU64 x) else None)"

fun varint_try_into :: "VarInt \<Rightarrow> varint_src option" where
  "varint_try_into (VarU8 t) = Some (t, Left [])"
| "varint_try_into (VarU16 x) = Some (TAG_U16, Right (Left x))"
| "varint_try_into (VarU32 x) = Some (TAG_U32, Right (Right (Left x)))"
| "varint_try_into (VarU64 x) = Some (TAG_U64, Right (Right (Right x)))"

definition varint_choice_spec :: "u8 \<Rightarrow> (bytes, (u16, (u32, u64) Either) Either) Either spec_combinator" where
  "varint_choice_spec t =
     (let c0 = t \<le> 0xFC; c1 = (t = TAG_U16); c2 = (t = TAG_U32); c3 = (t = TAG_U64)
      in Choice_spec
           (choice_disjoint_from (cond_disjoint_from c1 c0)
              (choice_disjoint_from (cond_disjoint_from c2 c0) (cond_disjoint_from c3 c0)))
           (Cond_spec c0 (Fixed_spec 0))
           (Choice_spec
              (choice_disjoint_from (cond_disjoint_from c2 c1) (cond_disjoint_from c3 c1))
              (Cond_spec c1 (Refined_spec U16Le_spec PredU16LeFit))
              (Choice_spec
                 (cond_disjoint_from c3 c2)
                 (Cond_spec c2 (Refined_spec U32Le_spec PredU32LeFit))
                 (Cond_spec c3 (Refined_spec U64Le_spec PredU64LeFit)))))"

definition varint_choice_exec :: "u8 \<Rightarrow> (bytes, (u16, (u32, u64) Either) Either) Either exec_combinator" where
  "varint_choice_exec t =
     Choice_exec
       (Cond_exec (t \<le> 0xFC) (Fixed_exec 0))
       (Choice_exec
          (Cond_exec (t = 0xFD) (Refined_exec U16Le_exec PredU16LeFit))
          (Choice_exec
             (Cond_exec (t = 0xFE) (Refined_exec U32Le_exec PredU32LeFit))
             (Cond_exec (t = 0xFF) (Refined_exec U64Le_exec PredU64LeFit))))"

definition spec_btc_varint_inner :: "VarInt spec_combinator" where
  "spec_btc_varint_inner = TryMap_spec (Pair_spec U8_spec varint_choice_spec) varint_try_from varint_try_into"

definition btc_varint_inner :: "VarInt exec_combinator" where
  "btc_varint_inner = TryMap_exec (Pair_exec U8_exec varint_choice_exec) varint_try_from varint_try_into"

definition BtcVarint_spec :: "VarInt spec_combinator" where
  "BtcVarint_spec =
     \<lparr>sc_requires = sc_requires spec_btc_varint_inner, sc_wf = sc_wf spec_btc_varint_inner,
      spec_parse = spec_parse spec_btc_varint_inner, spec_serialize = spec_serialize spec_btc_varint_inner,
      is_prefix_secure = is_prefix_secure spec_btc_varint_inner, is_productive = is_productive spec_btc_varint_inner\<rparr>"

definition BtcVarint_exec :: "VarInt exec_combinator" where
  "BtcVarint_exec =
     \<lparr>c_length = (\<lambda>v. case v of VarU8 _ \<Rightarrow> Ret 1 | VarU16 _ \<Rightarrow> Ret 3 | VarU32 _ \<Rightarrow> Ret 5 | VarU64 _ \<Rightarrow> Ret 9),
      c_parse = c_parse btc_varint_inner, c_serialize = c_serialize btc_varint_inner\<rparr>"

section \<open>The contract\<close>

lemma varint_iso: "varint_try_from v = Some w \<longleftrightarrow> varint_try_into w = Some v"
  by (cases v rule: varint_try_from.cases; cases w) auto

lemma varint_choice: "Combinator (varint_choice_spec t) (varint_choice_exec t)"
  unfolding varint_choice_spec_def varint_choice_exec_def Let_def TAG_U16_def TAG_U32_def TAG_U64_def
  by (intro choice_combinator Combinator.cond Combinator.refined DisjointFrom.choice cond_disjoint.DisjointFrom_axioms
      fixed.Combinator_axioms u16le_comb.Combinator_axioms u32le_comb.Combinator_axioms u64le_comb.Combinator_axioms)

lemma btc_varint_combinator: "Combinator spec_btc_varint_inner btc_varint_inner"
  unfolding spec_btc_varint_inner_def btc_varint_inner_def
  by (intro Combinator.try_map pair_combinator u8_comb.Combinator_axioms varint_choice varint_iso)

lemma BtcVarint_spec_eq [simp]: "BtcVarint_spec = spec_btc_varint_inner"
  by (simp add: BtcVarint_spec_def)

lemma btc_varint_requires: "sc_requires spec_btc_varint_inner" "is_prefix_secure spec_btc_varint_inner"
  "is_productive spec_btc_varint_inner"
  by (simp_all add: spec_btc_varint_inner_def TryMap_spec_def Pair_spec_def varint_choice_spec_def Let_def Choice_spec_def
      Cond_spec_def Refined_spec_def Fixed_spec_def le_uint_spec_def choice_disjoint_from_def cond_disjoint_from_def
      TAG_U16_def TAG_U32_def TAG_U64_def)

lemma btc_varint_wf:
  "sc_wf spec_btc_varint_inner (VarU8 a) \<longleftrightarrow> a \<le> 0xFC" "sc_wf spec_btc_varint_inner (VarU16 b) \<longleftrightarrow> 0xFD \<le> b"
  "sc_wf spec_btc_varint_inner (VarU32 c) \<longleftrightarrow> 0x10000 \<le> c" "sc_wf spec_btc_varint_inner (VarU64 d) \<longleftrightarrow> 0x100000000 \<le> d"
  by (simp_all add: spec_btc_varint_inner_def TryMap_spec_def Pair_spec_def varint_choice_spec_def Let_def Choice_spec_def
      Cond_spec_def Refined_spec_def Fixed_spec_def le_uint_spec_def PredU16LeFit_def PredU32LeFit_def PredU64LeFit_def)

lemma btc_varint_size:
  "length (spec_serialize spec_btc_varint_inner v) =
     (case v of VarU8 _ \<Rightarrow> 1 | VarU16 _ \<Rightarrow> 3 | VarU32 _ \<Rightarrow> 5 | VarU64 _ \<Rightarrow> 9)"
  using u16_ftb.to_from_le u32_ftb.to_from_le u64_ftb.to_from_le
  by (cases v) (simp_all add: spec_btc_varint_inner_def TryMap_spec_def Pair_spec_def varint_choice_spec_def Let_def
      Choice_spec_def Cond_spec_def Refined_spec_def Fixed_spec_def le_uint_spec_def u8_bytes_def u16_bytes_def
      u32_bytes_def u64_bytes_def)

interpretation btc_varint: Combinator BtcVarint_spec BtcVarint_exec
proof (unfold BtcVarint_spec_eq, rule Combinator.intro)
  show "SecureSpecCombinator spec_btc_varint_inner" by (rule Combinator.axioms(1) [OF btc_varint_combinator])
  show "Combinator_axioms spec_btc_varint_inner BtcVarint_exec"
  proof (unfold_locales, goal_cases)
    case (1 s)
    then show ?case using Combinator.parse_correct [OF btc_varint_combinator, of s] by (simp add: BtcVarint_exec_def)
  next
    case (2 v pos data)
    then show ?case
      using Combinator.serialize_correct [OF btc_varint_combinator, of v pos data] by (simp add: BtcVarint_exec_def)
  next
    case (3 v)
    then show ?case by (cases v) (simp_all add: BtcVarint_exec_def btc_varint_size)
  qed
qed

end
