(* ===== verification/Vest_Repetition.thy ===== *)
theory Vest_Repetition
  imports Vest_Sequence
begin

text \<open>
  Repetition (\<open>regular/repetition.rs\<close>): a given number of times, and until the end of the input. The loops
  of the code are functions of their variables. A round of \<open>Repeat::parse\<close> that consumes nothing leaves
  the loop where it was, so that it does not return.
\<close>

section \<open>A given number of times\<close>

fun repeat_n_parse_helper :: "'v spec_combinator \<Rightarrow> bytes \<Rightarrow> nat \<Rightarrow> (nat \<times> 'v list) option" where
  "repeat_n_parse_helper c s 0 = Some (0, [])"
| "repeat_n_parse_helper c s (Suc n) =
     (case repeat_n_parse_helper c s n of
        Some (m, vs) \<Rightarrow> (case spec_parse c (drop m s) of Some (k, v) \<Rightarrow> Some (m + k, vs @ [v]) | None \<Rightarrow> None)
      | None \<Rightarrow> None)"

definition RepeatN_spec :: "'v spec_combinator \<Rightarrow> nat \<Rightarrow> 'v list spec_combinator" where
  "RepeatN_spec c n =
     \<lparr>sc_requires = (sc_requires c \<and> is_prefix_secure c),
      sc_wf = (\<lambda>vs. length vs = n \<and> (\<forall>i < length vs. sc_wf c (vs ! i))),
      spec_parse = (\<lambda>s. repeat_n_parse_helper c s n),
      spec_serialize = (\<lambda>vs. foldl (\<lambda>acc v. acc @ spec_serialize c v) [] vs),
      is_prefix_secure = is_prefix_secure c, is_productive = (n > 0 \<and> is_productive c)\<rparr>"

fun repeat_n_length_loop :: "'v exec_combinator \<Rightarrow> 'v list \<Rightarrow> nat \<Rightarrow> nat outcome" where
  "repeat_n_length_loop e [] len = Ret len"
| "repeat_n_length_loop e (v # vs) len =
     bind_outcome (c_length e v) (\<lambda>l. bind_outcome (usize_add len l) (\<lambda>len. repeat_n_length_loop e vs len))"

fun repeat_n_parse_loop :: "'v exec_combinator \<Rightarrow> nat \<Rightarrow> bytes \<Rightarrow> nat \<Rightarrow> 'v list \<Rightarrow> 'v list PResult" where
  "repeat_n_parse_loop e 0 s len vs = Ret (Inr (len, vs))"
| "repeat_n_parse_loop e (Suc k) s len vs =
     try_parse (c_parse e s) (\<lambda>n v.
       bind_outcome (usize_add len n) (\<lambda>len.
       bind_outcome (subrange s n (length s)) (\<lambda>s. repeat_n_parse_loop e k s len (vs @ [v]))))"

fun repeat_n_serialize_loop :: "'v exec_combinator \<Rightarrow> 'v list \<Rightarrow> bytes \<Rightarrow> nat \<Rightarrow> SResult" where
  "repeat_n_serialize_loop e [] data pos = Ret (Inr pos, data)"
| "repeat_n_serialize_loop e (v # vs) data pos =
     try_serialize (c_serialize e v data pos) (\<lambda>l data.
       bind_outcome (usize_add pos l) (\<lambda>pos. repeat_n_serialize_loop e vs data pos))"

definition RepeatN_exec :: "'v exec_combinator \<Rightarrow> nat \<Rightarrow> 'v list exec_combinator" where
  "RepeatN_exec e n =
     \<lparr>c_length = (\<lambda>vs. repeat_n_length_loop e vs 0),
      c_parse = (\<lambda>input. repeat_n_parse_loop e n input 0 []),
      c_serialize = (\<lambda>vs data old_pos.
        try_serialize (repeat_n_serialize_loop e vs data old_pos) (\<lambda>pos data.
          bind_outcome (usize_sub pos old_pos) (\<lambda>n. Ret (Inr n, data))))\<rparr>"

section \<open>Until the end of the input\<close>

function repeat_spec_parse :: "'v spec_combinator \<Rightarrow> bytes \<Rightarrow> (nat \<times> 'v list) option" where
  "repeat_spec_parse c s =
     (if length s = 0 then Some (0, [])
      else case spec_parse c s of
             Some (n, v) \<Rightarrow>
               if 0 < n \<and> n \<le> length s then
                 (case repeat_spec_parse c (drop n s) of
                    Some (_, vs) \<Rightarrow> Some (length s, v # vs)
                  | None \<Rightarrow> None)
               else None
           | None \<Rightarrow> None)"
  by pat_completeness auto
termination
  by (relation "measure (\<lambda>(c, s). length s)") auto

definition Repeat_spec :: "'v spec_combinator \<Rightarrow> 'v list spec_combinator" where
  "Repeat_spec c =
     \<lparr>sc_requires = (sc_requires c \<and> is_prefix_secure c \<and> is_productive c),
      sc_wf = (\<lambda>vs. \<forall>i < length vs. sc_wf c (vs ! i)),
      spec_parse = repeat_spec_parse c,
      spec_serialize = (\<lambda>vs. spec_serialize (RepeatN_spec c (length vs)) vs),
      is_prefix_secure = False, is_productive = False\<rparr>"

lemma try_parse_cong [fundef_cong]:
  "m = m' \<Longrightarrow> (\<And>n v. m' = Ret (Inr (n, v)) \<Longrightarrow> f n v = f' n v) \<Longrightarrow> try_parse m f = try_parse m' f'"
  by (cases m') (auto simp: try_parse_def split: sum.splits)

function repeat_parse_loop :: "'v exec_combinator \<Rightarrow> bytes \<Rightarrow> nat \<Rightarrow> 'v list \<Rightarrow> 'v list PResult" where
  "repeat_parse_loop e input len vs =
     (if len < length input then
        bind_outcome (subrange input len (length input)) (\<lambda>s.
        try_parse (c_parse e s) (\<lambda>n v.
        if n = 0 then Diverge
        else bind_outcome (usize_add len n) (\<lambda>len. repeat_parse_loop e input len (vs @ [v]))))
      else Ret (Inr (length input, vs)))"
  by pat_completeness auto
termination
  by (relation "measure (\<lambda>(e, input, len, vs). length input - len)") (auto simp: usize_add_def split: if_splits)

definition Repeat_exec :: "'v exec_combinator \<Rightarrow> 'v list exec_combinator" where
  "Repeat_exec e =
     \<lparr>c_length = (\<lambda>vs. c_length (RepeatN_exec e (length vs)) vs),
      c_parse = (\<lambda>input. repeat_parse_loop e input 0 []),
      c_serialize = (\<lambda>vs data pos. c_serialize (RepeatN_exec e (length vs)) vs data pos)\<rparr>"

declare repeat_spec_parse.simps [simp del] repeat_parse_loop.simps [simp del]

section \<open>A given number of times: the contract\<close>

lemma foldl_append_concat: "foldl (\<lambda>acc v. acc @ f v) acc vs = acc @ concat (map f vs)"
  by (induction vs arbitrary: acc) auto

lemma RepeatN_serialize [simp]: "spec_serialize (RepeatN_spec c n) vs = concat (map (spec_serialize c) vs)"
  by (simp add: RepeatN_spec_def foldl_append_concat)

lemma RepeatN_wf: "sc_wf (RepeatN_spec c n) vs \<longleftrightarrow> length vs = n \<and> (\<forall>v \<in> set vs. sc_wf c v)"
  by (auto simp: RepeatN_spec_def all_set_conv_all_nth)

lemma RepeatN_sel [simp]:
  "sc_requires (RepeatN_spec c n) \<longleftrightarrow> sc_requires c \<and> is_prefix_secure c"
  "spec_parse (RepeatN_spec c n) s = repeat_n_parse_helper c s n"
  "is_prefix_secure (RepeatN_spec c n) \<longleftrightarrow> is_prefix_secure c"
  "is_productive (RepeatN_spec c n) \<longleftrightarrow> n > 0 \<and> is_productive c"
  by (simp_all add: RepeatN_spec_def)

context SecureSpecCombinator
begin

lemma repeat_n_serialize_parse:
  assumes "sc_requires c" "is_prefix_secure c"
  shows "\<forall>v \<in> set vs. sc_wf c v \<Longrightarrow> repeat_n_parse_helper c (concat (map (spec_serialize c) vs) @ s) (length vs) =
    Some (length (concat (map (spec_serialize c) vs)), vs)"
proof (induction vs arbitrary: s rule: rev_induct)
  case (snoc v vs)
  then have "repeat_n_parse_helper c (concat (map (spec_serialize c) vs) @ spec_serialize c v @ s) (length vs) =
      Some (length (concat (map (spec_serialize c) vs)), vs)" by simp
  with snoc.prems serialize_parse_append [OF assms, of v s] show ?case by simp
qed simp

lemma repeat_n_parse_laws:
  assumes "sc_requires c" "is_prefix_secure c"
  shows "repeat_n_parse_helper c s n = Some (k, vs) \<Longrightarrow>
    length vs = n \<and> (\<forall>v \<in> set vs. sc_wf c v) \<and> concat (map (spec_serialize c) vs) = take k s \<and> k \<le> length s \<and>
    (n > 0 \<longrightarrow> is_productive c \<longrightarrow> 0 < k) \<and> repeat_n_parse_helper c (s @ s') n = Some (k, vs)"
proof (induction n arbitrary: k vs)
  case (Suc n)
  then obtain m vs' where ih: "repeat_n_parse_helper c s n = Some (m, vs')"
    by (cases "repeat_n_parse_helper c s n") auto
  with Suc.prems obtain j v where p: "spec_parse c (drop m s) = Some (j, v)" "k = m + j" "vs = vs' @ [v]"
    by (auto split: option.splits)
  note IH = Suc.IH [OF ih]
  then have "drop m (s @ s') = drop m s @ s'" by simp
  with IH p parse_serialize_roundtrip [OF assms(1) p(1)] parse_length [OF assms(1) p(1)]
    parse_productive [OF assms(1) _ p(1)] prefix_secure [OF assms p(1), of s']
  show ?case by (auto simp: take_add)
qed simp

lemma repeat_n_secure: "SecureSpecCombinator (RepeatN_spec c n)"
proof (unfold_locales, goal_cases)
  case (1 v)
  then show ?case using repeat_n_serialize_parse [of v "[]"] by (auto simp: RepeatN_wf)
next
  case (2 s k vs)
  then show ?case using repeat_n_parse_laws [of s n k vs] by (simp add: RepeatN_wf)
next
  case (3 s k vs s')
  then show ?case using repeat_n_parse_laws [of s n k vs s'] by simp
next
  case (4 s k vs)
  then show ?case using repeat_n_parse_laws [of s n k vs] by simp
next
  case (5 s k vs)
  then show ?case using repeat_n_parse_laws [of s n k vs] by simp
qed

end

context Combinator
begin

lemma repeat_n_parse_loop_correct:
  assumes "sc_requires c" "length input \<le> usize_max"
  shows "repeat_n_parse_helper c input i = Some (len, vs) \<Longrightarrow> len \<le> length input \<Longrightarrow>
    \<exists>r. repeat_n_parse_loop e k (drop len input) len vs = Ret r \<and>
      repeat_n_parse_helper c input (k + i) = (case r of Inl _ \<Rightarrow> None | Inr nv \<Rightarrow> Some nv)"
proof (induction k arbitrary: i len vs)
  case (Suc k)
  have len: "length (drop len input) \<le> usize_max" using assms(2) by simp
  have none: "repeat_n_parse_helper c input (j + Suc i) = None" if "repeat_n_parse_helper c input (Suc i) = None" for j
    using that by (induction j) simp_all
  from assms(1) len show ?case
  proof (cases rule: parse_cases)
    case (ok n v)
    then have "repeat_n_parse_helper c input (Suc i) = Some (len + n, vs @ [v])" using Suc.prems by simp
    from Suc.IH [OF this] Suc.prems ok assms(2) show ?thesis by (simp add: outcome_simps add.commute)
  next
    case (err x)
    then have "repeat_n_parse_helper c input (Suc i) = None" using Suc.prems by simp
    from none [OF this, of k] err show ?thesis by simp
  qed
qed simp

lemma repeat_n_serialize_loop_correct:
  assumes "sc_requires c" "length data \<le> usize_max"
  shows "\<forall>v \<in> set vs. sc_wf c v \<Longrightarrow> pos \<le> length data \<Longrightarrow> length data \<le> usize_max \<Longrightarrow>
    \<exists>r data'. repeat_n_serialize_loop e vs data pos = Ret (r, data') \<and>
      (case r of
         Inl _ \<Rightarrow> length data < pos + length (concat (map (spec_serialize c) vs))
       | Inr pos' \<Rightarrow> pos' = pos + length (concat (map (spec_serialize c) vs)) \<and> pos' \<le> length data \<and>
           data' = seq_splice data pos (concat (map (spec_serialize c) vs)))"
proof (induction vs arbitrary: data pos)
  case (Cons v vs)
  then have "sc_wf c v" by simp
  from assms(1) this Cons.prems(2,3) show ?case
  proof (cases rule: serialize_cases)
    case ok
    let ?a = "spec_serialize c v"
    let ?data = "seq_splice data pos ?a"
    have pos': "pos + length ?a \<le> length ?data" "length ?data \<le> usize_max" "length ?data = length data"
      using ok(2) Cons.prems by (simp_all add: length_seq_splice)
    obtain r data' where r: "repeat_n_serialize_loop e vs ?data (pos + length ?a) = Ret (r, data')"
      "case r of
         Inl _ \<Rightarrow> length ?data < pos + length ?a + length (concat (map (spec_serialize c) vs))
       | Inr pos' \<Rightarrow> pos' = pos + length ?a + length (concat (map (spec_serialize c) vs)) \<and> pos' \<le> length ?data \<and>
           data' = seq_splice ?data (pos + length ?a) (concat (map (spec_serialize c) vs))"
      using Cons.IH [of "pos + length ?a" ?data] Cons.prems pos' by auto
    from r ok pos' Cons.prems show ?thesis
      by (cases r) (simp_all add: outcome_simps seq_splice_append add.assoc)
  next
    case (err x data')
    then show ?thesis by simp
  qed
qed simp

lemma repeat_n_length_loop_correct:
  assumes "sc_requires c"
  shows "\<forall>v \<in> set vs. sc_wf c v \<Longrightarrow> len + length (concat (map (spec_serialize c) vs)) \<le> usize_max \<Longrightarrow>
    repeat_n_length_loop e vs len = Ret (len + length (concat (map (spec_serialize c) vs)))"
  by (induction vs arbitrary: len) (use assms length_correct in \<open>simp_all add: outcome_simps\<close>)

lemma repeat_n: "Combinator (RepeatN_spec c n) (RepeatN_exec e n)"
proof (rule Combinator.intro [OF repeat_n_secure], unfold_locales, goal_cases)
  case (1 s)
  then show ?case using repeat_n_parse_loop_correct [of s 0 0 "[]" n] by (simp add: RepeatN_exec_def)
next
  case (2 vs pos data)
  then have wf: "\<forall>v \<in> set vs. sc_wf c v" "sc_requires c" by (simp_all add: RepeatN_wf)
  obtain r data' where r: "repeat_n_serialize_loop e vs data pos = Ret (r, data')"
    "case r of
       Inl _ \<Rightarrow> length data < pos + length (concat (map (spec_serialize c) vs))
     | Inr pos' \<Rightarrow> pos' = pos + length (concat (map (spec_serialize c) vs)) \<and> pos' \<le> length data \<and>
         data' = seq_splice data pos (concat (map (spec_serialize c) vs))"
    using repeat_n_serialize_loop_correct [OF wf(2) 2(4) wf(1) 2(3,4)] by blast
  then show ?case by (cases r) (simp_all add: RepeatN_exec_def outcome_simps)
next
  case (3 vs)
  then show ?case
    using repeat_n_length_loop_correct [of vs 0] by (simp add: RepeatN_exec_def RepeatN_wf)
qed

end

section \<open>Until the end: the contract\<close>

lemma Repeat_sel [simp]:
  "sc_requires (Repeat_spec c) \<longleftrightarrow> sc_requires c \<and> is_prefix_secure c \<and> is_productive c"
  "spec_parse (Repeat_spec c) = repeat_spec_parse c"
  "spec_serialize (Repeat_spec c) vs = concat (map (spec_serialize c) vs)"
  "sc_wf (Repeat_spec c) vs \<longleftrightarrow> (\<forall>v \<in> set vs. sc_wf c v)"
  "\<not> is_prefix_secure (Repeat_spec c)" "\<not> is_productive (Repeat_spec c)"
  by (simp_all add: Repeat_spec_def all_set_conv_all_nth)

lemma repeat_spec_parse_Nil [simp]: "repeat_spec_parse c [] = Some (0, [])"
  by (simp add: repeat_spec_parse.simps)

context SecureSpecCombinator
begin

text \<open>For a productive combinator, the guard on the number of consumed bytes is redundant.\<close>

lemma repeat_spec_parse_step:
  assumes "sc_requires c" "is_productive c" "s \<noteq> []"
  shows "repeat_spec_parse c s =
    (case spec_parse c s of
       Some (n, v) \<Rightarrow> (case repeat_spec_parse c (drop n s) of Some (_, vs) \<Rightarrow> Some (length s, v # vs) | None \<Rightarrow> None)
     | None \<Rightarrow> None)"
  using assms parse_length [of s] parse_productive [of s]
  by (subst repeat_spec_parse.simps) (auto split: option.splits)

lemma repeat_serialize_parse:
  assumes "sc_requires c" "is_prefix_secure c" "is_productive c"
  shows "\<forall>v \<in> set vs. sc_wf c v \<Longrightarrow>
    repeat_spec_parse c (concat (map (spec_serialize c) vs)) = Some (length (concat (map (spec_serialize c) vs)), vs)"
proof (induction vs)
  case (Cons v vs)
  then have "spec_serialize c v \<noteq> []" using serialize_productive [OF assms(1) _ assms(3), of v] by auto
  with Cons serialize_parse_append [OF assms(1,2), of v] show ?case
    by (subst repeat_spec_parse_step [OF assms(1,3)]) simp_all
qed simp

lemma repeat_parse_laws:
  assumes "sc_requires c" "is_productive c"
  shows "repeat_spec_parse c s = Some (k, vs) \<Longrightarrow>
    k = length s \<and> (\<forall>v \<in> set vs. sc_wf c v) \<and> concat (map (spec_serialize c) vs) = s"
proof (induction "length s" arbitrary: s k vs rule: less_induct)
  case less
  show ?case
  proof (cases "s = []")
    case False
    with less.prems obtain n v vs' where p: "spec_parse c s = Some (n, v)" "vs = v # vs'" "k = length s"
      and rest: "\<exists>m. repeat_spec_parse c (drop n s) = Some (m, vs')"
      by (auto simp: repeat_spec_parse_step [OF assms] split: option.splits)
    have "0 < n" by (rule parse_productive [OF assms p(1)])
    with False rest less.hyps [of "drop n s"] have "(\<forall>v \<in> set vs'. sc_wf c v)"
      "concat (map (spec_serialize c) vs') = drop n s" by auto
    with p parse_serialize_roundtrip [OF assms(1) p(1)] show ?thesis by auto
  qed (use less.prems in auto)
qed

lemma repeat_secure: "SecureSpecCombinator (Repeat_spec c)"
proof (unfold_locales, goal_cases)
  case (1 vs)
  then show ?case using repeat_serialize_parse by simp
next
  case (2 s k vs)
  then show ?case using repeat_parse_laws [of s k vs] by simp
next
  case (4 s k vs)
  then show ?case using repeat_parse_laws [of s k vs] by simp
qed simp_all

end

context Combinator
begin

lemma repeat_parse_loop_correct:
  assumes "sc_requires c" "is_productive c" "length input \<le> usize_max"
  shows "len \<le> length input \<Longrightarrow>
    \<exists>r. repeat_parse_loop e input len vs = Ret r \<and>
      (case repeat_spec_parse c (drop len input) of None \<Rightarrow> None | Some (_, ws) \<Rightarrow> Some (length input, vs @ ws)) =
      (case r of Inl _ \<Rightarrow> None | Inr nv \<Rightarrow> Some nv)"
proof (induction "length input - len" arbitrary: len vs rule: less_induct)
  case less
  show ?case
  proof (cases "len < length input")
    case True
    then have ne: "drop len input \<noteq> []" and len: "length (drop len input) \<le> usize_max" using assms(3) by simp_all
    from assms(1) len show ?thesis
    proof (cases rule: parse_cases)
      case (ok n v)
      have n: "0 < n" by (rule parse_productive [OF assms(1,2) ok(2)])
      have loop: "repeat_parse_loop e input len vs = repeat_parse_loop e input (len + n) (vs @ [v])"
        using True ok n assms(3) by (subst repeat_parse_loop.simps) (simp add: outcome_simps)
      have bounds: "length input - (len + n) < length input - len" "len + n \<le> length input"
        using True n ok(3) by simp_all
      obtain r where r: "repeat_parse_loop e input (len + n) (vs @ [v]) = Ret r"
        "(case repeat_spec_parse c (drop (len + n) input) of
            None \<Rightarrow> None | Some (_, ws) \<Rightarrow> Some (length input, (vs @ [v]) @ ws)) =
         (case r of Inl _ \<Rightarrow> None | Inr nv \<Rightarrow> Some nv)"
        using less.hyps [OF _ bounds(2), of "vs @ [v]"] bounds(1) by blast
      have "(case repeat_spec_parse c (drop len input) of None \<Rightarrow> None | Some (_, ws) \<Rightarrow> Some (length input, vs @ ws)) =
          (case repeat_spec_parse c (drop (len + n) input) of
            None \<Rightarrow> None | Some (_, ws) \<Rightarrow> Some (length input, (vs @ [v]) @ ws))"
        using ok by (subst repeat_spec_parse_step [OF assms(1,2) ne]) (simp add: add.commute split: option.split)
      with r loop show ?thesis by simp
    next
      case (err x)
      then have "repeat_parse_loop e input len vs = Ret (Inl x)"
        using True by (subst repeat_parse_loop.simps) (simp add: outcome_simps)
      moreover have "repeat_spec_parse c (drop len input) = None"
        using err by (subst repeat_spec_parse_step [OF assms(1,2) ne]) simp
      ultimately show ?thesis by simp
    qed
  next
    case False
    with less.prems show ?thesis by (subst repeat_parse_loop.simps) simp
  qed
qed

lemma repeat: "Combinator (Repeat_spec c) (Repeat_exec e)"
proof (rule Combinator.intro [OF repeat_secure], unfold_locales, goal_cases)
  case (1 s)
  then obtain r where "repeat_parse_loop e s 0 [] = Ret r"
    "(case repeat_spec_parse c (drop 0 s) of None \<Rightarrow> None | Some (_, ws) \<Rightarrow> Some (length s, [] @ ws)) =
     (case r of Inl _ \<Rightarrow> None | Inr nv \<Rightarrow> Some nv)"
    using repeat_parse_loop_correct [of s 0 "[]"] by (metis Repeat_sel(1) le0)
  moreover have "repeat_spec_parse c s =
      (case repeat_spec_parse c (drop 0 s) of None \<Rightarrow> None | Some (_, ws) \<Rightarrow> Some (length s, [] @ ws))"
    using repeat_parse_laws [of s] 1 by (auto split: option.split)
  ultimately have "repeat_spec_parse c s = (case r of Inl _ \<Rightarrow> None | Inr nv \<Rightarrow> Some nv)"
    and "repeat_parse_loop e s 0 [] = Ret r" by metis+
  then show ?case by (simp add: Repeat_exec_def)
next
  case (2 vs pos data)
  then have "sc_requires (RepeatN_spec c (length vs))" "sc_wf (RepeatN_spec c (length vs)) vs"
    "pos \<le> length data" "length data \<le> usize_max"
    by (simp_all add: RepeatN_wf)
  with repeat_n show ?case
    by (cases rule: comb_serialize_cases [of _ _ vs pos data]) (simp_all add: Repeat_exec_def)
next
  case (3 vs)
  then show ?case
    using Combinator.length_correct [OF repeat_n, of "length vs" vs] by (simp add: Repeat_exec_def RepeatN_wf)
qed

end

end
