(* ===== verification/Vest_Leb128.thy ===== *)
theory Vest_Leb128
  imports Vest_Basic
begin

text \<open>
  Variable-length integers (\<open>regular/leb128.rs\<close>). The specification and the parser are proved to agree. The
  trusted methods \<open>length\<close> and \<open>serialize\<close> do not meet the contract of the trait: they drop the value zero,
  and the serializer returns the position after the last byte where the callers expect the number of
  bytes.
\<close>

unbundle bit_operations_syntax

section \<open>Definitions\<close>

lemma unat_drop_7: "unat (drop_bit 7 v) = unat v div 128" for v :: u64
  by (simp add: drop_bit_eq_div unat_div)

lemma drop_7_less: "v \<noteq> 0 \<Longrightarrow> unat (drop_bit 7 v) < unat v" for v :: u64
  by (simp add: unat_drop_7 unat_gt_0)

lemma drop_7_less': "drop_bit 7 v \<noteq> 0 \<Longrightarrow> unat (drop_bit 7 v) < unat v" for v :: u64
  by (rule drop_7_less) auto

definition is_high_8_bit_set :: "u8 \<Rightarrow> bool" where
  "is_high_8_bit_set v \<longleftrightarrow> v \<ge> 0x80"

definition take_low_7_bits :: "u8 \<Rightarrow> u8" where
  "take_low_7_bits v = v AND 0x7f"

definition set_high_8_bit :: "u8 \<Rightarrow> u8" where
  "set_high_8_bit v = v OR 0x80"

definition n_bit_max_unsigned :: "nat \<Rightarrow> u64" where
  "n_bit_max_unsigned n = (if n = 0 then 0 else drop_bit (64 - n) u64_max)"

fun leb128_spec_parse :: "bytes \<Rightarrow> (nat \<times> u64) option" where
  "leb128_spec_parse [] = None"
| "leb128_spec_parse (b # s) =
     (let v = take_low_7_bits b
      in if is_high_8_bit_set b then
           (case leb128_spec_parse s of
              Some (n, v2) \<Rightarrow>
                if n < usize_max \<and> 0 < v2 \<and> v2 \<le> n_bit_max_unsigned (64 - 7)
                then Some (n + 1, push_bit 7 v2 OR ucast v) else None
            | None \<Rightarrow> None)
         else Some (1, ucast v))"

function leb128_serialize_helper :: "u64 \<Rightarrow> bytes" where
  "leb128_serialize_helper v =
     (let lo = take_low_7_bits (ucast v); hi = drop_bit 7 v
      in if hi = 0 then [lo] else set_high_8_bit lo # leb128_serialize_helper hi)"
  by pat_completeness auto
termination
  by (relation "measure unat") (auto simp: drop_7_less')

definition UnsignedLEB128_spec :: "u64 spec_combinator" where
  "UnsignedLEB128_spec =
     \<lparr>sc_requires = True, sc_wf = (\<lambda>v. True), spec_parse = leb128_spec_parse, spec_serialize = leb128_serialize_helper,
      is_prefix_secure = True, is_productive = True\<rparr>"

function leb128_length_loop :: "u64 \<Rightarrow> nat \<Rightarrow> nat" where
  "leb128_length_loop v acc = (if v > 0 then leb128_length_loop (drop_bit 7 v) (acc + 1) else acc)"
  by pat_completeness auto
termination
  by (relation "measure (\<lambda>(v, acc). unat v)") (auto simp: drop_7_less)

text \<open>The variables of the parser's loop are the index, the shift and the accumulator; the list is the
  input from the index on.\<close>

fun leb128_parse_loop :: "bytes \<Rightarrow> nat \<Rightarrow> nat \<Rightarrow> u64 \<Rightarrow> u64 PResult" where
  "leb128_parse_loop [] i shift acc = Ret (Inl UnexpectedEndOfInput)"
| "leb128_parse_loop (s_i # s) i shift acc =
     (let v = take_low_7_bits s_i; hi_set = is_high_8_bit_set s_i
      in if i = 9 \<and> (hi_set \<or> v > 1) then Ret (Inl (OtherParse ''LEB128 overflow''))
         else if shift \<ge> 64 then Panic
         else let acc = acc OR push_bit shift (ucast v)
              in if \<not> hi_set then
                   if i \<noteq> 0 \<and> v = 0 then Ret (Inl (OtherParse ''failing LEB128 canonicity''))
                   else Ret (Inr (i + 1, acc))
                 else leb128_parse_loop s (i + 1) (shift + 7) acc)"

function leb128_serialize_loop :: "u64 \<Rightarrow> nat \<Rightarrow> bytes \<Rightarrow> nat \<Rightarrow> SResult" where
  "leb128_serialize_loop v i buf pos =
     (if v > 0 then
        let lo = take_low_7_bits (ucast v); hi = drop_bit 7 v;
            byte = (if hi = 0 then lo else set_high_8_bit lo)
        in if pos \<ge> length buf then Ret (Inl InsufficientBuffer, buf)
           else bind_outcome (vec_set buf pos byte) (\<lambda>buf.
                bind_outcome (usize_add pos 1) (\<lambda>pos.
                if i + 1 > 10 then Ret (Inl (OtherSerialize ''Failed to serialize LEB128: too long''), buf)
                else leb128_serialize_loop hi (i + 1) buf pos))
      else Ret (Inr pos, buf))"
  by pat_completeness auto
termination
  by (relation "measure (\<lambda>(v, i, buf, pos). unat v)") (auto simp: drop_7_less)

definition UnsignedLEB128_exec :: "u64 exec_combinator" where
  "UnsignedLEB128_exec =
     \<lparr>c_length = (\<lambda>v. Ret (leb128_length_loop v 0)), c_parse = (\<lambda>ss. leb128_parse_loop ss 0 0 0),
      c_serialize = (\<lambda>v buf pos. leb128_serialize_loop v 0 buf pos)\<rparr>"

declare leb128_serialize_helper.simps [simp del] leb128_length_loop.simps [simp del] leb128_serialize_loop.simps [simp del]

section \<open>Bits\<close>

lemma low_7_mask: "(0x7f :: 'w::len word) = mask 7"
  by (simp add: mask_eq_exp_minus_1)

lemma high_bit_iff: "is_high_8_bit_set b \<longleftrightarrow> bit b 7"
proof -
  have "unat b < 256" using unsigned_less [of b] by simp
  then have "unat b div 128 = (if 128 \<le> unat b then 1 else 0)" by (auto intro: div_nat_eqI)
  then have "bit (unat b) 7 \<longleftrightarrow> 128 \<le> unat b" by (simp add: bit_iff_odd)
  moreover have "bit (unat b) 7 \<longleftrightarrow> bit b 7" by (simp add: bit_unsigned_iff)
  ultimately show ?thesis by (simp add: is_high_8_bit_set_def word_le_nat_alt)
qed

lemma bit_low_7 [simp]: "bit (take_low_7_bits b) n \<longleftrightarrow> n < 7 \<and> bit b n"
  by (auto simp: take_low_7_bits_def low_7_mask bit_and_iff bit_mask_iff dest: bit_imp_le_length)

lemma bit_set_high [simp]: "bit (set_high_8_bit b) n \<longleftrightarrow> n = 7 \<or> bit b n"
proof -
  have "bit (0x80 :: u8) n \<longleftrightarrow> n = 7" using bit_exp_iff [of 7 n, where 'a = u8] by auto
  then show ?thesis by (auto simp: set_high_8_bit_def bit_or_iff)
qed

lemma high_set_high [simp]: "is_high_8_bit_set (set_high_8_bit b)"
  by (simp add: high_bit_iff)

lemma not_high_low_7 [simp]: "\<not> is_high_8_bit_set (take_low_7_bits b)"
  by (simp add: high_bit_iff)

lemma low_7_set_high [simp]: "take_low_7_bits (set_high_8_bit b) = take_low_7_bits b"
  by (rule bit_word_eqI) auto

lemma low_7_idem [simp]: "take_low_7_bits (take_low_7_bits b) = take_low_7_bits b"
  by (rule bit_word_eqI) auto

lemma set_high_low_7: "is_high_8_bit_set b \<Longrightarrow> set_high_8_bit (take_low_7_bits b) = b"
  by (rule bit_word_eqI) (auto simp: high_bit_iff less_Suc_eq numeral_eq_Suc)

lemma low_7_id: "\<not> is_high_8_bit_set b \<Longrightarrow> take_low_7_bits b = b"
  by (rule bit_word_eqI) (auto simp: high_bit_iff less_Suc_eq numeral_eq_Suc)

lemma unat_low_7: "unat (take_low_7_bits b) = unat b mod 128"
  by (simp add: take_low_7_bits_def low_7_mask take_bit_eq_mod unat_mod flip: take_bit_eq_mask)

lemma ucast_low_7 [simp]: "ucast (take_low_7_bits (ucast v)) = take_bit 7 v" for v :: u64
  by (rule bit_word_eqI) (auto simp: bit_unsigned_iff bit_take_bit_iff)

lemma low_7_or_shift [simp]:
  "take_low_7_bits (ucast (push_bit 7 v OR ucast (take_low_7_bits b))) = take_low_7_bits b" for v :: u64
  by (rule bit_word_eqI) (auto simp: bit_unsigned_iff bit_or_iff bit_push_bit_iff)

lemma shift_drop_7 [simp]: "push_bit 7 (drop_bit 7 v) OR take_bit 7 v = v" for v :: u64
  by (rule bit_word_eqI) (auto simp: bit_or_iff bit_push_bit_iff bit_drop_bit_eq bit_take_bit_iff)

lemma n_bit_max_57: "v \<le> n_bit_max_unsigned (64 - 7) \<longleftrightarrow> unat v < 2 ^ 57"
  by (simp add: n_bit_max_unsigned_def u64_max_def word_le_nat_alt) linarith

lemma bit_less_exp: "unat v < 2 ^ k \<Longrightarrow> bit v n \<Longrightarrow> n < k" for v :: "'w::len word"
proof (rule ccontr)
  assume v: "unat v < 2 ^ k" "bit v n" and "\<not> n < k"
  then have "(2 :: nat) ^ k \<le> 2 ^ n" by simp
  with v(1) have "unat v < 2 ^ n" by (rule less_le_trans)
  then have "unat v div 2 ^ n = 0" by simp
  then have "\<not> bit (unat v) n" by (simp add: bit_iff_odd)
  with v show False by (simp add: bit_unsigned_iff bit_imp_le_length)
qed

lemma drop_shift_7:
  fixes v :: u64
  assumes "unat v < 2 ^ 57"
  shows "drop_bit 7 (push_bit 7 v OR ucast (take_low_7_bits b)) = v"
  by (rule bit_word_eqI)
    (use bit_less_exp [OF assms] in \<open>auto simp: bit_or_iff bit_push_bit_iff bit_drop_bit_eq bit_unsigned_iff\<close>)

lemma unat_or_shift:
  fixes a b :: "'w::len word"
  assumes "unat a < 2 ^ k" "unat a + 2 ^ k * unat b < 2 ^ LENGTH('w)"
  shows "unat (a OR push_bit k b) = unat a + 2 ^ k * unat b"
proof -
  have "a AND push_bit k b = 0"
    by (rule bit_word_eqI) (auto simp: bit_and_iff bit_push_bit_iff dest!: bit_less_exp [OF assms(1)])
  then have "a OR push_bit k b = a + push_bit k b" by (simp add: disjunctive_add_eq_or)
  moreover have "unat (push_bit k b) = 2 ^ k * unat b"
  proof -
    have "unat (push_bit k b) = take_bit LENGTH('w) (push_bit k (unat b))" by (rule unsigned_push_bit_eq)
    with assms(2) show ?thesis by (simp add: push_bit_nat_def take_bit_nat_eq_self mult.commute)
  qed
  ultimately show ?thesis using assms(2) by (simp add: unat_word_ariths)
qed

section \<open>The specification\<close>

lemma unat_u64_exp: "unat v < 2 ^ 64" for v :: u64
  using unsigned_less [of v, where 'a = nat] by simp

lemma leb128_parse_length: "leb128_spec_parse s = Some (n, v) \<Longrightarrow> 0 < n \<and> n \<le> length s"
  by (induction s arbitrary: n v) (auto simp: Let_def split: if_splits option.splits)

lemma leb128_serialize_length: "length (leb128_serialize_helper v) \<le> 10"
proof -
  have "unat v < 128 ^ k \<Longrightarrow> 0 < k \<Longrightarrow> length (leb128_serialize_helper v) \<le> k" for k v
  proof (induction k arbitrary: v)
    case (Suc k)
    show ?case
    proof (cases "drop_bit 7 v = 0")
      case False
      then have "0 < unat v div 128" by (simp add: unat_gt_0 flip: unat_drop_7)
      with Suc.prems have "0 < k" by (cases k) auto
      moreover have "unat (drop_bit 7 v) < 128 ^ k"
        using Suc.prems(1) by (simp add: unat_drop_7 div_less_iff_less_mult mult.commute)
      ultimately show ?thesis using Suc.IH False by (subst leb128_serialize_helper.simps) (simp add: Let_def)
    qed (subst leb128_serialize_helper.simps, simp)
  qed simp
  moreover have "unat v < 128 ^ 10" using unat_u64_exp [of v] by simp
  ultimately show ?thesis by simp
qed

lemma leb128_serialize_parse:
  "leb128_spec_parse (leb128_serialize_helper v @ s) = Some (length (leb128_serialize_helper v), v)"
proof (induction v rule: leb128_serialize_helper.induct)
  case (1 v)
  show ?case
  proof (cases "drop_bit 7 v = 0")
    case True
    then have "take_bit 7 v = v" using shift_drop_7 [of v] by simp
    with True show ?thesis by (subst (1 2) leb128_serialize_helper.simps) (simp add: Let_def)
  next
    case False
    have len: "length (leb128_serialize_helper (drop_bit 7 v)) < usize_max"
      using leb128_serialize_length [of "drop_bit 7 v"] by (simp add: usize_max_def)
    have hi: "0 < drop_bit 7 v" using False by (simp add: word_gt_0)
    have bound: "drop_bit 7 v \<le> n_bit_max_unsigned (64 - 7)"
      unfolding n_bit_max_57 using unat_u64_exp [of v] by (simp add: unat_drop_7 div_less_iff_less_mult)
    show ?thesis
      using 1 [OF refl refl False] False len hi bound
      by (subst (1 2) leb128_serialize_helper.simps) (simp add: Let_def)
  qed
qed

lemma leb128_parse_serialize: "leb128_spec_parse s = Some (n, v) \<Longrightarrow> leb128_serialize_helper v = take n s"
proof (induction s arbitrary: n v)
  case (Cons b s)
  show ?case
  proof (cases "is_high_8_bit_set b")
    case True
    with Cons.prems obtain m v2 where p: "leb128_spec_parse s = Some (m, v2)" "0 < v2" "unat v2 < 2 ^ 57"
      "n = m + 1" "v = push_bit 7 v2 OR ucast (take_low_7_bits b)"
      by (auto simp: Let_def n_bit_max_57 [simplified] split: option.splits if_splits)
    have "drop_bit 7 v = v2" using drop_shift_7 [OF p(3)] p(5) by simp
    moreover have "v2 \<noteq> 0" using p(2) by auto
    moreover have "take_low_7_bits (ucast v) = take_low_7_bits b" using p(5) by simp
    ultimately show ?thesis
      using p(4) True Cons.IH [OF p(1)] by (subst leb128_serialize_helper.simps) (simp add: Let_def set_high_low_7)
  next
    case False
    with Cons.prems have v: "n = 1" "v = ucast b" by (auto simp: Let_def low_7_id)
    have "drop_bit 7 v = 0"
      by (rule bit_word_eqI)
        (use False in \<open>auto simp: v bit_drop_bit_eq bit_unsigned_iff high_bit_iff less_Suc_eq numeral_eq_Suc dest: bit_imp_le_length\<close>)
    moreover have "ucast v = b" by (rule bit_word_eqI) (simp add: v bit_unsigned_iff)
    then have "take_low_7_bits (ucast v) = b" using False by (simp add: low_7_id)
    ultimately show ?thesis using v by (subst leb128_serialize_helper.simps) simp
  qed
qed simp

interpretation leb128: SecureSpecCombinator UnsignedLEB128_spec
proof
  show "spec_parse UnsignedLEB128_spec (s @ s') = Some (n, v)"
    if "spec_parse UnsignedLEB128_spec s = Some (n, v)" for s s' n v
  proof -
    from that have p: "leb128_spec_parse s = Some (n, v)" by (simp add: UnsignedLEB128_spec_def)
    have eq: "leb128_serialize_helper v @ (drop n s @ s') = s @ s'"
      using leb128_parse_serialize [OF p] by (simp flip: append.assoc)
    have "length (leb128_serialize_helper v) = n"
      using leb128_parse_serialize [OF p] leb128_parse_length [OF p] by simp
    with leb128_serialize_parse [of v "drop n s @ s'"] show ?thesis
      unfolding eq by (simp add: UnsignedLEB128_spec_def)
  qed
qed (use leb128_serialize_parse [of _ "[]"] in \<open>auto simp: UnsignedLEB128_spec_def dest: leb128_parse_serialize leb128_parse_length\<close>)

section \<open>The parser\<close>

text \<open>What the loop makes of the rest of the input at index \<open>i\<close>: a value that is in range after the
  shift, and not zero after a continuation byte.\<close>

definition leb128_continue :: "nat \<Rightarrow> u64 \<Rightarrow> (nat \<times> u64) option \<Rightarrow> (nat \<times> u64) option" where
  "leb128_continue i acc r =
     (case r of
        Some (n, v) \<Rightarrow> if (i = 0 \<or> v \<noteq> 0) \<and> unat v < 2 ^ (64 - 7 * i) then Some (i + n, acc OR push_bit (7 * i) v) else None
      | None \<Rightarrow> None)"

lemma unat_low_7_less: "unat (ucast (take_low_7_bits b) :: u64) = unat (take_low_7_bits b)" "unat (take_low_7_bits b) < 128"
  by (simp_all add: unsigned_ucast_eq unat_low_7 take_bit_nat_eq_self)

lemma unat_shift_7:
  assumes "unat v2 < 2 ^ 57"
  shows "unat (push_bit 7 v2 OR ucast (take_low_7_bits b) :: u64) = unat (take_low_7_bits b) + 128 * unat v2"
  using unat_or_shift [of "ucast (take_low_7_bits b) :: u64" 7 v2] unat_low_7_less [of b] assms
  by (simp add: or.commute)

lemma digit_less: "a < 128 \<Longrightarrow> a + 128 * x < 128 * y \<longleftrightarrow> x < y" for a x y :: nat
  by arith

lemma pow_7: "(2 :: nat) ^ 7 = 128"
  by simp

lemma leb128_parse_loop_step:
  assumes i: "i < 9" and len: "length s < usize_max"
  shows "leb128_continue (i + 1) (acc OR push_bit (7 * i) (ucast (take_low_7_bits b))) (leb128_spec_parse s) =
    leb128_continue i acc
      (case leb128_spec_parse s of
         Some (n, v2) \<Rightarrow>
           if n < usize_max \<and> 0 < v2 \<and> v2 \<le> n_bit_max_unsigned (64 - 7)
           then Some (n + 1, push_bit 7 v2 OR ucast (take_low_7_bits b)) else None
       | None \<Rightarrow> None)"
proof (cases "leb128_spec_parse s")
  case (Some r)
  then obtain n v2 where r: "leb128_spec_parse s = Some (n, v2)" by (cases r) auto
  have n: "n < usize_max" using leb128_parse_length [OF r] len by simp
  have pow: "(2 :: nat) ^ (64 - 7 * i) = 128 * 2 ^ (57 - 7 * i)"
  proof -
    have "64 - 7 * i = 7 + (57 - 7 * i)" using i by simp
    then have "(2 :: nat) ^ (64 - 7 * i) = 2 ^ 7 * 2 ^ (57 - 7 * i)" by (metis power_add)
    then show ?thesis by (simp only: pow_7)
  qed
  have exp: "64 - 7 * (i + 1) = 57 - 7 * i" by simp
  have small: "unat v2 < 2 ^ 57" if "unat v2 < 2 ^ (57 - 7 * i)"
  proof -
    have "(2 :: nat) ^ (57 - 7 * i) \<le> 2 ^ 57" by (rule power_increasing) simp_all
    with that show ?thesis by (rule less_le_trans)
  qed
  have range: "unat (take_low_7_bits b) + 128 * unat v2 < 128 * 2 ^ (57 - 7 * i) \<longleftrightarrow> unat v2 < 2 ^ (57 - 7 * i)"
    by (rule digit_less [OF unat_low_7_less(2)])
  have nz: "push_bit 7 v2 OR ucast (take_low_7_bits b) \<noteq> (0 :: u64)" if "v2 \<noteq> 0" "unat v2 < 2 ^ 57"
  proof
    assume "push_bit 7 v2 OR ucast (take_low_7_bits b) = (0 :: u64)"
    with unat_shift_7 [OF that(2), of b] that(1) show False by (simp add: unat_eq_zero)
  qed
  have val: "(acc OR push_bit (7 * i) (ucast (take_low_7_bits b))) OR push_bit (7 * (i + 1)) v2 =
      acc OR push_bit (7 * i) (push_bit 7 v2 OR ucast (take_low_7_bits b))"
    by (simp add: push_bit_or or.assoc or.commute or.left_commute add.commute)
  show ?thesis
  proof (cases "v2 \<noteq> 0 \<and> unat v2 < 2 ^ (57 - 7 * i)")
    case True
    with small nz have "unat v2 < 2 ^ 57" "push_bit 7 v2 OR ucast (take_low_7_bits b) \<noteq> (0 :: u64)" by blast+
    with True n r val unat_shift_7 [of v2 b] range pow exp show ?thesis
      by (simp add: leb128_continue_def n_bit_max_57 [simplified] word_gt_0)
  next
    case False
    then show ?thesis
      using r unat_shift_7 [of v2 b] range pow exp
      by (auto simp: leb128_continue_def n_bit_max_57 [simplified] word_gt_0)
  qed
qed (simp add: leb128_continue_def)

lemma leb128_parse_loop_correct:
  "i \<le> 9 \<Longrightarrow> length s \<le> usize_max \<Longrightarrow>
     \<exists>r. leb128_parse_loop s i (7 * i) acc = Ret r \<and>
       (case r of Inl _ \<Rightarrow> None | Inr nv \<Rightarrow> Some nv) = leb128_continue i acc (leb128_spec_parse s)"
proof (induction s arbitrary: i acc)
  case (Cons b s)
  show ?case
  proof (cases "is_high_8_bit_set b")
    case True
    show ?thesis
    proof (cases "i = 9")
      case i: True
      have "\<not> unat (push_bit 7 v2 OR ucast (take_low_7_bits b) :: u64) < 2" if "v2 \<noteq> 0" "unat v2 < 2 ^ 57" for v2
        using unat_shift_7 [OF that(2), of b] that(1) unat_gt_0 [of v2] by linarith
      then have "leb128_continue 9 acc (leb128_spec_parse (b # s)) = None"
        using True by (auto simp: leb128_continue_def Let_def n_bit_max_57 [simplified] word_gt_0 split: option.splits)
      with i True show ?thesis by (simp add: Let_def)
    next
      case i: False
      with Cons.prems have i9: "i < 9" "length s < usize_max" by simp_all
      from leb128_parse_loop_step [OF this, of acc b]
        Cons.IH [of "i + 1" "acc OR push_bit (7 * i) (ucast (take_low_7_bits b))"] i9 True
      show ?thesis by (simp add: Let_def add.commute)
    qed
  next
    case False
    have v: "(ucast (take_low_7_bits b) :: u64) = 0 \<longleftrightarrow> take_low_7_bits b = 0"
      using unat_low_7_less(1) [of b] by (simp add: unat_eq_zero flip: unat_eq_zero)
    have le1: "take_low_7_bits b > 1 \<longleftrightarrow> \<not> unat (take_low_7_bits b) < 2"
      by (simp add: word_less_nat_alt) linarith
    have "(128 :: nat) \<le> 2 ^ (64 - 7 * i)" if "i < 9"
      using that power_increasing [of 7 "64 - 7 * i" "2 :: nat"] by simp
    with unat_low_7_less(2) [of b] have small: "unat (take_low_7_bits b) < 2 ^ (64 - 7 * i)" if "i < 9"
      using that less_le_trans by blast
    show ?thesis
    proof (cases "i = 9")
      case True
      then show ?thesis using False v le1 unat_low_7_less(1) [of b] by (auto simp: Let_def leb128_continue_def)
    next
      case i: False
      with Cons.prems small False v unat_low_7_less(1) [of b] show ?thesis by (auto simp: Let_def leb128_continue_def)
    qed
  qed
qed (simp add: leb128_continue_def)

lemma leb128_parse_exact:
  assumes "length s \<le> usize_max"
  shows "\<exists>r. c_parse UnsignedLEB128_exec s = Ret r \<and>
    spec_parse UnsignedLEB128_spec s = (case r of Inl _ \<Rightarrow> None | Inr nv \<Rightarrow> Some nv)"
proof -
  have "leb128_continue 0 0 r = r" for r using unat_u64_exp by (auto simp: leb128_continue_def split: option.split)
  with leb128_parse_loop_correct [of 0 s 0] assms show ?thesis
    by (auto simp: UnsignedLEB128_exec_def UnsignedLEB128_spec_def)
qed

section \<open>The serializer\<close>

lemma leb128_serialize_loop_eq:
  "v \<noteq> 0 \<Longrightarrow> i + length (leb128_serialize_helper v) \<le> 10 \<Longrightarrow> pos \<le> length buf \<Longrightarrow> length buf \<le> usize_max \<Longrightarrow>
     \<exists>buf'. leb128_serialize_loop v i buf pos =
       (if pos + length (leb128_serialize_helper v) \<le> length buf
        then Ret (Inr (pos + length (leb128_serialize_helper v)), seq_splice buf pos (leb128_serialize_helper v))
        else Ret (Inl InsufficientBuffer, buf'))"
proof (induction v arbitrary: i buf pos rule: leb128_serialize_helper.induct)
  case (1 v)
  let ?lo = "take_low_7_bits (ucast v)" and ?hi = "drop_bit 7 v"
  let ?byte = "if ?hi = 0 then ?lo else set_high_8_bit ?lo"
  have v: "v > 0" using "1.prems"(1) by (simp add: word_gt_0)
  have helper: "leb128_serialize_helper v = ?byte # (if ?hi = 0 then [] else leb128_serialize_helper ?hi)"
    by (subst leb128_serialize_helper.simps) (simp add: Let_def)
  show ?case
  proof (cases "pos < length buf")
    case False
    with v show ?thesis by (subst leb128_serialize_loop.simps) (simp add: Let_def helper)
  next
    case True
    let ?buf = "buf[pos := ?byte]"
    have step: "leb128_serialize_loop v i buf pos = leb128_serialize_loop ?hi (i + 1) ?buf (pos + 1)"
      using v True "1.prems" by (subst leb128_serialize_loop.simps) (simp add: Let_def outcome_simps helper)
    have splice: "seq_splice ?buf (pos + 1) bs = seq_splice buf pos (?byte # bs)" for bs
      using True by (simp add: seq_splice_def take_Suc_conv_app_nth)
    show ?thesis
    proof (cases "?hi = 0")
      case hi: True
      then have "leb128_serialize_loop ?hi (i + 1) ?buf (pos + 1) = Ret (Inr (pos + 1), ?buf)"
        by (subst leb128_serialize_loop.simps) simp
      with hi step True splice [of "[]"] show ?thesis by (simp add: helper)
    next
      case hi: False
      have "i + 1 + length (leb128_serialize_helper ?hi) \<le> 10" "pos + 1 \<le> length ?buf" "length ?buf \<le> usize_max"
        using "1.prems" True hi helper by simp_all
      from "1.IH" [OF refl refl hi hi this] obtain buf' where
        "leb128_serialize_loop ?hi (i + 1) ?buf (pos + 1) =
          (if pos + 1 + length (leb128_serialize_helper ?hi) \<le> length ?buf
           then Ret (Inr (pos + 1 + length (leb128_serialize_helper ?hi)),
                  seq_splice ?buf (pos + 1) (leb128_serialize_helper ?hi))
           else Ret (Inl InsufficientBuffer, buf'))" by blast
      then show ?thesis unfolding step helper splice using hi by (intro exI [of _ buf']) simp
    qed
  qed
qed

lemma leb128_serialize_zero:
  "c_serialize UnsignedLEB128_exec 0 buf pos = Ret (Inr pos, buf)" "c_length UnsignedLEB128_exec 0 = Ret 0"
  "spec_serialize UnsignedLEB128_spec 0 = [0]"
  by (simp_all add: UnsignedLEB128_exec_def UnsignedLEB128_spec_def leb128_serialize_loop.simps leb128_length_loop.simps
      leb128_serialize_helper.simps take_low_7_bits_def)

end
