(* ===== verification/Vest_Formats.thy ===== *)
theory Vest_Formats
  imports Vest_Varint Vest_Repetition Vest_Leb128
begin

text \<open>
  What the combinators of Vest promise to the formats built from them: code that writes a value of a
  composed format and code that reads it agree, for dependent pairs, choices, optional fields and
  repetitions over any components that meet the contract, and for the integers of Bitcoin. The
  serializer of LEB128 integers does not meet it.
\<close>

section \<open>Composed formats\<close>

text \<open>C31: a dependent pair is read back as it was written. For components that meet their contracts, of
  which the first is prefix-secure, a well-formed value is written wherever it fits, and reading at
  that position returns it with the number of bytes written, if the second component is prefix-secure
  or the value ends the buffer.\<close>

theorem pair_written_then_read:
  assumes "Combinator c1 e1" and "\<And>v. Combinator (c2 v) (e2 v)"
    and "sc_requires (Pair_spec c1 c2)" and "sc_wf c1 a" and "sc_wf (c2 a) b"
    and "pos + length (spec_serialize c1 a) + length (spec_serialize (c2 a) b) \<le> length data" and "length data \<le> usize_max"
    and "(\<forall>v. is_prefix_secure (c2 v)) \<or> pos + length (spec_serialize c1 a) + length (spec_serialize (c2 a) b) = length data"
  shows "\<exists>n data'. c_serialize (Pair_exec e1 e2) (a, b) data pos = Ret (Inr n, data') \<and>
    c_parse (Pair_exec e1 e2) (drop pos data') = Ret (Inr (n, (a, b)))"
  by (rule Combinator.written_then_read [OF pair_combinator [OF assms(1,2)] assms(3)])
    (use assms(3-8) in \<open>auto simp: Pair_spec_def add.assoc\<close>)

lemma U8_simps [simp]:
  "sc_requires U8_spec" "is_prefix_secure U8_spec" "is_productive U8_spec" "sc_wf U8_spec v" "spec_serialize U8_spec v = [v]"
  by (simp_all add: le_uint_spec_def u8_bytes_def)

lemma Variable_simps [simp]:
  "sc_requires (Variable_spec n)" "is_prefix_secure (Variable_spec n)" "sc_wf (Variable_spec n) v \<longleftrightarrow> length v = n"
  "spec_serialize (Variable_spec n) v = v"
  by (simp_all add: Variable_spec_def)

theorem pair_written_then_read_witness:
  "\<exists>n data'. c_serialize (Pair_exec U8_exec (\<lambda>n. Variable_exec (unat n))) (2, [7, 9]) [0, 0, 0, 0, 0] 1 = Ret (Inr n, data') \<and>
     c_parse (Pair_exec U8_exec (\<lambda>n. Variable_exec (unat n))) (drop 1 data') = Ret (Inr (n, (2, [7, 9])))"
  by (rule pair_written_then_read [OF u8_comb.Combinator_axioms variable.Combinator_axioms])
    (simp_all add: Pair_spec_def usize_max_def)

text \<open>Alternatives are read back as they were written. If the second alternative excludes the first
  one, a value of either is written wherever it fits and read back as a value of the same alternative.\<close>

theorem choice_written_then_read:
  assumes "Combinator c1 e1" and "Combinator c2 e2" and "DisjointFrom d c2 c1"
    and "sc_requires (Choice_spec d c1 c2)" and "sc_wf (Choice_spec d c1 c2) v"
    and "pos + length (spec_serialize (Choice_spec d c1 c2) v) \<le> length data" and "length data \<le> usize_max"
    and "is_prefix_secure (Choice_spec d c1 c2) \<or> pos + length (spec_serialize (Choice_spec d c1 c2) v) = length data"
  shows "\<exists>n data'. c_serialize (Choice_exec e1 e2) v data pos = Ret (Inr n, data') \<and>
    c_parse (Choice_exec e1 e2) (drop pos data') = Ret (Inr (n, v))"
  using choice_combinator [OF assms(1-3)] assms(4-8) by (rule Combinator.written_then_read)

lemma Tag_U8_simps [simp]:
  "sc_requires (Tag_spec U8_spec t)" "is_prefix_secure (Tag_spec U8_spec t)" "is_productive (Tag_spec U8_spec t)"
  "sc_wf (Tag_spec U8_spec t) v" "spec_serialize (Tag_spec U8_spec t) v = [t]"
  by (simp_all add: Tag_spec_def Refined_spec_def Let_def)

lemmas tag_U8 = Combinator.tag [OF u8_comb.Combinator_axioms]

lemma tag_U8_disjoint: "t1 \<noteq> t2 \<Longrightarrow> tag_disjoint_from U8_spec t1 U8_spec t2"
  by (simp add: tag_disjoint_from_def refined_disjoint_from_def)

theorem choice_written_then_read_witness:
  "\<exists>n data'. c_serialize (Choice_exec (Tag_exec U8_exec 1) (Tag_exec U8_exec 2)) (Right ()) [0, 0] 1 = Ret (Inr n, data') \<and>
     c_parse (Choice_exec (Tag_exec U8_exec 1) (Tag_exec U8_exec 2)) (drop 1 data') = Ret (Inr (n, Right ()))"
  by (rule choice_written_then_read [OF tag_U8 tag_U8 tag_disjoint.DisjointFrom_axioms])
    (simp_all add: Choice_spec_def usize_max_def tag_U8_disjoint)

text \<open>An optional field is read back as it was written, present or absent, if what follows excludes
  it. An absent field is not taken from the bytes of the following one.\<close>

theorem optional_field_written_then_read:
  assumes "Combinator c1 e1" and "Combinator c2 e2" and "DisjointFrom d c2 c1"
    and "sc_requires (OptThen_spec d c1 c2)" and "sc_wf (OptThen_spec d c1 c2) v"
    and "pos + length (spec_serialize (OptThen_spec d c1 c2) v) \<le> length data" and "length data \<le> usize_max"
    and "is_prefix_secure (OptThen_spec d c1 c2) \<or> pos + length (spec_serialize (OptThen_spec d c1 c2) v) = length data"
  shows "\<exists>n data'. c_serialize (OptThen_exec e1 e2) v data pos = Ret (Inr n, data') \<and>
    c_parse (OptThen_exec e1 e2) (drop pos data') = Ret (Inr (n, v))"
  using opt_then_combinator [OF assms(1-3)] assms(4-8) by (rule Combinator.written_then_read)

theorem optional_field_written_then_read_witness:
  "\<exists>n data'. c_serialize (OptThen_exec (Tag_exec U8_exec 1) (Tag_exec U8_exec 2)) (None, ()) [0, 0] 1 = Ret (Inr n, data') \<and>
     c_parse (OptThen_exec (Tag_exec U8_exec 1) (Tag_exec U8_exec 2)) (drop 1 data') = Ret (Inr (n, (None, ())))"
  by (rule optional_field_written_then_read [OF tag_U8 tag_U8 tag_disjoint.DisjointFrom_axioms])
    (simp_all add: OptThen_spec_def Let_def Tuple_spec_def Pair_spec_def Opt_spec_def usize_max_def tag_U8_disjoint)

text \<open>C32: the loop that repeats a productive and prefix-secure parser until the end of the input returns on
  every input, and it succeeds exactly on the concatenations of encodings, with their values.\<close>

theorem repeat_parser_terminates:
  assumes "Combinator c e" and "sc_requires c" and "is_prefix_secure c" and "is_productive c" and "length s \<le> usize_max"
  shows "\<exists>r. c_parse (Repeat_exec e) s = Ret r \<and>
    (case r of
       Inl _ \<Rightarrow> \<not> (\<exists>vs. (\<forall>v \<in> set vs. sc_wf c v) \<and> concat (map (spec_serialize c) vs) = s)
     | Inr (n, vs) \<Rightarrow> n = length s \<and> (\<forall>v \<in> set vs. sc_wf c v) \<and> concat (map (spec_serialize c) vs) = s)"
proof -
  have c: "SecureSpecCombinator c" by (rule Combinator.axioms(1) [OF assms(1)])
  obtain r where r: "c_parse (Repeat_exec e) s = Ret r"
    "repeat_spec_parse c s = (case r of Inl _ \<Rightarrow> None | Inr nv \<Rightarrow> Some nv)"
    using Combinator.parse_correct [OF Combinator.repeat [OF assms(1)], of s] assms(2-5) by auto
  show ?thesis
  proof (cases r)
    case (Inl x)
    with r SecureSpecCombinator.repeat_serialize_parse [OF c assms(2-4)] show ?thesis by fastforce
  next
    case (Inr nv)
    with r SecureSpecCombinator.repeat_parse_laws [OF c assms(2,4), of s] show ?thesis by (cases nv) auto
  qed
qed

theorem repeat_parser_terminates_witness:
  "\<exists>r. c_parse (Repeat_exec U8_exec) [3, 5] = Ret r \<and> (case r of Inl _ \<Rightarrow> False | Inr (n, vs) \<Rightarrow> vs = [3, 5])"
proof -
  obtain r where r: "c_parse (Repeat_exec U8_exec) [3, 5] = Ret r"
    "case r of
       Inl _ \<Rightarrow> \<not> (\<exists>vs. (\<forall>v \<in> set vs. sc_wf U8_spec v) \<and> concat (map (spec_serialize U8_spec) vs) = [3, 5])
     | Inr (n, vs) \<Rightarrow> n = length [3, 5 :: u8] \<and> (\<forall>v \<in> set vs. sc_wf U8_spec v) \<and> concat (map (spec_serialize U8_spec) vs) = [3, 5]"
    using repeat_parser_terminates [OF u8_comb.Combinator_axioms, of "[3, 5]"] by (auto simp: usize_max_def)
  have single: "concat (map (spec_serialize U8_spec) vs) = vs" for vs by (induction vs) auto
  from r show ?thesis by (cases r) (auto simp: single)
qed

section \<open>The integers of Bitcoin\<close>

text \<open>C33: a well-formed variable-length integer is written wherever it fits and read back, whatever
  follows it in the buffer.\<close>

theorem varint_written_then_read:
  assumes "sc_wf BtcVarint_spec v" and "pos + length (spec_serialize BtcVarint_spec v) \<le> length data"
    and "length data \<le> usize_max"
  shows "\<exists>n data'. c_serialize BtcVarint_exec v data pos = Ret (Inr n, data') \<and>
    c_parse BtcVarint_exec (drop pos data') = Ret (Inr (n, v))"
  using btc_varint_requires assms by (intro btc_varint.written_then_read) simp_all

theorem varint_written_then_read_witness:
  "\<exists>n data'. c_serialize BtcVarint_exec (VarU16 0xFD) [0, 0, 0, 0, 0] 1 = Ret (Inr n, data') \<and>
     c_parse BtcVarint_exec (drop 1 data') = Ret (Inr (n, VarU16 0xFD))"
  by (rule varint_written_then_read) (simp_all add: btc_varint_wf btc_varint_size usize_max_def)

text \<open>The size of the shortest form of a number.\<close>

definition shortest_varint :: "nat \<Rightarrow> nat" where
  "shortest_varint x = (if x \<le> 0xFC then 1 else if x \<le> 0xFFFF then 3 else if x \<le> 0xFFFFFFFF then 5 else 9)"

lemma u16_u32_bounds:
  "65535 < unat (x :: u16) \<Longrightarrow> False" "4294967295 < unat (x :: u16) \<Longrightarrow> False" "4294967295 < unat (y :: u32) \<Longrightarrow> False"
  using unsigned_less [of x, where 'a = nat] unsigned_less [of y, where 'a = nat] by simp_all

text \<open>C34: the parser of variable-length integers returns on every input, what it returns is well-formed,
  and it accepts a number only in its shortest form.\<close>

theorem varint_parser_shortest:
  assumes "length s \<le> usize_max"
  shows "\<exists>r. c_parse BtcVarint_exec s = Ret r \<and>
    (\<forall>n v. r = Inr (n, v) \<longrightarrow> sc_wf BtcVarint_spec v \<and> n = shortest_varint (varint_as_usize v) \<and>
       take n s = spec_serialize BtcVarint_spec v)"
proof -
  have "n = shortest_varint (varint_as_usize v)" if "sc_wf spec_btc_varint_inner v" "length (spec_serialize spec_btc_varint_inner v) = n" for n v
    using that by (cases v) (auto simp: btc_varint_wf btc_varint_size shortest_varint_def word_le_nat_alt not_le dest: u16_u32_bounds)
  moreover obtain r where r: "c_parse BtcVarint_exec s = Ret r"
    "spec_parse BtcVarint_spec s = (case r of Inl _ \<Rightarrow> None | Inr nv \<Rightarrow> Some nv)"
    using btc_varint.parse_correct assms btc_varint_requires(1) by auto
  moreover have "sc_wf BtcVarint_spec v \<and> spec_serialize BtcVarint_spec v = take n s \<and> n \<le> length s" if "r = Inr (n, v)" for n v
    using r(2) that btc_varint.parse_serialize_roundtrip [of s n v] btc_varint.parse_length [of s n v] btc_varint_requires(1)
    by simp
  ultimately show ?thesis by (metis BtcVarint_spec_eq length_take min.absorb2)
qed

theorem varint_parser_shortest_witness:
  "\<exists>r. c_parse BtcVarint_exec [0xFD, 0x01, 0x00] = Ret r \<and>
     (\<forall>n v. r = Inr (n, v) \<longrightarrow> n = shortest_varint (varint_as_usize v))"
  using varint_parser_shortest [of "[0xFD, 0x01, 0x00]"] by (auto simp: usize_max_def)

section \<open>LEB128 integers\<close>

text \<open>C35: the loop of the parser of LEB128 integers, with its accumulator, its shift and its overflow and
  canonicity checks, never panics and computes exactly the recursive specification. In particular it
  reads every encoding back, whatever follows.\<close>

theorem leb128_parser_exact:
  assumes "length s \<le> usize_max"
  shows "\<exists>r. c_parse UnsignedLEB128_exec s = Ret r \<and>
      leb128_spec_parse s = (case r of Inl _ \<Rightarrow> None | Inr nv \<Rightarrow> Some nv) \<and>
      (\<forall>v rest. s = leb128_serialize_helper v @ rest \<longrightarrow> r = Inr (length (leb128_serialize_helper v), v))"
proof -
  obtain r where "c_parse UnsignedLEB128_exec s = Ret r"
    "leb128_spec_parse s = (case r of Inl _ \<Rightarrow> None | Inr nv \<Rightarrow> Some nv)"
    using leb128_parse_exact [OF assms] by (auto simp: UnsignedLEB128_spec_def)
  then show ?thesis using leb128_serialize_parse by (cases r) auto
qed

theorem leb128_parser_exact_witness:
  "\<exists>r. c_parse UnsignedLEB128_exec (leb128_serialize_helper 300 @ [0xFF]) = Ret r \<and>
     r = Inr (length (leb128_serialize_helper 300), 300)"
proof -
  have "length (leb128_serialize_helper 300 @ [0xFF :: u8]) \<le> usize_max"
    using leb128_serialize_length [of 300] by (simp add: usize_max_def)
  from leb128_parser_exact [OF this] show ?thesis by blast
qed

text \<open>C36: the serializer of LEB128 integers does not meet the contract of the trait. Where the bytes of
  a value fit, it writes them but returns the position after them, not their number, and it writes
  nothing for zero, whose encoding is one byte; \<open>length\<close> is zero for it.\<close>

theorem leb128_serializer_returns_position:
  assumes "pos + length (spec_serialize UnsignedLEB128_spec v) \<le> length buf" and "length buf \<le> usize_max"
  shows "c_serialize UnsignedLEB128_exec v buf pos =
      (if v = 0 then Ret (Inr pos, buf)
       else Ret (Inr (pos + length (spec_serialize UnsignedLEB128_spec v)),
              seq_splice buf pos (spec_serialize UnsignedLEB128_spec v))) \<and>
    c_length UnsignedLEB128_exec 0 = Ret 0 \<and> spec_serialize UnsignedLEB128_spec 0 = [0]"
  using leb128_serialize_loop_eq [of v 0 pos buf] assms leb128_serialize_length [of v] leb128_serialize_zero
  by (auto simp: UnsignedLEB128_exec_def UnsignedLEB128_spec_def)

theorem leb128_serializer_returns_position_witness:
  "c_serialize UnsignedLEB128_exec 5 [0, 0, 0] 1 \<noteq> Ret (Inr (length (spec_serialize UnsignedLEB128_spec 5)), [0, 5, 0])"
proof -
  have "spec_serialize UnsignedLEB128_spec 5 = [5]"
    by (simp add: UnsignedLEB128_spec_def leb128_serialize_helper.simps take_low_7_bits_def drop_bit_eq_div)
  with leb128_serializer_returns_position [of 1 5 "[0, 0, 0]"] show ?thesis by (simp add: usize_max_def)
qed

end
