(* ===== verification/Keys.thy ===== *)
theory Keys
  imports Prelude
begin

text \<open>
  The key type of the store and its ordering (\<open>keys_t.rs\<close> and the iterator part of
  \<open>delegation_map_v.rs\<close>): \<open>Ordering\<close>, the trait \<open>KeyTrait\<close> as a locale that the key type
  \<open>SHTKey\<close> interprets, key iterators, which add an end above every key, and half-open key ranges.
  A trait bound \<open>K: KeyTrait\<close> of the source is an explicit comparison argument \<open>cmp\<close> here.
\<close>

section \<open>Orderings\<close>

datatype Ordering = Less | Equal | Greater

definition is_eq :: "Ordering \<Rightarrow> bool" where
  "is_eq ord = (case ord of Equal \<Rightarrow> True | _ \<Rightarrow> False)"

definition is_ne :: "Ordering \<Rightarrow> bool" where
  "is_ne ord = (case ord of Equal \<Rightarrow> False | _ \<Rightarrow> True)"

definition is_lt :: "Ordering \<Rightarrow> bool" where
  "is_lt ord = (case ord of Less \<Rightarrow> True | _ \<Rightarrow> False)"

definition is_gt :: "Ordering \<Rightarrow> bool" where
  "is_gt ord = (case ord of Greater \<Rightarrow> True | _ \<Rightarrow> False)"

definition is_le :: "Ordering \<Rightarrow> bool" where
  "is_le ord = (case ord of Greater \<Rightarrow> False | _ \<Rightarrow> True)"

definition is_ge :: "Ordering \<Rightarrow> bool" where
  "is_ge ord = (case ord of Less \<Rightarrow> False | _ \<Rightarrow> True)"

lemma ordering_tests [simp]:
  "is_eq ord \<longleftrightarrow> ord = Equal" "is_ne ord \<longleftrightarrow> ord \<noteq> Equal"
  "is_lt ord \<longleftrightarrow> ord = Less" "is_gt ord \<longleftrightarrow> ord = Greater"
  "is_le ord \<longleftrightarrow> ord \<noteq> Greater" "is_ge ord \<longleftrightarrow> ord \<noteq> Less"
  by (auto simp: is_eq_def is_ne_def is_lt_def is_gt_def is_le_def is_ge_def split: Ordering.splits)

section \<open>Keys\<close>

datatype SHTKey = SHTKey (ukey: u64)

type_synonym AbstractKey = SHTKey
type_synonym CKey = SHTKey

definition shtkey_zero :: SHTKey where
  "shtkey_zero = SHTKey 0"

definition shtkey_cmp :: "SHTKey \<Rightarrow> SHTKey \<Rightarrow> Ordering" where
  "shtkey_cmp a b =
     (if ukey a < ukey b then Less else if ukey a = ukey b then Equal else Greater)"

text \<open>The derived order on keys, by which \<open>to_vec\<close> sorts.\<close>

instantiation SHTKey :: linorder
begin

definition less_eq_SHTKey :: "SHTKey \<Rightarrow> SHTKey \<Rightarrow> bool" where
  "less_eq_SHTKey a b \<longleftrightarrow> ukey a \<le> ukey b"

definition less_SHTKey :: "SHTKey \<Rightarrow> SHTKey \<Rightarrow> bool" where
  "less_SHTKey a b \<longleftrightarrow> ukey a < ukey b"

instance
  by standard (auto simp: less_eq_SHTKey_def less_SHTKey_def intro: SHTKey.expand)

end

section \<open>Key iterators and ranges\<close>

text \<open>\<open>KeyIterator { k: None }\<close> is the end, above every key.\<close>

datatype 'k KeyIterator = KeyIterator (ki_k: "'k option")

definition ki_new :: "'k \<Rightarrow> 'k KeyIterator" where
  "ki_new k = KeyIterator (Some k)"

definition ki_end :: "'k KeyIterator" where
  "ki_end = KeyIterator None"

definition ki_is_end :: "'k KeyIterator \<Rightarrow> bool" where
  "ki_is_end ki = (case ki_k ki of None \<Rightarrow> True | Some _ \<Rightarrow> False)"

definition ki_get :: "'k KeyIterator \<Rightarrow> 'k outcome" where
  "ki_get ki = unwrap (ki_k ki)"

definition ki_lt :: "('k \<Rightarrow> 'k \<Rightarrow> Ordering) \<Rightarrow> 'k KeyIterator \<Rightarrow> 'k KeyIterator \<Rightarrow> bool" where
  "ki_lt cmp a b =
     (case (ki_k a, ki_k b) of
        (Some _, None) \<Rightarrow> True
      | (Some i, Some j) \<Rightarrow> is_lt (cmp i j)
      | _ \<Rightarrow> False)"

definition ki_above :: "('k \<Rightarrow> 'k \<Rightarrow> Ordering) \<Rightarrow> 'k KeyIterator \<Rightarrow> 'k \<Rightarrow> bool" where
  "ki_above cmp a k = (case ki_k a of None \<Rightarrow> True | Some j \<Rightarrow> is_lt (cmp k j))"

text \<open>Is \<open>ki\<close> in the range \<open>[lhs, rhs)\<close>?\<close>

definition ki_between ::
    "('k \<Rightarrow> 'k \<Rightarrow> Ordering) \<Rightarrow> 'k KeyIterator \<Rightarrow> 'k KeyIterator \<Rightarrow> 'k KeyIterator \<Rightarrow> bool" where
  "ki_between cmp lhs ki rhs \<longleftrightarrow> \<not> ki_lt cmp ki lhs \<and> ki_lt cmp ki rhs"

datatype 'k KeyRange = KeyRange (kr_lo: "'k KeyIterator") (kr_hi: "'k KeyIterator")

definition kr_contains :: "('k \<Rightarrow> 'k \<Rightarrow> Ordering) \<Rightarrow> 'k KeyRange \<Rightarrow> 'k \<Rightarrow> bool" where
  "kr_contains cmp kr k \<longleftrightarrow> ki_between cmp (kr_lo kr) (ki_new k) (kr_hi kr)"

definition kr_is_empty :: "('k \<Rightarrow> 'k \<Rightarrow> Ordering) \<Rightarrow> 'k KeyRange \<Rightarrow> bool" where
  "kr_is_empty cmp kr \<longleftrightarrow> \<not> ki_lt cmp (kr_lo kr) (kr_hi kr)"

definition kr_contains_exec :: "('k \<Rightarrow> 'k \<Rightarrow> Ordering) \<Rightarrow> 'k KeyRange \<Rightarrow> 'k \<Rightarrow> bool" where
  "kr_contains_exec cmp kr k =
     (let ki = KeyIterator (Some k) in \<not> ki_lt cmp ki (kr_lo kr) \<and> ki_lt cmp ki (kr_hi kr))"

lemma ki_simps [simp]:
  "ki_k (ki_new k) = Some k" "ki_k ki_end = None"
  "\<not> ki_is_end (ki_new k)" "ki_is_end ki_end"
  "ki_is_end (KeyIterator None)" "\<not> ki_is_end (KeyIterator (Some k))"
  "ki_get (ki_new k) = Ret k" "ki_get (KeyIterator (Some k)) = Ret k"
  "ki_new k = ki_new k' \<longleftrightarrow> k = k'" "ki_new k \<noteq> ki_end" "ki_end \<noteq> ki_new k"
  by (auto simp: ki_new_def ki_end_def ki_is_end_def ki_get_def)

lemma ki_cases: obtains (end_) "ki = ki_end" | (key) k where "ki = ki_new k"
  by (metis KeyIterator.exhaust ki_end_def ki_new_def not_None_eq)

lemma ki_lt_simps [simp]:
  "ki_lt cmp (ki_new a) ki_end" "\<not> ki_lt cmp ki_end c"
  "ki_lt cmp (ki_new a) (ki_new b) \<longleftrightarrow> cmp a b = Less"
  by (auto simp: ki_lt_def)

lemma ki_above_iff: "ki_above cmp a k \<longleftrightarrow> ki_lt cmp (ki_new k) a"
  by (auto simp: ki_above_def ki_lt_def split: option.splits)

lemma kr_contains_exec_eq [simp]: "kr_contains_exec cmp kr k = kr_contains cmp kr k"
  by (simp add: kr_contains_exec_def kr_contains_def ki_between_def ki_new_def Let_def)

section \<open>The trait \<open>KeyTrait\<close>\<close>

text \<open>The laws that \<open>cmp_properties\<close> and \<open>zero_properties\<close> require of an implementation of
  the trait. They make the comparison a linear order with a least element, and they extend to
  iterators.\<close>

locale KeyTrait =
  fixes zero :: 'k
    and cmp :: "'k \<Rightarrow> 'k \<Rightarrow> Ordering"
  assumes cmp_eq: "cmp a b = Equal \<longleftrightarrow> a = b"
    and cmp_asym: "cmp a b = Less \<longleftrightarrow> cmp b a = Greater"
    and cmp_trans: "cmp a b = Less \<Longrightarrow> cmp b c = Less \<Longrightarrow> cmp a c = Less"
    and zero_least: "k \<noteq> zero \<Longrightarrow> cmp zero k = Less"
begin

lemma cmp_self [simp]: "cmp a a = Equal"
  by (simp add: cmp_eq)

lemma cmp_connected: "a \<noteq> b \<Longrightarrow> cmp a b = Less \<or> cmp b a = Less"
  by (metis Ordering.exhaust cmp_asym cmp_eq)

lemma ki_lt_irrefl [simp]: "\<not> ki_lt cmp a a"
  by (cases a rule: ki_cases) auto

lemma ki_lt_trans: "ki_lt cmp a b \<Longrightarrow> ki_lt cmp b c \<Longrightarrow> ki_lt cmp a c"
  by (cases a rule: ki_cases; cases b rule: ki_cases; cases c rule: ki_cases) (auto intro: cmp_trans)

lemma ki_lt_asym: "ki_lt cmp a b \<Longrightarrow> \<not> ki_lt cmp b a"
  using ki_lt_irrefl ki_lt_trans by blast

lemma ki_lt_total: "ki_lt cmp a b \<or> a = b \<or> ki_lt cmp b a"
  by (cases a rule: ki_cases; cases b rule: ki_cases) (auto dest: cmp_connected)

lemma zero_iter_le: "\<not> ki_lt cmp a (ki_new zero)"
proof (cases a rule: ki_cases)
  case (key k)
  then show ?thesis
    by (metis Ordering.distinct(3) cmp_asym cmp_self ki_lt_simps(3) zero_least Ordering.distinct(1))
qed simp

end

sublocale KeyTrait \<subseteq> ki: linorder "\<lambda>a b. \<not> ki_lt cmp b a" "ki_lt cmp"
proof unfold_locales
  show "ki_lt cmp x y \<longleftrightarrow> \<not> ki_lt cmp y x \<and> \<not> \<not> ki_lt cmp x y" for x y
    using ki_lt_asym by auto
  show "\<not> ki_lt cmp x x" for x by simp
  show "\<not> ki_lt cmp y x \<Longrightarrow> \<not> ki_lt cmp z y \<Longrightarrow> \<not> ki_lt cmp z x" for x y z
    by (metis ki_lt_total ki_lt_trans)
  show "\<not> ki_lt cmp y x \<Longrightarrow> \<not> ki_lt cmp x y \<Longrightarrow> x = y" for x y
    using ki_lt_total by blast
  show "\<not> ki_lt cmp y x \<or> \<not> ki_lt cmp x y" for x y
    using ki_lt_asym by auto
qed

interpretation sht: KeyTrait shtkey_zero shtkey_cmp
proof unfold_locales
  fix a b c k :: SHTKey
  show "shtkey_cmp a b = Equal \<longleftrightarrow> a = b"
    by (auto simp: shtkey_cmp_def SHTKey.expand)
  show "shtkey_cmp a b = Less \<longleftrightarrow> shtkey_cmp b a = Greater"
    by (auto simp: shtkey_cmp_def)
  show "shtkey_cmp a b = Less \<Longrightarrow> shtkey_cmp b c = Less \<Longrightarrow> shtkey_cmp a c = Less"
    by (auto simp: shtkey_cmp_def split: if_splits)
  show "k \<noteq> shtkey_zero \<Longrightarrow> shtkey_cmp shtkey_zero k = Less"
    by (cases k) (auto simp: shtkey_cmp_def shtkey_zero_def word_gt_0)
qed

end
