(* ===== verification/End_Points.thy ===== *)
theory End_Points
  imports Prelude "HOL-Library.List_Lexorder"
begin

text \<open>
  End points (\<open>io_t.rs\<close>, \<open>abstract_end_point_t.rs\<close>), command line arguments (\<open>args_t.rs\<close>)
  and the vector comparisons of \<open>seq_is_unique_v.rs\<close>, with their loops. The lemmas show that the
  loops copy, compare and search as their contracts say; the other components then use these
  operations as copying, equality and membership.

  A Rust \<open>Vec<u8>\<close> and its view \<open>Seq<u8>\<close> are both a list of bytes, so \<open>EndPoint\<close> and its
  view \<open>AbstractEndPoint\<close> are one type and the view is the identity.
\<close>

section \<open>End points\<close>

datatype EndPoint = EndPoint (ep_id: bytes)

instantiation EndPoint :: linorder
begin

definition less_eq_EndPoint :: "EndPoint \<Rightarrow> EndPoint \<Rightarrow> bool" where
  "less_eq_EndPoint a b \<longleftrightarrow> ep_id a \<le> ep_id b"

definition less_EndPoint :: "EndPoint \<Rightarrow> EndPoint \<Rightarrow> bool" where
  "less_EndPoint a b \<longleftrightarrow> ep_id a < ep_id b"

instance
  by standard (auto simp: less_eq_EndPoint_def less_EndPoint_def intro: EndPoint.expand)

end

type_synonym AbstractEndPoint = EndPoint
type_synonym Arg = bytes
type_synonym Args = "Arg list"
type_synonym AbstractArg = bytes
type_synonym AbstractArgs = "AbstractArg list"

definition valid_physical_address :: "EndPoint \<Rightarrow> bool" where
  "valid_physical_address ep \<longleftrightarrow> length (ep_id ep) < 0x100000"

section \<open>Copies\<close>

text \<open>\<open>clone_vec_u8\<close> pushes the elements one at a time.\<close>

function clone_vec_u8_loop :: "bytes \<Rightarrow> nat \<Rightarrow> bytes \<Rightarrow> bytes" where
  "clone_vec_u8_loop v i out =
     (if i < length v then clone_vec_u8_loop v (Suc i) (out @ [v ! i]) else out)"
  by pat_completeness auto
termination
  by (relation "measure (\<lambda>(v, i, out). length v - i)") auto

declare clone_vec_u8_loop.simps [simp del]

definition clone_vec_u8 :: "bytes \<Rightarrow> bytes" where
  "clone_vec_u8 v = clone_vec_u8_loop v 0 []"

definition clone_arg :: "Arg \<Rightarrow> Arg" where
  "clone_arg arg = clone_vec_u8 arg"

definition clone_end_point :: "EndPoint \<Rightarrow> EndPoint" where
  "clone_end_point ep = EndPoint (clone_vec_u8 (ep_id ep))"

definition ep_clone_up_to_view :: "EndPoint \<Rightarrow> EndPoint" where
  "ep_clone_up_to_view ep = EndPoint (clone_vec_u8 (ep_id ep))"

definition clone_option_vec_u8 :: "bytes option \<Rightarrow> bytes option" where
  "clone_option_vec_u8 ov = (case ov of Some e1 \<Rightarrow> Some (clone_vec_u8 e1) | None \<Rightarrow> None)"

definition clone_option_end_point :: "EndPoint option \<Rightarrow> EndPoint option" where
  "clone_option_end_point oep = (case oep of Some ep \<Rightarrow> Some (clone_end_point ep) | None \<Rightarrow> None)"

section \<open>Comparison and search\<close>

function do_vec_u8s_match_loop :: "bytes \<Rightarrow> bytes \<Rightarrow> nat \<Rightarrow> bool" where
  "do_vec_u8s_match_loop e1 e2 i =
     (if i < length e1
      then if e1 ! i \<noteq> e2 ! i then False else do_vec_u8s_match_loop e1 e2 (Suc i)
      else True)"
  by pat_completeness auto
termination
  by (relation "measure (\<lambda>(e1, e2, i). length e1 - i)") auto

declare do_vec_u8s_match_loop.simps [simp del]

definition do_vec_u8s_match :: "bytes \<Rightarrow> bytes \<Rightarrow> bool" where
  "do_vec_u8s_match e1 e2 =
     (if length e1 \<noteq> length e2 then False else do_vec_u8s_match_loop e1 e2 0)"

definition do_end_points_match :: "EndPoint \<Rightarrow> EndPoint \<Rightarrow> bool" where
  "do_end_points_match e1 e2 = do_vec_u8s_match (ep_id e1) (ep_id e2)"

definition seq_is_unique :: "'a list \<Rightarrow> bool" where
  "seq_is_unique s \<longleftrightarrow> distinct s"

text \<open>The two nested loops of \<open>test_unique\<close>.\<close>

function test_unique_inner :: "EndPoint list \<Rightarrow> nat \<Rightarrow> nat \<Rightarrow> bool" where
  "test_unique_inner endpoints i j =
     (if j < length endpoints
      then if i \<noteq> j \<and> do_end_points_match (endpoints ! i) (endpoints ! j) then False
           else test_unique_inner endpoints i (Suc j)
      else True)"
  by pat_completeness auto
termination
  by (relation "measure (\<lambda>(eps, i, j). length eps - j)") auto

declare test_unique_inner.simps [simp del]

function test_unique_outer :: "EndPoint list \<Rightarrow> nat \<Rightarrow> bool" where
  "test_unique_outer endpoints i =
     (if i < length endpoints
      then if test_unique_inner endpoints i 0 then test_unique_outer endpoints (Suc i) else False
      else True)"
  by pat_completeness auto
termination
  by (relation "measure (\<lambda>(eps, i). length eps - i)") auto

declare test_unique_outer.simps [simp del]

definition test_unique :: "EndPoint list \<Rightarrow> bool" where
  "test_unique endpoints = test_unique_outer endpoints 0"

function endpoints_contain_loop :: "EndPoint list \<Rightarrow> EndPoint \<Rightarrow> nat \<Rightarrow> bool" where
  "endpoints_contain_loop endpoints endpoint j =
     (if j < length endpoints
      then if do_end_points_match endpoint (endpoints ! j) then True
           else endpoints_contain_loop endpoints endpoint (Suc j)
      else False)"
  by pat_completeness auto
termination
  by (relation "measure (\<lambda>(eps, ep, j). length eps - j)") auto

declare endpoints_contain_loop.simps [simp del]

definition endpoints_contain :: "EndPoint list \<Rightarrow> EndPoint \<Rightarrow> bool" where
  "endpoints_contain endpoints endpoint = endpoints_contain_loop endpoints endpoint 0"

section \<open>The loops meet their contracts\<close>

lemma clone_vec_u8_loop_eq: "i \<le> length v \<Longrightarrow> clone_vec_u8_loop v i out = out @ drop i v"
proof (induction v i out rule: clone_vec_u8_loop.induct)
  case (1 v i out)
  then show ?case
    by (subst clone_vec_u8_loop.simps) (auto simp: Cons_nth_drop_Suc)
qed

lemma clone_vec_u8_eq [simp]: "clone_vec_u8 v = v"
  by (simp add: clone_vec_u8_def clone_vec_u8_loop_eq)

lemma clones_eq [simp]:
  "clone_arg a = a" "clone_end_point ep = ep" "ep_clone_up_to_view ep = ep"
  "clone_option_vec_u8 ov = ov" "clone_option_end_point oep = oep"
  by (simp_all add: clone_arg_def clone_end_point_def ep_clone_up_to_view_def
      clone_option_vec_u8_def clone_option_end_point_def split: option.splits)

lemma do_vec_u8s_match_loop_eq:
  "length e1 = length e2 \<Longrightarrow> do_vec_u8s_match_loop e1 e2 i \<longleftrightarrow> (\<forall>j. i \<le> j \<and> j < length e1 \<longrightarrow> e1 ! j = e2 ! j)"
proof (induction e1 e2 i rule: do_vec_u8s_match_loop.induct)
  case (1 e1 e2 i)
  show ?case
  proof (cases "i < length e1 \<and> e1 ! i = e2 ! i")
    case True
    with 1 have "do_vec_u8s_match_loop e1 e2 (Suc i) \<longleftrightarrow> (\<forall>j. Suc i \<le> j \<and> j < length e1 \<longrightarrow> e1 ! j = e2 ! j)"
      by blast
    with True show ?thesis
      by (subst do_vec_u8s_match_loop.simps) (simp add: all_from_Suc)
  next
    case False
    then show ?thesis by (subst do_vec_u8s_match_loop.simps) auto
  qed
qed

lemma do_vec_u8s_match_eq [simp]: "do_vec_u8s_match e1 e2 \<longleftrightarrow> e1 = e2"
  by (auto simp: do_vec_u8s_match_def do_vec_u8s_match_loop_eq intro: nth_equalityI)

lemma do_end_points_match_eq [simp]: "do_end_points_match e1 e2 \<longleftrightarrow> e1 = e2"
  by (auto simp: do_end_points_match_def intro: EndPoint.expand)

lemma test_unique_inner_eq:
  "test_unique_inner eps i j \<longleftrightarrow>
     (\<forall>k. j \<le> k \<and> k < length eps \<longrightarrow> k \<noteq> i \<longrightarrow> eps ! i \<noteq> eps ! k)"
proof (induction eps i j rule: test_unique_inner.induct)
  case (1 eps i j)
  show ?case
  proof (cases "j < length eps \<and> \<not> (i \<noteq> j \<and> eps ! i = eps ! j)")
    case True
    with 1 have "test_unique_inner eps i (Suc j) \<longleftrightarrow>
        (\<forall>k. Suc j \<le> k \<and> k < length eps \<longrightarrow> k \<noteq> i \<longrightarrow> eps ! i \<noteq> eps ! k)"
      by auto
    with True show ?thesis
      by (subst test_unique_inner.simps) (auto simp: all_from_Suc)
  next
    case False
    then show ?thesis by (subst test_unique_inner.simps) auto
  qed
qed

lemma test_unique_outer_eq:
  "test_unique_outer eps i \<longleftrightarrow>
     (\<forall>l. i \<le> l \<and> l < length eps \<longrightarrow> (\<forall>k < length eps. k \<noteq> l \<longrightarrow> eps ! l \<noteq> eps ! k))"
proof (induction eps i rule: test_unique_outer.induct)
  case (1 eps i)
  show ?case
  proof (cases "i < length eps \<and> test_unique_inner eps i 0")
    case True
    with 1 have "test_unique_outer eps (Suc i) \<longleftrightarrow>
        (\<forall>l. Suc i \<le> l \<and> l < length eps \<longrightarrow> (\<forall>k < length eps. k \<noteq> l \<longrightarrow> eps ! l \<noteq> eps ! k))"
      by blast
    with True show ?thesis
      by (subst test_unique_outer.simps) (simp add: all_from_Suc test_unique_inner_eq)
  next
    case False
    then show ?thesis
      by (subst test_unique_outer.simps) (auto simp: test_unique_inner_eq)
  qed
qed

lemma test_unique_eq [simp]: "test_unique eps \<longleftrightarrow> seq_is_unique eps"
  by (auto simp: test_unique_def seq_is_unique_def test_unique_outer_eq distinct_conv_nth)

lemma endpoints_contain_loop_eq: "endpoints_contain_loop eps ep j \<longleftrightarrow> ep \<in> set (drop j eps)"
proof (induction eps ep j rule: endpoints_contain_loop.induct)
  case (1 eps ep j)
  then show ?case
    by (subst endpoints_contain_loop.simps) (auto simp flip: Cons_nth_drop_Suc)
qed

lemma endpoints_contain_eq [simp]: "endpoints_contain eps ep \<longleftrightarrow> ep \<in> set eps"
  by (simp add: endpoints_contain_def endpoints_contain_loop_eq)

end
