(* ===== verification/Ordered_Map.thy ===== *)
theory Ordered_Map
  imports Keys End_Points
begin

text \<open>
  The ordered vector and the ordered map of \<open>delegation_map_v.rs\<close>: \<open>StrictlyOrderedVec\<close>, which
  keeps keys sorted without duplicates, and \<open>StrictlyOrderedMap\<close>, two parallel vectors with the
  ghost map they stand for. The locale \<open>lows_map\<close> states what the delegation map relies on: each
  operation returns, keeps the map valid and acts on the ghost map as the finite-map operation of
  the same name; \<open>greatest_lower_bound\<close> finds the greatest key that is not above an iterator.
\<close>

section \<open>Strictly ordered vectors\<close>

text \<open>The struct wraps one vector, which represents it.\<close>

type_synonym 'k StrictlyOrderedVec = "'k list"

definition sov_sorted :: "('k \<Rightarrow> 'k \<Rightarrow> Ordering) \<Rightarrow> 'k list \<Rightarrow> bool" where
  "sov_sorted cmp s \<longleftrightarrow> sorted_wrt (\<lambda>a b. is_lt (cmp a b)) s"

definition sov_valid :: "('k \<Rightarrow> 'k \<Rightarrow> Ordering) \<Rightarrow> 'k StrictlyOrderedVec \<Rightarrow> bool" where
  "sov_valid cmp v \<longleftrightarrow> sov_sorted cmp v \<and> distinct v"

definition sov_new :: "'k StrictlyOrderedVec" where
  "sov_new = []"

definition sov_len :: "'k StrictlyOrderedVec \<Rightarrow> nat" where
  "sov_len v = length v"

definition sov_index :: "'k StrictlyOrderedVec \<Rightarrow> nat \<Rightarrow> 'k outcome" where
  "sov_index v i = vec_index v i"

definition sov_set :: "'k StrictlyOrderedVec \<Rightarrow> nat \<Rightarrow> 'k \<Rightarrow> 'k StrictlyOrderedVec outcome" where
  "sov_set v i k = vec_set v i k"

definition sov_remove :: "'k StrictlyOrderedVec \<Rightarrow> nat \<Rightarrow> ('k \<times> 'k StrictlyOrderedVec) outcome" where
  "sov_remove v i = vec_remove v i"

text \<open>The loop of \<open>erase\<close> removes the element at \<open>start\<close> as often as the range is long. A range
  with \<open>end < start\<close> underflows, which ends in a panic.\<close>

fun sov_erase_loop :: "'k StrictlyOrderedVec \<Rightarrow> nat \<Rightarrow> nat \<Rightarrow> 'k StrictlyOrderedVec outcome" where
  "sov_erase_loop v start 0 = Ret v"
| "sov_erase_loop v start (Suc n) =
     bind_outcome (sov_remove v start) (\<lambda>(_, v'). sov_erase_loop v' start n)"

definition sov_erase :: "'k StrictlyOrderedVec \<Rightarrow> nat \<Rightarrow> nat \<Rightarrow> 'k StrictlyOrderedVec outcome" where
  "sov_erase v start stop = (if stop < start then Panic else sov_erase_loop v start (stop - start))"

definition sov_insert ::
    "('k \<Rightarrow> 'k \<Rightarrow> Ordering) \<Rightarrow> 'k StrictlyOrderedVec \<Rightarrow> 'k \<Rightarrow> (nat \<times> 'k StrictlyOrderedVec) outcome" where
  "sov_insert cmp v k =
     (let index = scan_while (\<lambda>x. is_lt (cmp x k)) v 0
      in bind_outcome (vec_insert v index k) (\<lambda>v'. Ret (index, v')))"

fun vec_erase_loop :: "'a list \<Rightarrow> nat \<Rightarrow> nat \<Rightarrow> 'a list outcome" where
  "vec_erase_loop v start 0 = Ret v"
| "vec_erase_loop v start (Suc n) =
     bind_outcome (vec_remove v start) (\<lambda>(_, v'). vec_erase_loop v' start n)"

definition vec_erase :: "'a list \<Rightarrow> nat \<Rightarrow> nat \<Rightarrow> 'a list outcome" where
  "vec_erase v start stop = (if stop < start then Panic else vec_erase_loop v start (stop - start))"

section \<open>Strictly ordered maps\<close>

type_synonym ID = EndPoint

record 'k StrictlyOrderedMap =
  som_keys :: "'k StrictlyOrderedVec"
  som_vals :: "ID list"
  som_m :: "'k \<rightharpoonup> ID"

definition som_map_valid :: "'k StrictlyOrderedMap \<Rightarrow> bool" where
  "som_map_valid s \<longleftrightarrow>
     dom (som_m s) = set (som_keys s) \<and>
     (\<forall>i < length (som_keys s). som_m s (som_keys s ! i) = Some (som_vals s ! i))"

definition som_valid :: "('k \<Rightarrow> 'k \<Rightarrow> Ordering) \<Rightarrow> 'k StrictlyOrderedMap \<Rightarrow> bool" where
  "som_valid cmp s \<longleftrightarrow>
     sov_valid cmp (som_keys s) \<and> length (som_keys s) = length (som_vals s) \<and> som_map_valid s"

text \<open>The map holds no keys strictly between \<open>lo\<close> and \<open>hi\<close>. An iterator below another is not
  the end, so the quantifier ranges over keys.\<close>

definition som_gap ::
    "('k \<Rightarrow> 'k \<Rightarrow> Ordering) \<Rightarrow> 'k StrictlyOrderedMap \<Rightarrow> 'k KeyIterator \<Rightarrow> 'k KeyIterator \<Rightarrow> bool" where
  "som_gap cmp s lo hi \<longleftrightarrow>
     (\<forall>k. ki_lt cmp lo (ki_new k) \<and> ki_lt cmp (ki_new k) hi \<longrightarrow> k \<notin> dom (som_m s))"

definition som_new :: "'k StrictlyOrderedMap" where
  "som_new = \<lparr>som_keys = sov_new, som_vals = [], som_m = Map.empty\<rparr>"

function som_find_key_loop :: "('k \<Rightarrow> 'k \<Rightarrow> Ordering) \<Rightarrow> 'k list \<Rightarrow> 'k \<Rightarrow> nat \<Rightarrow> nat option" where
  "som_find_key_loop cmp ks k i =
     (if i < length ks
      then if is_eq (cmp (ks ! i) k) then Some i else som_find_key_loop cmp ks k (Suc i)
      else None)"
  by pat_completeness auto
termination
  by (relation "measure (\<lambda>(cmp, ks, k, i). length ks - i)") auto

declare som_find_key_loop.simps [simp del]

definition som_find_key :: "('k \<Rightarrow> 'k \<Rightarrow> Ordering) \<Rightarrow> 'k StrictlyOrderedMap \<Rightarrow> 'k \<Rightarrow> nat option" where
  "som_find_key cmp s k = som_find_key_loop cmp (som_keys s) k 0"

function som_values_agree_loop :: "ID list \<Rightarrow> nat \<Rightarrow> nat \<Rightarrow> ID \<Rightarrow> (bool \<times> bool) outcome" where
  "som_values_agree_loop vals i hi v =
     (if i \<le> hi
      then bind_outcome (vec_index vals i)
             (\<lambda>x. if \<not> do_end_points_match x v
                  then if i = hi then Ret (False, True) else Ret (False, False)
                  else som_values_agree_loop vals (Suc i) hi v)
      else Ret (True, True))"
  by pat_completeness auto
termination
  by (relation "measure (\<lambda>(vals, i, hi, v). Suc hi - i)") auto

declare som_values_agree_loop.simps [simp del]

definition som_values_agree ::
    "'k StrictlyOrderedMap \<Rightarrow> nat \<Rightarrow> nat \<Rightarrow> ID \<Rightarrow> (bool \<times> bool) outcome" where
  "som_values_agree s lo hi v = som_values_agree_loop (som_vals s) lo hi v"

definition som_keys_in_index_range_agree ::
    "'k StrictlyOrderedMap \<Rightarrow> nat \<Rightarrow> nat \<Rightarrow> ID \<Rightarrow> (bool \<times> bool) outcome" where
  "som_keys_in_index_range_agree s lo hi v =
     bind_outcome (som_values_agree s lo hi v) (\<lambda>(agree, almost). Ret (agree, almost))"

definition som_get ::
    "('k \<Rightarrow> 'k \<Rightarrow> Ordering) \<Rightarrow> 'k StrictlyOrderedMap \<Rightarrow> 'k \<Rightarrow> ID option outcome" where
  "som_get cmp s k =
     (case som_find_key cmp s k of
        None \<Rightarrow> Ret None
      | Some i \<Rightarrow> bind_outcome (vec_index (som_vals s) i) (\<lambda>v. Ret (Some v)))"

definition som_set ::
    "('k \<Rightarrow> 'k \<Rightarrow> Ordering) \<Rightarrow> 'k StrictlyOrderedMap \<Rightarrow> 'k \<Rightarrow> ID \<Rightarrow> 'k StrictlyOrderedMap outcome" where
  "som_set cmp s k v =
     (case som_find_key cmp s k of
        Some i \<Rightarrow>
          bind_outcome (vec_set (som_vals s) i v)
            (\<lambda>vals. Ret (s\<lparr>som_vals := vals, som_m := (som_m s)(k \<mapsto> v)\<rparr>))
      | None \<Rightarrow>
          bind_outcome (sov_insert cmp (som_keys s) k)
            (\<lambda>(index, ks). bind_outcome (vec_insert (som_vals s) index v)
               (\<lambda>vals. Ret (s\<lparr>som_keys := ks, som_vals := vals, som_m := (som_m s)(k \<mapsto> v)\<rparr>))))"

text \<open>The loop of \<open>greatest_lower_bound_index\<close>, with its two counters.\<close>

function som_glb_loop :: "('k \<Rightarrow> 'k \<Rightarrow> Ordering) \<Rightarrow> 'k list \<Rightarrow> 'k KeyIterator \<Rightarrow> nat \<Rightarrow> nat \<Rightarrow> nat" where
  "som_glb_loop cmp ks iter bound i =
     (if i < length ks
      then if ki_lt cmp iter (ki_new (ks ! i)) then bound
           else som_glb_loop cmp ks iter i (Suc i)
      else bound)"
  by pat_completeness auto
termination
  by (relation "measure (\<lambda>(cmp, ks, iter, bound, i). length ks - i)") auto

declare som_glb_loop.simps [simp del]

definition som_greatest_lower_bound_index ::
    "('k \<Rightarrow> 'k \<Rightarrow> Ordering) \<Rightarrow> 'k StrictlyOrderedMap \<Rightarrow> 'k KeyIterator \<Rightarrow> nat" where
  "som_greatest_lower_bound_index cmp s iter = som_glb_loop cmp (som_keys s) iter 0 1"

definition som_greatest_lower_bound ::
    "('k \<Rightarrow> 'k \<Rightarrow> Ordering) \<Rightarrow> 'k StrictlyOrderedMap \<Rightarrow> 'k KeyIterator \<Rightarrow> 'k KeyIterator outcome" where
  "som_greatest_lower_bound cmp s iter =
     (let index = som_greatest_lower_bound_index cmp s iter
      in bind_outcome (sov_index (som_keys s) index) (\<lambda>k. Ret (ki_new k)))"

definition som_erase ::
    "('k \<Rightarrow> 'k \<Rightarrow> Ordering) \<Rightarrow> 'k StrictlyOrderedMap \<Rightarrow> 'k KeyIterator \<Rightarrow> 'k KeyIterator
     \<Rightarrow> 'k StrictlyOrderedMap outcome" where
  "som_erase cmp s lo hi =
     (let start = scan_while (ki_above cmp lo) (som_keys s) 0;
          stop = scan_while (ki_above cmp hi) (som_keys s) start
      in bind_outcome (sov_erase (som_keys s) start stop)
           (\<lambda>ks. bind_outcome (vec_erase (som_vals s) start stop)
              (\<lambda>vals. Ret (s\<lparr>som_keys := ks, som_vals := vals, som_m := map_of (zip ks vals)\<rparr>))))"

section \<open>The vector operations\<close>

lemma sov_erase_loop_eq:
  "start + n \<le> length v \<Longrightarrow> sov_erase_loop v start n = Ret (take start v @ drop (start + n) v)"
proof (induction n arbitrary: v)
  case (Suc n)
  let ?v' = "take start v @ drop (Suc start) v"
  have "sov_erase_loop ?v' start n = Ret (take start ?v' @ drop (start + n) ?v')"
    using Suc.prems by (intro Suc.IH) simp
  with Suc.prems show ?case
    by (simp add: sov_remove_def outcome_simps min_def add.commute)
qed simp

lemma sov_erase_eq:
  "start \<le> stop \<Longrightarrow> stop \<le> length v \<Longrightarrow> sov_erase v start stop = Ret (take start v @ drop stop v)"
  by (simp add: sov_erase_def sov_erase_loop_eq)

lemma vec_erase_loop_eq: "vec_erase_loop v start n = sov_erase_loop v start n"
  by (induction n arbitrary: v) (simp_all add: sov_remove_def)

lemma vec_erase_eq:
  "start \<le> stop \<Longrightarrow> stop \<le> length v \<Longrightarrow> vec_erase v start stop = Ret (take start v @ drop stop v)"
  by (simp add: vec_erase_def vec_erase_loop_eq sov_erase_loop_eq)

lemma som_values_agree_loop_eq:
  "hi < length vals \<Longrightarrow> i \<le> Suc hi \<Longrightarrow>
   som_values_agree_loop vals i hi v =
     Ret (let agree = (\<forall>j. i \<le> j \<and> j < Suc hi \<longrightarrow> vals ! j = v)
          in (agree, agree \<or> (vals ! hi \<noteq> v \<and> (\<forall>j. i \<le> j \<and> j < hi \<longrightarrow> vals ! j = v))))"
proof (induction vals i hi v rule: som_values_agree_loop.induct)
  case (1 vals i hi v)
  consider (past) "i = Suc hi" | (differs) "i \<le> hi" "vals ! i \<noteq> v" | (go) "i \<le> hi" "vals ! i = v"
    using "1.prems" by linarith
  then show ?case
  proof cases
    case past
    then show ?thesis by (subst som_values_agree_loop.simps) (auto simp: Let_def)
  next
    case differs
    have "\<not> (\<forall>j. i \<le> j \<and> j < Suc hi \<longrightarrow> vals ! j = v)"
      using differs by (metis le_imp_less_Suc order_refl)
    moreover have "(\<forall>j. i \<le> j \<and> j < hi \<longrightarrow> vals ! j = v) \<longleftrightarrow> i = hi"
      using differs by (metis leD le_neq_implies_less order_refl)
    moreover have "som_values_agree_loop vals i hi v = Ret (False, i = hi)"
      using differs "1.prems" by (subst som_values_agree_loop.simps) (simp add: outcome_simps)
    ultimately show ?thesis
      using differs by (simp only: Let_def) (cases "i = hi"; simp)
  next
    case go
    with 1 have IH: "som_values_agree_loop vals (Suc i) hi v =
        Ret (let agree = (\<forall>j. Suc i \<le> j \<and> j < Suc hi \<longrightarrow> vals ! j = v)
             in (agree, agree \<or> (vals ! hi \<noteq> v \<and> (\<forall>j. Suc i \<le> j \<and> j < hi \<longrightarrow> vals ! j = v))))"
      by (simp add: outcome_simps)
    have "(\<forall>j. i \<le> j \<and> j < Suc hi \<longrightarrow> vals ! j = v) \<longleftrightarrow> (\<forall>j. Suc i \<le> j \<and> j < Suc hi \<longrightarrow> vals ! j = v)"
      using go all_from_Suc [of i "Suc hi" "\<lambda>j. vals ! j = v"] by simp
    moreover have "(\<forall>j. i \<le> j \<and> j < hi \<longrightarrow> vals ! j = v) \<longleftrightarrow> (\<forall>j. Suc i \<le> j \<and> j < hi \<longrightarrow> vals ! j = v)"
    proof (cases "i = hi")
      case False
      with go show ?thesis using all_from_Suc [of i hi "\<lambda>j. vals ! j = v"] by simp
    qed auto
    ultimately show ?thesis
      using go "1.prems" IH by (subst som_values_agree_loop.simps) (simp add: outcome_simps)
  qed
qed

section \<open>The map operations\<close>

lemma som_valid_iff:
  "som_valid cmp s \<longleftrightarrow>
     sov_valid cmp (som_keys s) \<and> length (som_keys s) = length (som_vals s) \<and>
     som_m s = map_of (zip (som_keys s) (som_vals s))"
proof -
  have "som_map_valid s \<longleftrightarrow> som_m s = map_of (zip (som_keys s) (som_vals s))"
    if "distinct (som_keys s)" and len: "length (som_keys s) = length (som_vals s)"
  proof
    assume mv: "som_map_valid s"
    show "som_m s = map_of (zip (som_keys s) (som_vals s))"
    proof
      fix k
      show "som_m s k = map_of (zip (som_keys s) (som_vals s)) k"
      proof (cases "k \<in> set (som_keys s)")
        case True
        then obtain i where "i < length (som_keys s)" "k = som_keys s ! i"
          by (auto simp: in_set_conv_nth)
        with mv that show ?thesis by (simp add: som_map_valid_def map_of_zip_index)
      next
        case False
        with mv len show ?thesis
          by (metis dom_map_of_zip' domIff som_map_valid_def)
      qed
    qed
  next
    assume "som_m s = map_of (zip (som_keys s) (som_vals s))"
    with that show "som_map_valid s"
      by (simp add: som_map_valid_def dom_map_of_zip' map_of_zip_index)
  qed
  then show ?thesis by (auto simp: som_valid_def sov_valid_def)
qed

lemma som_find_key_loop_Some:
  "som_find_key_loop cmp ks k i = Some j \<Longrightarrow> i \<le> j \<and> j < length ks \<and> cmp (ks ! j) k = Equal"
proof (induction cmp ks k i rule: som_find_key_loop.induct)
  case (1 cmp ks k i)
  from "1.prems" have "i < length ks"
    by (subst (asm) som_find_key_loop.simps) (auto split: if_splits)
  with 1 show ?case
    by (subst (asm) som_find_key_loop.simps) (force split: if_splits)
qed

lemma som_find_key_loop_None:
  "som_find_key_loop cmp ks k i = None \<Longrightarrow> i \<le> j \<Longrightarrow> j < length ks \<Longrightarrow> cmp (ks ! j) k \<noteq> Equal"
proof (induction cmp ks k i rule: som_find_key_loop.induct)
  case (1 cmp ks k i)
  then have "i < length ks" by simp
  with "1.prems"(1) have ne: "cmp (ks ! i) k \<noteq> Equal" and rest: "som_find_key_loop cmp ks k (Suc i) = None"
    by (subst (asm) som_find_key_loop.simps, auto split: if_splits)+
  show ?case
  proof (cases "j = i")
    case False
    with 1 ne rest \<open>i < length ks\<close> show ?thesis by simp
  qed (use ne in simp)
qed

lemma som_glb_loop_props:
  "bound < length ks \<Longrightarrow>
   bound \<le> som_glb_loop cmp ks iter bound (Suc bound) \<and>
   som_glb_loop cmp ks iter bound (Suc bound) < length ks \<and>
   (\<forall>j. bound < j \<and> j \<le> som_glb_loop cmp ks iter bound (Suc bound) \<longrightarrow> \<not> ki_lt cmp iter (ki_new (ks ! j))) \<and>
   (Suc (som_glb_loop cmp ks iter bound (Suc bound)) < length ks \<longrightarrow>
      ki_lt cmp iter (ki_new (ks ! Suc (som_glb_loop cmp ks iter bound (Suc bound)))))"
proof (induction "length ks - bound" arbitrary: bound rule: less_induct)
  case less
  show ?case
  proof (cases "Suc bound < length ks \<and> \<not> ki_lt cmp iter (ki_new (ks ! Suc bound))")
    case True
    then have eq: "som_glb_loop cmp ks iter bound (Suc bound) = som_glb_loop cmp ks iter (Suc bound) (Suc (Suc bound))"
      by (subst som_glb_loop.simps) simp
    from True less.prems have IH:
      "Suc bound \<le> som_glb_loop cmp ks iter (Suc bound) (Suc (Suc bound)) \<and>
       som_glb_loop cmp ks iter (Suc bound) (Suc (Suc bound)) < length ks \<and>
       (\<forall>j. Suc bound < j \<and> j \<le> som_glb_loop cmp ks iter (Suc bound) (Suc (Suc bound)) \<longrightarrow>
          \<not> ki_lt cmp iter (ki_new (ks ! j))) \<and>
       (Suc (som_glb_loop cmp ks iter (Suc bound) (Suc (Suc bound))) < length ks \<longrightarrow>
          ki_lt cmp iter (ki_new (ks ! Suc (som_glb_loop cmp ks iter (Suc bound) (Suc (Suc bound))))))"
      by (intro less.hyps) auto
    show ?thesis
      unfolding eq
    proof (intro conjI allI impI)
      fix j
      assume "bound < j \<and> j \<le> som_glb_loop cmp ks iter (Suc bound) (Suc (Suc bound))"
      then show "\<not> ki_lt cmp iter (ki_new (ks ! j))"
        using IH True by (cases "j = Suc bound") auto
    qed (use IH in auto)
  next
    case False
    then have eq: "som_glb_loop cmp ks iter bound (Suc bound) = bound"
      by (subst som_glb_loop.simps) auto
    show ?thesis
      unfolding eq using False less.prems by auto
  qed
qed

section \<open>Floors\<close>

text \<open>The greatest key of a map that is not above an iterator.\<close>

definition is_floor :: "('k \<Rightarrow> 'k \<Rightarrow> Ordering) \<Rightarrow> ('k \<rightharpoonup> 'v) \<Rightarrow> 'k KeyIterator \<Rightarrow> 'k \<Rightarrow> bool" where
  "is_floor cmp M iter b \<longleftrightarrow>
     b \<in> dom M \<and> \<not> ki_lt cmp iter (ki_new b) \<and>
     (\<forall>j\<in>dom M. \<not> ki_lt cmp iter (ki_new j) \<longrightarrow> \<not> ki_lt cmp (ki_new b) (ki_new j))"

context KeyTrait
begin

lemma is_floor_unique: "is_floor cmp M iter a \<Longrightarrow> is_floor cmp M iter b \<Longrightarrow> a = b"
  using ki_lt_total [of "ki_new a" "ki_new b"] by (auto simp: is_floor_def)

lemma som_find_key_Some: "som_find_key cmp s k = Some i \<Longrightarrow> i < length (som_keys s) \<and> som_keys s ! i = k"
  using som_find_key_loop_Some [of cmp "som_keys s" k 0 i] by (simp add: som_find_key_def cmp_eq)

lemma som_find_key_None: "som_find_key cmp s k = None \<Longrightarrow> k \<notin> set (som_keys s)"
  using som_find_key_loop_None [of cmp "som_keys s" k 0]
  by (auto simp: som_find_key_def cmp_eq in_set_conv_nth)

lemma som_get_correct: "som_valid cmp s \<Longrightarrow> som_get cmp s k = Ret (som_m s k)"
proof (cases "som_find_key cmp s k")
  case None
  assume "som_valid cmp s"
  with som_find_key_None [OF None] have "som_m s k = None"
    by (metis domIff som_map_valid_def som_valid_def)
  with None show ?thesis by (simp add: som_get_def)
next
  case (Some i)
  assume "som_valid cmp s"
  with Some som_find_key_Some [OF Some] show ?thesis
    by (auto simp: som_get_def som_valid_def som_map_valid_def outcome_simps)
qed

lemma sov_insert_correct:
  assumes "sov_valid cmp v" and "k \<notin> set v"
  shows "\<exists>i. sov_insert cmp v k = Ret (i, take i v @ k # drop i v) \<and> i \<le> length v \<and>
             sov_valid cmp (take i v @ k # drop i v)"
proof -
  let ?P = "\<lambda>x. is_lt (cmp x k)"
  define i where "i = scan_while ?P v 0"
  have i: "i = length (takeWhile ?P v)" by (simp add: i_def scan_while_eq)
  have srt: "sorted_wrt (\<lambda>a b. cmp a b = Less) v" using assms by (simp add: sov_valid_def sov_sorted_def)
  have tk: "take i v = filter ?P v" and dr: "drop i v = filter (\<lambda>x. \<not> ?P x) v"
    unfolding i take_length_takeWhile drop_length_takeWhile
    using cmp_trans by (intro sorted_wrt_takeWhile_dropWhile [OF srt]; simp)+
  have "sorted_wrt (\<lambda>a b. cmp a b = Less) (filter ?P v @ k # filter (\<lambda>x. \<not> ?P x) v)"
    using srt assms(2) cmp_connected cmp_trans
    by (auto simp: sorted_wrt_append sorted_wrt_filter; metis)
  moreover have "distinct (take i v @ k # drop i v)"
    using assms by (auto simp: tk dr sov_valid_def)
  moreover have le: "i \<le> length v" by (simp add: i length_takeWhile_le)
  moreover have "sov_insert cmp v k = Ret (i, take i v @ k # drop i v)"
    unfolding sov_insert_def Let_def i_def [symmetric] using le by (simp add: outcome_simps)
  ultimately show ?thesis
    by (intro exI [of _ i]) (simp add: sov_valid_def sov_sorted_def tk dr)
qed

lemma som_set_correct:
  assumes valid: "som_valid cmp s"
  shows "\<exists>s'. som_set cmp s k v = Ret s' \<and> som_valid cmp s' \<and> som_m s' = (som_m s)(k \<mapsto> v)"
proof (cases "som_find_key cmp s k")
  case None
  have k: "k \<notin> set (som_keys s)" by (rule som_find_key_None [OF None])
  have len: "length (som_keys s) = length (som_vals s)" using valid by (simp add: som_valid_def)
  obtain i where i: "sov_insert cmp (som_keys s) k = Ret (i, take i (som_keys s) @ k # drop i (som_keys s))"
      "i \<le> length (som_keys s)" "sov_valid cmp (take i (som_keys s) @ k # drop i (som_keys s))"
    using sov_insert_correct [OF _ k] valid unfolding som_valid_def by blast
  have "(som_m s)(k \<mapsto> v) =
      map_of (zip (take i (som_keys s) @ k # drop i (som_keys s)) (take i (som_vals s) @ v # drop i (som_vals s)))"
  proof -
    have "k \<notin> fst ` set (zip (som_keys s) (som_vals s))"
      using k by (auto dest: set_zip_leftD)
    from map_of_insert_at [OF this, of i v] valid len show ?thesis
      by (simp add: som_valid_iff take_zip drop_zip del: map_of_append)
  qed
  with None i len show ?thesis
    by (simp add: som_set_def outcome_simps som_valid_iff)
next
  case (Some i)
  note i = som_find_key_Some [OF Some]
  have "som_valid cmp (s\<lparr>som_vals := (som_vals s)[i := v], som_m := (som_m s)(k \<mapsto> v)\<rparr>)"
    using valid i by (auto simp: som_valid_def som_map_valid_def sov_valid_def nth_eq_iff_index_eq
        nth_list_update)
  with Some i valid show ?thesis
    by (simp add: som_set_def outcome_simps som_valid_def)
qed

lemma som_erase_correct:
  assumes valid: "som_valid cmp s"
  shows "\<exists>s'. som_erase cmp s lo hi = Ret s' \<and> som_valid cmp s' \<and>
              som_m s' = som_m s |` {k. \<not> ki_between cmp lo (ki_new k) hi}"
proof -
  let ?ks = "som_keys s" and ?vs = "som_vals s"
  let ?L = "\<lambda>k. ki_lt cmp (ki_new k) lo" and ?H = "\<lambda>k. ki_lt cmp (ki_new k) hi"
  have ab: "ki_above cmp it = (\<lambda>k. ki_lt cmp (ki_new k) it)" for it
    by (simp add: fun_eq_iff ki_above_iff)
  define start where "start = scan_while (ki_above cmp lo) ?ks 0"
  define stop where "stop = scan_while (ki_above cmp hi) ?ks start"
  have start: "start = length (takeWhile ?L ?ks)"
    by (simp add: start_def scan_while_eq ab)
  have stop: "stop = start + length (takeWhile ?H (dropWhile ?L ?ks))"
    by (simp add: stop_def scan_while_eq ab start length_takeWhile_le)
  have srt: "sorted_wrt (\<lambda>a b. cmp a b = Less) ?ks" and dist: "distinct ?ks"
    and len: "length ?ks = length ?vs" and m: "som_m s = map_of (zip ?ks ?vs)"
    using valid by (simp_all add: som_valid_iff sov_valid_def sov_sorted_def)
  have down: "cmp x y = Less \<Longrightarrow> ki_lt cmp (ki_new y) it \<Longrightarrow> ki_lt cmp (ki_new x) it" for x y it
    using ki_lt_trans [of "ki_new x" "ki_new y" it] by simp
  have "takeWhile ?L ?ks = filter ?L ?ks" and dwL: "dropWhile ?L ?ks = filter (\<lambda>k. \<not> ?L k) ?ks"
    using sorted_wrt_takeWhile_dropWhile [OF srt, of ?L] down by auto
  moreover have "dropWhile ?H (dropWhile ?L ?ks) = filter (\<lambda>k. \<not> ?H k) (filter (\<lambda>k. \<not> ?L k) ?ks)"
    unfolding dwL
    using sorted_wrt_takeWhile_dropWhile(2) [OF sorted_wrt_filter [OF srt], of ?H "\<lambda>k. \<not> ?L k"] down
    by blast
  moreover have "drop stop ?ks = dropWhile ?H (dropWhile ?L ?ks)"
  proof -
    have "drop stop ?ks = drop (length (takeWhile ?H (dropWhile ?L ?ks))) (drop start ?ks)"
      by (simp add: stop add.commute)
    then show ?thesis by (simp add: start)
  qed
  ultimately have ks': "take start ?ks @ drop stop ?ks =
      filter ?L ?ks @ filter (\<lambda>k. \<not> ?L k \<and> \<not> ?H k) ?ks"
    unfolding start take_length_takeWhile by (simp add: conj_commute)
  have bounds: "start \<le> stop" "stop \<le> length ?ks"
  proof -
    show "start \<le> stop" by (simp add: stop)
    have "length (takeWhile ?H (dropWhile ?L ?ks)) \<le> length (dropWhile ?L ?ks)"
      by (rule length_takeWhile_le)
    also have "\<dots> = length ?ks - start" by (simp add: start flip: drop_length_takeWhile)
    finally show "stop \<le> length ?ks"
      using length_takeWhile_le [of ?L ?ks] by (simp add: stop start)
  qed
  let ?s' = "s\<lparr>som_keys := take start ?ks @ drop stop ?ks, som_vals := take start ?vs @ drop stop ?vs,
    som_m := map_of (zip (take start ?ks @ drop stop ?ks) (take start ?vs @ drop stop ?vs))\<rparr>"
  have "som_erase cmp s lo hi = Ret ?s'"
    using bounds len by (simp add: som_erase_def sov_erase_eq vec_erase_eq flip: start_def stop_def)
  moreover have "som_valid cmp ?s'"
  proof -
    have "sov_valid cmp (take start ?ks @ drop stop ?ks)"
      unfolding ks' sov_valid_def sov_sorted_def
      using srt dist ki_lt_total ki_lt_trans
      by (auto simp: sorted_wrt_append sorted_wrt_filter) (metis ki_lt_simps(3))
    with len show ?thesis by (simp add: som_valid_iff)
  qed
  moreover have "som_m ?s' = som_m s |` {k. \<not> ki_between cmp lo (ki_new k) hi}"
  proof -
    let ?z = "zip ?ks ?vs"
    have split: "?z = take start ?z @ drop start (take stop ?z) @ drop stop ?z"
      using bounds by (metis append_assoc append_take_drop_id min.absorb1 take_take)
    have "distinct (map fst ?z)" using dist len by simp
    then have "map_of (take start ?z @ drop stop ?z) =
        map_of ?z |` (fst ` set (take start ?z @ drop stop ?z))"
      using map_of_erase [of "take start ?z" "drop start (take stop ?z)" "drop stop ?z"] split by metis
    moreover have "fst ` set (take start ?z @ drop stop ?z) = set (take start ?ks @ drop stop ?ks)"
      using len by (simp add: take_zip drop_zip image_Un flip: set_map)
    moreover have "set (take start ?ks @ drop stop ?ks) = set ?ks \<inter> {k. \<not> ki_between cmp lo (ki_new k) hi}"
      unfolding ks' by (auto simp: ki_between_def)
    ultimately have "map_of (take start ?z @ drop stop ?z) =
        map_of ?z |` (set ?ks \<inter> {k. \<not> ki_between cmp lo (ki_new k) hi})"
      by simp
    moreover have "map_of ?z |` (set ?ks \<inter> A) = map_of ?z |` A" for A
    proof
      fix x
      show "(map_of ?z |` (set ?ks \<inter> A)) x = (map_of ?z |` A) x"
        using dom_map_of_zip' [OF len] domIff [of x "map_of ?z"]
        by (cases "x \<in> set ?ks") (simp_all add: restrict_map_def)
    qed
    ultimately show ?thesis
      using len by (simp add: zip_take_drop_erase m take_zip drop_zip del: map_of_append)
  qed
  ultimately show ?thesis by blast
qed

lemma som_glb_correct:
  assumes valid: "som_valid cmp s" and zero: "zero \<in> dom (som_m s)"
  shows "let i = som_greatest_lower_bound_index cmp s iter
         in i < length (som_keys s) \<and> is_floor cmp (som_m s) iter (som_keys s ! i)"
proof -
  let ?ks = "som_keys s"
  define b where "b = som_greatest_lower_bound_index cmp s iter"
  have dom: "dom (som_m s) = set ?ks" and srt: "sorted_wrt (\<lambda>a b. cmp a b = Less) ?ks"
    using valid by (simp_all add: som_valid_def som_map_valid_def sov_valid_def sov_sorted_def)
  have ne: "0 < length ?ks" using zero dom by auto
  have less: "i < j \<Longrightarrow> j < length ?ks \<Longrightarrow> ki_lt cmp (ki_new (?ks ! i)) (ki_new (?ks ! j))" for i j
    using srt by (simp add: sorted_wrt_iff_nth_less)
  have hd: "?ks ! 0 = zero"
  proof -
    obtain n where n: "n < length ?ks" "?ks ! n = zero"
      using zero dom by (metis in_set_conv_nth)
    then have "n = 0" using less [of 0 n] zero_iter_le [of "ki_new (?ks ! 0)"] by auto
    with n show ?thesis by simp
  qed
  have b: "b < length ?ks" "\<And>j. 0 < j \<Longrightarrow> j \<le> b \<Longrightarrow> \<not> ki_lt cmp iter (ki_new (?ks ! j))"
      "Suc b < length ?ks \<Longrightarrow> ki_lt cmp iter (ki_new (?ks ! Suc b))"
    using som_glb_loop_props [OF ne, of cmp iter]
    by (simp_all add: b_def som_greatest_lower_bound_index_def)
  have "is_floor cmp (som_m s) iter (?ks ! b)"
    unfolding is_floor_def dom
  proof (intro conjI ballI impI)
    show "\<not> ki_lt cmp iter (ki_new (?ks ! b))"
      using b(2) [of b] hd zero_iter_le by (cases "b = 0") auto
    fix k
    assume "k \<in> set ?ks" and le: "\<not> ki_lt cmp iter (ki_new k)"
    then obtain j where j: "j < length ?ks" "k = ?ks ! j" by (auto simp: in_set_conv_nth)
    have "j \<le> b"
    proof (rule ccontr)
      assume "\<not> j \<le> b"
      then have "Suc b \<le> j" by simp
      with j b(3) less [of "Suc b" j] le show False
        using ki_lt_trans [of iter "ki_new (?ks ! Suc b)" "ki_new k"] by (cases "j = Suc b") auto
    qed
    with less [of j b] b(1) j ki_lt_asym [of "ki_new k" "ki_new (?ks ! b)"] show "\<not> ki_lt cmp (ki_new (?ks ! b)) (ki_new k)"
      by (cases "j = b") auto
  qed (use b in simp)
  with b(1) show ?thesis by (simp add: Let_def flip: b_def)
qed

lemma som_new_correct: "som_valid cmp som_new" "som_m som_new = Map.empty"
  by (simp_all add: som_valid_iff som_new_def sov_new_def sov_valid_def sov_sorted_def)

lemma finite_dom_som: "som_valid cmp s \<Longrightarrow> finite (dom (som_m s))"
  by (simp add: som_valid_def som_map_valid_def)

text \<open>A range of keys is reassigned in three steps: pin the value at the upper end, drop the entries
  of the range, enter the new value at the lower end. The floor of a key below the range does not
  move, inside the range it is the lower end, and above the range it carries the value of the old
  floor. So if every key was assigned the value at its floor before, it is assigned the value at
  its new floor afterwards.\<close>

lemma floor_transfer:
  assumes b: "is_floor cmp N iter b"
    and eq: "\<And>x. \<not> ki_lt cmp iter (ki_new x) \<Longrightarrow> M x = N x"
  shows "is_floor cmp M iter b"
  using b eq unfolding is_floor_def by (metis domIff)

lemma floor_inside:
  assumes b: "is_floor cmp (N(l \<mapsto> v)) iter b"
    and le: "\<not> ki_lt cmp iter (ki_new l)"
    and none: "\<And>x. ki_lt cmp (ki_new l) (ki_new x) \<Longrightarrow> \<not> ki_lt cmp iter (ki_new x) \<Longrightarrow> N x = None"
  shows "b = l"
proof (rule ccontr)
  assume "b \<noteq> l"
  with b have "N b \<noteq> None" and bk: "\<not> ki_lt cmp iter (ki_new b)" by (auto simp: is_floor_def)
  moreover have "\<not> ki_lt cmp (ki_new b) (ki_new l)" using b le unfolding is_floor_def by (metis domI fun_upd_same)
  ultimately show False
    using none [of b] \<open>b \<noteq> l\<close> ki_lt_total [of "ki_new b" "ki_new l"] by auto
qed

lemma floor_above:
  assumes floors: "\<And>k b. is_floor cmp M (ki_new k) b \<Longrightarrow> m k = M b"
    and c: "is_floor cmp M (ki_new g) c" and g: "N g = m g" "m g \<noteq> None"
    and gk: "\<not> ki_lt cmp (ki_new k) (ki_new g)"
    and eqM: "\<And>x. ki_lt cmp (ki_new g) (ki_new x) \<Longrightarrow> N x = M x"
    and b: "is_floor cmp N (ki_new k) b"
  shows "m k = N b"
proof -
  let ?le = "\<lambda>a b. \<not> ki_lt cmp (ki_new b) (ki_new a)"
  have bmax: "\<And>j. j \<in> dom N \<Longrightarrow> ?le j k \<Longrightarrow> ?le j b" and bk: "?le b k" and bdom: "b \<in> dom N"
    using b by (auto simp: is_floor_def)
  have gb: "?le g b" using bmax g gk by (metis domIff)
  show ?thesis
  proof (cases "b = g")
    case True
    have "?le c k" using c gk ki.order_trans unfolding is_floor_def by blast
    moreover have "?le x c" if "x \<in> dom M" "?le x k" for x
      using that c bmax eqM True unfolding is_floor_def by (metis domIff)
    ultimately have "is_floor cmp M (ki_new k) c"
      using c unfolding is_floor_def by blast
    with floors c True g show ?thesis by metis
  next
    case False
    with gb have gb': "ki_lt cmp (ki_new g) (ki_new b)" using ki_lt_total [of "ki_new b" "ki_new g"] by auto
    have "?le x b" if "x \<in> dom M" "?le x k" for x
      using that gb' bmax eqM [of x] ki.le_less_trans ki_lt_asym by (metis domIff)
    then have "is_floor cmp M (ki_new k) b"
      using bk bdom eqM [OF gb'] unfolding is_floor_def by (metis domIff)
    with floors eqM [OF gb'] show ?thesis by metis
  qed
qed

lemma floor_set_range:
  assumes floors: "\<And>k b. is_floor cmp M (ki_new k) b \<Longrightarrow> m k = M b"
    and h: "hi = ki_end \<and> M1 = M \<or>
            (\<exists>g c. hi = ki_new g \<and> M1 = M(g := m g) \<and> m g \<noteq> None \<and> is_floor cmp M hi c)"
    and lt: "ki_lt cmp (ki_new l) hi"
    and N: "N = (M1 |` {k. \<not> ki_between cmp (ki_new l) (ki_new k) hi})(l \<mapsto> dst)"
    and b: "is_floor cmp N (ki_new k) b"
  shows "(if ki_between cmp (ki_new l) (ki_new k) hi then Some dst else m k) = N b"
proof -
  have out: "N x = M x" if "\<not> ki_between cmp (ki_new l) (ki_new x) hi" "hi \<noteq> ki_new x" for x
    using that h lt N by (auto simp: restrict_map_def ki_between_def)
  consider (below) "ki_lt cmp (ki_new k) (ki_new l)"
    | (inside) "\<not> ki_lt cmp (ki_new k) (ki_new l)" "ki_lt cmp (ki_new k) hi"
    | (above) "\<not> ki_lt cmp (ki_new k) (ki_new l)" "\<not> ki_lt cmp (ki_new k) hi"
    by blast
  then show ?thesis
  proof cases
    case below
    have eq: "M x = N x" if "\<not> ki_lt cmp (ki_new k) (ki_new x)" for x
    proof -
      have "ki_lt cmp (ki_new x) (ki_new l)" using that below ki.le_less_trans by blast
      then show ?thesis using out [of x] lt ki_lt_asym unfolding ki_between_def by metis
    qed
    have "m k = M b" using floors floor_transfer [OF b eq] by blast
    moreover have "M b = N b" using eq b by (simp add: is_floor_def)
    ultimately show ?thesis using below by (simp add: ki_between_def)
  next
    case inside
    have "b = l"
    proof (rule floor_inside [OF b [unfolded N] inside(1)])
      fix x
      assume "ki_lt cmp (ki_new l) (ki_new x)" "\<not> ki_lt cmp (ki_new k) (ki_new x)"
      then have "ki_between cmp (ki_new l) (ki_new x) hi"
        unfolding ki_between_def using inside ki.le_less_trans ki_lt_asym by blast
      then show "(M1 |` {k. \<not> ki_between cmp (ki_new l) (ki_new k) hi}) x = None" by simp
    qed
    with inside show ?thesis by (simp add: ki_between_def N)
  next
    case above
    then obtain g where hi: "hi = ki_new g" by (cases hi rule: ki_cases) auto
    from h hi obtain c where M1: "M1 = M(g := m g)" and mg: "m g \<noteq> None" and c: "is_floor cmp M (ki_new g) c"
      by auto
    have "N g = m g" using lt by (auto simp: N M1 hi restrict_map_def ki_between_def)
    moreover have "N x = M x" if "ki_lt cmp (ki_new g) (ki_new x)" for x
      using out [of x] that ki_lt_asym [OF that] by (auto simp: ki_between_def hi)
    ultimately have "m k = N b"
      using floor_above [of M m g c N k b] floors c mg b above hi by blast
    with above show ?thesis by (simp add: ki_between_def)
  qed
qed

end

section \<open>The interface of the map\<close>

text \<open>What the delegation map relies on. A client that resolves a key through its floor reads the
  value at the floor, and the composite update of \<open>floor_set_range\<close> never panics.\<close>

locale lows_map = KeyTrait zero cmp for zero :: 'k and cmp :: "'k \<Rightarrow> 'k \<Rightarrow> Ordering" +
  fixes valid :: "'s \<Rightarrow> bool"
    and view :: "'s \<Rightarrow> 'k \<rightharpoonup> 'v"
    and get :: "'s \<Rightarrow> 'k \<Rightarrow> 'v option outcome"
    and put :: "'s \<Rightarrow> 'k \<Rightarrow> 'v \<Rightarrow> 's outcome"
    and erase :: "'s \<Rightarrow> 'k KeyIterator \<Rightarrow> 'k KeyIterator \<Rightarrow> 's outcome"
    and glb :: "'s \<Rightarrow> 'k KeyIterator \<Rightarrow> 'k KeyIterator outcome"
  assumes get_law: "valid s \<Longrightarrow> get s k = Ret (view s k)"
    and put_law: "valid s \<Longrightarrow> \<exists>s'. put s k v = Ret s' \<and> valid s' \<and> view s' = (view s)(k \<mapsto> v)"
    and erase_law: "valid s \<Longrightarrow> \<exists>s'. erase s lo hi = Ret s' \<and> valid s' \<and>
                      view s' = view s |` {k. \<not> ki_between cmp lo (ki_new k) hi}"
    and glb_law: "valid s \<Longrightarrow> zero \<in> dom (view s) \<Longrightarrow>
                    \<exists>b. glb s iter = Ret (ki_new b) \<and> is_floor cmp (view s) iter b"
begin

lemma floor_exists: "valid s \<Longrightarrow> zero \<in> dom (view s) \<Longrightarrow> \<exists>b. is_floor cmp (view s) iter b"
  using glb_law by blast

lemma get_at_floor:
  assumes "valid s" and "zero \<in> dom (view s)"
  shows "\<exists>b v. glb s iter = Ret (ki_new b) \<and> is_floor cmp (view s) iter b \<and>
               get s b = Ret (Some v) \<and> view s b = Some v"
proof -
  obtain b where b: "glb s iter = Ret (ki_new b)" "is_floor cmp (view s) iter b"
    using glb_law [OF assms] by blast
  then obtain v where "view s b = Some v" by (auto simp: is_floor_def)
  with b assms show ?thesis by (simp add: get_law)
qed

text \<open>The three steps of an update, after the value at the upper end has been pinned in \<open>s1\<close>.\<close>

lemma set_range:
  assumes valid: "valid s" "zero \<in> dom (view s)"
    and floors: "\<And>k b. is_floor cmp (view s) (ki_new k) b \<Longrightarrow> m k = view s b"
    and s1: "valid s1"
      "hi = ki_end \<and> view s1 = view s \<or>
       (\<exists>g. hi = ki_new g \<and> view s1 = (view s)(g := m g) \<and> m g \<noteq> None)"
    and lt: "ki_lt cmp (ki_new l) hi"
  shows "\<exists>s2 s3. erase s1 (ki_new l) hi = Ret s2 \<and> put s2 l dst = Ret s3 \<and> valid s3 \<and>
           zero \<in> dom (view s3) \<and>
           (\<forall>k b. is_floor cmp (view s3) (ki_new k) b \<longrightarrow>
              (if ki_between cmp (ki_new l) (ki_new k) hi then Some dst else m k) = view s3 b)"
proof -
  obtain s2 where s2: "erase s1 (ki_new l) hi = Ret s2" "valid s2"
      "view s2 = view s1 |` {k. \<not> ki_between cmp (ki_new l) (ki_new k) hi}"
    using erase_law [OF s1(1)] by blast
  obtain s3 where s3: "put s2 l dst = Ret s3" "valid s3" "view s3 = (view s2)(l \<mapsto> dst)"
    using put_law [OF s2(2)] by blast
  have N: "view s3 = (view s1 |` {k. \<not> ki_between cmp (ki_new l) (ki_new k) hi})(l \<mapsto> dst)"
    by (simp add: s3 s2)
  have h: "hi = ki_end \<and> view s1 = view s \<or>
      (\<exists>g c. hi = ki_new g \<and> view s1 = (view s)(g := m g) \<and> m g \<noteq> None \<and> is_floor cmp (view s) hi c)"
    using s1(2) floor_exists [OF valid, of hi] by blast
  have "zero \<in> dom (view s3)"
  proof (cases "l = zero")
    case False
    then have "\<not> ki_between cmp (ki_new l) (ki_new zero) hi" by (simp add: ki_between_def zero_least)
    with False valid s1(2) show ?thesis by (auto simp: N restrict_map_def)
  qed (simp add: s3)
  with s2 s3 floor_set_range [OF floors h lt N] show ?thesis by blast
qed

end

sublocale KeyTrait \<subseteq> lows: lows_map zero cmp "som_valid cmp" som_m "som_get cmp" "som_set cmp"
  "som_erase cmp" "som_greatest_lower_bound cmp"
proof unfold_locales
  fix s iter
  assume "som_valid cmp s" and "zero \<in> dom (som_m s)"
  from som_glb_correct [OF this, of iter]
  show "\<exists>b. som_greatest_lower_bound cmp s iter = Ret (ki_new b) \<and> is_floor cmp (som_m s) iter b"
    by (simp add: som_greatest_lower_bound_def sov_index_def Let_def outcome_simps)
qed (rule som_get_correct som_set_correct som_erase_correct, assumption)+

end
