(* ===== verification/Delegation_Map.thy ===== *)
theory Delegation_Map
  imports Ordered_Map
begin

text \<open>
  The delegation map (\<open>delegation_map_v.rs\<close>) and its specification (\<open>delegation_map_t.rs\<close>). The
  implementation stores one entry per range of keys, at the lowest key of the range; the ghost map
  \<open>m\<close> assigns an end point to every key. The central lemma \<open>dm_valid_iff\<close> reads the validity
  predicate of the source, which quantifies over gaps, as: every key is assigned the value at its
  floor. The properties state lookup, range update and range check for the keys of the store.
\<close>

section \<open>Specification\<close>

text \<open>\<open>AbstractDelegationMap\<close> wraps one map, which represents it.\<close>

type_synonym AbstractDelegationMap = "AbstractKey \<rightharpoonup> AbstractEndPoint"

definition adm_init :: "AbstractEndPoint \<Rightarrow> AbstractDelegationMap" where
  "adm_init root_identity = (\<lambda>k. Some root_identity)"

definition adm_index :: "AbstractDelegationMap \<Rightarrow> AbstractKey \<Rightarrow> AbstractEndPoint" where
  "adm_index d k = the (d k)"

definition adm_is_complete :: "AbstractDelegationMap \<Rightarrow> bool" where
  "adm_is_complete d \<longleftrightarrow> dom d = UNIV"

definition adm_update ::
    "AbstractDelegationMap \<Rightarrow> AbstractKey KeyRange \<Rightarrow> AbstractEndPoint \<Rightarrow> AbstractDelegationMap" where
  "adm_update d newkr host = d ++ (\<lambda>k. if kr_contains shtkey_cmp newkr k then Some host else None)"

definition adm_delegate_for_key_range_is_host ::
    "AbstractDelegationMap \<Rightarrow> AbstractKey KeyRange \<Rightarrow> AbstractEndPoint \<Rightarrow> bool" where
  "adm_delegate_for_key_range_is_host d kr host \<longleftrightarrow>
     (\<forall>k. kr_contains shtkey_cmp kr k \<longrightarrow> adm_index d k = host)"

section \<open>Implementation\<close>

record 'k DelegationMap =
  dm_lows :: "'k StrictlyOrderedMap"
  dm_m :: "'k \<rightharpoonup> AbstractEndPoint"

definition dm_valid :: "'k \<Rightarrow> ('k \<Rightarrow> 'k \<Rightarrow> Ordering) \<Rightarrow> 'k DelegationMap \<Rightarrow> bool" where
  "dm_valid zero cmp s \<longleftrightarrow>
     som_valid cmp (dm_lows s) \<and>
     zero \<in> dom (som_m (dm_lows s)) \<and>
     dom (dm_m s) = UNIV \<and>
     (\<forall>k. valid_physical_address (the (dm_m s k))) \<and>
     (\<forall>k i j. i \<in> dom (som_m (dm_lows s)) \<and> som_gap cmp (dm_lows s) (ki_new i) j \<and>
        ki_between cmp (ki_new i) (ki_new k) j \<longrightarrow> dm_m s k = som_m (dm_lows s) i)"

definition dm_new :: "('k \<Rightarrow> 'k \<Rightarrow> Ordering) \<Rightarrow> 'k \<Rightarrow> ID \<Rightarrow> 'k DelegationMap outcome" where
  "dm_new cmp k_zero id_zero =
     bind_outcome (som_set cmp som_new k_zero id_zero)
       (\<lambda>lows. Ret \<lparr>dm_lows = lows, dm_m = (\<lambda>k. Some id_zero)\<rparr>)"

text \<open>The second component, the greatest lower bound, is a ghost value.\<close>

definition dm_get_internal ::
    "('k \<Rightarrow> 'k \<Rightarrow> Ordering) \<Rightarrow> 'k DelegationMap \<Rightarrow> 'k \<Rightarrow> (ID \<times> 'k KeyIterator) outcome" where
  "dm_get_internal cmp s k =
     (let ki = ki_new k
      in bind_outcome (som_greatest_lower_bound cmp (dm_lows s) ki)
           (\<lambda>glb. bind_outcome (ki_get glb)
             (\<lambda>glb_k. bind_outcome (som_get cmp (dm_lows s) glb_k)
               (\<lambda>r. bind_outcome (unwrap r) (\<lambda>id. Ret (ep_clone_up_to_view id, glb))))))"

definition dm_get :: "('k \<Rightarrow> 'k \<Rightarrow> Ordering) \<Rightarrow> 'k DelegationMap \<Rightarrow> 'k \<Rightarrow> ID outcome" where
  "dm_get cmp s k = bind_outcome (dm_get_internal cmp s k) (\<lambda>(id, glb_ret). Ret id)"

definition dm_set ::
    "('k \<Rightarrow> 'k \<Rightarrow> Ordering) \<Rightarrow> 'k DelegationMap \<Rightarrow> 'k KeyIterator \<Rightarrow> 'k KeyIterator \<Rightarrow> ID
     \<Rightarrow> 'k DelegationMap outcome" where
  "dm_set cmp s lo hi dst =
     (if ki_lt cmp lo hi then
        bind_outcome
          (if \<not> ki_is_end hi then
             bind_outcome (ki_get hi) (\<lambda>hi_k.
             bind_outcome (dm_get_internal cmp s hi_k) (\<lambda>(id, glb_ret).
             som_set cmp (dm_lows s) hi_k id))
           else Ret (dm_lows s)) (\<lambda>lows1.
        bind_outcome (som_erase cmp lows1 lo hi) (\<lambda>lows2.
        bind_outcome (ki_get lo) (\<lambda>lo_k.
        bind_outcome (som_set cmp lows2 lo_k (clone_end_point dst)) (\<lambda>lows3.
        Ret \<lparr>dm_lows = lows3,
             dm_m = dm_m s ++
               (\<lambda>k. if ki_between cmp lo (ki_new k) hi then Some dst else None)\<rparr>))))
      else Ret s)"

definition dm_range_consistent ::
    "('k \<Rightarrow> 'k \<Rightarrow> Ordering) \<Rightarrow> 'k DelegationMap \<Rightarrow> 'k KeyIterator \<Rightarrow> 'k KeyIterator \<Rightarrow> ID \<Rightarrow> bool" where
  "dm_range_consistent cmp s lo hi dst \<longleftrightarrow>
     (\<forall>k. ki_between cmp lo (ki_new k) hi \<longrightarrow> the (dm_m s k) = dst)"

definition dm_range_consistent_impl ::
    "('k \<Rightarrow> 'k \<Rightarrow> Ordering) \<Rightarrow> 'k DelegationMap \<Rightarrow> 'k KeyIterator \<Rightarrow> 'k KeyIterator \<Rightarrow> ID \<Rightarrow> bool outcome"
  where
  "dm_range_consistent_impl cmp s lo hi dst =
     (if ki_lt cmp lo hi then
        let lo_glb_index = som_greatest_lower_bound_index cmp (dm_lows s) lo;
            hi_glb_index = som_greatest_lower_bound_index cmp (dm_lows s) hi
        in bind_outcome (sov_index (som_keys (dm_lows s)) hi_glb_index) (\<lambda>hi_glb.
           bind_outcome (som_keys_in_index_range_agree (dm_lows s) lo_glb_index hi_glb_index dst)
             (\<lambda>(agree, almost).
                if agree then Ret True
                else if \<not> agree \<and> almost \<and> \<not> ki_is_end hi
                then bind_outcome (ki_get hi) (\<lambda>hi_k. Ret (is_eq (cmp hi_glb hi_k)))
                else Ret False))
      else Ret True)"

definition dm_delegate_for_key_range_is_host_impl ::
    "AbstractKey DelegationMap \<Rightarrow> AbstractKey KeyIterator \<Rightarrow> AbstractKey KeyIterator \<Rightarrow> ID \<Rightarrow> bool outcome"
  where
  "dm_delegate_for_key_range_is_host_impl s lo hi dst = dm_range_consistent_impl shtkey_cmp s lo hi dst"

section \<open>Every key is assigned the value at its floor\<close>

context KeyTrait
begin

lemma next_gap:
  assumes "finite (dom M)" and b: "is_floor cmp M (ki_new k) b"
  obtains j where "ki_lt cmp (ki_new k) j"
    and "\<And>x. ki_lt cmp (ki_new b) (ki_new x) \<Longrightarrow> ki_lt cmp (ki_new x) j \<Longrightarrow> x \<notin> dom M"
proof -
  let ?S = "{x \<in> ki_new ` dom M. ki_lt cmp (ki_new k) x}"
  have fin: "finite ?S" using assms by simp
  have le: "\<not> ki_lt cmp (ki_new k) (ki_new x)"
    if "x \<notin> dom M \<or> ki_new x \<notin> ?S" "x \<in> dom M" for x
    using that by auto
  show ?thesis
  proof (cases "?S = {}")
    case True
    have "x \<notin> dom M" if "ki_lt cmp (ki_new b) (ki_new x)" for x
      using that le [of x] True b unfolding is_floor_def by blast
    then show ?thesis by (intro that [of ki_end]) auto
  next
    case False
    let ?j = "ki.Min ?S"
    have j: "?j \<in> ?S" using fin False by (rule ki.Min_in)
    have "x \<notin> dom M" if x: "ki_lt cmp (ki_new b) (ki_new x)" "ki_lt cmp (ki_new x) ?j" for x
    proof
      assume dom: "x \<in> dom M"
      then have "ki_lt cmp (ki_new k) (ki_new x)" using x b unfolding is_floor_def by blast
      with dom have "ki_new x \<in> ?S" by simp
      from ki.Min_le [OF fin this] x show False by blast
    qed
    with j show ?thesis by (intro that [of ?j]) auto
  qed
qed

lemma dm_valid_iff:
  "dm_valid zero cmp s \<longleftrightarrow>
     som_valid cmp (dm_lows s) \<and> zero \<in> dom (som_m (dm_lows s)) \<and> dom (dm_m s) = UNIV \<and>
     (\<forall>k. valid_physical_address (the (dm_m s k))) \<and>
     (\<forall>k b. is_floor cmp (som_m (dm_lows s)) (ki_new k) b \<longrightarrow> dm_m s k = som_m (dm_lows s) b)"
proof -
  let ?M = "som_m (dm_lows s)"
  have "(\<forall>k i j. i \<in> dom ?M \<and> som_gap cmp (dm_lows s) (ki_new i) j \<and>
          ki_between cmp (ki_new i) (ki_new k) j \<longrightarrow> dm_m s k = ?M i) \<longleftrightarrow>
        (\<forall>k b. is_floor cmp ?M (ki_new k) b \<longrightarrow> dm_m s k = ?M b)" (is "?gaps \<longleftrightarrow> ?floors")
    if valid: "som_valid cmp (dm_lows s)"
  proof
    assume gaps: ?gaps
    show ?floors
    proof (intro allI impI)
      fix k b
      assume b: "is_floor cmp ?M (ki_new k) b"
      obtain j where "ki_lt cmp (ki_new k) j"
          "\<And>x. ki_lt cmp (ki_new b) (ki_new x) \<Longrightarrow> ki_lt cmp (ki_new x) j \<Longrightarrow> x \<notin> dom ?M"
        using next_gap [OF finite_dom_som [OF valid] b] by metis
      with b gaps show "dm_m s k = ?M b"
        unfolding som_gap_def ki_between_def is_floor_def by blast
    qed
  next
    assume floors: ?floors
    show ?gaps
    proof (intro allI impI)
      fix k i j
      assume "i \<in> dom ?M \<and> som_gap cmp (dm_lows s) (ki_new i) j \<and> ki_between cmp (ki_new i) (ki_new k) j"
      then have "is_floor cmp ?M (ki_new k) i"
        unfolding is_floor_def som_gap_def ki_between_def using ki.le_less_trans by blast
      with floors show "dm_m s k = ?M i" by blast
    qed
  qed
  then show ?thesis unfolding dm_valid_def by blast
qed

lemma dm_validD:
  assumes "dm_valid zero cmp s"
  shows "som_valid cmp (dm_lows s)" and "zero \<in> dom (som_m (dm_lows s))"
    and "\<And>k. \<exists>v. dm_m s k = Some v \<and> valid_physical_address v"
    and "\<And>k b. is_floor cmp (som_m (dm_lows s)) (ki_new k) b \<Longrightarrow> dm_m s k = som_m (dm_lows s) b"
proof -
  show "\<exists>v. dm_m s k = Some v \<and> valid_physical_address v" for k
  proof -
    have "k \<in> dom (dm_m s)" using assms by (simp add: dm_valid_iff)
    with assms show ?thesis unfolding dm_valid_iff by (metis domD option.sel)
  qed
qed (use assms dm_valid_iff in blast)+

section \<open>The operations\<close>

lemma dm_get_internal_correct:
  assumes "dm_valid zero cmp s"
  shows "\<exists>b. dm_get_internal cmp s k = Ret (the (dm_m s k), ki_new b) \<and>
             is_floor cmp (som_m (dm_lows s)) (ki_new k) b"
proof -
  note v = dm_validD [OF assms]
  obtain b x where "som_greatest_lower_bound cmp (dm_lows s) (ki_new k) = Ret (ki_new b)"
      "is_floor cmp (som_m (dm_lows s)) (ki_new k) b" "som_get cmp (dm_lows s) b = Ret (Some x)"
      "som_m (dm_lows s) b = Some x"
    using lows.get_at_floor [OF v(1,2)] by blast
  with v(4) show ?thesis by (simp add: dm_get_internal_def)
qed

lemma dm_get_correct:
  assumes "dm_valid zero cmp s"
  shows "dm_get cmp s k = Ret (the (dm_m s k)) \<and> valid_physical_address (the (dm_m s k))"
  using dm_get_internal_correct [OF assms, of k] dm_validD(3) [OF assms, of k]
  by (auto simp: dm_get_def)

lemma dm_new_correct:
  assumes "valid_physical_address ep"
  shows "\<exists>s. dm_new cmp zero ep = Ret s \<and> dm_valid zero cmp s \<and> dm_m s = (\<lambda>k. Some ep)"
proof -
  obtain lows where lows: "som_set cmp som_new zero ep = Ret lows" "som_valid cmp lows" "som_m lows = [zero \<mapsto> ep]"
    using som_set_correct [OF som_new_correct(1), of zero ep]
    by (auto simp: som_new_correct(2))
  moreover have "dm_valid zero cmp \<lparr>dm_lows = lows, dm_m = (\<lambda>k. Some ep)\<rparr>"
    using lows assms by (auto simp: dm_valid_iff is_floor_def)
  ultimately show ?thesis by (simp add: dm_new_def)
qed

lemma dm_set_correct:
  assumes valid: "dm_valid zero cmp s" and dst: "valid_physical_address dst"
  shows "\<exists>s'. dm_set cmp s lo hi dst = Ret s' \<and> dm_valid zero cmp s' \<and>
              dm_m s' = dm_m s ++ (\<lambda>k. if ki_between cmp lo (ki_new k) hi then Some dst else None)"
proof (cases "ki_lt cmp lo hi")
  case False
  then have "\<not> ki_between cmp lo (ki_new k) hi" for k
    unfolding ki_between_def using ki.le_less_trans by blast
  with False valid show ?thesis by (simp add: dm_set_def map_add_def)
next
  case True
  then obtain l where lo: "lo = ki_new l" by (cases lo rule: ki_cases) auto
  note v = dm_validD [OF valid]
  have pin: "\<exists>s1. (if \<not> ki_is_end hi then bind_outcome (ki_get hi) (\<lambda>hi_k.
      bind_outcome (dm_get_internal cmp s hi_k) (\<lambda>(id, glb_ret). som_set cmp (dm_lows s) hi_k id))
      else Ret (dm_lows s)) = Ret s1 \<and> som_valid cmp s1 \<and>
      (hi = ki_end \<and> som_m s1 = som_m (dm_lows s) \<or>
       (\<exists>g. hi = ki_new g \<and> som_m s1 = (som_m (dm_lows s))(g := dm_m s g) \<and> dm_m s g \<noteq> None))"
  proof (cases hi rule: ki_cases)
    case (key g)
    obtain x where "dm_m s g = Some x" using v(3) by blast
    with key v(1) show ?thesis
      using dm_get_internal_correct [OF valid, of g] som_set_correct [OF v(1), of g x] by fastforce
  qed (use v in simp)
  then obtain s1 where s1: "(if \<not> ki_is_end hi then bind_outcome (ki_get hi) (\<lambda>hi_k.
      bind_outcome (dm_get_internal cmp s hi_k) (\<lambda>(id, glb_ret). som_set cmp (dm_lows s) hi_k id))
      else Ret (dm_lows s)) = Ret s1" "som_valid cmp s1"
      "hi = ki_end \<and> som_m s1 = som_m (dm_lows s) \<or>
       (\<exists>g. hi = ki_new g \<and> som_m s1 = (som_m (dm_lows s))(g := dm_m s g) \<and> dm_m s g \<noteq> None)"
    by blast
  obtain s2 s3 where s3: "som_erase cmp s1 lo hi = Ret s2" "som_set cmp s2 l dst = Ret s3"
      "som_valid cmp s3" "zero \<in> dom (som_m s3)"
      "\<And>k b. is_floor cmp (som_m s3) (ki_new k) b \<Longrightarrow>
        (if ki_between cmp lo (ki_new k) hi then Some dst else dm_m s k) = som_m s3 b"
    using lows.set_range [OF v(1,2,4) s1(2,3), of l dst] True unfolding lo by blast
  let ?m = "dm_m s ++ (\<lambda>k. if ki_between cmp lo (ki_new k) hi then Some dst else None)"
  have m: "?m k = (if ki_between cmp lo (ki_new k) hi then Some dst else dm_m s k)" for k
    by (simp add: map_add_def)
  have "\<exists>x. ?m k = Some x \<and> valid_physical_address x" for k
    using v(3) [of k] dst by (auto simp: m)
  then have "dm_valid zero cmp \<lparr>dm_lows = s3, dm_m = ?m\<rparr>"
    unfolding dm_valid_iff using s3 m by (simp add: set_eq_iff domIff) (metis option.sel option.simps(3))
  moreover have "dm_set cmp s lo hi dst = Ret \<lparr>dm_lows = s3, dm_m = ?m\<rparr>"
    unfolding dm_set_def s1(1) using True s3 lo by (simp add: outcome_simps)
  ultimately show ?thesis by simp
qed

text \<open>The range check looks at the entries from the floor of \<open>lo\<close> to the floor of \<open>hi\<close>; the last
  entry does not matter when it starts at \<open>hi\<close>.\<close>

lemma floor_index:
  assumes valid: "som_valid cmp s" and zero: "zero \<in> dom (som_m s)"
    and i: "i = som_greatest_lower_bound_index cmp s iter"
  shows "i < length (som_keys s)" and "is_floor cmp (som_m s) iter (som_keys s ! i)"
    and "\<And>j. j < length (som_keys s) \<Longrightarrow> j \<le> i \<longleftrightarrow> \<not> ki_lt cmp iter (ki_new (som_keys s ! j))"
proof -
  show len: "i < length (som_keys s)" and floor: "is_floor cmp (som_m s) iter (som_keys s ! i)"
    using som_glb_correct [OF valid zero, of iter] by (simp_all add: i Let_def)
  have srt: "a < b \<Longrightarrow> b < length (som_keys s) \<Longrightarrow> ki_lt cmp (ki_new (som_keys s ! a)) (ki_new (som_keys s ! b))"
    for a b using valid by (simp add: som_valid_def sov_valid_def sov_sorted_def sorted_wrt_iff_nth_less)
  have dom: "som_keys s ! j \<in> dom (som_m s)" if "j < length (som_keys s)" for j
    using valid that by (simp add: som_valid_def som_map_valid_def)
  show "j \<le> i \<longleftrightarrow> \<not> ki_lt cmp iter (ki_new (som_keys s ! j))" if j: "j < length (som_keys s)" for j
  proof
    assume "j \<le> i"
    then have "j = i \<or> ki_lt cmp (ki_new (som_keys s ! j)) (ki_new (som_keys s ! i))"
      using srt len by (cases "j = i") auto
    then show "\<not> ki_lt cmp iter (ki_new (som_keys s ! j))"
      using floor ki_lt_trans unfolding is_floor_def by metis
  next
    assume "\<not> ki_lt cmp iter (ki_new (som_keys s ! j))"
    then have "\<not> ki_lt cmp (ki_new (som_keys s ! i)) (ki_new (som_keys s ! j))"
      using floor dom [OF j] unfolding is_floor_def by blast
    with srt [of i j] j show "j \<le> i" by force
  qed
qed

lemma dm_range_consistent_index:
  assumes valid: "dm_valid zero cmp s" and lt: "ki_lt cmp lo hi"
    and ilo: "ilo = som_greatest_lower_bound_index cmp (dm_lows s) lo"
    and ihi: "ihi = som_greatest_lower_bound_index cmp (dm_lows s) hi"
  shows "dm_range_consistent cmp s lo hi dst \<longleftrightarrow>
    (\<forall>i. ilo \<le> i \<and> i \<le> ihi \<and> ki_new (som_keys (dm_lows s) ! i) \<noteq> hi \<longrightarrow> som_vals (dm_lows s) ! i = dst)"
    (is "_ = ?idx")
proof -
  let ?ks = "som_keys (dm_lows s)" and ?M = "som_m (dm_lows s)"
  note v = dm_validD [OF valid]
  note lo_i = floor_index [OF v(1,2) ilo] and hi_i = floor_index [OF v(1,2) ihi]
  have val: "?M (?ks ! i) = Some (som_vals (dm_lows s) ! i)" if "i < length ?ks" for i
    using v(1) that by (simp add: som_valid_def som_map_valid_def)
  obtain l where lo: "lo = ki_new l" using lt by (cases lo rule: ki_cases) auto
  show ?thesis
  proof
    assume rc: "dm_range_consistent cmp s lo hi dst"
    show ?idx
    proof (intro allI impI)
      fix i
      assume i: "ilo \<le> i \<and> i \<le> ihi \<and> ki_new (?ks ! i) \<noteq> hi"
      then have len: "i < length ?ks" using hi_i(1) by simp
      have below: "ki_lt cmp (ki_new (?ks ! i)) hi"
        using i hi_i(3) [OF len] ki_lt_total by blast
      have "\<exists>k. ki_between cmp lo (ki_new k) hi \<and> is_floor cmp ?M (ki_new k) (?ks ! i)"
      proof (cases "i = ilo")
        case True
        with lo_i(2) lt show ?thesis by (intro exI [of _ l]) (simp add: lo ki_between_def)
      next
        case False
        with i lo_i(3) [OF len] have "ki_lt cmp lo (ki_new (?ks ! i))" by auto
        then show ?thesis
          using below val [OF len] ki_lt_asym
          by (intro exI [of _ "?ks ! i"]) (auto simp: ki_between_def is_floor_def simp del: ki_lt_simps)
      qed
      then obtain k where "ki_between cmp lo (ki_new k) hi" "is_floor cmp ?M (ki_new k) (?ks ! i)" by blast
      with rc v(4) val [OF len] show "som_vals (dm_lows s) ! i = dst"
        unfolding dm_range_consistent_def by fastforce
    qed
  next
    assume idx: ?idx
    show "dm_range_consistent cmp s lo hi dst"
      unfolding dm_range_consistent_def
    proof (intro allI impI)
      fix k
      assume k: "ki_between cmp lo (ki_new k) hi"
      define i where "i = som_greatest_lower_bound_index cmp (dm_lows s) (ki_new k)"
      note k_i = floor_index [OF v(1,2) i_def]
      have ki: "\<not> ki_lt cmp (ki_new k) (ki_new (?ks ! i))" using k_i(3) [OF k_i(1)] by simp
      have "ki_lt cmp (ki_new (?ks ! i)) hi"
        using ki k ki.le_less_trans unfolding ki_between_def by blast
      then have "ki_new (?ks ! i) \<noteq> hi" and "i \<le> ihi"
        using hi_i(3) [OF k_i(1)] ki_lt_asym ki_lt_irrefl by metis+
      moreover have "\<not> ki_lt cmp (ki_new k) (ki_new (?ks ! ilo))"
        using lo_i(3) [OF lo_i(1)] k ki.order_trans unfolding ki_between_def by blast
      then have "ilo \<le> i" using k_i(3) [OF lo_i(1)] by blast
      ultimately have "som_vals (dm_lows s) ! i = dst" using idx by blast
      with v(4) [OF k_i(2)] val [OF k_i(1)] show "the (dm_m s k) = dst" by simp
    qed
  qed
qed

lemma dm_range_consistent_impl_correct:
  assumes valid: "dm_valid zero cmp s"
  shows "dm_range_consistent_impl cmp s lo hi dst = Ret (dm_range_consistent cmp s lo hi dst)"
proof (cases "ki_lt cmp lo hi")
  case False
  then have "dm_range_consistent cmp s lo hi dst"
    unfolding dm_range_consistent_def ki_between_def using ki.le_less_trans by blast
  with False show ?thesis by (simp add: dm_range_consistent_impl_def)
next
  case True
  let ?ks = "som_keys (dm_lows s)" and ?vs = "som_vals (dm_lows s)"
  define ilo where "ilo = som_greatest_lower_bound_index cmp (dm_lows s) lo"
  define ihi where "ihi = som_greatest_lower_bound_index cmp (dm_lows s) hi"
  note v = dm_validD [OF valid]
  note lo_i = floor_index [OF v(1,2) ilo_def] and hi_i = floor_index [OF v(1,2) ihi_def]
  have le: "ilo \<le> ihi"
    using hi_i(3) [OF lo_i(1)] lo_i(3) [OF lo_i(1)] True ki_lt_trans by blast
  have len: "ihi < length ?vs" using hi_i(1) v(1) by (simp add: som_valid_def)
  have only: "ki_new (?ks ! i) \<noteq> hi" if "i < ihi" for i
    using that hi_i(1) hi_i(3) [OF hi_i(1)] v(1)
    by (auto simp: som_valid_def sov_valid_def sov_sorted_def sorted_wrt_iff_nth_less)
  let ?agree = "\<forall>j. ilo \<le> j \<and> j < Suc ihi \<longrightarrow> ?vs ! j = dst"
  let ?almost = "\<forall>j. ilo \<le> j \<and> j < ihi \<longrightarrow> ?vs ! j = dst"
  have rc: "dm_range_consistent cmp s lo hi dst \<longleftrightarrow> ?agree \<or> ki_new (?ks ! ihi) = hi \<and> ?almost"
    unfolding dm_range_consistent_index [OF valid True ilo_def ihi_def]
    using only by (metis le_neq_implies_less less_Suc_eq_le less_imp_le_nat)
  have "som_keys_in_index_range_agree (dm_lows s) ilo ihi dst = Ret (?agree, ?agree \<or> (?vs ! ihi \<noteq> dst \<and> ?almost))"
    unfolding som_keys_in_index_range_agree_def som_values_agree_def
    using som_values_agree_loop_eq [OF len, of ilo dst] le by (simp add: Let_def)
  moreover have "?agree \<longleftrightarrow> ?vs ! ihi = dst \<and> ?almost"
    using le by (metis less_Suc_eq less_Suc_eq_le)
  ultimately show ?thesis
    using True hi_i(1) rc unfolding dm_range_consistent_impl_def Let_def ilo_def [symmetric] ihi_def [symmetric]
    by (cases hi rule: ki_cases) (auto simp: outcome_simps sov_index_def cmp_eq)
qed

end

section \<open>The delegation map of the store\<close>

abbreviation sht_dm_valid :: "SHTKey DelegationMap \<Rightarrow> bool" where
  "sht_dm_valid \<equiv> dm_valid shtkey_zero shtkey_cmp"

text \<open>A map of two hosts, as the program builds it: the first host gets every key, then the second
  one the keys from 5 up.\<close>

definition example_dm :: "SHTKey DelegationMap" where
  "example_dm =
     \<lparr>dm_lows = \<lparr>som_keys = [SHTKey 0], som_vals = [EndPoint [1]], som_m = [SHTKey 0 \<mapsto> EndPoint [1]]\<rparr>,
      dm_m = (\<lambda>k. Some (EndPoint [1]))\<rparr>"

lemma example_dm_new: "dm_new shtkey_cmp shtkey_zero (EndPoint [1]) = Ret example_dm"
  by (simp add: dm_new_def example_dm_def som_set_def som_find_key_def som_find_key_loop.simps som_new_def
      sov_new_def sov_insert_def scan_while.simps shtkey_zero_def outcome_simps)

lemma example_dm_valid [simp]: "sht_dm_valid example_dm"
  using sht.dm_new_correct [of "EndPoint [1]"] by (simp add: example_dm_new valid_physical_address_def)

lemma example_dm_view [simp]: "dm_m example_dm = (\<lambda>k. Some (EndPoint [1]))"
  by (simp add: example_dm_def)

lemma kr_contains_between: "kr_contains shtkey_cmp (KeyRange lo hi) k \<longleftrightarrow> ki_between shtkey_cmp lo (ki_new k) hi"
  by (simp add: kr_contains_def)

lemma sht_dm_set_update:
  assumes "sht_dm_valid s" and "valid_physical_address dst"
  shows "\<exists>s'. dm_set shtkey_cmp s lo hi dst = Ret s' \<and> sht_dm_valid s' \<and>
              dm_m s' = adm_update (dm_m s) (KeyRange lo hi) dst"
  using sht.dm_set_correct [OF assms, of lo hi] by (simp add: adm_update_def kr_contains_between)

lemma sht_dm_complete: "sht_dm_valid s \<Longrightarrow> adm_is_complete (dm_m s)"
  by (simp add: adm_is_complete_def dm_valid_def)

lemma sht_dm_get: "sht_dm_valid s \<Longrightarrow> dm_get shtkey_cmp s k = Ret (adm_index (dm_m s) k)"
  using sht.dm_get_correct by (simp add: adm_index_def)

lemma sht_dm_range_check:
  "sht_dm_valid s \<Longrightarrow> dm_delegate_for_key_range_is_host_impl s lo hi dst =
     Ret (adm_delegate_for_key_range_is_host (dm_m s) (KeyRange lo hi) dst)"
  by (simp add: dm_delegate_for_key_range_is_host_impl_def sht.dm_range_consistent_impl_correct
      dm_range_consistent_def adm_delegate_for_key_range_is_host_def kr_contains_between adm_index_def)

section \<open>Properties\<close>

text \<open>C15: assigning the key range \<open>[lo, hi)\<close> to a host returns a valid delegation map, and the
  map it stands for is the specification's update of the old one: exactly the keys of the range
  change owner. This covers empty ranges, ranges without an upper end and ranges that split an
  existing one.\<close>

theorem delegation_map_set_refines_update:
  assumes "sht_dm_valid s" and "valid_physical_address dst"
  shows "\<exists>s'. dm_set shtkey_cmp s lo hi dst = Ret s' \<and> sht_dm_valid s' \<and>
              dm_m s' = adm_update (dm_m s) (KeyRange lo hi) dst"
  using assms by (rule sht_dm_set_update)

theorem delegation_map_set_witness:
  "sht_dm_valid example_dm \<and> valid_physical_address (EndPoint [2]) \<and>
   (\<exists>s'. dm_set shtkey_cmp example_dm (ki_new (SHTKey 5)) ki_end (EndPoint [2]) = Ret s' \<and>
         adm_index (dm_m s') (SHTKey 4) = EndPoint [1] \<and> adm_index (dm_m s') (SHTKey 5) = EndPoint [2])"
proof -
  have ep: "valid_physical_address (EndPoint [2])" by (simp add: valid_physical_address_def)
  obtain s' where s': "dm_set shtkey_cmp example_dm (ki_new (SHTKey 5)) ki_end (EndPoint [2]) = Ret s'"
      "dm_m s' = adm_update (dm_m example_dm) (KeyRange (ki_new (SHTKey 5)) ki_end) (EndPoint [2])"
    using delegation_map_set_refines_update [OF example_dm_valid ep] by blast
  then have "adm_index (dm_m s') (SHTKey 4) = EndPoint [1]" "adm_index (dm_m s') (SHTKey 5) = EndPoint [2]"
    by (simp_all add: adm_index_def adm_update_def map_add_def kr_contains_def ki_between_def shtkey_cmp_def)
  with ep s'(1) show ?thesis by simp
qed

text \<open>C16: looking up a key in a valid delegation map returns, without panicking, the host that the
  map it stands for assigns to the key, and that host's address is valid.\<close>

theorem delegation_map_get_correct:
  assumes "sht_dm_valid s"
  shows "dm_get shtkey_cmp s k = Ret (adm_index (dm_m s) k) \<and>
         valid_physical_address (adm_index (dm_m s) k) \<and> adm_is_complete (dm_m s)"
  using sht.dm_get_correct [OF assms, of k] sht_dm_complete [OF assms] by (simp add: adm_index_def)

theorem delegation_map_get_witness:
  "sht_dm_valid example_dm \<and> dm_get shtkey_cmp example_dm (SHTKey 7) = Ret (EndPoint [1])"
  using delegation_map_get_correct [OF example_dm_valid, of "SHTKey 7"]
  by (simp add: adm_index_def)

text \<open>C17: the range check, which compares a run of entries of the ordered map and treats the entry
  that starts at \<open>hi\<close> specially, decides exactly whether every key of \<open>[lo, hi)\<close> is assigned to
  the host.\<close>

theorem delegation_map_range_check_exact:
  assumes "sht_dm_valid s"
  shows "dm_delegate_for_key_range_is_host_impl s lo hi dst =
           Ret (adm_delegate_for_key_range_is_host (dm_m s) (KeyRange lo hi) dst)"
  using assms by (rule sht_dm_range_check)

theorem delegation_map_range_check_witness:
  "sht_dm_valid example_dm \<and>
   dm_delegate_for_key_range_is_host_impl example_dm (ki_new (SHTKey 3)) ki_end (EndPoint [1]) = Ret True"
  using delegation_map_range_check_exact [OF example_dm_valid, of "ki_new (SHTKey 3)" ki_end "EndPoint [1]"]
  by (simp add: adm_delegate_for_key_range_is_host_def adm_index_def)

end
