(* ===== verification/Marshal.thy ===== *)
theory Marshal
  imports Prelude
begin

text \<open>
  The marshalling library (\<open>marshal_v.rs\<close>). An implementation of the trait \<open>Marshalable\<close> is a
  record of its methods; the generic implementations take the records of their parameters. The
  locale \<open>Marshalable\<close> states the contract of the trait: the serializer appends exactly
  \<open>ghost_serialize\<close>, a value that is parsed serializes back to the bytes it was parsed from, and
  no two values have serializations of which one is a prefix of the other. The locale
  \<open>Marshalable_complete\<close> adds what the trait leaves open: the parser accepts every serialization.
  A parser is a function of the buffer and an offset; it returns \<open>None\<close> on bad input and may panic.
\<close>

section \<open>The trait\<close>

type_synonym 'a parse = "bytes \<Rightarrow> nat \<Rightarrow> ('a \<times> nat) option outcome"

record 'a marshal =
  is_marshalable :: "'a \<Rightarrow> bool"
  is_marshalable_exec :: "'a \<Rightarrow> bool"
  ghost_serialize :: "'a \<Rightarrow> bytes"
  serialized_size :: "'a \<Rightarrow> nat"
  serialize :: "'a \<Rightarrow> bytes \<Rightarrow> bytes"
  deserialize :: "'a parse"

text \<open>\<open>let (x, mid) = match T::deserialize(data, mid) { None => { return None; }, Some(x) => x }\<close>\<close>

definition de_field :: "'a parse \<Rightarrow> bytes \<Rightarrow> nat \<Rightarrow> ('a \<Rightarrow> nat \<Rightarrow> ('b \<times> nat) option outcome) \<Rightarrow> ('b \<times> nat) option outcome"
  where
  "de_field de data mid k =
     bind_outcome (de data mid) (\<lambda>r. case r of None \<Rightarrow> Ret None | Some (x, mid') \<Rightarrow> k x mid')"

text \<open>\<open>while i < n { data.push(s[i]); i = i + 1; }\<close>\<close>

function push_loop :: "bytes \<Rightarrow> nat \<Rightarrow> nat \<Rightarrow> bytes \<Rightarrow> bytes" where
  "push_loop s n i data = (if i < n then push_loop s n (Suc i) (data @ [s ! i]) else data)"
  by pat_completeness auto
termination
  by (relation "measure (\<lambda>(s, n, i, data). n - i)") auto

declare push_loop.simps [simp del]

definition slice_subrange :: "bytes \<Rightarrow> nat \<Rightarrow> nat \<Rightarrow> bytes" where
  "slice_subrange data i j = take (j - i) (drop i data)"

section \<open>Integers\<close>

text \<open>\<open>u64::to_le_bytes\<close> and \<open>u64::from_le_bytes\<close>\<close>

definition u64_to_le_bytes :: "u64 \<Rightarrow> bytes" where
  "u64_to_le_bytes x = map (\<lambda>i. ucast (drop_bit (8 * i) x)) [0..<8]"

definition u64_from_le_bytes :: "bytes \<Rightarrow> u64" where
  "u64_from_le_bytes s = foldr (\<lambda>b acc. ucast b + 256 * acc) s 0"

definition u64_deserialize :: "u64 parse" where
  "u64_deserialize data start =
     (if length data < 8 then Ret None
      else if start > length data - 8 then Ret None
      else let stop = start + 8
           in Ret (Some (u64_from_le_bytes (slice_subrange data start stop), stop)))"

definition u64_marshal :: "u64 marshal" where
  "u64_marshal =
     \<lparr>is_marshalable = (\<lambda>_. True),
      is_marshalable_exec = (\<lambda>_. True),
      ghost_serialize = u64_to_le_bytes,
      serialized_size = (\<lambda>_. 8),
      serialize = (\<lambda>x data. push_loop (u64_to_le_bytes x) 8 0 data),
      deserialize = u64_deserialize\<rparr>"

text \<open>A \<open>usize\<close> is a natural number up to \<open>usize_max\<close>; on a 64-bit target the casts lose nothing.\<close>

definition usize_deserialize :: "nat parse" where
  "usize_deserialize data start =
     de_field (deserialize u64_marshal) data start (\<lambda>r stop.
       if r \<le> of_nat usize_max then Ret (Some (unat r, stop)) else Ret None)"

definition usize_marshal :: "nat marshal" where
  "usize_marshal =
     \<lparr>is_marshalable = (\<lambda>n. n \<le> unat u64_max),
      is_marshalable_exec = (\<lambda>n. n \<le> unat u64_max),
      ghost_serialize = (\<lambda>n. ghost_serialize u64_marshal (of_nat n)),
      serialized_size = (\<lambda>n. serialized_size u64_marshal (of_nat n)),
      serialize = (\<lambda>n data. serialize u64_marshal (of_nat n) data),
      deserialize = usize_deserialize\<rparr>"

section \<open>Byte vectors\<close>

definition bytes_deserialize :: "bytes parse" where
  "bytes_deserialize data start =
     de_field (deserialize usize_marshal) data start (\<lambda>len mid.
       if usize_max - mid \<ge> len then
         let stop = mid + len
         in if stop > length data then Ret None
            else Ret (Some (slice_subrange data mid stop, stop))
       else Ret None)"

definition bytes_marshal :: "bytes marshal" where
  "bytes_marshal =
     \<lparr>is_marshalable = (\<lambda>v. length v \<le> usize_max \<and>
        length (ghost_serialize usize_marshal (length v)) + length v \<le> usize_max),
      is_marshalable_exec = (\<lambda>v. let len = length v in
        len \<le> usize_max \<and> serialized_size usize_marshal len \<le> usize_max - len),
      ghost_serialize = (\<lambda>v. ghost_serialize usize_marshal (length v) @ v),
      serialized_size = (\<lambda>v. serialized_size usize_marshal (length v) + length v),
      serialize = (\<lambda>v data. push_loop v (length v) 0 (serialize usize_marshal (length v) data)),
      deserialize = bytes_deserialize\<rparr>"

section \<open>Options\<close>

definition option_deserialize :: "'a marshal \<Rightarrow> 'a option parse" where
  "option_deserialize T data start =
     (if length data = 0 \<or> start > length data - 1 then Ret None
      else bind_outcome (vec_index data start) (\<lambda>tag.
        if tag = 0 then Ret (Some (None, start + 1))
        else if tag = 1 then
          de_field (deserialize T) data (start + 1) (\<lambda>x mid. Ret (Some (Some x, mid)))
        else Ret None))"

definition option_marshal :: "'a marshal \<Rightarrow> 'a option marshal" where
  "option_marshal T =
     \<lparr>is_marshalable = (\<lambda>v. case v of None \<Rightarrow> True
        | Some x \<Rightarrow> is_marshalable T x \<and> 1 + length (ghost_serialize T x) \<le> usize_max),
      is_marshalable_exec = (\<lambda>v. case v of None \<Rightarrow> True
        | Some x \<Rightarrow> is_marshalable_exec T x \<and> serialized_size T x \<le> usize_max - 1),
      ghost_serialize = (\<lambda>v. case v of None \<Rightarrow> [0] | Some x \<Rightarrow> [1] @ ghost_serialize T x),
      serialized_size = (\<lambda>v. case v of None \<Rightarrow> 1 | Some x \<Rightarrow> 1 + serialized_size T x),
      serialize = (\<lambda>v data. case v of None \<Rightarrow> data @ [0] | Some x \<Rightarrow> serialize T x (data @ [1])),
      deserialize = option_deserialize T\<rparr>"

section \<open>Vectors\<close>

text \<open>The length of a vector is a \<open>usize\<close>, which the executable check gets for granted and states
  first here. The vector of the parsed elements is allocated before the first element is parsed;
  \<open>with_capacity\<close> panics when the allocation would exceed \<open>isize::MAX\<close> bytes. \<open>sz\<close> is the size of an
  element.\<close>

definition with_capacity_ok :: "nat \<Rightarrow> nat \<Rightarrow> bool" where
  "with_capacity_ok sz len \<longleftrightarrow> len * sz \<le> isize_max"

fun vec_deserialize_loop :: "'a marshal \<Rightarrow> bytes \<Rightarrow> nat \<Rightarrow> nat \<Rightarrow> 'a list \<Rightarrow> ('a list \<times> nat) option outcome" where
  "vec_deserialize_loop T data 0 stop res = Ret (Some (res, stop))"
| "vec_deserialize_loop T data (Suc n) stop res =
     de_field (deserialize T) data stop (\<lambda>x stop1. vec_deserialize_loop T data n stop1 (res @ [x]))"

definition vec_deserialize :: "nat \<Rightarrow> 'a marshal \<Rightarrow> 'a list parse" where
  "vec_deserialize sz T data start =
     de_field (deserialize usize_marshal) data start (\<lambda>len mid.
       if with_capacity_ok sz len then vec_deserialize_loop T data len mid [] else Panic)"

fun vec_is_marshalable_loop :: "'a marshal \<Rightarrow> 'a list \<Rightarrow> nat \<Rightarrow> bool" where
  "vec_is_marshalable_loop T [] total_len = True"
| "vec_is_marshalable_loop T (x # xs) total_len =
     (if is_marshalable_exec T x \<and> usize_max - total_len \<ge> serialized_size T x
      then vec_is_marshalable_loop T xs (total_len + serialized_size T x) else False)"

definition vec_marshal :: "nat \<Rightarrow> 'a marshal \<Rightarrow> 'a list marshal" where
  "vec_marshal sz T =
     \<lparr>is_marshalable = (\<lambda>v. length v \<le> usize_max \<and> (\<forall>x\<in>set v. is_marshalable T x) \<and>
        length (ghost_serialize usize_marshal (length v)) +
          foldl (\<lambda>acc x. acc + length (ghost_serialize T x)) 0 v \<le> usize_max),
      is_marshalable_exec = (\<lambda>v. length v \<le> usize_max \<and>
        vec_is_marshalable_loop T v (serialized_size usize_marshal (length v))),
      ghost_serialize = (\<lambda>v. ghost_serialize usize_marshal (length v) @
        foldl (\<lambda>acc x. acc @ ghost_serialize T x) [] v),
      serialized_size = (\<lambda>v. foldl (\<lambda>res x. res + serialized_size T x)
        (serialized_size usize_marshal (length v)) v),
      serialize = (\<lambda>v data. foldl (\<lambda>data x. serialize T x data) (serialize usize_marshal (length v) data) v),
      deserialize = vec_deserialize sz T\<rparr>"

section \<open>Pairs and structs\<close>

definition pair_deserialize :: "'a marshal \<Rightarrow> 'b marshal \<Rightarrow> ('a \<times> 'b) parse" where
  "pair_deserialize T U data start =
     de_field (deserialize T) data start (\<lambda>t mid.
     de_field (deserialize U) data mid (\<lambda>u stop. Ret (Some ((t, u), stop))))"

definition pair_marshal :: "'a marshal \<Rightarrow> 'b marshal \<Rightarrow> ('a \<times> 'b) marshal" where
  "pair_marshal T U =
     \<lparr>is_marshalable = (\<lambda>p. is_marshalable T (fst p) \<and> is_marshalable U (snd p) \<and>
        length (ghost_serialize T (fst p)) + length (ghost_serialize U (snd p)) \<le> usize_max),
      is_marshalable_exec = (\<lambda>p. is_marshalable_exec T (fst p) \<and> is_marshalable_exec U (snd p) \<and>
        serialized_size T (fst p) \<le> usize_max - serialized_size U (snd p)),
      ghost_serialize = (\<lambda>p. ghost_serialize T (fst p) @ ghost_serialize U (snd p)),
      serialized_size = (\<lambda>p. serialized_size T (fst p) + serialized_size U (snd p)),
      serialize = (\<lambda>p data. serialize U (snd p) (serialize T (fst p) data)),
      deserialize = pair_deserialize T U\<rparr>"

text \<open>The macro \<open>marshalable_by_bijection\<close>.\<close>

definition bijection_marshal :: "('a \<Rightarrow> 'b) \<Rightarrow> ('b \<Rightarrow> 'a) \<Rightarrow> 'b marshal \<Rightarrow> 'a marshal" where
  "bijection_marshal forward backward T =
     \<lparr>is_marshalable = (\<lambda>x. is_marshalable T (forward x)),
      is_marshalable_exec = (\<lambda>x. is_marshalable_exec T (forward x)),
      ghost_serialize = (\<lambda>x. ghost_serialize T (forward x)),
      serialized_size = (\<lambda>x. serialized_size T (forward x)),
      serialize = (\<lambda>x data. serialize T (forward x) data),
      deserialize = (\<lambda>data start. de_field (deserialize T) data start (\<lambda>m stop. Ret (Some (backward m, stop))))\<rparr>"

section \<open>Enums\<close>

text \<open>The deserializer of the macro \<open>derive_marshalable_for_enum\<close>: the chain of tests on the tag, with
  the parser of each variant. The guard asks for a byte after the tag.\<close>

fun enum_dispatch :: "(u8 \<times> 'a parse) list \<Rightarrow> u8 \<Rightarrow> bytes \<Rightarrow> nat \<Rightarrow> ('a \<times> nat) option outcome" where
  "enum_dispatch [] tag data mid = Ret None"
| "enum_dispatch ((t, de) # vs) tag data mid =
     (if tag = t then de data mid else enum_dispatch vs tag data mid)"

definition enum_deserialize :: "(u8 \<times> 'a parse) list \<Rightarrow> 'a parse" where
  "enum_deserialize variants data start =
     (if length data = 0 \<or> start \<ge> length data - 1 then Ret None
      else bind_outcome (vec_index data start) (\<lambda>tag. enum_dispatch variants tag data (start + 1)))"

text \<open>The macro \<open>no_usize_overflows\<close>\<close>

fun no_usize_overflows :: "nat \<Rightarrow> nat list \<Rightarrow> bool" where
  "no_usize_overflows acc [] = True"
| "no_usize_overflows acc (a # rest) \<longleftrightarrow> usize_max - acc \<ge> a \<and> no_usize_overflows (acc + a) rest"

section \<open>The contract\<close>

locale Marshalable =
  fixes M :: "'a marshal"
  assumes exec_is_marshalable: "is_marshalable_exec M x = is_marshalable M x"
    and serialized_size: "is_marshalable M x \<Longrightarrow> serialized_size M x = length (ghost_serialize M x)"
    and fits: "is_marshalable M x \<Longrightarrow> length (ghost_serialize M x) \<le> usize_max"
    and serialize: "is_marshalable M x \<Longrightarrow> serialize M x data = data @ ghost_serialize M x"
    and sound: "deserialize M data start = Ret (Some (x, stop)) \<Longrightarrow> length data \<le> usize_max \<Longrightarrow>
      is_marshalable M x \<and> start \<le> stop \<and> stop \<le> length data \<and>
      slice_subrange data start stop = ghost_serialize M x"
    and prefix_free: "is_marshalable M x \<Longrightarrow> is_marshalable M y \<Longrightarrow>
      ghost_serialize M x @ a = ghost_serialize M y @ b \<Longrightarrow> x = y \<and> a = b"
begin

lemma append_eq_iff:
  "is_marshalable M x \<Longrightarrow> is_marshalable M y \<Longrightarrow>
   ghost_serialize M x @ a = ghost_serialize M y @ b \<longleftrightarrow> x = y \<and> a = b"
  using prefix_free by blast

lemma injective:
  "is_marshalable M x \<Longrightarrow> is_marshalable M y \<Longrightarrow> ghost_serialize M x = ghost_serialize M y \<Longrightarrow> x = y"
  using prefix_free [of x y "[]" "[]"] by simp

end

locale Marshalable_complete = Marshalable +
  assumes complete: "is_marshalable M x \<Longrightarrow> length (pre @ ghost_serialize M x @ post) \<le> usize_max \<Longrightarrow>
    deserialize M (pre @ ghost_serialize M x @ post) (length pre) =
      Ret (Some (x, length pre + length (ghost_serialize M x)))"

section \<open>Shared lemmas\<close>

lemma usize_max_eq: "usize_max = 18446744073709551615"
  by (simp add: usize_max_def)

lemma unat_u64_max [simp]: "unat u64_max = usize_max"
  by (simp add: u64_max_def usize_max_eq)

lemma push_loop_eq: "i \<le> n \<Longrightarrow> n = length s \<Longrightarrow> push_loop s n i data = data @ drop i s"
proof (induction s n i data rule: push_loop.induct)
  case (1 s n i data)
  then show ?case by (subst push_loop.simps) (auto simp: Cons_nth_drop_Suc)
qed

lemma de_field_Ret [outcome_simps]:
  "de_field de data mid k = Ret r \<longleftrightarrow>
     (de data mid = Ret None \<and> r = None) \<or> (\<exists>x m. de data mid = Ret (Some (x, m)) \<and> k x m = Ret r)"
  by (auto simp: de_field_def bind_outcome_Ret_iff split: option.splits)

lemma de_field_Some: "de data mid = Ret (Some (x, m)) \<Longrightarrow> de_field de data mid k = k x m"
  by (simp add: de_field_def)

lemma slice_subrange_append:
  "i \<le> j \<Longrightarrow> j \<le> k \<Longrightarrow> k \<le> length data \<Longrightarrow>
   slice_subrange data i k = slice_subrange data i j @ slice_subrange data j k"
proof -
  assume le: "i \<le> j" "j \<le> k" "k \<le> length data"
  then have "k - i = (j - i) + (k - j)" and "drop (j - i) (drop i data) = drop j data" by simp_all
  then show ?thesis by (simp add: slice_subrange_def take_add)
qed

lemma length_slice [simp]: "i \<le> j \<Longrightarrow> j \<le> length data \<Longrightarrow> length (slice_subrange data i j) = j - i"
  by (simp add: slice_subrange_def)

lemma slice_middle [simp]: "slice_subrange (pre @ s @ post) (length pre) (length pre + length s) = s"
  by (simp add: slice_subrange_def)

lemma slice_Cons:
  "start < length data \<Longrightarrow> Suc start \<le> stop \<Longrightarrow>
   slice_subrange data start stop = data ! start # slice_subrange data (Suc start) stop"
proof -
  assume start: "start < length data" and "Suc start \<le> stop"
  then have "stop - start = Suc (stop - Suc start)" by simp
  with start show ?thesis by (simp add: slice_subrange_def flip: Cons_nth_drop_Suc)
qed

section \<open>Little-endian integers\<close>

lemma length_u64_to_le_bytes [simp]: "length (u64_to_le_bytes x) = 8"
  by (simp add: u64_to_le_bytes_def)

fun le_nat :: "bytes \<Rightarrow> nat" where
  "le_nat [] = 0"
| "le_nat (b # s) = unat b + 256 * le_nat s"

lemma u64_from_le_nat: "u64_from_le_bytes s = of_nat (le_nat s)"
  by (induction s) (simp_all add: u64_from_le_bytes_def of_nat_unat)

lemma unat_u8_less: "unat (b :: u8) < 256"
proof -
  have "unat b < 2 ^ LENGTH(8)" by (rule unsigned_less)
  then show ?thesis by simp
qed

lemma unat_u64_less: "unat (x :: u64) < 18446744073709551616"
proof -
  have "unat x < 2 ^ LENGTH(64)" by (rule unsigned_less)
  then show ?thesis by simp
qed

lemma u64_le_max [simp]: "(r :: u64) \<le> 18446744073709551615"
  using unat_u64_less [of r] by (simp add: word_le_nat_alt)

lemma le_nat_less: "le_nat s < 256 ^ length s"
proof (induction s)
  case (Cons b s)
  have "unat b < 256" by (rule unat_u8_less)
  moreover from Cons have "256 * le_nat s + 256 \<le> 256 * 256 ^ length s" by simp
  ultimately show ?case by simp
qed simp

lemma le_nat_digit: "i < length s \<Longrightarrow> le_nat s div 256 ^ i mod 256 = unat (s ! i)"
proof (induction s arbitrary: i)
  case (Cons b s)
  have b: "unat b < 256" by (rule unat_u8_less)
  show ?case
  proof (cases i)
    case (Suc j)
    have "(unat b + 256 * le_nat s) div 256 ^ Suc j = le_nat s div 256 ^ j"
      using b by (simp add: div_mult2_eq)
    with Cons Suc show ?thesis by simp
  qed (use b in simp)
qed simp

lemma u64_to_le_nth: "i < 8 \<Longrightarrow> u64_to_le_bytes x ! i = of_nat (unat x div 256 ^ i mod 256)"
proof -
  assume "i < 8"
  have "unat (ucast (drop_bit (8 * i) x) :: 8 word) = unat x div 256 ^ i mod 256"
    by (simp only: unsigned_ucast_eq unsigned_drop_bit_eq) (simp add: drop_bit_eq_div take_bit_eq_mod power_mult unat_u64_less)
  then show ?thesis
    using \<open>i < 8\<close> by (simp add: u64_to_le_bytes_def word_unat_eq_iff unat_of_nat take_bit_eq_mod)
qed

lemma u64_to_from_le [simp]: "length s = 8 \<Longrightarrow> u64_to_le_bytes (u64_from_le_bytes s) = s"
proof (rule nth_equalityI)
  fix i
  assume s: "length s = 8" and "i < length (u64_to_le_bytes (u64_from_le_bytes s))"
  then have i: "i < 8" by simp
  have "unat (u64_from_le_bytes s) = le_nat s"
    using le_nat_less [of s] s by (simp add: u64_from_le_nat unat_of_nat)
  then show "u64_to_le_bytes (u64_from_le_bytes s) ! i = s ! i"
    using i s by (simp add: u64_to_le_nth le_nat_digit)
qed simp

lemma u64_to_le_inject: "u64_to_le_bytes x = u64_to_le_bytes y \<longleftrightarrow> x = y"
proof
  assume eq: "u64_to_le_bytes x = u64_to_le_bytes y"
  have bits: "bit (u64_to_le_bytes z ! (n div 8)) (n mod 8) = bit z n" if "n < 64" for z :: u64 and n
  proof -
    have "n div 8 < 8" using that by simp
    then show ?thesis by (simp add: u64_to_le_bytes_def bit_ucast_iff bit_drop_bit_eq)
  qed
  show "x = y"
  proof (rule bit_word_eqI)
    fix n
    assume "n < LENGTH(64)"
    with bits [of n x] bits [of n y] eq show "bit x n = bit y n" by simp
  qed
qed simp

lemma u64_from_to_le [simp]: "u64_from_le_bytes (u64_to_le_bytes x) = x"
  by (rule u64_to_le_inject [THEN iffD1]) simp

section \<open>The implementations meet the contract\<close>

text \<open>Parsing fields one after the other.\<close>

lemma sound_fields:
  assumes "Marshalable T" and "deserialize T data start = Ret (Some (x, mid))"
    and "length data \<le> usize_max" and "mid \<le> stop" "stop \<le> length data"
    and "slice_subrange data mid stop = rest"
  shows "is_marshalable T x \<and> start \<le> stop \<and> slice_subrange data start stop = ghost_serialize T x @ rest"
  using Marshalable.sound [OF assms(1,2,3)] assms slice_subrange_append [of start mid stop data] by auto

lemma u64_complete:
  "8 + length pre \<le> length (pre @ u64_to_le_bytes x @ post) \<Longrightarrow>
   u64_deserialize (pre @ u64_to_le_bytes x @ post) (length pre) = Ret (Some (x, length pre + 8))"
  using slice_middle [of pre "u64_to_le_bytes x" post] by (simp add: u64_deserialize_def Let_def)

interpretation u64: Marshalable_complete u64_marshal
proof unfold_locales
  fix data :: bytes and start x stop
  assume "deserialize u64_marshal data start = Ret (Some (x, stop))"
  then show "is_marshalable u64_marshal x \<and> start \<le> stop \<and> stop \<le> length data \<and>
      slice_subrange data start stop = ghost_serialize u64_marshal x"
    by (auto simp: u64_marshal_def u64_deserialize_def Let_def split: if_splits)
qed (auto simp: u64_marshal_def push_loop_eq usize_max_eq u64_to_le_inject append_eq_append_conv u64_complete)

interpretation usize: Marshalable_complete usize_marshal
proof unfold_locales
  fix data :: bytes and start x stop
  assume "deserialize usize_marshal data start = Ret (Some (x, stop))" and len: "length data \<le> usize_max"
  then obtain r where "deserialize u64_marshal data start = Ret (Some (r, stop))" "x = unat r"
    by (auto simp: usize_marshal_def usize_deserialize_def outcome_simps split: if_splits)
  with u64.sound len show "is_marshalable usize_marshal x \<and> start \<le> stop \<and> stop \<le> length data \<and>
      slice_subrange data start stop = ghost_serialize usize_marshal x"
    using unat_u64_less [of r] by (auto simp: usize_marshal_def usize_max_eq)
next
  fix x y a b
  assume "is_marshalable usize_marshal x" "is_marshalable usize_marshal y"
    and "ghost_serialize usize_marshal x @ a = ghost_serialize usize_marshal y @ b"
  moreover from this(3) have "of_nat x = (of_nat y :: u64) \<and> a = b"
    by (intro u64.prefix_free) (simp_all add: usize_marshal_def u64_marshal_def)
  ultimately show "x = y \<and> a = b"
    by (auto simp: usize_marshal_def usize_max_eq word_of_nat_eq_iff take_bit_eq_mod)
next
  fix x pre post
  assume "is_marshalable usize_marshal x" and "length (pre @ ghost_serialize usize_marshal x @ post) \<le> usize_max"
  with u64.complete [of "of_nat x" pre post]
  show "deserialize usize_marshal (pre @ ghost_serialize usize_marshal x @ post) (length pre) =
      Ret (Some (x, length pre + length (ghost_serialize usize_marshal x)))"
    by (simp add: usize_marshal_def usize_deserialize_def de_field_Some u64_marshal_def usize_max_eq
        unat_of_nat take_bit_eq_mod)
qed (simp_all add: usize_marshal_def u64_marshal_def push_loop_eq usize_max_eq)

lemma length_usize [simp]: "length (ghost_serialize usize_marshal n) = 8" "serialized_size usize_marshal n = 8"
  by (simp_all add: usize_marshal_def u64_marshal_def)

interpretation bytes: Marshalable_complete bytes_marshal
proof unfold_locales
  fix data :: bytes and start x stop
  assume "deserialize bytes_marshal data start = Ret (Some (x, stop))" and len: "length data \<le> usize_max"
  then obtain n mid where n: "deserialize usize_marshal data start = Ret (Some (n, mid))"
      "stop = mid + n" "stop \<le> length data" "x = slice_subrange data mid stop"
    by (auto simp: bytes_marshal_def bytes_deserialize_def outcome_simps Let_def split: if_splits)
  with sound_fields [OF usize.Marshalable_axioms n(1) len, of stop x] usize.sound [OF n(1) len] len
  show "is_marshalable bytes_marshal x \<and> start \<le> stop \<and> stop \<le> length data \<and>
      slice_subrange data start stop = ghost_serialize bytes_marshal x"
    by (auto simp: bytes_marshal_def dest!: arg_cong [where f = length])
next
  fix x y a b
  assume m: "is_marshalable bytes_marshal x" "is_marshalable bytes_marshal y"
    and eq: "ghost_serialize bytes_marshal x @ a = ghost_serialize bytes_marshal y @ b"
  have "length x = length y \<and> x @ a = y @ b"
    using m eq by (intro usize.prefix_free) (simp_all add: bytes_marshal_def usize_marshal_def)
  then show "x = y \<and> a = b" using append_eq_append_conv [of x y a b] by simp
next
  fix x pre post
  assume m: "is_marshalable bytes_marshal x"
    and len: "length (pre @ ghost_serialize bytes_marshal x @ post) \<le> usize_max"
  have "deserialize usize_marshal (pre @ ghost_serialize usize_marshal (length x) @ x @ post) (length pre) =
      Ret (Some (length x, length pre + 8))"
    using usize.complete [of "length x" pre "x @ post"] m len
    by (simp add: bytes_marshal_def) (simp add: usize_marshal_def)
  moreover have "slice_subrange (pre @ ghost_serialize usize_marshal (length x) @ x @ post)
      (length pre + 8) (length pre + 8 + length x) = x"
    using slice_middle [of "pre @ ghost_serialize usize_marshal (length x)" x post] by simp
  ultimately show "deserialize bytes_marshal (pre @ ghost_serialize bytes_marshal x @ post) (length pre) =
      Ret (Some (x, length pre + length (ghost_serialize bytes_marshal x)))"
    using m len by (simp add: bytes_marshal_def bytes_deserialize_def de_field_Some Let_def)
qed (auto simp: bytes_marshal_def push_loop_eq Let_def usize_max_eq usize.serialize usize_marshal_def
    u64_marshal_def)

lemma option_law:
  assumes "Marshalable T"
  shows "Marshalable (option_marshal T)"
proof -
  note T = Marshalable.exec_is_marshalable [OF assms] Marshalable.serialized_size [OF assms]
    Marshalable.serialize [OF assms]
  show ?thesis
  proof
    fix data :: bytes and start x stop
    assume de: "deserialize (option_marshal T) data start = Ret (Some (x, stop))" and len: "length data \<le> usize_max"
    then have start: "start < length data"
      by (cases "length data") (auto simp: option_marshal_def option_deserialize_def split: if_splits)
    show "is_marshalable (option_marshal T) x \<and> start \<le> stop \<and> stop \<le> length data \<and>
        slice_subrange data start stop = ghost_serialize (option_marshal T) x"
    proof (cases x)
      case None
      with de start have "data ! start = 0" "stop = Suc start"
        by (auto simp: option_marshal_def option_deserialize_def outcome_simps split: if_splits)
      with None start show ?thesis
        by (simp add: option_marshal_def slice_Cons) (simp add: slice_subrange_def)
    next
      case (Some y)
      with de start have y: "data ! start = 1" "deserialize T data (Suc start) = Ret (Some (y, stop))"
        by (auto simp: option_marshal_def option_deserialize_def outcome_simps split: if_splits)
      from Marshalable.sound [OF assms y(2) len] y(1) Some start len show ?thesis
        by (auto simp: option_marshal_def slice_Cons dest!: arg_cong [where f = length])
    qed
  next
    fix x y a b
    assume "is_marshalable (option_marshal T) x" "is_marshalable (option_marshal T) y"
      and "ghost_serialize (option_marshal T) x @ a = ghost_serialize (option_marshal T) y @ b"
    then show "x = y \<and> a = b"
      using Marshalable.prefix_free [OF assms] by (auto simp: option_marshal_def split: option.splits)
  qed (auto simp: option_marshal_def T usize_max_eq split: option.splits)
qed

lemma option_complete:
  assumes "Marshalable_complete T"
  shows "Marshalable_complete (option_marshal T)"
proof -
  have T: "Marshalable T" using assms by (rule Marshalable_complete.axioms)
  note opt = option_law [OF T]
  show ?thesis
  proof (intro Marshalable_complete.intro Marshalable_complete_axioms.intro opt)
    fix x pre post
    assume m: "is_marshalable (option_marshal T) x"
      and len: "length (pre @ ghost_serialize (option_marshal T) x @ post) \<le> usize_max"
    show "deserialize (option_marshal T) (pre @ ghost_serialize (option_marshal T) x @ post) (length pre) =
        Ret (Some (x, length pre + length (ghost_serialize (option_marshal T) x)))"
    proof (cases x)
      case (Some y)
      with m len Marshalable_complete.complete [OF assms, of y "pre @ [1]" post] show ?thesis
        by (simp add: option_marshal_def option_deserialize_def outcome_simps de_field_Some)
    qed (simp add: option_marshal_def option_deserialize_def outcome_simps)
  qed
qed

subsection \<open>Pairs and bijections\<close>

lemma pair_law:
  assumes T: "Marshalable T" and U: "Marshalable U"
  shows "Marshalable (pair_marshal T U)"
proof
  fix x
  show "is_marshalable_exec (pair_marshal T U) x = is_marshalable (pair_marshal T U) x"
    using Marshalable.fits [OF U, of "snd x"]
    by (auto simp: pair_marshal_def Marshalable.exec_is_marshalable [OF T] Marshalable.exec_is_marshalable [OF U]
        Marshalable.serialized_size [OF T] Marshalable.serialized_size [OF U])
next
  fix data :: bytes and start x stop
  assume "deserialize (pair_marshal T U) data start = Ret (Some (x, stop))" and len: "length data \<le> usize_max"
  then obtain mid where t: "deserialize T data start = Ret (Some (fst x, mid))"
      and u: "deserialize U data mid = Ret (Some (snd x, stop))"
    by (auto simp: pair_marshal_def pair_deserialize_def outcome_simps)
  note u' = Marshalable.sound [OF U u len]
  with sound_fields [OF T t len, of stop "ghost_serialize U (snd x)"] len
  show "is_marshalable (pair_marshal T U) x \<and> start \<le> stop \<and> stop \<le> length data \<and>
      slice_subrange data start stop = ghost_serialize (pair_marshal T U) x"
    by (auto simp: pair_marshal_def dest!: arg_cong [where f = length])
next
  fix x y a b
  assume m: "is_marshalable (pair_marshal T U) x" "is_marshalable (pair_marshal T U) y"
    and eq: "ghost_serialize (pair_marshal T U) x @ a = ghost_serialize (pair_marshal T U) y @ b"
  have "fst x = fst y \<and> ghost_serialize U (snd x) @ a = ghost_serialize U (snd y) @ b"
    using m eq by (intro Marshalable.prefix_free [OF T]) (simp_all add: pair_marshal_def)
  with m Marshalable.prefix_free [OF U, of "snd x" "snd y" a b] show "x = y \<and> a = b"
    by (simp add: pair_marshal_def prod_eq_iff)
qed (simp_all add: pair_marshal_def Marshalable.serialized_size [OF T] Marshalable.serialized_size [OF U]
    Marshalable.serialize [OF T] Marshalable.serialize [OF U])

lemma pair_complete:
  assumes T: "Marshalable_complete T" and U: "Marshalable_complete U"
  shows "Marshalable_complete (pair_marshal T U)"
proof (intro Marshalable_complete.intro Marshalable_complete_axioms.intro pair_law)
  fix x pre post
  assume m: "is_marshalable (pair_marshal T U) x"
    and len: "length (pre @ ghost_serialize (pair_marshal T U) x @ post) \<le> usize_max"
  with Marshalable_complete.complete [OF T, of "fst x" pre "ghost_serialize U (snd x) @ post"]
    Marshalable_complete.complete [OF U, of "snd x" "pre @ ghost_serialize T (fst x)" post]
  show "deserialize (pair_marshal T U) (pre @ ghost_serialize (pair_marshal T U) x @ post) (length pre) =
      Ret (Some (x, length pre + length (ghost_serialize (pair_marshal T U) x)))"
    by (simp add: pair_marshal_def pair_deserialize_def de_field_Some)
qed (use T U Marshalable_complete.axioms in blast)+

lemma bijection_law:
  assumes T: "Marshalable T" and fb: "\<And>y. forward (backward y) = y" and bf: "\<And>x. backward (forward x) = x"
  shows "Marshalable (bijection_marshal forward backward T)"
proof
  fix x y a b
  assume "is_marshalable (bijection_marshal forward backward T) x" "is_marshalable (bijection_marshal forward backward T) y"
    and "ghost_serialize (bijection_marshal forward backward T) x @ a =
         ghost_serialize (bijection_marshal forward backward T) y @ b"
  with Marshalable.prefix_free [OF T, of "forward x" "forward y" a b] show "x = y \<and> a = b"
    by (simp add: bijection_marshal_def) (metis bf)
qed (auto simp: bijection_marshal_def outcome_simps fb Marshalable.exec_is_marshalable [OF T] Marshalable.fits [OF T]
    Marshalable.serialized_size [OF T] Marshalable.serialize [OF T] dest: Marshalable.sound [OF T])

lemma bijection_complete:
  assumes T: "Marshalable_complete T" and fb: "\<And>y. forward (backward y) = y" and bf: "\<And>x. backward (forward x) = x"
  shows "Marshalable_complete (bijection_marshal forward backward T)"
proof (intro Marshalable_complete.intro Marshalable_complete_axioms.intro bijection_law)
  show "Marshalable T" using T by (rule Marshalable_complete.axioms)
qed (simp_all add: bijection_marshal_def de_field_Some bf fb Marshalable_complete.complete [OF T])

subsection \<open>Vectors\<close>

lemma foldl_append_ser: "foldl (\<lambda>acc x. acc @ f x) s v = s @ concat (map f v)"
  by (induction v arbitrary: s) auto

lemma foldl_sum_len: "foldl (\<lambda>acc x. acc + length (f x)) n v = n + length (concat (map f v))"
  by (induction v arbitrary: n) auto

lemma vec_ghost_serialize:
  "ghost_serialize (vec_marshal sz T) v =
     ghost_serialize usize_marshal (length v) @ concat (map (ghost_serialize T) v)"
  by (simp add: vec_marshal_def foldl_append_ser)

lemma vec_is_marshalable:
  "is_marshalable (vec_marshal sz T) v \<longleftrightarrow>
     length v \<le> usize_max \<and> (\<forall>x\<in>set v. is_marshalable T x) \<and>
     8 + length (concat (map (ghost_serialize T) v)) \<le> usize_max"
  by (simp add: vec_marshal_def foldl_sum_len)

lemma vec_loop_sound:
  assumes T: "Marshalable T" and len: "length data \<le> usize_max"
  shows "vec_deserialize_loop T data n mid res = Ret (Some (v, stop)) \<Longrightarrow> mid \<le> length data \<Longrightarrow>
    \<exists>w. v = res @ w \<and> length w = n \<and> (\<forall>x\<in>set w. is_marshalable T x) \<and> mid \<le> stop \<and> stop \<le> length data \<and>
        slice_subrange data mid stop = concat (map (ghost_serialize T) w)"
proof (induction n arbitrary: mid res)
  case 0
  then show ?case by (simp add: slice_subrange_def)
next
  case (Suc n)
  then obtain x m where x: "deserialize T data mid = Ret (Some (x, m))"
      and rest: "vec_deserialize_loop T data n m (res @ [x]) = Ret (Some (v, stop))"
    by (auto simp: outcome_simps)
  note s = Marshalable.sound [OF T x len]
  from Suc.IH [OF rest] s obtain w where w: "v = (res @ [x]) @ w" "length w = n" "\<forall>x\<in>set w. is_marshalable T x"
      "m \<le> stop" "stop \<le> length data" "slice_subrange data m stop = concat (map (ghost_serialize T) w)"
    by auto
  with sound_fields [OF T x len w(4,5,6)] s show ?case by (intro exI [of _ "x # w"]) auto
qed

lemma vec_loop_complete:
  assumes T: "Marshalable_complete T"
  shows "\<forall>x\<in>set v. is_marshalable T x \<Longrightarrow>
    length (pre @ concat (map (ghost_serialize T) v) @ post) \<le> usize_max \<Longrightarrow>
    vec_deserialize_loop T (pre @ concat (map (ghost_serialize T) v) @ post) (length v) (length pre) res =
      Ret (Some (res @ v, length pre + length (concat (map (ghost_serialize T) v))))"
proof (induction v arbitrary: pre res)
  case (Cons x v)
  let ?rest = "concat (map (ghost_serialize T) v) @ post"
  have "deserialize T (pre @ ghost_serialize T x @ ?rest) (length pre) =
      Ret (Some (x, length pre + length (ghost_serialize T x)))"
    using Cons.prems by (intro Marshalable_complete.complete [OF T]) simp_all
  moreover have "vec_deserialize_loop T ((pre @ ghost_serialize T x) @ ?rest) (length v)
      (length (pre @ ghost_serialize T x)) (res @ [x]) =
      Ret (Some ((res @ [x]) @ v, length (pre @ ghost_serialize T x) + length (concat (map (ghost_serialize T) v))))"
    using Cons.prems by (intro Cons.IH) simp_all
  ultimately show ?case by (simp add: de_field_Some)
qed simp

lemma vec_exec_loop:
  assumes T: "Marshalable T"
  shows "acc \<le> usize_max \<Longrightarrow> vec_is_marshalable_loop T v acc \<longleftrightarrow>
    (\<forall>x\<in>set v. is_marshalable T x) \<and> acc + length (concat (map (ghost_serialize T) v)) \<le> usize_max"
proof (induction v arbitrary: acc)
  case (Cons x v)
  show ?case
  proof (cases "is_marshalable T x \<and> acc + length (ghost_serialize T x) \<le> usize_max")
    case True
    with Cons.IH [of "acc + length (ghost_serialize T x)"] Cons.prems show ?thesis
      by (simp add: Marshalable.exec_is_marshalable [OF T] Marshalable.serialized_size [OF T] add.assoc
          le_diff_conv2 add.commute)
  next
    case False
    with Cons.prems show ?thesis
      by (auto simp: Marshalable.exec_is_marshalable [OF T] Marshalable.serialized_size [OF T])
  qed
qed simp

lemma vec_prefix_free:
  assumes T: "Marshalable T"
  shows "length v = length w \<Longrightarrow> \<forall>x\<in>set v. is_marshalable T x \<Longrightarrow> \<forall>x\<in>set w. is_marshalable T x \<Longrightarrow>
    concat (map (ghost_serialize T) v) @ a = concat (map (ghost_serialize T) w) @ b \<Longrightarrow> v = w \<and> a = b"
proof (induction v w rule: list_induct2)
  case (Cons x v y w)
  then have "x = y \<and> concat (map (ghost_serialize T) v) @ a = concat (map (ghost_serialize T) w) @ b"
    by (intro Marshalable.prefix_free [OF T]) simp_all
  with Cons show ?case by simp
qed simp

lemma vec_serialize_loop:
  assumes T: "Marshalable T"
  shows "\<forall>x\<in>set v. is_marshalable T x \<Longrightarrow>
    foldl (\<lambda>data x. serialize T x data) data v = data @ concat (map (ghost_serialize T) v)"
  by (induction v arbitrary: data) (simp_all add: Marshalable.serialize [OF T])

lemma vec_size_loop:
  assumes T: "Marshalable T"
  shows "\<forall>x\<in>set v. is_marshalable T x \<Longrightarrow>
    foldl (\<lambda>res x. res + serialized_size T x) n v = n + length (concat (map (ghost_serialize T) v))"
  by (induction v arbitrary: n) (simp_all add: Marshalable.serialized_size [OF T])

lemma vec_law:
  assumes T: "Marshalable T"
  shows "Marshalable (vec_marshal sz T)"
proof
  fix v
  show "is_marshalable_exec (vec_marshal sz T) v = is_marshalable (vec_marshal sz T) v"
    unfolding vec_is_marshalable using vec_exec_loop [OF T, of 8 v]
    by (auto simp: vec_marshal_def usize_max_eq)
  assume m: "is_marshalable (vec_marshal sz T) v"
  show "serialized_size (vec_marshal sz T) v = length (ghost_serialize (vec_marshal sz T) v)"
    using m unfolding vec_ghost_serialize vec_is_marshalable
    by (simp add: vec_marshal_def vec_size_loop [OF T])
  show "length (ghost_serialize (vec_marshal sz T) v) \<le> usize_max"
    using m unfolding vec_ghost_serialize vec_is_marshalable by simp
  show "serialize (vec_marshal sz T) v data = data @ ghost_serialize (vec_marshal sz T) v" for data
    using m unfolding vec_ghost_serialize vec_is_marshalable
    by (simp add: vec_marshal_def vec_serialize_loop [OF T] usize.serialize usize_marshal_def u64_marshal_def push_loop_eq)
next
  fix data :: bytes and start v stop
  assume "deserialize (vec_marshal sz T) data start = Ret (Some (v, stop))" and len: "length data \<le> usize_max"
  then obtain n mid where n: "deserialize usize_marshal data start = Ret (Some (n, mid))"
      and v: "vec_deserialize_loop T data n mid [] = Ret (Some (v, stop))"
    by (auto simp: vec_marshal_def vec_deserialize_def outcome_simps split: if_splits)
  note s = usize.sound [OF n len]
  with vec_loop_sound [OF T len v] have w: "length v = n" "\<forall>x\<in>set v. is_marshalable T x" "mid \<le> stop"
      "stop \<le> length data" "slice_subrange data mid stop = concat (map (ghost_serialize T) v)"
    by auto
  have sl: "start \<le> stop" "slice_subrange data start stop = ghost_serialize (vec_marshal sz T) v"
    using sound_fields [OF usize.Marshalable_axioms n len w(3,4,5)] w(1) by (auto simp: vec_ghost_serialize)
  moreover have "is_marshalable (vec_marshal sz T) v"
  proof -
    have "8 + length (concat (map (ghost_serialize T) v)) = stop - start"
      using arg_cong [OF sl(2), of length] sl(1) w(4) by (simp add: vec_ghost_serialize)
    moreover have "n \<le> usize_max" using s by (simp add: usize_marshal_def)
    ultimately show ?thesis using w len unfolding vec_is_marshalable by simp
  qed
  ultimately show "is_marshalable (vec_marshal sz T) v \<and> start \<le> stop \<and> stop \<le> length data \<and>
      slice_subrange data start stop = ghost_serialize (vec_marshal sz T) v"
    using w(4) by simp
next
  fix v w a b
  assume m: "is_marshalable (vec_marshal sz T) v" "is_marshalable (vec_marshal sz T) w"
    and eq: "ghost_serialize (vec_marshal sz T) v @ a = ghost_serialize (vec_marshal sz T) w @ b"
  have "length v = length w \<and>
      concat (map (ghost_serialize T) v) @ a = concat (map (ghost_serialize T) w) @ b"
    using m eq by (intro usize.prefix_free) (simp_all add: vec_ghost_serialize vec_is_marshalable usize_marshal_def)
  with m show "v = w \<and> a = b"
    by (intro vec_prefix_free [OF T]) (simp_all add: vec_is_marshalable)
qed

lemma vec_complete:
  assumes T: "Marshalable_complete T" and m: "is_marshalable (vec_marshal sz T) v"
    and len: "length (pre @ ghost_serialize (vec_marshal sz T) v @ post) \<le> usize_max"
    and cap: "with_capacity_ok sz (length v)"
  shows "deserialize (vec_marshal sz T) (pre @ ghost_serialize (vec_marshal sz T) v @ post) (length pre) =
    Ret (Some (v, length pre + length (ghost_serialize (vec_marshal sz T) v)))"
proof -
  let ?n = "ghost_serialize usize_marshal (length v)" and ?c = "concat (map (ghost_serialize T) v)"
  have n: "deserialize usize_marshal (pre @ ?n @ ?c @ post) (length pre) = Ret (Some (length v, length pre + 8))"
    using usize.complete [of "length v" pre "?c @ post"] m len
    by (simp add: vec_is_marshalable vec_ghost_serialize) (simp add: usize_marshal_def)
  have "vec_deserialize_loop T ((pre @ ?n) @ ?c @ post) (length v) (length (pre @ ?n)) [] =
      Ret (Some ([] @ v, length (pre @ ?n) + length ?c))"
    using m len by (intro vec_loop_complete [OF T]) (simp_all add: vec_is_marshalable vec_ghost_serialize)
  with n cap show ?thesis
    by (simp add: vec_ghost_serialize) (simp add: vec_marshal_def vec_deserialize_def de_field_Some)
qed

subsection \<open>Enums\<close>

lemma enum_dispatch_cases:
  "enum_dispatch vs tag data mid = Ret (Some r) \<Longrightarrow> \<exists>de. (tag, de) \<in> set vs \<and> de data mid = Ret (Some r)"
  by (induction vs) (auto split: if_splits)

lemma enum_deserialize_Some:
  assumes "enum_deserialize vs data start = Ret (Some r)"
  shows "Suc start < length data"
    and "\<exists>tag de. (tag, de) \<in> set vs \<and> data ! start = tag \<and> de data (Suc start) = Ret (Some r)"
  using assms enum_dispatch_cases [of vs "data ! start" data "Suc start" r]
  by (auto simp: enum_deserialize_def outcome_simps split: if_splits)

lemma enum_deserialize_complete:
  assumes "s \<noteq> []"
  shows "enum_deserialize vs (pre @ (tag # s) @ post) (length pre) =
         enum_dispatch vs tag ((pre @ [tag]) @ s @ post) (length (pre @ [tag]))"
  using assms by (cases s) (simp_all add: enum_deserialize_def outcome_simps)

end
