(* ===== verification/Hash_Map.thy ===== *)
theory Hash_Map
  imports Keys End_Points "HOL-Library.Finite_Map"
begin

text \<open>
  The hash tables of the host (\<open>hashmap_t.rs\<close>, \<open>endpoint_hashmap_t.rs\<close>) and the table functions
  of the specification (\<open>app_interface_t.rs\<close>, first part of \<open>host_protocol_t.rs\<close>). A Rust
  \<open>HashMap\<close> is a finite map; its view is the lookup function. Several methods of \<open>CKeyHashMap\<close> are
  trusted: their contracts promise a result that their bodies do not compute. The record
  \<open>hash_ops\<close> names these methods, so that the host can be run on the bodies (\<open>hash_ops_code\<close>) and
  on the promised results (\<open>hash_ops_contract\<close>). The locale \<open>hash_map_contract\<close> states the
  contracts for runs that return, which both instances meet; \<open>hash_map_total\<close> adds that
  every method returns, which only the second one does.
\<close>

section \<open>Tables of the specification\<close>

type_synonym AbstractValue = bytes
type_synonym Hashtable = "AbstractKey \<rightharpoonup> AbstractValue"

definition max_val_len :: nat where
  "max_val_len = 1024"

definition valid_key :: "AbstractKey \<Rightarrow> bool" where
  "valid_key key = True"

definition valid_value :: "AbstractValue \<Rightarrow> bool" where
  "valid_value value \<longleftrightarrow> length value < max_val_len"

definition extract_range :: "Hashtable \<Rightarrow> AbstractKey KeyRange \<Rightarrow> Hashtable" where
  "extract_range h kr = (\<lambda>k. if k \<in> dom h \<and> kr_contains shtkey_cmp kr k then h k else None)"

definition max_hashtable_size :: nat where
  "max_hashtable_size = 62"

text \<open>In Verus the length of an infinite set is unspecified; every table of the program is finite.\<close>

definition valid_hashtable :: "Hashtable \<Rightarrow> bool" where
  "valid_hashtable h \<longleftrightarrow>
     card (dom h) < max_hashtable_size \<and> (\<forall>k\<in>dom h. valid_key k \<and> valid_value (the (h k)))"

definition hashtable_lookup :: "Hashtable \<Rightarrow> AbstractKey \<Rightarrow> AbstractValue option" where
  "hashtable_lookup h k = (if k \<in> dom h then Some (the (h k)) else None)"

definition bulk_update_domain :: "Hashtable \<Rightarrow> AbstractKey KeyRange \<Rightarrow> Hashtable \<Rightarrow> AbstractKey set" where
  "bulk_update_domain h kr u =
     {k. (k \<in> dom h \<or> k \<in> dom u) \<and> (kr_contains shtkey_cmp kr k \<longrightarrow> k \<in> dom u)}"

definition bulk_update_hashtable :: "Hashtable \<Rightarrow> AbstractKey KeyRange \<Rightarrow> Hashtable \<Rightarrow> Hashtable" where
  "bulk_update_hashtable h kr u =
     (\<lambda>k. if k \<in> bulk_update_domain h kr u then if k \<in> dom u then u k else h k else None)"

definition bulk_remove_hashtable :: "Hashtable \<Rightarrow> AbstractKey KeyRange \<Rightarrow> Hashtable" where
  "bulk_remove_hashtable h kr = (\<lambda>k. if k \<in> dom h \<and> \<not> kr_contains shtkey_cmp kr k then h k else None)"

definition valid_optional_value :: "AbstractValue option \<Rightarrow> bool" where
  "valid_optional_value ov = (case ov of None \<Rightarrow> True | Some value \<Rightarrow> valid_value value)"

section \<open>\<open>CKeyHashMap\<close>\<close>

type_synonym CKeyHashMap = "(CKey, bytes) fmap"

abbreviation ckh_view :: "CKeyHashMap \<Rightarrow> Hashtable" where
  "ckh_view \<equiv> fmlookup"

datatype CKeyKV = CKeyKV (kv_k: CKey) (kv_v: bytes)

definition ckeykvlt :: "CKeyKV \<Rightarrow> CKeyKV \<Rightarrow> bool" where
  "ckeykvlt a b \<longleftrightarrow> ukey (kv_k a) < ukey (kv_k b)"

definition spec_sorted_keys :: "CKeyKV list \<Rightarrow> bool" where
  "spec_sorted_keys v \<longleftrightarrow> (\<forall>i < length v - 1. ckeykvlt (v ! i) (v ! Suc i))"

definition ckh_new :: CKeyHashMap where
  "ckh_new = fmempty"

definition ckh_len :: "CKeyHashMap \<Rightarrow> nat" where
  "ckh_len h = fcard (fmdom h)"

definition ckh_insert :: "CKeyHashMap \<Rightarrow> CKey \<Rightarrow> bytes \<Rightarrow> CKeyHashMap" where
  "ckh_insert h key value = fmupd key value h"

definition ckh_get :: "CKeyHashMap \<Rightarrow> CKey \<Rightarrow> bytes option" where
  "ckh_get h key = (case fmlookup h key of Some v \<Rightarrow> Some v | None \<Rightarrow> None)"

text \<open>The entries in key order: the pairs are collected in hash order and sorted, and no two pairs
  have the same key.\<close>

definition ckh_to_vec :: "CKeyHashMap \<Rightarrow> CKeyKV list" where
  "ckh_to_vec h = map (\<lambda>k. CKeyKV k (the (fmlookup h k))) (sorted_list_of_fset (fmdom h))"

definition ckh_from_vec :: "CKeyKV list \<Rightarrow> CKeyHashMap" where
  "ckh_from_vec v = foldl (\<lambda>res kv. ckh_insert res (kv_k kv) (kv_v kv)) ckh_new v"

definition ckh_clone_up_to_view :: "CKeyHashMap \<Rightarrow> CKeyHashMap" where
  "ckh_clone_up_to_view h = ckh_from_vec (ckh_to_vec h)"

subsection \<open>The trusted methods as their bodies run\<close>

definition ckh_remove :: "CKeyHashMap \<Rightarrow> CKey \<Rightarrow> CKeyHashMap outcome" where
  "ckh_remove h key = Panic"

definition ckh_bulk_update :: "CKeyHashMap \<Rightarrow> CKey KeyRange \<Rightarrow> CKeyHashMap \<Rightarrow> CKeyHashMap outcome" where
  "ckh_bulk_update h kr other = Panic"

definition ckh_bulk_remove :: "CKeyHashMap \<Rightarrow> CKey KeyRange \<Rightarrow> CKeyHashMap outcome" where
  "ckh_bulk_remove h kr = Panic"

definition ckh_valid :: "CKeyHashMap \<Rightarrow> bool outcome" where
  "ckh_valid h = Panic"

text \<open>The loop of \<open>filter\<close> tests and reads \<open>cur\<close>, which nothing assigns. \<open>None\<close> is a run that
  does not return. Which entry the iterator yields first does not matter.\<close>

partial_function (option) ckh_filter_loop ::
    "(CKey \<times> bytes) option \<Rightarrow> CKeyHashMap \<Rightarrow> CKeyHashMap option" where
  "ckh_filter_loop cur res =
     (case cur of
        None \<Rightarrow> Some res
      | Some kv \<Rightarrow> ckh_filter_loop cur (ckh_insert res (fst kv) (snd kv)))"

definition ckh_filter :: "CKeyHashMap \<Rightarrow> (CKey \<Rightarrow> bool) \<Rightarrow> CKeyHashMap outcome" where
  "ckh_filter h f =
     (let cur = (case ckh_to_vec h of [] \<Rightarrow> None | kv # _ \<Rightarrow> Some (kv_k kv, kv_v kv))
      in case ckh_filter_loop cur ckh_new of Some res \<Rightarrow> Ret res | None \<Rightarrow> Diverge)"

subsection \<open>The results the contracts promise\<close>

definition ckh_remove_spec :: "CKeyHashMap \<Rightarrow> CKey \<Rightarrow> CKeyHashMap" where
  "ckh_remove_spec h key = fmdrop key h"

definition ckh_bulk_update_spec :: "CKeyHashMap \<Rightarrow> CKey KeyRange \<Rightarrow> CKeyHashMap \<Rightarrow> CKeyHashMap" where
  "ckh_bulk_update_spec h kr other =
     fmadd (fmfilter (\<lambda>k. kr_contains shtkey_cmp kr k \<longrightarrow> k |\<in>| fmdom other) h) other"

definition ckh_bulk_remove_spec :: "CKeyHashMap \<Rightarrow> CKey KeyRange \<Rightarrow> CKeyHashMap" where
  "ckh_bulk_remove_spec h kr = fmfilter (\<lambda>k. \<not> kr_contains shtkey_cmp kr k) h"

definition ckh_valid_spec :: "CKeyHashMap \<Rightarrow> bool" where
  "ckh_valid_spec h = valid_hashtable (ckh_view h)"

definition ckh_filter_spec :: "CKeyHashMap \<Rightarrow> (CKey \<Rightarrow> bool) \<Rightarrow> CKeyHashMap" where
  "ckh_filter_spec h fs = fmfilter fs h"

section \<open>\<open>HashMap\<close> over end points\<close>

type_synonym 'v HashMap = "(EndPoint, 'v) fmap"

definition ep_new :: "'v HashMap" where
  "ep_new = fmempty"

definition ep_insert :: "'v HashMap \<Rightarrow> EndPoint \<Rightarrow> 'v \<Rightarrow> 'v HashMap" where
  "ep_insert h key value = (let key_clone = ep_clone_up_to_view key in fmupd key_clone value h)"

definition ep_get :: "'v HashMap \<Rightarrow> EndPoint \<Rightarrow> 'v option" where
  "ep_get h key = (case fmlookup h key of Some v \<Rightarrow> Some v | None \<Rightarrow> None)"

definition ep_put :: "'v HashMap \<Rightarrow> EndPoint \<Rightarrow> 'v \<Rightarrow> 'v HashMap" where
  "ep_put h key value = ep_insert h key value"

text \<open>The table and the variable behind \<open>updated_value\<close> after the swap.\<close>

definition ep_swap :: "'v HashMap \<Rightarrow> EndPoint \<Rightarrow> 'v \<Rightarrow> 'v \<Rightarrow> 'v HashMap \<times> 'v" where
  "ep_swap h key updated_value default_value =
     (case fmlookup h key of
        Some v \<Rightarrow> (fmupd key updated_value h, v)
      | None \<Rightarrow> (ep_put h key updated_value, default_value))"

text \<open>The keys in the order in which the table happens to be iterated.\<close>

definition ep_keys :: "(EndPoint fset \<Rightarrow> EndPoint list) \<Rightarrow> 'v HashMap \<Rightarrow> EndPoint list" where
  "ep_keys order h = map ep_clone_up_to_view (order (fmdom h))"

definition iteration_order :: "(EndPoint fset \<Rightarrow> EndPoint list) \<Rightarrow> bool" where
  "iteration_order order \<longleftrightarrow> (\<forall>S. set (order S) = fset S \<and> distinct (order S))"

section \<open>The methods the host calls\<close>

record hash_ops =
  ops_remove :: "CKeyHashMap \<Rightarrow> CKey \<Rightarrow> CKeyHashMap outcome"
  ops_bulk_update :: "CKeyHashMap \<Rightarrow> CKey KeyRange \<Rightarrow> CKeyHashMap \<Rightarrow> CKeyHashMap outcome"
  ops_bulk_remove :: "CKeyHashMap \<Rightarrow> CKey KeyRange \<Rightarrow> CKeyHashMap outcome"
  ops_valid :: "CKeyHashMap \<Rightarrow> bool outcome"
  ops_filter :: "CKeyHashMap \<Rightarrow> (CKey \<Rightarrow> bool) \<Rightarrow> CKeyHashMap outcome"
  ops_order :: "EndPoint fset \<Rightarrow> EndPoint list"

definition hash_ops_code :: "(EndPoint fset \<Rightarrow> EndPoint list) \<Rightarrow> hash_ops" where
  "hash_ops_code order =
     \<lparr>ops_remove = ckh_remove, ops_bulk_update = ckh_bulk_update, ops_bulk_remove = ckh_bulk_remove,
      ops_valid = ckh_valid, ops_filter = ckh_filter, ops_order = order\<rparr>"

definition hash_ops_contract :: "(EndPoint fset \<Rightarrow> EndPoint list) \<Rightarrow> hash_ops" where
  "hash_ops_contract order =
     \<lparr>ops_remove = (\<lambda>h k. Ret (ckh_remove_spec h k)),
      ops_bulk_update = (\<lambda>h kr u. Ret (ckh_bulk_update_spec h kr u)),
      ops_bulk_remove = (\<lambda>h kr. Ret (ckh_bulk_remove_spec h kr)),
      ops_valid = (\<lambda>h. Ret (ckh_valid_spec h)),
      ops_filter = (\<lambda>h f. Ret (ckh_filter_spec h f)),
      ops_order = order\<rparr>"

section \<open>Lemmas\<close>

lemma ckh_simps [simp]:
  "ckh_view ckh_new = Map.empty" "ckh_view (ckh_insert h k v) = (ckh_view h)(k \<mapsto> v)"
  "ckh_get h k = ckh_view h k" "hashtable_lookup t k = t k" "ckh_len h = card (dom (ckh_view h))"
  by (auto simp: ckh_new_def ckh_insert_def ckh_get_def hashtable_lookup_def fun_eq_iff ckh_len_def
      fmdom.rep_eq fcard.rep_eq domIff split: option.splits)

lemma ckh_spec_views:
  "ckh_view (ckh_remove_spec h k) = (ckh_view h)(k := None)"
  "ckh_view (ckh_bulk_update_spec h kr u) = bulk_update_hashtable (ckh_view h) kr (ckh_view u)"
  "ckh_view (ckh_bulk_remove_spec h kr) = bulk_remove_hashtable (ckh_view h) kr"
  "ckh_view (ckh_filter_spec h f) = (\<lambda>k. if f k then ckh_view h k else None)"
  by (auto simp: fun_eq_iff ckh_remove_spec_def ckh_bulk_update_spec_def ckh_bulk_remove_spec_def
      ckh_filter_spec_def bulk_update_hashtable_def bulk_update_domain_def bulk_remove_hashtable_def
      fmlookup_dom_iff fmlookup_dom'_iff)

lemma extract_range_filter:
  "extract_range h kr = (\<lambda>k. if kr_contains shtkey_cmp kr k then h k else None)"
  by (auto simp: extract_range_def fun_eq_iff)

lemma valid_hashtable_extract:
  assumes "finite (dom h)" and "\<And>k v. h k = Some v \<Longrightarrow> valid_value v"
    and "card (dom (extract_range h kr)) < max_hashtable_size"
  shows "valid_hashtable (extract_range h kr)"
  using assms by (auto simp: valid_hashtable_def extract_range_filter valid_key_def split: if_splits)

subsection \<open>Sorted entries\<close>

lemma spec_sorted_keys_iff: "spec_sorted_keys v \<longleftrightarrow> sorted_wrt (<) (map kv_k v)"
proof -
  have "transp ((<) :: SHTKey \<Rightarrow> SHTKey \<Rightarrow> bool)" by (rule transp_on_less)
  then show ?thesis
    by (auto simp: spec_sorted_keys_def sorted_wrt_iff_nth_Suc_transp ckeykvlt_def less_SHTKey_def)
qed

lemma ckh_from_vec_lookup: "ckh_view (ckh_from_vec v) = map_of (rev (map (\<lambda>kv. (kv_k kv, kv_v kv)) v))"
proof -
  have "ckh_view (foldl (\<lambda>res kv. ckh_insert res (kv_k kv) (kv_v kv)) h v) =
      ckh_view h ++ map_of (rev (map (\<lambda>kv. (kv_k kv, kv_v kv)) v))" for h
    by (induction v arbitrary: h) (auto simp: fun_eq_iff map_add_def split: option.splits)
  then show ?thesis by (simp add: ckh_from_vec_def)
qed

lemma set_ckh_to_vec: "CKeyKV k v \<in> set (ckh_to_vec h) \<longleftrightarrow> ckh_view h k = Some v"
  by (auto simp: ckh_to_vec_def fmlookup_dom_iff image_iff)

lemma map_kv_k_to_vec: "map kv_k (ckh_to_vec h) = sorted_list_of_fset (fmdom h)"
  by (simp add: ckh_to_vec_def comp_def)

lemma distinct_to_vec: "distinct (map kv_k (ckh_to_vec h))"
  by (simp add: map_kv_k_to_vec sorted_list_of_fset.rep_eq)

lemma sorted_to_vec: "spec_sorted_keys (ckh_to_vec h)"
  by (simp add: spec_sorted_keys_iff map_kv_k_to_vec sorted_list_of_fset.rep_eq)

lemma length_to_vec: "length (ckh_to_vec h) = card (dom (ckh_view h))"
  by (simp add: ckh_to_vec_def sorted_list_of_fset.rep_eq fmdom.rep_eq)

lemma map_of_pairs:
  "distinct (map kv_k v) \<Longrightarrow>
   map_of (rev (map (\<lambda>kv. (kv_k kv, kv_v kv)) v)) k = Some x \<longleftrightarrow> CKeyKV k x \<in> set v"
  by (subst map_of_eq_Some_iff) (force simp: rev_map [symmetric] comp_def image_iff)+

lemma ckh_from_to_vec [simp]: "ckh_from_vec (ckh_to_vec h) = h"
proof (rule fmap_ext)
  fix k
  have "ckh_view (ckh_from_vec (ckh_to_vec h)) k = Some x \<longleftrightarrow> ckh_view h k = Some x" for x
    by (simp add: ckh_from_vec_lookup map_of_pairs distinct_to_vec set_ckh_to_vec)
  then show "ckh_view (ckh_from_vec (ckh_to_vec h)) k = ckh_view h k"
    by (metis not_None_eq)
qed

lemma ckh_clone_eq [simp]: "ckh_clone_up_to_view h = h"
  by (simp add: ckh_clone_up_to_view_def)

lemma ckh_to_from_vec:
  assumes "spec_sorted_keys v"
  shows "ckh_to_vec (ckh_from_vec v) = v"
proof -
  have sorted: "sorted_wrt (<) (map kv_k v)" using assms by (simp add: spec_sorted_keys_iff)
  then have dist: "distinct (map kv_k v)" by (simp add: strict_sorted_iff)
  have look: "ckh_view (ckh_from_vec v) k = Some x \<longleftrightarrow> CKeyKV k x \<in> set v" for k x
    using dist by (simp add: ckh_from_vec_lookup map_of_pairs)
  have "dom (ckh_view (ckh_from_vec v)) = set (map kv_k v)"
  proof (intro set_eqI)
    fix k
    have "k \<in> set (map kv_k v) \<longleftrightarrow> (\<exists>x. CKeyKV k x \<in> set v)"
    proof
      assume "k \<in> set (map kv_k v)"
      then obtain kv where "kv \<in> set v" "k = kv_k kv" by auto
      then have "CKeyKV k (kv_v kv) \<in> set v" by simp
      then show "\<exists>x. CKeyKV k x \<in> set v" ..
    qed force
    then show "k \<in> dom (ckh_view (ckh_from_vec v)) \<longleftrightarrow> k \<in> set (map kv_k v)"
      by (simp add: dom_def look)
  qed
  then have "sorted_list_of_fset (fmdom (ckh_from_vec v)) = map kv_k v"
    using sorted sorted_list_of_set.idem_if_sorted_distinct [of "map kv_k v"]
    by (simp add: sorted_list_of_fset.rep_eq fmdom.rep_eq strict_sorted_iff)
  moreover have "kv = CKeyKV (kv_k kv) (the (ckh_view (ckh_from_vec v) (kv_k kv)))" if "kv \<in> set v" for kv
    using that look [of "kv_k kv" "kv_v kv"] by simp
  ultimately show ?thesis
    by (auto simp: ckh_to_vec_def intro!: map_idI)
qed

subsection \<open>The loop that never ends\<close>

lemma ckh_filter_loop_None: "ckh_filter_loop None res = Some res"
  by (simp add: ckh_filter_loop.simps)

lemma ckh_filter_loop_returns:
  assumes "ckh_filter_loop cur res = Some r"
  shows "cur = None"
proof (rule ckh_filter_loop.raw_induct [OF _ assms, of "\<lambda>cur res r. cur = None"])
  fix loop :: "(CKey \<times> bytes) option \<Rightarrow> CKeyHashMap \<Rightarrow> CKeyHashMap option" and cur' res' r'
  assume IH: "\<And>c h y. loop c h = Some y \<Longrightarrow> c = None"
    and step: "(case cur' of None \<Rightarrow> Some res'
        | Some kv \<Rightarrow> loop cur' (ckh_insert res' (fst kv) (snd kv))) = Some r'"
  then show "cur' = None"
    by (cases cur') (simp_all, blast)
qed

lemma ckh_filter_eq: "ckh_filter h f = (if h = fmempty then Ret fmempty else Diverge)"
proof (cases "ckh_to_vec h")
  case Nil
  then have "h = fmempty" using ckh_from_to_vec [of h] by (simp add: ckh_from_vec_def ckh_new_def)
  with Nil show ?thesis by (simp add: ckh_filter_def ckh_filter_loop_None ckh_new_def)
next
  case (Cons kv kvs)
  then have "h \<noteq> fmempty" by (auto simp: ckh_to_vec_def sorted_list_of_fset.rep_eq)
  moreover have "ckh_filter_loop (Some (kv_k kv, kv_v kv)) ckh_new = None"
    using ckh_filter_loop_returns by (metis not_None_eq)
  ultimately show ?thesis using Cons by (simp add: ckh_filter_def)
qed

subsection \<open>Tables over end points\<close>

lemma ep_simps [simp]:
  "ep_insert h k v = fmupd k v h" "ep_get h k = fmlookup h k" "ep_put h k v = fmupd k v h"
  "ep_swap h k u d = (fmupd k u h, case fmlookup h k of Some v \<Rightarrow> v | None \<Rightarrow> d)"
  "ep_keys order h = order (fmdom h)"
  by (auto simp: ep_insert_def ep_get_def ep_put_def ep_swap_def ep_keys_def Let_def map_idI
      split: option.splits)

section \<open>The contracts\<close>

locale hash_map_contract =
  fixes ops :: hash_ops
  assumes remove: "ops_remove ops h k = Ret h' \<Longrightarrow> ckh_view h' = (ckh_view h)(k := None)"
    and bulk_update: "ops_bulk_update ops h kr u = Ret h' \<Longrightarrow>
          ckh_view h' = bulk_update_hashtable (ckh_view h) kr (ckh_view u)"
    and bulk_remove: "ops_bulk_remove ops h kr = Ret h' \<Longrightarrow>
          ckh_view h' = bulk_remove_hashtable (ckh_view h) kr"
    and valid: "ops_valid ops h = Ret b \<Longrightarrow> b = valid_hashtable (ckh_view h)"
    and filter: "ops_filter ops h f = Ret h' \<Longrightarrow> ckh_view h' = (\<lambda>k. if f k then ckh_view h k else None)"
    and order: "iteration_order (ops_order ops)"
begin

lemma filter_extract:
  "ops_filter ops h (kr_contains shtkey_cmp kr) = Ret h' \<Longrightarrow> ckh_view h' = extract_range (ckh_view h) kr"
  by (simp add: filter extract_range_filter)

lemma keys: "set (ep_keys (ops_order ops) h) = dom (fmlookup h)"
  using order by (simp add: iteration_order_def fmdom.rep_eq)

end

locale hash_map_total = hash_map_contract +
  assumes returns: "\<exists>h'. ops_remove ops h k = Ret h'" "\<exists>h'. ops_bulk_update ops h kr u = Ret h'"
      "\<exists>h'. ops_bulk_remove ops h kr = Ret h'" "\<exists>b. ops_valid ops h = Ret b"
      "\<exists>h'. ops_filter ops h f = Ret h'"

lemma hash_ops_code_contract: "iteration_order order \<Longrightarrow> hash_map_contract (hash_ops_code order)"
  by unfold_locales (simp_all add: hash_ops_code_def ckh_remove_def ckh_bulk_update_def
      ckh_bulk_remove_def ckh_valid_def ckh_filter_eq fun_eq_iff split: if_splits)

lemma hash_ops_contract_total: "iteration_order order \<Longrightarrow> hash_map_total (hash_ops_contract order)"
  by unfold_locales (auto simp: hash_ops_contract_def ckh_spec_views ckh_valid_spec_def)

lemma iteration_order_sorted: "iteration_order sorted_list_of_fset"
  by (simp add: iteration_order_def sorted_list_of_fset.rep_eq)

interpretation code: hash_map_contract "hash_ops_code sorted_list_of_fset"
  by (rule hash_ops_code_contract [OF iteration_order_sorted])

interpretation promised: hash_map_total "hash_ops_contract sorted_list_of_fset"
  by (rule hash_ops_contract_total [OF iteration_order_sorted])

section \<open>Properties\<close>

text \<open>The entries of a table come out in strictly ascending key order and rebuild the table, and a
  vector in that order survives the way through a table. The sources state these facts as axioms.\<close>

theorem table_vector_roundtrip:
  "spec_sorted_keys (ckh_to_vec t) \<and> ckh_from_vec (ckh_to_vec t) = t \<and>
   (spec_sorted_keys v \<longrightarrow> ckh_to_vec (ckh_from_vec v) = v)"
  by (simp add: sorted_to_vec ckh_to_from_vec)

theorem table_vector_roundtrip_witness:
  "spec_sorted_keys [CKeyKV (SHTKey 2) [7], CKeyKV (SHTKey 5) []] \<and>
   ckh_to_vec (ckh_from_vec [CKeyKV (SHTKey 2) [7], CKeyKV (SHTKey 5) []]) = [CKeyKV (SHTKey 2) [7], CKeyKV (SHTKey 5) []]"
proof -
  have "spec_sorted_keys [CKeyKV (SHTKey 2) [7], CKeyKV (SHTKey 5) []]"
    by (simp add: spec_sorted_keys_def ckeykvlt_def)
  with table_vector_roundtrip show ?thesis by blast
qed

text \<open>C29: the loop of \<open>filter\<close> returns only for the empty table; on every other table it runs forever,
  whatever the predicate.\<close>

theorem table_filter_diverges: "ckh_filter t f = (if t = fmempty then Ret fmempty else Diverge)"
  by (rule ckh_filter_eq)

end
