(* ===== verification/Messages.thy ===== *)
theory Messages
  imports Hash_Map
begin

text \<open>
  Messages and packets: the abstract ones (\<open>message_t.rs\<close>, \<open>single_message_t.rs\<close>, \<open>network_t.rs\<close>,
  \<open>environment_t.rs\<close>, \<open>abstract_service_t.rs\<close>, \<open>abstract_parameters_t.rs\<close>) and the concrete
  ones with their views, copies and the marshallability check (\<open>cmessage_v.rs\<close>). A sequence number
  is a 64-bit word in a concrete message and a natural number in an abstract one.
\<close>

section \<open>Abstract messages\<close>

datatype Message =
    GetRequest (gr_key: AbstractKey)
  | SetRequest (sr_key: AbstractKey) (sr_value: "AbstractValue option")
  | Reply (rp_key: AbstractKey) (rp_value: "AbstractValue option")
  | Redirect (rd_key: AbstractKey) (rd_id: AbstractEndPoint)
  | Shard (sh_range: "AbstractKey KeyRange") (sh_recipient: AbstractEndPoint)
  | Delegate (de_range: "AbstractKey KeyRange") (de_h: Hashtable)

datatype 'm SingleMessage =
    Message (sm_seqno: nat) (sm_dst: AbstractEndPoint) (sm_m: 'm)
  | Ack (sm_ack_seqno: nat)
  | InvalidMessage

type_synonym PMsg = "Message SingleMessage"

record Packet =
  pkt_dst :: AbstractEndPoint
  pkt_src :: AbstractEndPoint
  pkt_msg :: PMsg

record ('i, 'm) LPacket =
  lp_dst :: 'i
  lp_src :: 'i
  lp_msg :: 'm

datatype ('i, 'm) LIoOp =
    Send "('i, 'm) LPacket"
  | Receive "('i, 'm) LPacket"
  | TimeoutReceive
  | ReadClock int

definition is_Send :: "('i, 'm) LIoOp \<Rightarrow> bool" where
  "is_Send io = (case io of Send _ \<Rightarrow> True | _ \<Rightarrow> False)"

type_synonym LSHTPacket = "(AbstractEndPoint, Message SingleMessage) LPacket"
type_synonym LSHTIo = "(AbstractEndPoint, Message SingleMessage) LIoOp"
type_synonym AbstractIos = "LSHTIo list"
type_synonym NetPacket = "(AbstractEndPoint, bytes) LPacket"
type_synonym NetEvent = "(AbstractEndPoint, bytes) LIoOp"
type_synonym History = "NetEvent list"

definition is_valid_lio_op :: "('i, 'm) LIoOp \<Rightarrow> 'i \<Rightarrow> bool" where
  "is_valid_lio_op io actor =
     (case io of
        Send s \<Rightarrow> lp_src s = actor
      | Receive r \<Rightarrow> lp_dst r = actor
      | TimeoutReceive \<Rightarrow> True
      | ReadClock t \<Rightarrow> True)"

datatype AppRequest =
    AppGetRequest (ag_seqno: nat) (ag_key: AbstractKey)
  | AppSetRequest (as_seqno: nat) (as_key: AbstractKey) (as_ov: "AbstractValue option")

record AbstractParameters =
  max_seqno :: nat
  max_delegations :: nat

definition abstract_static_params :: AbstractParameters where
  "abstract_static_params = \<lparr>max_seqno = 0xffffffffffffffff, max_delegations = 0x7fffffffffffffff\<rparr>"

section \<open>Concrete messages\<close>

datatype CMessage =
    CGetRequest CKey
  | CSetRequest CKey "bytes option"
  | CReply CKey "bytes option"
  | CRedirect CKey EndPoint
  | CShard "CKey KeyRange" EndPoint
  | CDelegate "CKey KeyRange" CKeyHashMap

datatype CSingleMessage =
    CMsg (csm_seqno: u64) (csm_dst: EndPoint) (csm_m: CMessage)
  | CAck (csm_ack_seqno: u64)
  | CInvalidMessage

record CPacket =
  cp_dst :: EndPoint
  cp_src :: EndPoint
  cp_msg :: CSingleMessage

definition clone_optional_value :: "bytes option \<Rightarrow> bytes option" where
  "clone_optional_value ov = (case ov of Some v \<Rightarrow> Some (clone_vec_u8 v) | None \<Rightarrow> None)"

definition is_key_valid :: "CKey \<Rightarrow> bool" where
  "is_key_valid key = True"

definition is_value_valid :: "bytes \<Rightarrow> bool" where
  "is_value_valid val \<longleftrightarrow> length val < 1024"

fun cmessage_abstractable :: "CMessage \<Rightarrow> bool" where
  "cmessage_abstractable (CRedirect k ep) = valid_physical_address ep"
| "cmessage_abstractable (CShard kr recipient) = valid_physical_address recipient"
| "cmessage_abstractable _ = True"

fun cmessage_view :: "CMessage \<Rightarrow> Message" where
  "cmessage_view (CGetRequest k) = GetRequest k"
| "cmessage_view (CSetRequest k v) = SetRequest k v"
| "cmessage_view (CReply k v) = Reply k v"
| "cmessage_view (CRedirect k ep) = Redirect k ep"
| "cmessage_view (CShard kr recipient) = Shard kr recipient"
| "cmessage_view (CDelegate rng h) = Delegate rng (ckh_view h)"

definition clone_value :: "bytes option \<Rightarrow> bytes option" where
  "clone_value v = (case v of Some vec \<Rightarrow> Some (clone_vec_u8 vec) | None \<Rightarrow> None)"

fun cmessage_clone_up_to_view :: "CMessage \<Rightarrow> CMessage" where
  "cmessage_clone_up_to_view (CGetRequest k) = CGetRequest k"
| "cmessage_clone_up_to_view (CSetRequest k v) = CSetRequest k (clone_value v)"
| "cmessage_clone_up_to_view (CReply k v) = CReply k (clone_value v)"
| "cmessage_clone_up_to_view (CRedirect k ep) = CRedirect k (ep_clone_up_to_view ep)"
| "cmessage_clone_up_to_view (CShard kr recipient) = CShard kr (ep_clone_up_to_view recipient)"
| "cmessage_clone_up_to_view (CDelegate rng h) = CDelegate rng (ckh_clone_up_to_view h)"

fun message_marshallable :: "CMessage \<Rightarrow> bool" where
  "message_marshallable (CGetRequest k) \<longleftrightarrow> valid_key k"
| "message_marshallable (CSetRequest k v) \<longleftrightarrow> valid_key k \<and> valid_optional_value v"
| "message_marshallable (CReply k v) \<longleftrightarrow> valid_key k \<and> valid_optional_value v"
| "message_marshallable (CRedirect k ep) \<longleftrightarrow> valid_key k \<and> valid_physical_address ep"
| "message_marshallable (CShard kr recipient) \<longleftrightarrow>
     valid_physical_address recipient \<and> \<not> kr_is_empty shtkey_cmp kr"
| "message_marshallable (CDelegate rng h) \<longleftrightarrow>
     \<not> kr_is_empty shtkey_cmp rng \<and> valid_hashtable (ckh_view h)"

text \<open>The check that the host runs. Only the last case calls a trusted method of the table.\<close>

fun is_message_marshallable :: "hash_ops \<Rightarrow> CMessage \<Rightarrow> bool outcome" where
  "is_message_marshallable ops (CGetRequest k) = Ret (is_key_valid k)"
| "is_message_marshallable ops (CSetRequest k v) =
     Ret (is_key_valid k \<and> (case v of Some v \<Rightarrow> is_value_valid v | None \<Rightarrow> True))"
| "is_message_marshallable ops (CReply k v) =
     Ret (is_key_valid k \<and> (case v of Some v \<Rightarrow> is_value_valid v | None \<Rightarrow> True))"
| "is_message_marshallable ops (CRedirect k ep) = Ret (is_key_valid k \<and> valid_physical_address ep)"
| "is_message_marshallable ops (CShard kr recipient) =
     Ret (valid_physical_address recipient \<and> ki_lt shtkey_cmp (kr_lo kr) (kr_hi kr))"
| "is_message_marshallable ops (CDelegate rng h) =
     (if ki_lt shtkey_cmp (kr_lo rng) (kr_hi rng) then ops_valid ops h else Ret False)"

fun csm_abstractable :: "CSingleMessage \<Rightarrow> bool" where
  "csm_abstractable (CMsg seqno dst m) \<longleftrightarrow> valid_physical_address dst \<and> cmessage_abstractable m"
| "csm_abstractable (CAck ack_seqno) = True"
| "csm_abstractable CInvalidMessage = True"

fun csm_view :: "CSingleMessage \<Rightarrow> Message SingleMessage" where
  "csm_view (CMsg seqno dst m) = Message (unat seqno) dst (cmessage_view m)"
| "csm_view (CAck ack_seqno) = Ack (unat ack_seqno)"
| "csm_view CInvalidMessage = InvalidMessage"

fun csm_temp_valid :: "CSingleMessage \<Rightarrow> bool" where
  "csm_temp_valid (CMsg seqno dst m) \<longleftrightarrow> unat seqno < max_seqno abstract_static_params"
| "csm_temp_valid (CAck ack_seqno) \<longleftrightarrow> unat ack_seqno < max_seqno abstract_static_params"
| "csm_temp_valid CInvalidMessage = False"

fun csm_clone_up_to_view :: "CSingleMessage \<Rightarrow> CSingleMessage" where
  "csm_clone_up_to_view (CMsg seqno dst m) =
     CMsg seqno (ep_clone_up_to_view dst) (cmessage_clone_up_to_view m)"
| "csm_clone_up_to_view (CAck ack_seqno) = CAck ack_seqno"
| "csm_clone_up_to_view CInvalidMessage = CInvalidMessage"

fun csm_marshallable :: "CSingleMessage \<Rightarrow> bool" where
  "csm_marshallable (CAck ack_seqno) = True"
| "csm_marshallable (CMsg seqno dst m) \<longleftrightarrow> valid_physical_address dst \<and> message_marshallable m"
| "csm_marshallable CInvalidMessage = False"

fun csm_is_marshallable :: "hash_ops \<Rightarrow> CSingleMessage \<Rightarrow> bool outcome" where
  "csm_is_marshallable ops (CAck ack_seqno) = Ret True"
| "csm_is_marshallable ops (CMsg seqno dst m) =
     (if valid_physical_address dst then is_message_marshallable ops m else Ret False)"
| "csm_is_marshallable ops CInvalidMessage = Ret False"

definition cpacket_view :: "CPacket \<Rightarrow> Packet" where
  "cpacket_view p = \<lparr>pkt_dst = cp_dst p, pkt_src = cp_src p, pkt_msg = csm_view (cp_msg p)\<rparr>"

definition cpacket_valid :: "CPacket \<Rightarrow> bool" where
  "cpacket_valid p \<longleftrightarrow> csm_temp_valid (cp_msg p)"

definition cpacket_abstractable :: "CPacket \<Rightarrow> bool" where
  "cpacket_abstractable p \<longleftrightarrow>
     valid_physical_address (cp_dst p) \<and> valid_physical_address (cp_src p) \<and> csm_abstractable (cp_msg p)"

definition cpacket_clone_up_to_view :: "CPacket \<Rightarrow> CPacket" where
  "cpacket_clone_up_to_view p =
     \<lparr>cp_dst = ep_clone_up_to_view (cp_dst p), cp_src = ep_clone_up_to_view (cp_src p),
      cp_msg = csm_clone_up_to_view (cp_msg p)\<rparr>"

section \<open>Copies, views and the marshallability check\<close>

lemma clone_values [simp]: "clone_optional_value v = v" "clone_value v = v"
  by (auto simp: clone_optional_value_def clone_value_def split: option.splits)

lemma cmessage_clone_eq [simp]: "cmessage_clone_up_to_view m = m"
  by (cases m) auto

lemma csm_clone_eq [simp]: "csm_clone_up_to_view m = m"
  by (cases m) auto

lemma cpacket_clone_eq [simp]: "cpacket_clone_up_to_view p = p"
  by (simp add: cpacket_clone_up_to_view_def)

lemma ckh_view_inject: "ckh_view h = ckh_view h' \<longleftrightarrow> h = h'"
  by (simp add: fmlookup_inject)

lemma cmessage_view_inject [simp]: "cmessage_view a = cmessage_view b \<longleftrightarrow> a = b"
  by (cases a; cases b) (auto simp: ckh_view_inject)

lemma csm_view_inject [simp]: "csm_view a = csm_view b \<longleftrightarrow> a = b"
  by (cases a; cases b) (auto simp: word_unat_eq_iff)

lemma csm_view_simps [simp]:
  "csm_view m = InvalidMessage \<longleftrightarrow> m = CInvalidMessage" "csm_view m = Ack n \<longleftrightarrow> (\<exists>a. m = CAck a \<and> n = unat a)"
  by (cases m; auto)+

lemma is_value_valid_iff [simp]: "is_value_valid v \<longleftrightarrow> valid_value v"
  by (simp add: is_value_valid_def valid_value_def max_val_len_def)

lemma is_key_valid_iff [simp]: "is_key_valid k \<longleftrightarrow> valid_key k"
  by (simp add: is_key_valid_def valid_key_def)

lemma valid_optional_value_iff:
  "valid_optional_value ov \<longleftrightarrow> (case ov of Some v \<Rightarrow> valid_value v | None \<Rightarrow> True)"
  by (simp add: valid_optional_value_def split: option.splits)

context hash_map_contract
begin

lemma is_message_marshallable_correct:
  "is_message_marshallable ops m = Ret b \<Longrightarrow> b = message_marshallable m"
  by (cases m) (auto simp: valid_optional_value_iff kr_is_empty_def valid split: if_splits option.splits)

lemma csm_is_marshallable_correct: "csm_is_marshallable ops m = Ret b \<Longrightarrow> b = csm_marshallable m"
  by (cases m) (auto dest: is_message_marshallable_correct split: if_splits)

end

lemma is_message_marshallable_returns:
  "(\<And>r h. m \<noteq> CDelegate r h) \<Longrightarrow> \<exists>b. is_message_marshallable ops m = Ret b"
  by (cases m) auto

context hash_map_total
begin

lemma is_message_marshallable_total: "is_message_marshallable ops m = Ret (message_marshallable m)"
proof -
  have "\<exists>b. is_message_marshallable ops m = Ret b"
    using returns(4) by (cases m) auto
  with is_message_marshallable_correct show ?thesis by blast
qed

end

end
