(* ===== verification/Marshal_Sht.thy ===== *)
theory Marshal_Sht
  imports Marshal Messages
begin

text \<open>
  The wire format of the store (\<open>marshal_ironsht_specific_v.rs\<close> and the enum derived in
  \<open>cmessage_v.rs\<close>): the trait implementations for keys, end points, key ranges, table entries,
  tables and messages, each with its laws. Every implementation meets the contract of the trait;
  the parsers of all of them accept their serializations, except for the message variant without
  a payload, whose one byte the derived parser rejects.
\<close>

section \<open>Implementations by bijection\<close>

definition key_marshal :: "SHTKey marshal" where
  "key_marshal = bijection_marshal ukey SHTKey u64_marshal"

definition endpoint_marshal :: "EndPoint marshal" where
  "endpoint_marshal = bijection_marshal ep_id EndPoint bytes_marshal"

definition keyrange_forward :: "CKey KeyRange \<Rightarrow> u64 option \<times> u64 option" where
  "keyrange_forward kr =
     (case ki_k (kr_lo kr) of None \<Rightarrow> None | Some x \<Rightarrow> Some (ukey x),
      case ki_k (kr_hi kr) of None \<Rightarrow> None | Some x \<Rightarrow> Some (ukey x))"

definition keyrange_backward :: "u64 option \<times> u64 option \<Rightarrow> CKey KeyRange" where
  "keyrange_backward x =
     KeyRange (KeyIterator (case fst x of None \<Rightarrow> None | Some x \<Rightarrow> Some (SHTKey x)))
              (KeyIterator (case snd x of None \<Rightarrow> None | Some x \<Rightarrow> Some (SHTKey x)))"

definition keyrange_marshal :: "CKey KeyRange marshal" where
  "keyrange_marshal =
     bijection_marshal keyrange_forward keyrange_backward
       (pair_marshal (option_marshal u64_marshal) (option_marshal u64_marshal))"

section \<open>Table entries and tables\<close>

definition ckeykv_deserialize :: "CKeyKV parse" where
  "ckeykv_deserialize data start =
     de_field (deserialize key_marshal) data start (\<lambda>k mid.
     de_field (deserialize bytes_marshal) data mid (\<lambda>v stop. Ret (Some (CKeyKV k v, stop))))"

definition ckeykv_marshal :: "CKeyKV marshal" where
  "ckeykv_marshal =
     \<lparr>is_marshalable = (\<lambda>x. is_marshalable key_marshal (kv_k x) \<and> is_marshalable bytes_marshal (kv_v x) \<and>
        0 + length (ghost_serialize key_marshal (kv_k x)) + length (ghost_serialize bytes_marshal (kv_v x))
          \<le> usize_max),
      is_marshalable_exec = (\<lambda>x. is_marshalable_exec key_marshal (kv_k x) \<and>
        is_marshalable_exec bytes_marshal (kv_v x) \<and>
        no_usize_overflows 0 [serialized_size key_marshal (kv_k x), serialized_size bytes_marshal (kv_v x)]),
      ghost_serialize = (\<lambda>x. [] @ ghost_serialize key_marshal (kv_k x) @ ghost_serialize bytes_marshal (kv_v x)),
      serialized_size = (\<lambda>x. 0 + serialized_size key_marshal (kv_k x) + serialized_size bytes_marshal (kv_v x)),
      serialize = (\<lambda>x data. serialize bytes_marshal (kv_v x) (serialize key_marshal (kv_k x) data)),
      deserialize = ckeykv_deserialize\<rparr>"

function sorted_keys_loop :: "CKeyKV list \<Rightarrow> nat \<Rightarrow> bool" where
  "sorted_keys_loop v idx =
     (if idx < length v
      then if ukey (kv_k (v ! (idx - 1))) \<ge> ukey (kv_k (v ! idx)) then False
           else sorted_keys_loop v (Suc idx)
      else True)"
  by pat_completeness auto
termination
  by (relation "measure (\<lambda>(v, idx). length v - idx)") auto

declare sorted_keys_loop.simps [simp del]

definition sorted_keys :: "CKeyKV list \<Rightarrow> bool" where
  "sorted_keys v = (if length v \<le> 1 then True else sorted_keys_loop v 1)"

definition ckeyhashmap_max_serialized_size :: nat where
  "ckeyhashmap_max_serialized_size = 0x100000"

text \<open>An entry takes 32 bytes of memory: a word for the key and three for the vector.\<close>

abbreviation kvs_marshal :: "CKeyKV list marshal" where
  "kvs_marshal \<equiv> vec_marshal 32 ckeykv_marshal"

definition ckeyhashmap_deserialize :: "CKeyHashMap parse" where
  "ckeyhashmap_deserialize data start =
     de_field (deserialize kvs_marshal) data start (\<lambda>x stop.
       if \<not> sorted_keys x then Ret None
       else let res = ckh_from_vec x
            in if stop - start > ckeyhashmap_max_serialized_size then Ret None
               else Ret (Some (res, stop)))"

definition ckeyhashmap_marshal :: "CKeyHashMap marshal" where
  "ckeyhashmap_marshal =
     \<lparr>is_marshalable = (\<lambda>h. is_marshalable kvs_marshal (ckh_to_vec h) \<and> spec_sorted_keys (ckh_to_vec h) \<and>
        length (ghost_serialize kvs_marshal (ckh_to_vec h)) \<le> ckeyhashmap_max_serialized_size),
      is_marshalable_exec = (\<lambda>h. let v = ckh_to_vec h; a = sorted_keys (ckh_to_vec h) in
        is_marshalable_exec kvs_marshal v \<and> a \<and>
        serialized_size kvs_marshal (ckh_to_vec h) \<le> ckeyhashmap_max_serialized_size),
      ghost_serialize = (\<lambda>h. ghost_serialize kvs_marshal (ckh_to_vec h)),
      serialized_size = (\<lambda>h. serialized_size kvs_marshal (ckh_to_vec h)),
      serialize = (\<lambda>h data. serialize kvs_marshal (ckh_to_vec h) data),
      deserialize = ckeyhashmap_deserialize\<rparr>"

section \<open>Messages\<close>

text \<open>The parser that the macro generates for a variant with up to three members.\<close>

definition variant0 :: "'x \<Rightarrow> 'x parse" where
  "variant0 C data mid = Ret (Some (C, mid))"

definition variant1 :: "'a marshal \<Rightarrow> ('a \<Rightarrow> 'x) \<Rightarrow> 'x parse" where
  "variant1 T C data mid = de_field (deserialize T) data mid (\<lambda>a mid. Ret (Some (C a, mid)))"

definition variant2 :: "'a marshal \<Rightarrow> 'b marshal \<Rightarrow> ('a \<Rightarrow> 'b \<Rightarrow> 'x) \<Rightarrow> 'x parse" where
  "variant2 T U C data mid =
     de_field (deserialize T) data mid (\<lambda>a mid.
     de_field (deserialize U) data mid (\<lambda>b mid. Ret (Some (C a b, mid))))"

definition variant3 :: "'a marshal \<Rightarrow> 'b marshal \<Rightarrow> 'c marshal \<Rightarrow> ('a \<Rightarrow> 'b \<Rightarrow> 'c \<Rightarrow> 'x) \<Rightarrow> 'x parse" where
  "variant3 T U V C data mid =
     de_field (deserialize T) data mid (\<lambda>a mid.
     de_field (deserialize U) data mid (\<lambda>b mid.
     de_field (deserialize V) data mid (\<lambda>c mid. Ret (Some (C a b c, mid)))))"

abbreviation value_marshal :: "bytes option marshal" where
  "value_marshal \<equiv> option_marshal bytes_marshal"

fun cmessage_is_marshalable :: "CMessage \<Rightarrow> bool" where
  "cmessage_is_marshalable (CGetRequest k) \<longleftrightarrow>
     is_marshalable key_marshal k \<and> 1 + length (ghost_serialize key_marshal k) \<le> usize_max"
| "cmessage_is_marshalable (CSetRequest k v) \<longleftrightarrow>
     is_marshalable key_marshal k \<and> is_marshalable value_marshal v \<and>
     1 + length (ghost_serialize key_marshal k) + length (ghost_serialize value_marshal v) \<le> usize_max"
| "cmessage_is_marshalable (CReply k v) \<longleftrightarrow>
     is_marshalable key_marshal k \<and> is_marshalable value_marshal v \<and>
     1 + length (ghost_serialize key_marshal k) + length (ghost_serialize value_marshal v) \<le> usize_max"
| "cmessage_is_marshalable (CRedirect k ep) \<longleftrightarrow>
     is_marshalable key_marshal k \<and> is_marshalable endpoint_marshal ep \<and>
     1 + length (ghost_serialize key_marshal k) + length (ghost_serialize endpoint_marshal ep) \<le> usize_max"
| "cmessage_is_marshalable (CShard kr ep) \<longleftrightarrow>
     is_marshalable keyrange_marshal kr \<and> is_marshalable endpoint_marshal ep \<and>
     1 + length (ghost_serialize keyrange_marshal kr) + length (ghost_serialize endpoint_marshal ep) \<le> usize_max"
| "cmessage_is_marshalable (CDelegate kr h) \<longleftrightarrow>
     is_marshalable keyrange_marshal kr \<and> is_marshalable ckeyhashmap_marshal h \<and>
     1 + length (ghost_serialize keyrange_marshal kr) + length (ghost_serialize ckeyhashmap_marshal h) \<le> usize_max"

fun cmessage_is_marshalable_exec :: "CMessage \<Rightarrow> bool" where
  "cmessage_is_marshalable_exec (CGetRequest k) \<longleftrightarrow>
     is_marshalable_exec key_marshal k \<and> no_usize_overflows 0 [1, serialized_size key_marshal k]"
| "cmessage_is_marshalable_exec (CSetRequest k v) \<longleftrightarrow>
     is_marshalable_exec key_marshal k \<and> is_marshalable_exec value_marshal v \<and>
     no_usize_overflows 0 [1, serialized_size key_marshal k, serialized_size value_marshal v]"
| "cmessage_is_marshalable_exec (CReply k v) \<longleftrightarrow>
     is_marshalable_exec key_marshal k \<and> is_marshalable_exec value_marshal v \<and>
     no_usize_overflows 0 [1, serialized_size key_marshal k, serialized_size value_marshal v]"
| "cmessage_is_marshalable_exec (CRedirect k ep) \<longleftrightarrow>
     is_marshalable_exec key_marshal k \<and> is_marshalable_exec endpoint_marshal ep \<and>
     no_usize_overflows 0 [1, serialized_size key_marshal k, serialized_size endpoint_marshal ep]"
| "cmessage_is_marshalable_exec (CShard kr ep) \<longleftrightarrow>
     is_marshalable_exec keyrange_marshal kr \<and> is_marshalable_exec endpoint_marshal ep \<and>
     no_usize_overflows 0 [1, serialized_size keyrange_marshal kr, serialized_size endpoint_marshal ep]"
| "cmessage_is_marshalable_exec (CDelegate kr h) \<longleftrightarrow>
     is_marshalable_exec keyrange_marshal kr \<and> is_marshalable_exec ckeyhashmap_marshal h \<and>
     no_usize_overflows 0 [1, serialized_size keyrange_marshal kr, serialized_size ckeyhashmap_marshal h]"

fun cmessage_ghost_serialize :: "CMessage \<Rightarrow> bytes" where
  "cmessage_ghost_serialize (CGetRequest k) = 0 # ghost_serialize key_marshal k"
| "cmessage_ghost_serialize (CSetRequest k v) = 1 # ghost_serialize key_marshal k @ ghost_serialize value_marshal v"
| "cmessage_ghost_serialize (CReply k v) = 2 # ghost_serialize key_marshal k @ ghost_serialize value_marshal v"
| "cmessage_ghost_serialize (CRedirect k ep) = 3 # ghost_serialize key_marshal k @ ghost_serialize endpoint_marshal ep"
| "cmessage_ghost_serialize (CShard kr ep) =
     4 # ghost_serialize keyrange_marshal kr @ ghost_serialize endpoint_marshal ep"
| "cmessage_ghost_serialize (CDelegate kr h) =
     5 # ghost_serialize keyrange_marshal kr @ ghost_serialize ckeyhashmap_marshal h"

fun cmessage_serialized_size :: "CMessage \<Rightarrow> nat" where
  "cmessage_serialized_size (CGetRequest k) = 1 + serialized_size key_marshal k"
| "cmessage_serialized_size (CSetRequest k v) = 1 + serialized_size key_marshal k + serialized_size value_marshal v"
| "cmessage_serialized_size (CReply k v) = 1 + serialized_size key_marshal k + serialized_size value_marshal v"
| "cmessage_serialized_size (CRedirect k ep) = 1 + serialized_size key_marshal k + serialized_size endpoint_marshal ep"
| "cmessage_serialized_size (CShard kr ep) = 1 + serialized_size keyrange_marshal kr + serialized_size endpoint_marshal ep"
| "cmessage_serialized_size (CDelegate kr h) = 1 + serialized_size keyrange_marshal kr + serialized_size ckeyhashmap_marshal h"

fun cmessage_serialize :: "CMessage \<Rightarrow> bytes \<Rightarrow> bytes" where
  "cmessage_serialize (CGetRequest k) data = serialize key_marshal k (data @ [0])"
| "cmessage_serialize (CSetRequest k v) data = serialize value_marshal v (serialize key_marshal k (data @ [1]))"
| "cmessage_serialize (CReply k v) data = serialize value_marshal v (serialize key_marshal k (data @ [2]))"
| "cmessage_serialize (CRedirect k ep) data = serialize endpoint_marshal ep (serialize key_marshal k (data @ [3]))"
| "cmessage_serialize (CShard kr ep) data = serialize endpoint_marshal ep (serialize keyrange_marshal kr (data @ [4]))"
| "cmessage_serialize (CDelegate kr h) data = serialize ckeyhashmap_marshal h (serialize keyrange_marshal kr (data @ [5]))"

definition cmessage_variants :: "(u8 \<times> CMessage parse) list" where
  "cmessage_variants =
     [(0, variant1 key_marshal CGetRequest),
      (1, variant2 key_marshal value_marshal CSetRequest),
      (2, variant2 key_marshal value_marshal CReply),
      (3, variant2 key_marshal endpoint_marshal CRedirect),
      (4, variant2 keyrange_marshal endpoint_marshal CShard),
      (5, variant2 keyrange_marshal ckeyhashmap_marshal CDelegate)]"

definition cmessage_marshal :: "CMessage marshal" where
  "cmessage_marshal =
     \<lparr>is_marshalable = cmessage_is_marshalable, is_marshalable_exec = cmessage_is_marshalable_exec,
      ghost_serialize = cmessage_ghost_serialize, serialized_size = cmessage_serialized_size,
      serialize = cmessage_serialize, deserialize = enum_deserialize cmessage_variants\<rparr>"

fun csm_is_marshalable :: "CSingleMessage \<Rightarrow> bool" where
  "csm_is_marshalable (CMsg seqno dst m) \<longleftrightarrow>
     is_marshalable u64_marshal seqno \<and> is_marshalable endpoint_marshal dst \<and> is_marshalable cmessage_marshal m \<and>
     1 + length (ghost_serialize u64_marshal seqno) + length (ghost_serialize endpoint_marshal dst) +
       length (ghost_serialize cmessage_marshal m) \<le> usize_max"
| "csm_is_marshalable (CAck ack_seqno) \<longleftrightarrow>
     is_marshalable u64_marshal ack_seqno \<and> 1 + length (ghost_serialize u64_marshal ack_seqno) \<le> usize_max"
| "csm_is_marshalable CInvalidMessage \<longleftrightarrow> 1 \<le> usize_max"

fun csm_is_marshalable_exec :: "CSingleMessage \<Rightarrow> bool" where
  "csm_is_marshalable_exec (CMsg seqno dst m) \<longleftrightarrow>
     is_marshalable_exec u64_marshal seqno \<and> is_marshalable_exec endpoint_marshal dst \<and>
     is_marshalable_exec cmessage_marshal m \<and>
     no_usize_overflows 0 [1, serialized_size u64_marshal seqno, serialized_size endpoint_marshal dst,
       serialized_size cmessage_marshal m]"
| "csm_is_marshalable_exec (CAck ack_seqno) \<longleftrightarrow>
     is_marshalable_exec u64_marshal ack_seqno \<and> no_usize_overflows 0 [1, serialized_size u64_marshal ack_seqno]"
| "csm_is_marshalable_exec CInvalidMessage = True"

fun csm_ghost_serialize :: "CSingleMessage \<Rightarrow> bytes" where
  "csm_ghost_serialize (CMsg seqno dst m) =
     0 # ghost_serialize u64_marshal seqno @ ghost_serialize endpoint_marshal dst @ ghost_serialize cmessage_marshal m"
| "csm_ghost_serialize (CAck ack_seqno) = 1 # ghost_serialize u64_marshal ack_seqno"
| "csm_ghost_serialize CInvalidMessage = [2]"

fun csm_serialized_size :: "CSingleMessage \<Rightarrow> nat" where
  "csm_serialized_size (CMsg seqno dst m) =
     1 + serialized_size u64_marshal seqno + serialized_size endpoint_marshal dst + serialized_size cmessage_marshal m"
| "csm_serialized_size (CAck ack_seqno) = 1 + serialized_size u64_marshal ack_seqno"
| "csm_serialized_size CInvalidMessage = 1"

fun csm_serialize :: "CSingleMessage \<Rightarrow> bytes \<Rightarrow> bytes" where
  "csm_serialize (CMsg seqno dst m) data =
     serialize cmessage_marshal m (serialize endpoint_marshal dst (serialize u64_marshal seqno (data @ [0])))"
| "csm_serialize (CAck ack_seqno) data = serialize u64_marshal ack_seqno (data @ [1])"
| "csm_serialize CInvalidMessage data = data @ [2]"

definition csm_variants :: "(u8 \<times> CSingleMessage parse) list" where
  "csm_variants =
     [(0, variant3 u64_marshal endpoint_marshal cmessage_marshal CMsg),
      (1, variant1 u64_marshal CAck),
      (2, variant0 CInvalidMessage)]"

definition csm_marshal :: "CSingleMessage marshal" where
  "csm_marshal =
     \<lparr>is_marshalable = csm_is_marshalable, is_marshalable_exec = csm_is_marshalable_exec,
      ghost_serialize = csm_ghost_serialize, serialized_size = csm_serialized_size,
      serialize = csm_serialize, deserialize = enum_deserialize csm_variants\<rparr>"

section \<open>Laws\<close>

lemma keyrange_bij [simp]:
  "keyrange_forward (keyrange_backward x) = x" "keyrange_backward (keyrange_forward kr) = kr"
proof -
  show "keyrange_forward (keyrange_backward x) = x"
    by (cases x) (auto simp: keyrange_forward_def keyrange_backward_def split: option.splits)
  obtain lo hi where "kr = KeyRange (KeyIterator lo) (KeyIterator hi)"
    by (metis KeyIterator.exhaust KeyRange.exhaust)
  then show "keyrange_backward (keyrange_forward kr) = kr"
    by (auto simp: keyrange_forward_def keyrange_backward_def split: option.splits)
qed

interpretation key: Marshalable_complete key_marshal
  unfolding key_marshal_def by (rule bijection_complete [OF u64.Marshalable_complete_axioms]) simp_all

interpretation endpoint: Marshalable_complete endpoint_marshal
  unfolding endpoint_marshal_def by (rule bijection_complete [OF bytes.Marshalable_complete_axioms]) simp_all

interpretation val: Marshalable_complete value_marshal
  by (rule option_complete [OF bytes.Marshalable_complete_axioms])

interpretation keyrange: Marshalable_complete keyrange_marshal
  unfolding keyrange_marshal_def
  by (intro bijection_complete pair_complete option_complete u64.Marshalable_complete_axioms) simp_all

lemma length_key [simp]: "length (ghost_serialize key_marshal k) = 8" "serialized_size key_marshal k = 8"
  "is_marshalable key_marshal k" "length (ghost_serialize u64_marshal x) = 8" "is_marshalable u64_marshal x"
  by (simp_all add: key_marshal_def bijection_marshal_def u64_marshal_def)

text \<open>The struct is the pair of its fields.\<close>

lemma ckeykv_pair:
  "is_marshalable ckeykv_marshal x = is_marshalable (pair_marshal key_marshal bytes_marshal) (kv_k x, kv_v x)"
  "ghost_serialize ckeykv_marshal x = ghost_serialize (pair_marshal key_marshal bytes_marshal) (kv_k x, kv_v x)"
  "deserialize ckeykv_marshal data start =
     de_field (deserialize (pair_marshal key_marshal bytes_marshal)) data start
       (\<lambda>p stop. Ret (Some (CKeyKV (fst p) (snd p), stop)))"
proof -
  show "deserialize ckeykv_marshal data start =
     de_field (deserialize (pair_marshal key_marshal bytes_marshal)) data start
       (\<lambda>p stop. Ret (Some (CKeyKV (fst p) (snd p), stop)))"
    by (auto simp: ckeykv_marshal_def ckeykv_deserialize_def pair_marshal_def pair_deserialize_def de_field_def
        bind_outcome_assoc split: option.splits intro!: bind_outcome_cong)
qed (simp_all add: ckeykv_marshal_def pair_marshal_def)

interpretation kv_pair: Marshalable_complete "pair_marshal key_marshal bytes_marshal"
  by (intro pair_complete key.Marshalable_complete_axioms bytes.Marshalable_complete_axioms)

interpretation ckeykv: Marshalable_complete ckeykv_marshal
proof unfold_locales
  fix x
  show "is_marshalable_exec ckeykv_marshal x = is_marshalable ckeykv_marshal x"
    using bytes.fits [of "kv_v x"]
    by (auto simp: ckeykv_marshal_def key.exec_is_marshalable bytes.exec_is_marshalable bytes.serialized_size
        usize_max_eq)
  show "is_marshalable ckeykv_marshal x \<Longrightarrow> length (ghost_serialize ckeykv_marshal x) \<le> usize_max"
    using kv_pair.fits by (simp add: ckeykv_pair)
next
  fix data :: bytes and start x stop
  assume "deserialize ckeykv_marshal data start = Ret (Some (x, stop))" and len: "length data \<le> usize_max"
  then show "is_marshalable ckeykv_marshal x \<and> start \<le> stop \<and> stop \<le> length data \<and>
      slice_subrange data start stop = ghost_serialize ckeykv_marshal x"
    by (auto simp: ckeykv_pair outcome_simps dest: kv_pair.sound)
next
  fix x y a b
  assume "is_marshalable ckeykv_marshal x" "is_marshalable ckeykv_marshal y"
    and "ghost_serialize ckeykv_marshal x @ a = ghost_serialize ckeykv_marshal y @ b"
  then show "x = y \<and> a = b"
    using kv_pair.prefix_free [of "(kv_k x, kv_v x)" "(kv_k y, kv_v y)" a b]
    by (auto simp: ckeykv_pair intro: CKeyKV.expand)
next
  fix x pre post
  assume "is_marshalable ckeykv_marshal x" "length (pre @ ghost_serialize ckeykv_marshal x @ post) \<le> usize_max"
  then show "deserialize ckeykv_marshal (pre @ ghost_serialize ckeykv_marshal x @ post) (length pre) =
      Ret (Some (x, length pre + length (ghost_serialize ckeykv_marshal x)))"
    using kv_pair.complete [of "(kv_k x, kv_v x)" pre post] by (simp add: ckeykv_pair de_field_Some)
qed (simp_all add: ckeykv_marshal_def key.serialized_size bytes.serialized_size key.serialize bytes.serialize)

interpretation kvs: Marshalable kvs_marshal
  by (rule vec_law) (rule ckeykv.Marshalable_axioms)

subsection \<open>Tables\<close>

lemma sorted_keys_loop_eq:
  "sorted_keys_loop v idx \<longleftrightarrow> (\<forall>j. idx \<le> j \<and> j < length v \<longrightarrow> ckeykvlt (v ! (j - 1)) (v ! j))"
proof (induction v idx rule: sorted_keys_loop.induct)
  case (1 v idx)
  show ?case
  proof (cases "idx < length v \<and> ckeykvlt (v ! (idx - 1)) (v ! idx)")
    case True
    with 1 have "sorted_keys_loop v (Suc idx) \<longleftrightarrow>
        (\<forall>j. Suc idx \<le> j \<and> j < length v \<longrightarrow> ckeykvlt (v ! (j - 1)) (v ! j))"
      by (simp add: ckeykvlt_def not_le)
    moreover have "\<not> ukey (kv_k (v ! idx)) \<le> ukey (kv_k (v ! (idx - 1)))"
      using True by (simp add: ckeykvlt_def not_le)
    ultimately show ?thesis
      using True by (subst sorted_keys_loop.simps) (simp add: all_from_Suc)
  next
    case False
    then show ?thesis by (subst sorted_keys_loop.simps) (auto simp: ckeykvlt_def not_le)
  qed
qed

lemma sorted_keys_eq [simp]: "sorted_keys v \<longleftrightarrow> spec_sorted_keys v"
proof (cases "length v \<le> 1")
  case False
  have "(\<forall>j. 1 \<le> j \<and> j < length v \<longrightarrow> ckeykvlt (v ! (j - 1)) (v ! j)) \<longleftrightarrow> spec_sorted_keys v"
    unfolding spec_sorted_keys_def
  proof (intro iffI allI impI)
    fix j
    assume "\<forall>i<length v - 1. ckeykvlt (v ! i) (v ! Suc i)" and "1 \<le> j \<and> j < length v"
    then show "ckeykvlt (v ! (j - 1)) (v ! j)" by (cases j) auto
  next
    fix i
    assume all: "\<forall>j. 1 \<le> j \<and> j < length v \<longrightarrow> ckeykvlt (v ! (j - 1)) (v ! j)" and "i < length v - 1"
    then show "ckeykvlt (v ! i) (v ! Suc i)" using spec [OF all, of "Suc i"] by simp
  qed
  with False show ?thesis by (simp add: sorted_keys_def sorted_keys_loop_eq)
qed (auto simp: sorted_keys_def spec_sorted_keys_def)

lemma kvs_length: "length v \<le> length (concat (map (ghost_serialize ckeykv_marshal) v))"
  by (induction v) (auto simp: ckeykv_marshal_def)

interpretation ckeyhashmap: Marshalable_complete ckeyhashmap_marshal
proof unfold_locales
  fix h
  show "is_marshalable_exec ckeyhashmap_marshal h = is_marshalable ckeyhashmap_marshal h"
    using kvs.serialized_size by (auto simp: ckeyhashmap_marshal_def kvs.exec_is_marshalable Let_def)
next
  fix data :: bytes and start h stop
  assume "deserialize ckeyhashmap_marshal data start = Ret (Some (h, stop))" and len: "length data \<le> usize_max"
  then obtain v where v: "deserialize kvs_marshal data start = Ret (Some (v, stop))" "spec_sorted_keys v"
      "h = ckh_from_vec v" "stop - start \<le> ckeyhashmap_max_serialized_size"
    by (auto simp: ckeyhashmap_marshal_def ckeyhashmap_deserialize_def outcome_simps Let_def split: if_splits)
  from kvs.sound [OF v(1) len] v(2,3,4)
  show "is_marshalable ckeyhashmap_marshal h \<and> start \<le> stop \<and> stop \<le> length data \<and>
      slice_subrange data start stop = ghost_serialize ckeyhashmap_marshal h"
    by (auto simp: ckeyhashmap_marshal_def ckh_to_from_vec dest: arg_cong [where f = length])
next
  fix x y a b
  assume "is_marshalable ckeyhashmap_marshal x" "is_marshalable ckeyhashmap_marshal y"
    and "ghost_serialize ckeyhashmap_marshal x @ a = ghost_serialize ckeyhashmap_marshal y @ b"
  then have "ckh_to_vec x = ckh_to_vec y \<and> a = b"
    by (intro kvs.prefix_free) (simp_all add: ckeyhashmap_marshal_def)
  then show "x = y \<and> a = b" by (metis ckh_from_to_vec)
next
  fix h pre post
  assume m: "is_marshalable ckeyhashmap_marshal h"
    and len: "length (pre @ ghost_serialize ckeyhashmap_marshal h @ post) \<le> usize_max"
  have "length (ckh_to_vec h) \<le> 0x100000"
    using m kvs_length [of "ckh_to_vec h"]
    by (simp add: ckeyhashmap_marshal_def vec_ghost_serialize ckeyhashmap_max_serialized_size_def)
  then have "with_capacity_ok 32 (length (ckh_to_vec h))"
    by (simp add: with_capacity_ok_def isize_max_def)
  with m len have "deserialize kvs_marshal (pre @ ghost_serialize kvs_marshal (ckh_to_vec h) @ post) (length pre) =
      Ret (Some (ckh_to_vec h, length pre + length (ghost_serialize kvs_marshal (ckh_to_vec h))))"
    by (intro vec_complete ckeykv.Marshalable_complete_axioms) (simp_all add: ckeyhashmap_marshal_def)
  with m show "deserialize ckeyhashmap_marshal (pre @ ghost_serialize ckeyhashmap_marshal h @ post) (length pre) =
      Ret (Some (h, length pre + length (ghost_serialize ckeyhashmap_marshal h)))"
    by (simp add: ckeyhashmap_marshal_def ckeyhashmap_deserialize_def de_field_Some Let_def)
qed (simp_all add: ckeyhashmap_marshal_def kvs.serialized_size kvs.serialize kvs.fits)

subsection \<open>Variants\<close>

lemma variant1_sound:
  assumes "Marshalable T" and "variant1 T C data mid = Ret (Some (x, stop))" and "length data \<le> usize_max"
  shows "\<exists>a. x = C a \<and> is_marshalable T a \<and> mid \<le> stop \<and> stop \<le> length data \<and>
    slice_subrange data mid stop = ghost_serialize T a"
  using assms(2) Marshalable.sound [OF assms(1) _ assms(3)] by (auto simp: variant1_def outcome_simps)

lemma variant2_sound:
  assumes T: "Marshalable T" and U: "Marshalable U"
    and de: "variant2 T U C data mid = Ret (Some (x, stop))" and len: "length data \<le> usize_max"
  shows "\<exists>a b. x = C a b \<and> is_marshalable T a \<and> is_marshalable U b \<and> mid \<le> stop \<and> stop \<le> length data \<and>
    slice_subrange data mid stop = ghost_serialize T a @ ghost_serialize U b"
proof -
  from de obtain a m b where a: "deserialize T data mid = Ret (Some (a, m))"
      and b: "deserialize U data m = Ret (Some (b, stop))" and x: "x = C a b"
    by (auto simp: variant2_def outcome_simps)
  from Marshalable.sound [OF U b len] sound_fields [OF T a len, of stop "ghost_serialize U b"] x
  show ?thesis by auto
qed

lemma variant3_sound:
  assumes T: "Marshalable T" and U: "Marshalable U" and V: "Marshalable V"
    and de: "variant3 T U V C data mid = Ret (Some (x, stop))" and len: "length data \<le> usize_max"
  shows "\<exists>a b c. x = C a b c \<and> is_marshalable T a \<and> is_marshalable U b \<and> is_marshalable V c \<and>
    mid \<le> stop \<and> stop \<le> length data \<and>
    slice_subrange data mid stop = ghost_serialize T a @ ghost_serialize U b @ ghost_serialize V c"
proof -
  from de obtain a m where a: "deserialize T data mid = Ret (Some (a, m))"
      and rest: "variant2 U V (C a) data m = Ret (Some (x, stop))"
    by (auto simp: variant3_def variant2_def outcome_simps)
  obtain b c where bc: "x = C a b c" "is_marshalable U b" "is_marshalable V c" "m \<le> stop" "stop \<le> length data"
      "slice_subrange data m stop = ghost_serialize U b @ ghost_serialize V c"
    using variant2_sound [OF U V rest len] by blast
  from sound_fields [OF T a len bc(4,5,6)] bc show ?thesis by auto
qed

lemma variant1_complete:
  assumes "Marshalable_complete T" and "is_marshalable T a"
    and "length (pre @ ghost_serialize T a @ post) \<le> usize_max"
  shows "variant1 T C (pre @ ghost_serialize T a @ post) (length pre) =
    Ret (Some (C a, length pre + length (ghost_serialize T a)))"
  using Marshalable_complete.complete [OF assms] by (simp add: variant1_def de_field_Some)

lemma variant2_complete:
  assumes T: "Marshalable_complete T" and U: "Marshalable_complete U"
    and m: "is_marshalable T a" "is_marshalable U b"
    and len: "length (pre @ (ghost_serialize T a @ ghost_serialize U b) @ post) \<le> usize_max"
  shows "variant2 T U C (pre @ (ghost_serialize T a @ ghost_serialize U b) @ post) (length pre) =
    Ret (Some (C a b, length pre + length (ghost_serialize T a @ ghost_serialize U b)))"
  using Marshalable_complete.complete [OF T m(1), of pre "ghost_serialize U b @ post"]
    Marshalable_complete.complete [OF U m(2), of "pre @ ghost_serialize T a" post] len
  by (simp add: variant2_def de_field_Some)

lemma variant3_complete:
  assumes T: "Marshalable_complete T" and U: "Marshalable_complete U" and V: "Marshalable_complete V"
    and m: "is_marshalable T a" "is_marshalable U b" "is_marshalable V c"
    and len: "length (pre @ (ghost_serialize T a @ ghost_serialize U b @ ghost_serialize V c) @ post) \<le> usize_max"
  shows "variant3 T U V C (pre @ (ghost_serialize T a @ ghost_serialize U b @ ghost_serialize V c) @ post) (length pre) =
    Ret (Some (C a b c, length pre + length (ghost_serialize T a @ ghost_serialize U b @ ghost_serialize V c)))"
  using Marshalable_complete.complete [OF T m(1), of pre "ghost_serialize U b @ ghost_serialize V c @ post"]
    Marshalable_complete.complete [OF U m(2), of "pre @ ghost_serialize T a" "ghost_serialize V c @ post"]
    Marshalable_complete.complete [OF V m(3), of "pre @ ghost_serialize T a @ ghost_serialize U b" post] len
  by (simp add: variant3_def de_field_Some add.assoc)

subsection \<open>Messages\<close>

lemmas field_laws =
  key.Marshalable_axioms val.Marshalable_axioms endpoint.Marshalable_axioms keyrange.Marshalable_axioms
  ckeyhashmap.Marshalable_axioms u64.Marshalable_axioms

lemmas field_complete =
  key.Marshalable_complete_axioms val.Marshalable_complete_axioms endpoint.Marshalable_complete_axioms
  keyrange.Marshalable_complete_axioms ckeyhashmap.Marshalable_complete_axioms u64.Marshalable_complete_axioms

lemmas field_exec =
  key.exec_is_marshalable val.exec_is_marshalable endpoint.exec_is_marshalable keyrange.exec_is_marshalable
  ckeyhashmap.exec_is_marshalable u64.exec_is_marshalable

lemmas field_size =
  key.serialized_size val.serialized_size endpoint.serialized_size keyrange.serialized_size
  ckeyhashmap.serialized_size u64.serialized_size

lemmas field_serialize =
  key.serialize val.serialize endpoint.serialize keyrange.serialize ckeyhashmap.serialize u64.serialize

lemmas field_append_eq_iff =
  key.append_eq_iff val.append_eq_iff endpoint.append_eq_iff keyrange.append_eq_iff
  ckeyhashmap.append_eq_iff u64.append_eq_iff

lemma key_inject [simp]:
  "ghost_serialize key_marshal k = ghost_serialize key_marshal k' \<longleftrightarrow> k = k'"
  "ghost_serialize u64_marshal x = ghost_serialize u64_marshal x' \<longleftrightarrow> x = x'"
  using key.injective [of k k'] u64.injective [of x x'] by auto

text \<open>A parsed variant covers the tag and its payload, so it is marshalable as a whole.\<close>

lemma cmessage_variant_sound:
  assumes "(tag, de) \<in> set cmessage_variants" and "de data (Suc start) = Ret (Some (m, stop))"
    and len: "length data \<le> usize_max" and "data ! start = tag"
  shows "cmessage_is_marshalable m \<and> Suc start \<le> stop \<and> stop \<le> length data \<and>
    cmessage_ghost_serialize m = data ! start # slice_subrange data (Suc start) stop"
proof -
  have bound: "Suc n \<le> usize_max" if "n = stop - Suc start" "Suc start \<le> stop" "stop \<le> length data" for n
    using that len by simp
  note len_eq = arg_cong [where f = length]
  from assms(1) consider
      "tag = 0" "de = variant1 key_marshal CGetRequest"
    | "tag = 1" "de = variant2 key_marshal value_marshal CSetRequest"
    | "tag = 2" "de = variant2 key_marshal value_marshal CReply"
    | "tag = 3" "de = variant2 key_marshal endpoint_marshal CRedirect"
    | "tag = 4" "de = variant2 keyrange_marshal endpoint_marshal CShard"
    | "tag = 5" "de = variant2 keyrange_marshal ckeyhashmap_marshal CDelegate"
    by (auto simp: cmessage_variants_def)
  then show ?thesis
  proof cases
    case 1
    with assms(2,4) variant1_sound [OF field_laws(1) _ len, of CGetRequest "Suc start" m stop] bound
    show ?thesis by (auto dest: len_eq)
  next
    case 2
    with assms(2,4) variant2_sound [OF field_laws(1,2) _ len, of CSetRequest "Suc start" m stop] bound
    show ?thesis by (auto dest: len_eq)
  next
    case 3
    with assms(2,4) variant2_sound [OF field_laws(1,2) _ len, of CReply "Suc start" m stop] bound
    show ?thesis by (auto dest: len_eq)
  next
    case 4
    with assms(2,4) variant2_sound [OF field_laws(1,3) _ len, of CRedirect "Suc start" m stop] bound
    show ?thesis by (auto dest: len_eq)
  next
    case 5
    with assms(2,4) variant2_sound [OF field_laws(4,3) _ len, of CShard "Suc start" m stop] bound
    show ?thesis by (auto dest: len_eq)
  next
    case 6
    with assms(2,4) variant2_sound [OF field_laws(4,5) _ len, of CDelegate "Suc start" m stop] bound
    show ?thesis by (auto dest: len_eq)
  qed
qed

lemma cmessage_prefix_free:
  "cmessage_is_marshalable x \<Longrightarrow> cmessage_is_marshalable y \<Longrightarrow>
   cmessage_ghost_serialize x @ a = cmessage_ghost_serialize y @ b \<Longrightarrow> x = y \<and> a = b"
  by (cases x; cases y; simp add: field_append_eq_iff)

lemma ne_key: "ghost_serialize key_marshal k \<noteq> []"
  by (metis length_key(1) list.size(3) zero_neq_numeral)

lemma ne_keyrange: "ghost_serialize keyrange_marshal kr \<noteq> []"
  by (simp add: keyrange_marshal_def bijection_marshal_def pair_marshal_def option_marshal_def split: option.split)

lemma cmessage_complete:
  assumes m: "cmessage_is_marshalable m" and len: "length (pre @ cmessage_ghost_serialize m @ post) \<le> usize_max"
  shows "enum_deserialize cmessage_variants (pre @ cmessage_ghost_serialize m @ post) (length pre) =
    Ret (Some (m, length pre + length (cmessage_ghost_serialize m)))"
proof (cases m)
  case (CGetRequest k)
  with m len variant1_complete [OF field_complete(1), of k "pre @ [0]" post CGetRequest]
    enum_deserialize_complete [OF ne_key, of cmessage_variants pre 0 k post]
  show ?thesis by (simp add: cmessage_variants_def)
next
  case (CSetRequest k v)
  with m len variant2_complete [OF field_complete(1,2), of k v "pre @ [1]" post CSetRequest]
    enum_deserialize_complete [of "ghost_serialize key_marshal k @ ghost_serialize value_marshal v"
      cmessage_variants pre 1 post] ne_key
  show ?thesis by (simp add: cmessage_variants_def)
next
  case (CReply k v)
  with m len variant2_complete [OF field_complete(1,2), of k v "pre @ [2]" post CReply]
    enum_deserialize_complete [of "ghost_serialize key_marshal k @ ghost_serialize value_marshal v"
      cmessage_variants pre 2 post] ne_key
  show ?thesis by (simp add: cmessage_variants_def)
next
  case (CRedirect k ep)
  with m len variant2_complete [OF field_complete(1,3), of k ep "pre @ [3]" post CRedirect]
    enum_deserialize_complete [of "ghost_serialize key_marshal k @ ghost_serialize endpoint_marshal ep"
      cmessage_variants pre 3 post] ne_key
  show ?thesis by (simp add: cmessage_variants_def)
next
  case (CShard kr ep)
  with m len variant2_complete [OF field_complete(4,3), of kr ep "pre @ [4]" post CShard]
    enum_deserialize_complete [of "ghost_serialize keyrange_marshal kr @ ghost_serialize endpoint_marshal ep"
      cmessage_variants pre 4 post] ne_keyrange
  show ?thesis by (simp add: cmessage_variants_def)
next
  case (CDelegate kr h)
  with m len variant2_complete [OF field_complete(4,5), of kr h "pre @ [5]" post CDelegate]
    enum_deserialize_complete [of "ghost_serialize keyrange_marshal kr @ ghost_serialize ckeyhashmap_marshal h"
      cmessage_variants pre 5 post] ne_keyrange
  show ?thesis by (simp add: cmessage_variants_def)
qed

interpretation cmessage: Marshalable_complete cmessage_marshal
proof unfold_locales
  fix m
  show "is_marshalable_exec cmessage_marshal m = is_marshalable cmessage_marshal m"
    by (cases m) (auto simp: cmessage_marshal_def field_exec field_size)
  assume m: "is_marshalable cmessage_marshal m"
  show "serialized_size cmessage_marshal m = length (ghost_serialize cmessage_marshal m)"
    using m by (cases m) (auto simp: cmessage_marshal_def field_size)
  show "length (ghost_serialize cmessage_marshal m) \<le> usize_max"
    using m by (cases m) (auto simp: cmessage_marshal_def)
  show "serialize cmessage_marshal m data = data @ ghost_serialize cmessage_marshal m" for data
    using m by (cases m) (auto simp: cmessage_marshal_def field_serialize)
next
  fix data :: bytes and start m stop
  assume "deserialize cmessage_marshal data start = Ret (Some (m, stop))" and len: "length data \<le> usize_max"
  then have de: "enum_deserialize cmessage_variants data start = Ret (Some (m, stop))"
    by (simp add: cmessage_marshal_def)
  from enum_deserialize_Some [OF de] cmessage_variant_sound [OF _ _ len]
  show "is_marshalable cmessage_marshal m \<and> start \<le> stop \<and> stop \<le> length data \<and>
      slice_subrange data start stop = ghost_serialize cmessage_marshal m"
    by (force simp: cmessage_marshal_def slice_Cons)
next
  fix x y a b
  assume "is_marshalable cmessage_marshal x" "is_marshalable cmessage_marshal y"
    and "ghost_serialize cmessage_marshal x @ a = ghost_serialize cmessage_marshal y @ b"
  then show "x = y \<and> a = b" unfolding cmessage_marshal_def marshal.simps by (rule cmessage_prefix_free)
next
  fix m pre post
  assume "is_marshalable cmessage_marshal m" "length (pre @ ghost_serialize cmessage_marshal m @ post) \<le> usize_max"
  then show "deserialize cmessage_marshal (pre @ ghost_serialize cmessage_marshal m @ post) (length pre) =
      Ret (Some (m, length pre + length (ghost_serialize cmessage_marshal m)))"
    unfolding cmessage_marshal_def marshal.simps by (rule cmessage_complete)
qed

subsection \<open>Single messages\<close>

lemma csm_variant_sound:
  assumes "(tag, de) \<in> set csm_variants" and "de data (Suc start) = Ret (Some (m, stop))"
    and len: "length data \<le> usize_max" and start: "Suc start < length data" and "data ! start = tag"
  shows "csm_is_marshalable m \<and> Suc start \<le> stop \<and> stop \<le> length data \<and>
    csm_ghost_serialize m = data ! start # slice_subrange data (Suc start) stop"
proof -
  have bound: "Suc n \<le> usize_max" if "n = stop - Suc start" "Suc start \<le> stop" "stop \<le> length data" for n
    using that len by simp
  note len_eq = arg_cong [where f = length]
  from assms(1) consider
      "tag = 0" "de = variant3 u64_marshal endpoint_marshal cmessage_marshal CMsg"
    | "tag = 1" "de = variant1 u64_marshal CAck"
    | "tag = 2" "de = variant0 CInvalidMessage"
    by (auto simp: csm_variants_def)
  then show ?thesis
  proof cases
    case 1
    with assms(2,5) bound variant3_sound [OF field_laws(6,3) cmessage.Marshalable_axioms _ len, of CMsg "Suc start" m stop]
    show ?thesis by (auto dest: len_eq)
  next
    case 2
    with assms(2,5) variant1_sound [OF field_laws(6) _ len, of CAck "Suc start" m stop] bound
    show ?thesis by (auto dest: len_eq)
  next
    case 3
    with assms(2,5) start show ?thesis by (auto simp: variant0_def slice_subrange_def usize_max_eq)
  qed
qed

lemma csm_prefix_free:
  "csm_is_marshalable x \<Longrightarrow> csm_is_marshalable y \<Longrightarrow>
   csm_ghost_serialize x @ a = csm_ghost_serialize y @ b \<Longrightarrow> x = y \<and> a = b"
  by (cases x; cases y; simp add: field_append_eq_iff cmessage.append_eq_iff)

lemma csm_complete:
  assumes m: "csm_is_marshalable m" "m \<noteq> CInvalidMessage"
    and len: "length (pre @ csm_ghost_serialize m @ post) \<le> usize_max"
  shows "enum_deserialize csm_variants (pre @ csm_ghost_serialize m @ post) (length pre) =
    Ret (Some (m, length pre + length (csm_ghost_serialize m)))"
proof (cases m)
  case (CMsg seqno dst cm)
  let ?s = "ghost_serialize u64_marshal seqno @ ghost_serialize endpoint_marshal dst @ ghost_serialize cmessage_marshal cm"
  have "?s \<noteq> []" using length_key(4) [of seqno] by (metis append_is_Nil_conv list.size(3) zero_neq_numeral)
  with CMsg m len enum_deserialize_complete [of ?s csm_variants pre 0 post]
    variant3_complete [OF field_complete(6,3) cmessage.Marshalable_complete_axioms, of seqno dst cm "pre @ [0]" post CMsg]
  show ?thesis by (simp add: csm_variants_def)
next
  case (CAck n)
  have "ghost_serialize u64_marshal n \<noteq> []" using length_key(4) [of n] by (metis list.size(3) zero_neq_numeral)
  with CAck m len enum_deserialize_complete [of "ghost_serialize u64_marshal n" csm_variants pre 1 post]
    variant1_complete [OF field_complete(6), of n "pre @ [1]" post CAck]
  show ?thesis by (simp add: csm_variants_def)
qed (use m in simp)

interpretation csm: Marshalable csm_marshal
proof unfold_locales
  fix m
  show "is_marshalable_exec csm_marshal m = is_marshalable csm_marshal m"
    by (cases m) (auto simp: csm_marshal_def field_exec field_size cmessage.exec_is_marshalable
        cmessage.serialized_size usize_max_eq)
  assume m: "is_marshalable csm_marshal m"
  show "serialized_size csm_marshal m = length (ghost_serialize csm_marshal m)"
    using m by (cases m) (auto simp: csm_marshal_def field_size cmessage.serialized_size)
  show "length (ghost_serialize csm_marshal m) \<le> usize_max"
    using m by (cases m) (auto simp: csm_marshal_def)
  show "serialize csm_marshal m data = data @ ghost_serialize csm_marshal m" for data
    using m by (cases m) (auto simp: csm_marshal_def field_serialize cmessage.serialize)
next
  fix data :: bytes and start m stop
  assume "deserialize csm_marshal data start = Ret (Some (m, stop))" and len: "length data \<le> usize_max"
  then have de: "enum_deserialize csm_variants data start = Ret (Some (m, stop))"
    by (simp add: csm_marshal_def)
  from enum_deserialize_Some [OF de] csm_variant_sound [OF _ _ len]
  show "is_marshalable csm_marshal m \<and> start \<le> stop \<and> stop \<le> length data \<and>
      slice_subrange data start stop = ghost_serialize csm_marshal m"
    by (force simp: csm_marshal_def slice_Cons)
next
  fix x y a b
  assume "is_marshalable csm_marshal x" "is_marshalable csm_marshal y"
    and "ghost_serialize csm_marshal x @ a = ghost_serialize csm_marshal y @ b"
  then show "x = y \<and> a = b" unfolding csm_marshal_def marshal.simps by (rule csm_prefix_free)
qed

section \<open>What the host may send\<close>

text \<open>A message that passes the host's check is marshalable, with bounds on its size.\<close>

lemma endpoint_fits:
  "valid_physical_address ep \<Longrightarrow>
     is_marshalable endpoint_marshal ep \<and> length (ghost_serialize endpoint_marshal ep) \<le> 0x100008"
  by (auto simp: valid_physical_address_def endpoint_marshal_def bijection_marshal_def bytes_marshal_def usize_max_eq)

lemma value_fits:
  "valid_optional_value v \<Longrightarrow>
     is_marshalable value_marshal v \<and> length (ghost_serialize value_marshal v) \<le> 2000"
  by (auto simp: valid_optional_value_def valid_value_def max_val_len_def option_marshal_def bytes_marshal_def
      usize_max_eq split: option.splits)

lemma keyrange_fits:
  "is_marshalable keyrange_marshal kr \<and> length (ghost_serialize keyrange_marshal kr) \<le> 18"
  by (auto simp: keyrange_marshal_def bijection_marshal_def pair_marshal_def option_marshal_def u64_marshal_def
      usize_max_eq split: option.splits)

lemma kvs_fit:
  "\<forall>x\<in>set v. length (kv_v x) < 1024 \<Longrightarrow>
   (\<forall>x\<in>set v. is_marshalable ckeykv_marshal x) \<and>
   length (concat (map (ghost_serialize ckeykv_marshal) v)) \<le> 1039 * length v"
  by (induction v) (auto simp: ckeykv_marshal_def bytes_marshal_def usize_max_eq)

lemma ckeyhashmap_fits:
  assumes "valid_hashtable (ckh_view h)"
  shows "is_marshalable ckeyhashmap_marshal h \<and> length (ghost_serialize ckeyhashmap_marshal h) \<le> 0x100000"
proof -
  have "length (kv_v x) < 1024" if "x \<in> set (ckh_to_vec h)" for x
  proof -
    have look: "ckh_view h (kv_k x) = Some (kv_v x)"
      using that set_ckh_to_vec [of "kv_k x" "kv_v x" h] by simp
    then have "kv_k x \<in> dom (ckh_view h)" by (rule domI)
    with assms look show ?thesis
      unfolding valid_hashtable_def valid_value_def max_val_len_def by (metis option.sel)
  qed
  then have kv: "\<forall>x\<in>set (ckh_to_vec h). is_marshalable ckeykv_marshal x"
      "length (concat (map (ghost_serialize ckeykv_marshal) (ckh_to_vec h))) \<le> 1039 * length (ckh_to_vec h)"
    using kvs_fit [of "ckh_to_vec h"] by simp_all
  moreover have "length (ckh_to_vec h) < 62"
    using assms by (simp add: valid_hashtable_def length_to_vec max_hashtable_size_def)
  ultimately show ?thesis
    by (simp add: ckeyhashmap_marshal_def vec_is_marshalable vec_ghost_serialize sorted_to_vec usize_max_eq
        ckeyhashmap_max_serialized_size_def)
qed

lemma cmessage_fits:
  assumes "message_marshallable m"
  shows "is_marshalable cmessage_marshal m \<and> length (ghost_serialize cmessage_marshal m) \<le> 0x200000"
proof (cases m)
  case (CGetRequest k)
  then show ?thesis by (simp add: cmessage_marshal_def usize_max_eq)
next
  case (CSetRequest k v)
  with assms value_fits [of v] show ?thesis by (auto simp: cmessage_marshal_def usize_max_eq)
next
  case (CReply k v)
  with assms value_fits [of v] show ?thesis by (auto simp: cmessage_marshal_def usize_max_eq)
next
  case (CRedirect k ep)
  with assms endpoint_fits [of ep] show ?thesis by (auto simp: cmessage_marshal_def usize_max_eq)
next
  case (CShard kr ep)
  with assms endpoint_fits [of ep] keyrange_fits [of kr] show ?thesis by (auto simp: cmessage_marshal_def usize_max_eq)
next
  case (CDelegate kr h)
  with assms ckeyhashmap_fits [of h] keyrange_fits [of kr] show ?thesis by (auto simp: cmessage_marshal_def usize_max_eq)
qed

lemma csm_fits:
  assumes "message_marshallable m" and "valid_physical_address dst"
  shows "is_marshalable csm_marshal (CMsg seqno dst m)"
  using cmessage_fits [OF assms(1)] endpoint_fits [OF assms(2)] by (auto simp: csm_marshal_def usize_max_eq)

lemma ack_fits: "is_marshalable csm_marshal (CAck n)"
  by (simp add: csm_marshal_def usize_max_eq)

section \<open>Properties\<close>

lemma invalid_message_complete:
  "enum_deserialize csm_variants (pre @ [2] @ post) (length pre) =
     (if post = [] then Ret None else Ret (Some (CInvalidMessage, Suc (length pre))))"
  by (cases post) (simp_all add: enum_deserialize_def csm_variants_def variant0_def outcome_simps)

text \<open>C18: every marshalable packet that is serialized into a buffer is parsed back, from the place where it
  starts and whatever surrounds it, to the same message and the place where it ends, with one exception: the
  invalid-message marker, whose encoding is the tag alone, is rejected where it ends the buffer (the guard of the
  parser asks for a byte after the tag). This covers every variant, with the tables of a delegation, at every
  size that can be marshalled.\<close>

theorem packet_roundtrip:
  assumes "is_marshalable csm_marshal m"
    and "length (serialize csm_marshal m pre @ post) \<le> usize_max"
  shows "deserialize csm_marshal (serialize csm_marshal m pre @ post) (length pre) =
           (if m = CInvalidMessage \<and> post = [] then Ret None
            else Ret (Some (m, length (serialize csm_marshal m pre))))"
proof -
  have "serialize csm_marshal m pre = pre @ ghost_serialize csm_marshal m"
    using assms(1) by (rule csm.serialize)
  with assms csm_complete [of m pre post] invalid_message_complete [of pre post] show ?thesis
    by (cases "m = CInvalidMessage") (simp_all add: csm_marshal_def)
qed

theorem packet_roundtrip_witness:
  "deserialize csm_marshal (serialize csm_marshal (CAck 7) [9] @ [1, 2]) 1 = Ret (Some (CAck 7, 10)) \<and>
   deserialize csm_marshal (serialize csm_marshal CInvalidMessage [9] @ []) 1 = Ret None \<and>
   deserialize csm_marshal (serialize csm_marshal CInvalidMessage [9] @ [1]) 1 = Ret (Some (CInvalidMessage, 2))"
proof -
  have "serialize csm_marshal (CAck 7) [9] = [9] @ ghost_serialize csm_marshal (CAck 7)"
    by (rule csm.serialize [OF ack_fits])
  then have len: "length (serialize csm_marshal (CAck 7) [9]) = 10" by (simp add: csm_marshal_def)
  have inv: "is_marshalable csm_marshal CInvalidMessage" "serialize csm_marshal CInvalidMessage [9] = [9, 2]"
    by (simp_all add: csm_marshal_def usize_max_eq)
  from packet_roundtrip [OF ack_fits, of 7 "[9]" "[1, 2]"] packet_roundtrip [OF inv(1), of "[9]" "[]"]
    packet_roundtrip [OF inv(1), of "[9]" "[1]"] len inv(2)
  show ?thesis by (simp add: usize_max_eq)
qed

text \<open>C19: the parser is canonical: whatever it accepts is marshalable and serializes back to exactly
  the bytes it consumed, which lie inside the buffer. So no two byte strings stand for one message.\<close>

theorem packet_parse_canonical:
  assumes "deserialize csm_marshal data start = Ret (Some (m, stop))" and "length data \<le> usize_max"
  shows "is_marshalable csm_marshal m \<and> start \<le> stop \<and> stop \<le> length data \<and>
         slice_subrange data start stop = serialize csm_marshal m []"
  using csm.sound [OF assms] csm.serialize [of m "[]"] by simp

theorem packet_parse_canonical_witness:
  "\<exists>data m. deserialize csm_marshal data 0 = Ret (Some (m, 9)) \<and> length data = 9 \<and>
     slice_subrange data 0 9 = serialize csm_marshal m []"
proof -
  let ?d = "1 # u64_to_le_bytes 5"
  have "csm_ghost_serialize (CAck 5) = ?d" by (simp add: u64_marshal_def)
  then have de: "deserialize csm_marshal ?d 0 = Ret (Some (CAck 5, 9))"
    using csm_complete [of "CAck 5" "[]" "[]"] by (simp add: csm_marshal_def usize_max_eq)
  have "length ?d \<le> usize_max" by (simp add: usize_max_eq)
  from packet_parse_canonical [OF de this] de show ?thesis
    by (intro exI [of _ ?d] exI [of _ "CAck 5"]) simp
qed

text \<open>No serialization of a message is a prefix of the serialization of another one, so a stream of
  serialized messages can be cut in one way only.\<close>

theorem packet_prefix_free:
  assumes "is_marshalable csm_marshal x" and "is_marshalable csm_marshal y"
    and "serialize csm_marshal x [] @ a = serialize csm_marshal y [] @ b"
  shows "x = y \<and> a = b"
  using assms csm.prefix_free [of x y a b] csm.serialize by simp

theorem packet_prefix_free_witness:
  "serialize csm_marshal (CAck 1) [] @ [3] = serialize csm_marshal (CAck 1) [] @ [3] \<and> CAck 1 = CAck 1"
  using packet_prefix_free [OF ack_fits ack_fits refl, of 1 "[3]"] by simp

text \<open>C20: every message that passes the host's marshallability check, sent to a valid address, can be
  marshalled: in particular the table of a delegation stays below the size limit of the wire format.\<close>

theorem checked_messages_fit:
  assumes "message_marshallable m" and "valid_physical_address dst"
  shows "is_marshalable csm_marshal (CMsg seqno dst m)"
  using assms by (rule csm_fits)

theorem checked_messages_fit_witness:
  "is_marshalable csm_marshal (CMsg 1 (EndPoint [1]) (CDelegate (KeyRange (ki_new (SHTKey 0)) ki_end) (fmupd (SHTKey 4) [7] fmempty)))"
proof -
  have "message_marshallable (CDelegate (KeyRange (ki_new (SHTKey 0)) ki_end) (fmupd (SHTKey 4) [7] fmempty))"
    by (simp add: kr_is_empty_def valid_hashtable_def max_hashtable_size_def valid_key_def valid_value_def max_val_len_def)
  moreover have "valid_physical_address (EndPoint [1])" by (simp add: valid_physical_address_def)
  ultimately show ?thesis by (rule checked_messages_fit)
qed

text \<open>The message variant without a payload serializes to one byte, which the parser rejects at the
  end of a buffer: the guard asks for a byte after the tag.\<close>

theorem invalid_message_not_parsed:
  "serialize csm_marshal CInvalidMessage data = data @ [2] \<and>
   deserialize csm_marshal (data @ [2]) (length data) = Ret None"
  by (simp add: csm_marshal_def enum_deserialize_def)

definition hostile_packet :: bytes where
  "hostile_packet =
     [0] @ ghost_serialize u64_marshal 1 @ ghost_serialize endpoint_marshal (EndPoint []) @ [5] @
     ghost_serialize keyrange_marshal (KeyRange ki_end ki_end) @ ghost_serialize usize_marshal (2 ^ 60)"

lemma hostile_fields:
  "length (ghost_serialize endpoint_marshal (EndPoint [])) = 8"
  "length (ghost_serialize keyrange_marshal (KeyRange ki_end ki_end)) = 2"
  "is_marshalable endpoint_marshal (EndPoint [])" "is_marshalable usize_marshal (2 ^ 60)"
  by (simp_all add: endpoint_marshal_def keyrange_marshal_def keyrange_forward_def bijection_marshal_def
      pair_marshal_def option_marshal_def bytes_marshal_def usize_max_eq) (simp add: usize_marshal_def usize_max_eq)

lemma hostile_table:
  assumes "length pre \<le> 100"
  shows "deserialize ckeyhashmap_marshal (pre @ ghost_serialize usize_marshal (2 ^ 60)) (length pre) = Panic"
proof -
  have "deserialize usize_marshal (pre @ ghost_serialize usize_marshal (2 ^ 60) @ []) (length pre) =
      Ret (Some (2 ^ 60, length pre + 8))"
    using assms usize.complete [OF hostile_fields(4), of pre "[]"] by (simp add: usize_max_eq)
  then show ?thesis
    by (simp add: ckeyhashmap_marshal_def ckeyhashmap_deserialize_def vec_marshal_def vec_deserialize_def
        de_field_def with_capacity_ok_def isize_max_def)
qed

lemma hostile_message:
  assumes "length pre \<le> 50"
  shows "deserialize cmessage_marshal (pre @ [5] @ ghost_serialize keyrange_marshal (KeyRange ki_end ki_end) @
      ghost_serialize usize_marshal (2 ^ 60)) (length pre) = Panic"
proof -
  let ?kr = "ghost_serialize keyrange_marshal (KeyRange ki_end ki_end)" and ?n = "ghost_serialize usize_marshal (2 ^ 60)"
  have "deserialize keyrange_marshal ((pre @ [5]) @ ?kr @ ?n) (length (pre @ [5])) =
      Ret (Some (KeyRange ki_end ki_end, length (pre @ [5]) + length ?kr))"
    using assms keyrange_fits by (intro keyrange.complete) (simp_all add: usize_max_eq hostile_fields)
  moreover have "deserialize ckeyhashmap_marshal ((pre @ [5] @ ?kr) @ ?n) (length (pre @ [5] @ ?kr)) = Panic"
    using assms by (intro hostile_table) (simp add: hostile_fields)
  ultimately show ?thesis
    using enum_deserialize_complete [of "?kr @ ?n" cmessage_variants pre 5 "[]"] ne_keyrange
    by (simp add: cmessage_marshal_def cmessage_variants_def variant2_def de_field_def hostile_fields
        numeral_3_eq_3)
qed

text \<open>C21: the parser can be made to panic: a packet of 28 bytes that announces a table of \<open>2 ^ 60\<close>
  entries asks for more memory than a vector may have before any entry is parsed.\<close>

theorem hostile_packet_panics:
  "length hostile_packet = 28 \<and> deserialize csm_marshal hostile_packet 0 = Panic"
proof -
  let ?s = "ghost_serialize u64_marshal 1" and ?e = "ghost_serialize endpoint_marshal (EndPoint [])"
  let ?m = "[5] @ ghost_serialize keyrange_marshal (KeyRange ki_end ki_end) @ ghost_serialize usize_marshal (2 ^ 60)"
  have s: "deserialize u64_marshal ([0] @ ?s @ ?e @ ?m) (length [0 :: u8]) = Ret (Some (1, length [0 :: u8] + length ?s))"
    by (intro u64.complete) (simp_all add: usize_max_eq hostile_fields)
  have e: "deserialize endpoint_marshal (([0] @ ?s) @ ?e @ ?m) (length ([0] @ ?s)) =
      Ret (Some (EndPoint [], length ([0] @ ?s) + length ?e))"
    by (intro endpoint.complete) (simp_all add: usize_max_eq hostile_fields)
  have m: "deserialize cmessage_marshal (([0] @ ?s @ ?e) @ ?m) (length ([0] @ ?s @ ?e)) = Panic"
    by (intro hostile_message) (simp add: hostile_fields)
  have "?s @ ?e @ ?m \<noteq> []" by simp
  from enum_deserialize_complete [OF this, of csm_variants "[]" 0 "[]"] s e m
  have "deserialize csm_marshal hostile_packet 0 = Panic"
    by (simp add: csm_marshal_def csm_variants_def variant3_def de_field_def hostile_packet_def hostile_fields)
  then show ?thesis by (simp add: hostile_packet_def hostile_fields)
qed

end
