(* ===== verification/Single_Delivery.thy ===== *)
theory Single_Delivery
  imports Marshal_Sht
begin

text \<open>
  Exactly-once delivery between hosts: the specification (\<open>single_delivery_t.rs\<close>) and the
  implementation (\<open>single_delivery_state_v.rs\<close>, \<open>single_delivery_model_v.rs\<close>). The receiver keeps
  the last sequence number it accepted from each source (a tombstone table), the sender the
  messages that no acknowledgement covers yet. A specification function is a predicate on the state
  before, the state after and the packets sent; the lemmas show that each method of the
  implementation keeps its state valid and takes a step of the specification.
\<close>

section \<open>Specification\<close>

type_synonym TombstoneTable = "AbstractEndPoint \<rightharpoonup> nat"

definition tombstone_table_lookup :: "AbstractEndPoint \<Rightarrow> TombstoneTable \<Rightarrow> nat" where
  "tombstone_table_lookup src t = (if src \<in> dom t then the (t src) else 0)"

type_synonym 'm AckList = "'m SingleMessage list"

fun truncate_un_ack_list :: "'m AckList \<Rightarrow> nat \<Rightarrow> 'm AckList" where
  "truncate_un_ack_list [] seqno_acked = []"
| "truncate_un_ack_list (m # ms) seqno_acked =
     (if is_Message m \<and> sm_seqno m \<le> seqno_acked then truncate_un_ack_list ms seqno_acked else m # ms)"

record 'm AckState =
  num_packets_acked :: nat
  un_acked :: "'m AckList"

definition ack_state_new :: "'m AckState" where
  "ack_state_new = \<lparr>num_packets_acked = 0, un_acked = []\<rparr>"

type_synonym 'm SendState = "AbstractEndPoint \<rightharpoonup> 'm AckState"

definition ack_state_lookup :: "AbstractEndPoint \<Rightarrow> 'm SendState \<Rightarrow> 'm AckState" where
  "ack_state_lookup src send_state =
     (if src \<in> dom send_state then the (send_state src) else \<lparr>num_packets_acked = 0, un_acked = []\<rparr>)"

record 'm SingleDelivery =
  receive_state :: TombstoneTable
  send_state :: "'m SendState"

definition sd_init :: "'m SingleDelivery" where
  "sd_init = \<lparr>receive_state = Map.empty, send_state = Map.empty\<rparr>"

definition new_single_message :: "'m SingleDelivery \<Rightarrow> Packet \<Rightarrow> bool" where
  "new_single_message sd pkt \<longleftrightarrow>
     (let last_seqno = tombstone_table_lookup (pkt_src pkt) (receive_state sd)
      in is_Message (pkt_msg pkt) \<and> sm_seqno (pkt_msg pkt) = last_seqno + 1)"

definition sd_receive_ack :: "'m SingleDelivery \<Rightarrow> 'm SingleDelivery \<Rightarrow> Packet \<Rightarrow> Packet set \<Rightarrow> bool" where
  "sd_receive_ack pre post pkt acks \<longleftrightarrow>
     acks = {} \<and>
     (let old_ack_state = ack_state_lookup (pkt_src pkt) (send_state pre)
      in if sm_ack_seqno (pkt_msg pkt) > num_packets_acked old_ack_state then
           let new_ack_state = old_ack_state
                 \<lparr>num_packets_acked := sm_ack_seqno (pkt_msg pkt),
                  un_acked := truncate_un_ack_list (un_acked old_ack_state) (sm_ack_seqno (pkt_msg pkt))\<rparr>
           in post = post\<lparr>send_state := (send_state pre)(pkt_src pkt \<mapsto> new_ack_state)\<rparr>
         else post = pre)"

definition sd_receive_real_packet :: "'m SingleDelivery \<Rightarrow> 'm SingleDelivery \<Rightarrow> Packet \<Rightarrow> bool" where
  "sd_receive_real_packet pre post pkt \<longleftrightarrow>
     (if new_single_message pre pkt then
        let last_seqno = tombstone_table_lookup (pkt_src pkt) (receive_state pre)
        in post = pre\<lparr>receive_state := (receive_state pre)(pkt_src pkt \<mapsto> last_seqno + 1)\<rparr>
      else post = pre)"

definition should_ack_single_message :: "'m SingleDelivery \<Rightarrow> Packet \<Rightarrow> bool" where
  "should_ack_single_message sd pkt \<longleftrightarrow>
     is_Message (pkt_msg pkt) \<and>
     (let last_seqno = tombstone_table_lookup (pkt_src pkt) (receive_state sd)
      in sm_seqno (pkt_msg pkt) \<le> last_seqno)"

definition send_ack :: "Packet \<Rightarrow> Packet \<Rightarrow> Packet set \<Rightarrow> bool" where
  "send_ack pkt ack acks \<longleftrightarrow>
     is_Ack (pkt_msg ack) \<and> sm_ack_seqno (pkt_msg ack) = sm_seqno (pkt_msg pkt) \<and>
     pkt_src ack = pkt_dst pkt \<and> pkt_dst ack = pkt_src pkt \<and> acks = {ack}"

definition maybe_ack_packet :: "'m SingleDelivery \<Rightarrow> Packet \<Rightarrow> Packet \<Rightarrow> Packet set \<Rightarrow> bool" where
  "maybe_ack_packet pre pkt ack acks \<longleftrightarrow>
     (if should_ack_single_message pre pkt then send_ack pkt ack acks else acks = {})"

definition sd_receive ::
    "'m SingleDelivery \<Rightarrow> 'm SingleDelivery \<Rightarrow> Packet \<Rightarrow> Packet \<Rightarrow> Packet set \<Rightarrow> bool" where
  "sd_receive pre post pkt ack acks \<longleftrightarrow>
     (case pkt_msg pkt of
        Ack _ \<Rightarrow> sd_receive_ack pre post pkt acks
      | Message seqno _ m \<Rightarrow> sd_receive_real_packet pre post pkt \<and> maybe_ack_packet post pkt ack acks
      | InvalidMessage \<Rightarrow> post = pre \<and> acks = {})"

definition send_single_message ::
    "'m SingleDelivery \<Rightarrow> 'm SingleDelivery \<Rightarrow> 'm \<Rightarrow> AbstractEndPoint \<Rightarrow> 'm SingleMessage option
     \<Rightarrow> AbstractParameters \<Rightarrow> bool" where
  "send_single_message pre post m dst sm params \<longleftrightarrow>
     (let old_ack_state = ack_state_lookup dst (send_state pre);
          new_seqno = num_packets_acked old_ack_state + length (un_acked old_ack_state) + 1
      in if new_seqno > max_seqno params then post = pre \<and> sm = None
         else sm = Some (Message new_seqno dst m) \<and>
              post = pre\<lparr>send_state := (send_state pre)
                (dst \<mapsto> old_ack_state\<lparr>un_acked := un_acked old_ack_state @ [the sm]\<rparr>)\<rparr>)"

definition receive_no_message :: "'m SingleDelivery \<Rightarrow> 'm SingleDelivery \<Rightarrow> bool" where
  "receive_no_message pre post \<longleftrightarrow> receive_state post = receive_state pre"

definition send_no_message :: "'m SingleDelivery \<Rightarrow> 'm SingleDelivery \<Rightarrow> bool" where
  "send_no_message pre post \<longleftrightarrow> send_state post = send_state pre"

definition un_acked_messages_for_dest_up_to ::
    "Message SingleDelivery \<Rightarrow> AbstractEndPoint \<Rightarrow> AbstractEndPoint \<Rightarrow> nat \<Rightarrow> Packet set" where
  "un_acked_messages_for_dest_up_to sd src dst count =
     {p. pkt_src p = src \<and>
         (\<exists>i < count. is_Message (un_acked (the (send_state sd dst)) ! i) \<and>
            pkt_msg p = un_acked (the (send_state sd dst)) ! i \<and> pkt_dst p = sm_dst (pkt_msg p))}"

definition un_acked_messages_for_dest ::
    "Message SingleDelivery \<Rightarrow> AbstractEndPoint \<Rightarrow> AbstractEndPoint \<Rightarrow> Packet set" where
  "un_acked_messages_for_dest sd src dst =
     un_acked_messages_for_dest_up_to sd src dst (length (un_acked (the (send_state sd dst))))"

definition un_acked_messages_for_dests ::
    "Message SingleDelivery \<Rightarrow> AbstractEndPoint \<Rightarrow> AbstractEndPoint set \<Rightarrow> Packet set" where
  "un_acked_messages_for_dests sd src dsts = \<Union> ((\<lambda>dst. un_acked_messages_for_dest sd src dst) ` dsts)"

definition un_acked_messages :: "Message SingleDelivery \<Rightarrow> AbstractEndPoint \<Rightarrow> Packet set" where
  "un_acked_messages sd src = un_acked_messages_for_dests sd src (dom (send_state sd))"

section \<open>State of the implementation\<close>

record CAckState =
  c_num_packets_acked :: u64
  c_un_acked :: "CSingleMessage list"

definition cas_new :: CAckState where
  "cas_new = \<lparr>c_num_packets_acked = 0, c_un_acked = []\<rparr>"

definition cas_view :: "CAckState \<Rightarrow> Message AckState" where
  "cas_view s = \<lparr>num_packets_acked = unat (c_num_packets_acked s), un_acked = map csm_view (c_un_acked s)\<rparr>"

definition cas_clone_up_to_view :: "CAckState \<Rightarrow> CAckState" where
  "cas_clone_up_to_view s =
     \<lparr>c_num_packets_acked = c_num_packets_acked s, c_un_acked = map csm_clone_up_to_view (c_un_acked s)\<rparr>"

definition cas_abstractable :: "CAckState \<Rightarrow> bool" where
  "cas_abstractable s \<longleftrightarrow> (\<forall>i < length (c_un_acked s). csm_abstractable (c_un_acked s ! i))"

definition un_acked_list_sequential :: "CSingleMessage list \<Rightarrow> bool" where
  "un_acked_list_sequential list \<longleftrightarrow>
     (\<forall>i. Suc i < length list \<longrightarrow> unat (csm_seqno (list ! i)) + 1 = unat (csm_seqno (list ! Suc i)))"

definition un_acked_valid :: "CSingleMessage \<Rightarrow> bool" where
  "un_acked_valid msg \<longleftrightarrow> is_CMsg msg \<and> csm_abstractable msg \<and> is_marshalable csm_marshal msg"

definition un_acked_list_valid :: "CSingleMessage list \<Rightarrow> bool" where
  "un_acked_list_valid list \<longleftrightarrow>
     (\<forall>i < length list. un_acked_valid (list ! i)) \<and> un_acked_list_sequential list"

definition un_acked_list_valid_for_dst :: "CSingleMessage list \<Rightarrow> AbstractEndPoint \<Rightarrow> bool" where
  "un_acked_list_valid_for_dst list dst \<longleftrightarrow>
     un_acked_list_valid list \<and> (\<forall>i < length list. csm_dst (list ! i) = dst)"

definition valid_list :: "CSingleMessage list \<Rightarrow> nat \<Rightarrow> AbstractEndPoint \<Rightarrow> bool" where
  "valid_list msgs num_acked dst \<longleftrightarrow>
     un_acked_list_valid_for_dst msgs dst \<and>
     num_acked + length msgs \<le> max_seqno abstract_static_params \<and>
     (length msgs > 0 \<longrightarrow> unat (csm_seqno (msgs ! 0)) = num_acked + 1)"

definition cas_valid :: "CAckState \<Rightarrow> AbstractEndPoint \<Rightarrow> bool" where
  "cas_valid s dst \<longleftrightarrow> cas_abstractable s \<and> valid_list (c_un_acked s) (unat (c_num_packets_acked s)) dst"

text \<open>Truncation counts the messages that the acknowledgement covers and splits them off. A list
  without messages of another kind is an invariant, so the second case of the test is not reached.\<close>

definition cas_truncate :: "CAckState \<Rightarrow> u64 \<Rightarrow> CAckState" where
  "cas_truncate s seqno_acked =
     (let i = scan_while (\<lambda>m. case m of CMsg seqno _ _ \<Rightarrow> seqno \<le> seqno_acked | _ \<Rightarrow> True) (c_un_acked s) 0
      in s\<lparr>c_num_packets_acked := seqno_acked, c_un_acked := drop i (c_un_acked s)\<rparr>)"

record CTombstoneTable =
  ct_epmap :: "u64 HashMap"

definition ct_view :: "CTombstoneTable \<Rightarrow> TombstoneTable" where
  "ct_view t = (\<lambda>ep. map_option unat (fmlookup (ct_epmap t) ep))"

definition ct_abstractable :: "CTombstoneTable \<Rightarrow> bool" where
  "ct_abstractable t \<longleftrightarrow> (\<forall>k \<in> dom (ct_view t). valid_physical_address k)"

definition ct_lookup :: "CTombstoneTable \<Rightarrow> EndPoint \<Rightarrow> u64" where
  "ct_lookup t src = (case ep_get (ct_epmap t) src of Some v \<Rightarrow> v | _ \<Rightarrow> 0)"

definition ct_insert :: "CTombstoneTable \<Rightarrow> EndPoint \<Rightarrow> u64 \<Rightarrow> CTombstoneTable" where
  "ct_insert t src last_seqno = t\<lparr>ct_epmap := ep_insert (ct_epmap t) src last_seqno\<rparr>"

record CSendState =
  cs_epmap :: "CAckState HashMap"

definition cs_view :: "CSendState \<Rightarrow> Message SendState" where
  "cs_view s = (\<lambda>ep. map_option cas_view (fmlookup (cs_epmap s) ep))"

definition cs_abstractable :: "CSendState \<Rightarrow> bool" where
  "cs_abstractable s \<longleftrightarrow>
     (\<forall>ep \<in> dom (cs_view s). valid_physical_address ep \<and> cas_abstractable (the (fmlookup (cs_epmap s) ep)))"

definition cs_valid :: "CSendState \<Rightarrow> bool" where
  "cs_valid s \<longleftrightarrow> cs_abstractable s \<and> (\<forall>ep \<in> dom (cs_view s). cas_valid (the (fmlookup (cs_epmap s) ep)) ep)"

definition cs_get :: "CSendState \<Rightarrow> EndPoint \<Rightarrow> CAckState option" where
  "cs_get s src = ep_get (cs_epmap s) src"

definition cs_cack_state_swap :: "CSendState \<Rightarrow> EndPoint \<Rightarrow> CAckState \<Rightarrow> CAckState \<Rightarrow> CSendState \<times> CAckState" where
  "cs_cack_state_swap s src ack_state dflt =
     (let (m, local_state) = ep_swap (cs_epmap s) src ack_state dflt in (s\<lparr>cs_epmap := m\<rparr>, local_state))"

definition cs_put :: "CSendState \<Rightarrow> EndPoint \<Rightarrow> CAckState \<Rightarrow> CSendState" where
  "cs_put s src v = s\<lparr>cs_epmap := ep_put (cs_epmap s) src v\<rparr>"

record CSingleDelivery =
  c_receive_state :: CTombstoneTable
  c_send_state :: CSendState

definition csd_empty :: CSingleDelivery where
  "csd_empty = \<lparr>c_receive_state = \<lparr>ct_epmap = ep_new\<rparr>, c_send_state = \<lparr>cs_epmap = ep_new\<rparr>\<rparr>"

definition csd_abstractable :: "CSingleDelivery \<Rightarrow> bool" where
  "csd_abstractable s \<longleftrightarrow> ct_abstractable (c_receive_state s) \<and> cs_abstractable (c_send_state s)"

definition csd_view :: "CSingleDelivery \<Rightarrow> Message SingleDelivery" where
  "csd_view s = \<lparr>receive_state = ct_view (c_receive_state s), send_state = cs_view (c_send_state s)\<rparr>"

definition csd_valid :: "CSingleDelivery \<Rightarrow> bool" where
  "csd_valid s \<longleftrightarrow> csd_abstractable s \<and> cs_valid (c_send_state s)"

section \<open>Methods of the implementation\<close>

datatype ReceiveImplResult =
    FreshPacket CPacket
  | DuplicatePacket CPacket
  | AckOrInvalid

definition get_abstracted_ack_set :: "ReceiveImplResult \<Rightarrow> Packet set" where
  "get_abstracted_ack_set rr =
     (case rr of FreshPacket ack \<Rightarrow> {cpacket_view ack} | DuplicatePacket ack \<Rightarrow> {cpacket_view ack} | _ \<Rightarrow> {})"

definition outbound_packet_is_valid :: "CPacket \<Rightarrow> bool" where
  "outbound_packet_is_valid p \<longleftrightarrow>
     cpacket_abstractable p \<and> is_marshalable csm_marshal (cp_msg p) \<and> cp_msg p \<noteq> CInvalidMessage"

definition valid_ack :: "CPacket \<Rightarrow> CPacket \<Rightarrow> bool" where
  "valid_ack ack original \<longleftrightarrow>
     cpacket_abstractable ack \<and> outbound_packet_is_valid ack \<and>
     cp_src ack = cp_dst original \<and> cp_dst ack = cp_src original"

fun retransmit_loop :: "EndPoint \<Rightarrow> CSingleMessage list \<Rightarrow> CPacket list \<Rightarrow> CPacket list outcome" where
  "retransmit_loop src [] packets = Ret packets"
| "retransmit_loop src (sm # sms) packets =
     (case sm of
        CMsg _ dst _ \<Rightarrow>
          retransmit_loop src sms (packets @
            [\<lparr>cp_dst = ep_clone_up_to_view dst, cp_src = ep_clone_up_to_view src, cp_msg = csm_clone_up_to_view sm\<rparr>])
      | _ \<Rightarrow> Panic)"

definition retransmit_un_acked_packets_for_dst ::
    "CSingleDelivery \<Rightarrow> EndPoint \<Rightarrow> EndPoint \<Rightarrow> CPacket list \<Rightarrow> CPacket list outcome" where
  "retransmit_un_acked_packets_for_dst s src dst packets =
     (case ep_get (cs_epmap (c_send_state s)) dst of
        Some ack_state \<Rightarrow> retransmit_loop src (c_un_acked ack_state) packets
      | None \<Rightarrow> Ret packets)"

definition new_impl :: "CSingleDelivery \<Rightarrow> CPacket \<Rightarrow> bool" where
  "new_impl s pkt =
     (case cp_msg pkt of
        CMsg seqno _ _ \<Rightarrow> seqno > 0 \<and> seqno - 1 = ct_lookup (c_receive_state s) (cp_src pkt)
      | _ \<Rightarrow> False)"

definition receive_ack_impl :: "CSingleDelivery \<Rightarrow> CPacket \<Rightarrow> CSingleDelivery" where
  "receive_ack_impl s pkt =
     (let num_acked = (case cs_get (c_send_state s) (cp_src pkt) of
                         Some cack_state \<Rightarrow> c_num_packets_acked cack_state | None \<Rightarrow> 0)
      in case cp_msg pkt of
           CAck ack_seqno \<Rightarrow>
             if ack_seqno \<le> num_acked then s
             else let (ss, local_state) = cs_cack_state_swap (c_send_state s) (cp_src pkt) cas_new cas_new
                  in s\<lparr>c_send_state := cs_put ss (cp_src pkt) (cas_truncate local_state ack_seqno)\<rparr>
         | _ \<Rightarrow> s)"

definition receive_real_packet_impl :: "CSingleDelivery \<Rightarrow> CPacket \<Rightarrow> (bool \<times> CSingleDelivery) outcome" where
  "receive_real_packet_impl s pkt =
     (let last_seqno = ct_lookup (c_receive_state s) (cp_src pkt)
      in case cp_msg pkt of
           CMsg pkt_seqno _ _ \<Rightarrow>
             let packet_is_fresh = (pkt_seqno > 0 \<and> pkt_seqno - 1 = last_seqno)
             in Ret (packet_is_fresh,
                     if packet_is_fresh
                     then s\<lparr>c_receive_state := ct_insert (c_receive_state s) (cp_src pkt) (last_seqno + 1)\<rparr>
                     else s)
         | _ \<Rightarrow> Panic)"

definition should_ack_sigle_message_impl :: "CSingleDelivery \<Rightarrow> CPacket \<Rightarrow> bool" where
  "should_ack_sigle_message_impl s pkt =
     (case cp_msg pkt of
        CMsg seqno _ _ \<Rightarrow> seqno \<le> ct_lookup (c_receive_state s) (cp_src pkt)
      | _ \<Rightarrow> False)"

definition maybe_ack_packet_impl :: "CSingleDelivery \<Rightarrow> CPacket \<Rightarrow> CPacket option outcome" where
  "maybe_ack_packet_impl s pkt =
     (case cp_msg pkt of
        CMsg seqno _ _ \<Rightarrow>
          if seqno \<le> ct_lookup (c_receive_state s) (cp_src pkt) then
            Ret (Some \<lparr>cp_dst = ep_clone_up_to_view (cp_src pkt), cp_src = ep_clone_up_to_view (cp_dst pkt),
                       cp_msg = CAck seqno\<rparr>)
          else Ret None
      | _ \<Rightarrow> Panic)"

definition receive_impl :: "CSingleDelivery \<Rightarrow> CPacket \<Rightarrow> (ReceiveImplResult \<times> CSingleDelivery) outcome" where
  "receive_impl s pkt =
     (case cp_msg pkt of
        CAck _ \<Rightarrow> Ret (AckOrInvalid, receive_ack_impl s pkt)
      | CMsg _ _ _ \<Rightarrow>
          bind_outcome (receive_real_packet_impl s pkt) (\<lambda>(packet_is_fresh, s').
          bind_outcome (maybe_ack_packet_impl s' pkt) (\<lambda>opt_ack.
            case opt_ack of
              Some ack \<Rightarrow> Ret (if packet_is_fresh then FreshPacket ack else DuplicatePacket ack, s')
            | None \<Rightarrow> Ret (AckOrInvalid, s')))
      | CInvalidMessage \<Rightarrow> Ret (AckOrInvalid, s))"

definition c_max_seqno :: u64 where
  "c_max_seqno = 0xffffffffffffffff"

definition send_single_cmessage ::
    "CSingleDelivery \<Rightarrow> CMessage \<Rightarrow> EndPoint \<Rightarrow> CSingleMessage option \<times> CSingleDelivery" where
  "send_single_cmessage s m dst =
     (let (num_acked, un_acked_len) =
            (case cs_get (c_send_state s) dst of
               Some cack_state \<Rightarrow> (c_num_packets_acked cack_state, of_nat (length (c_un_acked cack_state)))
             | None \<Rightarrow> (0, 0))
      in if c_max_seqno - num_acked = un_acked_len then (None, s)
         else let new_seqno = num_acked + un_acked_len + 1;
                  sm_new = CMsg new_seqno (ep_clone_up_to_view dst) (cmessage_clone_up_to_view m);
                  (ss, local_state) = cs_cack_state_swap (c_send_state s) dst cas_new cas_new;
                  local_state' = local_state\<lparr>c_un_acked := c_un_acked local_state @ [csm_clone_up_to_view sm_new]\<rparr>
              in (Some sm_new, s\<lparr>c_send_state := cs_put ss dst local_state'\<rparr>))"

fun retransmit_dests :: "CSingleDelivery \<Rightarrow> EndPoint \<Rightarrow> EndPoint list \<Rightarrow> CPacket list \<Rightarrow> CPacket list outcome" where
  "retransmit_dests s src [] packets = Ret packets"
| "retransmit_dests s src (dst # dests) packets =
     bind_outcome (retransmit_un_acked_packets_for_dst s src dst packets) (retransmit_dests s src dests)"

definition retransmit_un_acked_packets :: "hash_ops \<Rightarrow> CSingleDelivery \<Rightarrow> EndPoint \<Rightarrow> CPacket list outcome" where
  "retransmit_un_acked_packets ops s src =
     (let dests = ep_keys (ops_order ops) (cs_epmap (c_send_state s))
      in retransmit_dests s src dests [])"

section \<open>The list of unacknowledged messages\<close>

lemma max_seqno_eq [simp]: "max_seqno abstract_static_params = usize_max"
  by (simp add: abstract_static_params_def usize_max_eq)

text \<open>Validity says: the messages are valid, go to the destination, and are numbered without a gap from
  the first number that is not acknowledged.\<close>

fun seq_from :: "nat \<Rightarrow> CSingleMessage list \<Rightarrow> bool" where
  "seq_from n [] = True"
| "seq_from n (m # ms) \<longleftrightarrow> unat (csm_seqno m) = n + 1 \<and> seq_from (n + 1) ms"

lemma seq_from_append [simp]: "seq_from n (xs @ ys) \<longleftrightarrow> seq_from n xs \<and> seq_from (n + length xs) ys"
  by (induction xs arbitrary: n) (auto simp: add.assoc)

lemma seq_from_drop: "seq_from n xs \<Longrightarrow> i \<le> length xs \<Longrightarrow> seq_from (n + i) (drop i xs)"
proof (induction xs arbitrary: n i)
  case (Cons m xs)
  then show ?case using Cons.IH [of "n + 1" "i - 1"] by (cases i) auto
qed simp

lemma un_acked_list_sequential_Cons:
  "un_acked_list_sequential (m # ms) \<longleftrightarrow>
     (ms \<noteq> [] \<longrightarrow> unat (csm_seqno m) + 1 = unat (csm_seqno (ms ! 0))) \<and> un_acked_list_sequential ms"
  unfolding un_acked_list_sequential_def
proof (intro iffI conjI impI allI)
  fix i
  assume *: "(ms \<noteq> [] \<longrightarrow> unat (csm_seqno m) + 1 = unat (csm_seqno (ms ! 0))) \<and>
      (\<forall>i. Suc i < length ms \<longrightarrow> unat (csm_seqno (ms ! i)) + 1 = unat (csm_seqno (ms ! Suc i)))"
    and "Suc i < length (m # ms)"
  then show "unat (csm_seqno ((m # ms) ! i)) + 1 = unat (csm_seqno ((m # ms) ! Suc i))"
    by (cases i) auto
qed fastforce+

lemma seq_from_iff:
  "seq_from n ms \<longleftrightarrow> un_acked_list_sequential ms \<and> (ms \<noteq> [] \<longrightarrow> unat (csm_seqno (ms ! 0)) = n + 1)"
proof (induction ms arbitrary: n)
  case (Cons m ms)
  show ?case
    unfolding seq_from.simps Cons.IH [of "n + 1"] un_acked_list_sequential_Cons by (cases "ms = []") auto
qed (simp add: un_acked_list_sequential_def)

lemma cas_valid_iff:
  "cas_valid s dst \<longleftrightarrow>
     (\<forall>m \<in> set (c_un_acked s). un_acked_valid m \<and> csm_dst m = dst) \<and>
     seq_from (unat (c_num_packets_acked s)) (c_un_acked s) \<and>
     unat (c_num_packets_acked s) + length (c_un_acked s) \<le> usize_max"
proof -
  have all: "(\<forall>i < length xs. P (xs ! i)) \<longleftrightarrow> (\<forall>x \<in> set xs. P x)" for P and xs :: "CSingleMessage list"
    by (rule all_set_conv_all_nth [symmetric])
  show ?thesis
    unfolding cas_valid_def cas_abstractable_def valid_list_def un_acked_list_valid_for_dst_def
      un_acked_list_valid_def all [of _ un_acked_valid] all [of _ csm_abstractable] all [of _ "\<lambda>m. csm_dst m = dst"]
      seq_from_iff
    by (auto simp: un_acked_valid_def)
qed

lemma dropWhile_seq_from:
  "seq_from n ms \<Longrightarrow> \<forall>m \<in> set ms. is_CMsg m \<Longrightarrow> n \<le> unat k \<Longrightarrow>
   dropWhile (\<lambda>m. case m of CMsg seqno _ _ \<Rightarrow> seqno \<le> k | _ \<Rightarrow> True) ms = drop (unat k - n) ms"
proof (induction ms arbitrary: n)
  case (Cons m ms)
  then obtain q d c where m: "m = CMsg q d c" by (cases m) auto
  with Cons.prems have q: "unat q = n + 1" by simp
  show ?case
  proof (cases "n < unat k")
    case True
    with Cons q m have "dropWhile (\<lambda>m. case m of CMsg seqno _ _ \<Rightarrow> seqno \<le> k | _ \<Rightarrow> True) ms = drop (unat k - (n + 1)) ms"
      by simp
    moreover from True have "unat k - n = Suc (unat k - (n + 1))" by simp
    moreover from True q have "q \<le> k" by (simp add: word_le_nat_alt)
    ultimately show ?thesis using m by simp
  next
    case False
    with Cons.prems q have "\<not> q \<le> k" by (simp add: word_le_nat_alt)
    with False m show ?thesis by simp
  qed
qed simp

lemma truncate_view:
  "\<forall>m \<in> set ms. is_CMsg m \<Longrightarrow>
   truncate_un_ack_list (map csm_view ms) (unat k) =
     map csm_view (dropWhile (\<lambda>m. case m of CMsg seqno _ _ \<Rightarrow> seqno \<le> k | _ \<Rightarrow> True) ms)"
  by (induction ms) (auto simp: word_le_nat_alt split: CSingleMessage.splits)

lemma cas_truncate_eq:
  "cas_truncate s k = s\<lparr>c_num_packets_acked := k, c_un_acked :=
     dropWhile (\<lambda>m. case m of CMsg seqno _ _ \<Rightarrow> seqno \<le> k | _ \<Rightarrow> True) (c_un_acked s)\<rparr>"
  by (simp add: cas_truncate_def Let_def scan_while_eq)

lemma cas_truncate_correct:
  assumes valid: "cas_valid s dst" and k: "c_num_packets_acked s \<le> k"
  shows "cas_valid (cas_truncate s k) dst \<and>
    un_acked (cas_view (cas_truncate s k)) = truncate_un_ack_list (un_acked (cas_view s)) (unat k) \<and>
    num_packets_acked (cas_view (cas_truncate s k)) = unat k"
proof -
  let ?n = "unat (c_num_packets_acked s)" and ?ms = "c_un_acked s"
  have msgs: "\<forall>m \<in> set ?ms. is_CMsg m" and seq: "seq_from ?n ?ms" and len: "?n + length ?ms \<le> usize_max"
    using valid by (auto simp: cas_valid_iff un_acked_valid_def)
  have nk: "?n \<le> unat k" using k by (simp add: word_le_nat_alt)
  have drop: "dropWhile (\<lambda>m. case m of CMsg seqno _ _ \<Rightarrow> seqno \<le> k | _ \<Rightarrow> True) ?ms = drop (unat k - ?n) ?ms"
    by (rule dropWhile_seq_from [OF seq msgs nk])
  have "seq_from (unat k) (drop (unat k - ?n) ?ms) \<and> unat k + length (drop (unat k - ?n) ?ms) \<le> usize_max"
  proof (cases "unat k - ?n \<le> length ?ms")
    case True
    with seq_from_drop [OF seq True] nk len show ?thesis by simp
  next
    case False
    then show ?thesis using unat_u64_less [of k] by (simp add: usize_max_eq)
  qed
  moreover have "set (drop (unat k - ?n) ?ms) \<subseteq> set ?ms" by (rule set_drop_subset)
  ultimately have "cas_valid (cas_truncate s k) dst"
    using valid unfolding cas_valid_iff cas_truncate_eq drop by auto
  then show ?thesis by (simp add: cas_view_def truncate_view [OF msgs] cas_truncate_eq)
qed

lemma cas_new_valid [simp]: "cas_valid cas_new dst"
  by (simp add: cas_valid_iff cas_new_def usize_max_eq)

section \<open>Tables\<close>

lemma ct_lookup_view: "unat (ct_lookup t src) = tombstone_table_lookup src (ct_view t)"
  by (auto simp: ct_lookup_def tombstone_table_lookup_def ct_view_def dom_def split: option.splits)

lemma ct_insert_view: "ct_view (ct_insert t src n) = (ct_view t)(src \<mapsto> unat n)"
  by (auto simp: ct_view_def ct_insert_def fun_eq_iff)

lemma ct_insert_abstractable:
  "ct_abstractable t \<Longrightarrow> valid_physical_address src \<Longrightarrow> ct_abstractable (ct_insert t src n)"
  by (auto simp: ct_abstractable_def ct_insert_view)

lemma dom_cs_view: "dom (cs_view s) = fmdom' (cs_epmap s)"
  by (auto simp: cs_view_def dom_def fmlookup_dom'_iff)

lemma cs_valid_iff:
  "cs_valid s \<longleftrightarrow> (\<forall>ep a. fmlookup (cs_epmap s) ep = Some a \<longrightarrow> valid_physical_address ep \<and> cas_valid a ep)"
proof -
  have "cas_valid a ep \<Longrightarrow> cas_abstractable a" for a ep by (simp add: cas_valid_def)
  then show ?thesis
    unfolding cs_valid_def cs_abstractable_def dom_cs_view Ball_def fmlookup_dom'_iff
    by (metis option.sel)
qed

definition cs_entry :: "CSendState \<Rightarrow> EndPoint \<Rightarrow> CAckState" where
  "cs_entry s ep = (case fmlookup (cs_epmap s) ep of Some a \<Rightarrow> a | None \<Rightarrow> cas_new)"

lemma cs_entry_view: "cas_view (cs_entry s ep) = ack_state_lookup ep (cs_view s)"
  by (auto simp: cs_entry_def ack_state_lookup_def cs_view_def cas_view_def cas_new_def dom_def split: option.splits)

lemma cs_entry_valid: "cs_valid s \<Longrightarrow> cas_valid (cs_entry s ep) ep"
  by (auto simp: cs_entry_def cs_valid_iff split: option.splits)

lemma cs_swap_put:
  "(let (ss, local_state) = cs_cack_state_swap s ep cas_new cas_new in g (cs_put ss ep (f local_state))) =
   g (cs_put s ep (f (cs_entry s ep)))"
  by (simp add: cs_cack_state_swap_def cs_put_def cs_entry_def)

lemma cs_put_view: "cs_view (cs_put s ep a) = (cs_view s)(ep \<mapsto> cas_view a)"
  by (auto simp: cs_view_def cs_put_def fun_eq_iff)

lemma cs_put_valid: "cs_valid s \<Longrightarrow> valid_physical_address ep \<Longrightarrow> cas_valid a ep \<Longrightarrow> cs_valid (cs_put s ep a)"
  by (auto simp: cs_valid_iff cs_put_def)

lemma csd_valid_iff: "csd_valid s \<longleftrightarrow> ct_abstractable (c_receive_state s) \<and> cs_valid (c_send_state s)"
  by (auto simp: csd_valid_def csd_abstractable_def cs_valid_def)

lemma csd_empty_correct: "csd_valid csd_empty" "csd_view csd_empty = sd_init"
  by (auto simp: csd_valid_iff csd_empty_def ct_abstractable_def cs_valid_iff ep_new_def csd_view_def sd_init_def
      ct_view_def cs_view_def)

section \<open>Receiving\<close>

lemma new_impl_iff: "new_impl s pkt \<longleftrightarrow> new_single_message (csd_view s) (cpacket_view pkt)"
proof (cases "cp_msg pkt")
  case (CMsg q d c)
  let ?l = "ct_lookup (c_receive_state s) (cp_src pkt)"
  have "q > 0 \<and> q - 1 = ?l \<longleftrightarrow> unat q = unat ?l + 1"
  proof
    assume q: "q > 0 \<and> q - 1 = ?l"
    then have "unat q = unat (q - 1) + 1" using unat_minus_one [of q] by (auto simp: word_neq_0_conv unat_gt_0)
    with q show "unat q = unat ?l + 1" by simp
  next
    assume q: "unat q = unat ?l + 1"
    then have "q \<noteq> 0" by auto
    with q unat_minus_one [of q] show "q > 0 \<and> q - 1 = ?l"
      by (simp add: word_less_nat_alt word_unat_eq_iff)
  qed
  with CMsg show ?thesis
    by (simp add: new_impl_def new_single_message_def cpacket_view_def csd_view_def ct_lookup_view Let_def)
qed (auto simp: new_impl_def new_single_message_def cpacket_view_def Let_def)

lemma receive_ack_impl_correct:
  assumes valid: "csd_valid s" and pkt: "cpacket_abstractable pkt" and ack: "cp_msg pkt = CAck n"
  shows "csd_valid (receive_ack_impl s pkt) \<and>
    sd_receive_ack (csd_view s) (csd_view (receive_ack_impl s pkt)) (cpacket_view pkt) {} \<and>
    c_receive_state (receive_ack_impl s pkt) = c_receive_state s"
proof -
  let ?e = "cs_entry (c_send_state s) (cp_src pkt)"
  have num: "(case cs_get (c_send_state s) (cp_src pkt) of
      Some cack_state \<Rightarrow> c_num_packets_acked cack_state | None \<Rightarrow> 0) = c_num_packets_acked ?e"
    by (simp add: cs_get_def cs_entry_def cas_new_def split: option.split)
  have view: "num_packets_acked (ack_state_lookup (cp_src pkt) (cs_view (c_send_state s))) = unat (c_num_packets_acked ?e)"
    by (simp add: cas_view_def flip: cs_entry_view)
  show ?thesis
  proof (cases "n \<le> c_num_packets_acked ?e")
    case True
    then have "receive_ack_impl s pkt = s" by (simp add: receive_ack_impl_def Let_def num ack)
    with True valid show ?thesis
      by (simp add: sd_receive_ack_def cpacket_view_def ack csd_view_def view word_le_nat_alt)
  next
    case False
    let ?t = "cas_truncate ?e n"
    have eq: "receive_ack_impl s pkt = s\<lparr>c_send_state := cs_put (c_send_state s) (cp_src pkt) ?t\<rparr>"
      using False by (simp add: receive_ack_impl_def num ack cs_swap_put [where f = "\<lambda>l. cas_truncate l n"] Let_def
          del: cs_cack_state_swap_def) (simp add: cs_cack_state_swap_def cs_put_def cs_entry_def)
    have cs: "cs_valid (c_send_state s)" and src: "valid_physical_address (cp_src pkt)"
      using valid pkt by (simp_all add: csd_valid_iff cpacket_abstractable_def)
    have t: "cas_valid ?t (cp_src pkt)" "un_acked (cas_view ?t) = truncate_un_ack_list (un_acked (cas_view ?e)) (unat n)"
        "num_packets_acked (cas_view ?t) = unat n"
      using cas_truncate_correct [OF cs_entry_valid [OF cs], of "cp_src pkt" n] False by simp_all
    have tv: "cas_view ?t = (ack_state_lookup (cp_src pkt) (cs_view (c_send_state s)))
        \<lparr>num_packets_acked := unat n, un_acked := truncate_un_ack_list
          (un_acked (ack_state_lookup (cp_src pkt) (cs_view (c_send_state s)))) (unat n)\<rparr>"
      using t(2,3) by (intro AckState.equality) (simp_all add: cs_entry_view)
    have "csd_valid (receive_ack_impl s pkt)"
      using valid cs_put_valid [OF cs src t(1)] by (simp add: eq csd_valid_iff)
    moreover have "unat (c_num_packets_acked ?e) < unat n" using False by (simp add: word_le_nat_alt)
    ultimately show ?thesis
      by (simp add: sd_receive_ack_def cpacket_view_def ack csd_view_def view eq cs_put_view tv Let_def)
  qed
qed

lemma receive_message_correct:
  assumes valid: "csd_valid s" and pkt: "cpacket_abstractable pkt" and msg: "cp_msg pkt = CMsg q d c"
  shows "\<exists>rr s'. receive_impl s pkt = Ret (rr, s') \<and> csd_valid s' \<and>
    (\<exists>ack. sd_receive (csd_view s) (csd_view s') (cpacket_view pkt) ack (get_abstracted_ack_set rr)) \<and>
    ((\<exists>ack. rr = FreshPacket ack) \<longleftrightarrow> new_single_message (csd_view s) (cpacket_view pkt)) \<and>
    (\<forall>ack. rr = FreshPacket ack \<or> rr = DuplicatePacket ack \<longrightarrow> valid_ack ack pkt)"
proof -
  let ?l = "ct_lookup (c_receive_state s) (cp_src pkt)"
  define fresh where "fresh \<longleftrightarrow> new_impl s pkt"
  define s' where "s' = (if fresh then s\<lparr>c_receive_state := ct_insert (c_receive_state s) (cp_src pkt) (?l + 1)\<rparr> else s)"
  define ack where "ack = \<lparr>cp_dst = cp_src pkt, cp_src = cp_dst pkt, cp_msg = CAck q\<rparr>"
  have fr: "fresh \<longleftrightarrow> q > 0 \<and> q - 1 = ?l" by (simp add: fresh_def new_impl_def msg)
  have real: "receive_real_packet_impl s pkt = Ret (fresh, s')"
    by (simp add: receive_real_packet_impl_def msg Let_def fr s'_def)
  have new: "new_single_message (csd_view s) (cpacket_view pkt) \<longleftrightarrow> fresh"
    by (simp add: fresh_def new_impl_iff)
  have src: "valid_physical_address (cp_src pkt)" using pkt by (simp add: cpacket_abstractable_def)
  have valid': "csd_valid s'"
    using valid src by (simp add: s'_def csd_valid_iff ct_insert_abstractable)
  have ack_ok: "valid_ack ack pkt"
    using pkt by (simp add: valid_ack_def ack_def cpacket_abstractable_def outbound_packet_is_valid_def ack_fits)
  have lq: "unat (?l + 1) = unat q \<and> unat ?l + 1 = unat q" if fresh
  proof -
    from that fr have "?l + 1 = q" by (metis diff_add_cancel)
    moreover have "unat q = unat ?l + 1"
      using that new msg by (simp add: new_single_message_def cpacket_view_def csd_view_def ct_lookup_view Let_def)
    ultimately show ?thesis by simp
  qed
  have step: "sd_receive_real_packet (csd_view s) (csd_view s') (cpacket_view pkt)"
    unfolding sd_receive_real_packet_def new
    using lq by (auto simp: s'_def csd_view_def ct_insert_view cpacket_view_def Let_def simp flip: ct_lookup_view)
  let ?l' = "ct_lookup (c_receive_state s') (cp_src pkt)"
  have should: "should_ack_single_message (csd_view s') (cpacket_view pkt) \<longleftrightarrow> q \<le> ?l'"
    by (simp add: should_ack_single_message_def cpacket_view_def msg csd_view_def word_le_nat_alt ct_lookup_view)
  have maybe: "maybe_ack_packet_impl s' pkt = Ret (if q \<le> ?l' then Some ack else None)"
    by (simp add: maybe_ack_packet_impl_def msg ack_def)
  have fresh_acked: "q \<le> ?l'" if fresh
    using that lq by (simp add: s'_def ct_lookup_def ct_insert_def word_le_nat_alt)
  have send: "send_ack (cpacket_view pkt) (cpacket_view ack) {cpacket_view ack}"
    by (simp add: send_ack_def cpacket_view_def ack_def msg)
  define rr where "rr = (if q \<le> ?l' then if fresh then FreshPacket ack else DuplicatePacket ack else AckOrInvalid)"
  have "receive_impl s pkt = Ret (rr, s')"
    by (simp add: receive_impl_def msg real maybe rr_def)
  moreover have "sd_receive (csd_view s) (csd_view s') (cpacket_view pkt) (cpacket_view ack) (get_abstracted_ack_set rr)"
    using step send should
    by (simp add: sd_receive_def maybe_ack_packet_def rr_def get_abstracted_ack_set_def cpacket_view_def [of pkt] msg)
  ultimately show ?thesis
    using valid' new fresh_acked ack_ok by (intro exI [of _ rr] exI [of _ s']) (auto simp: rr_def)
qed

lemma receive_impl_correct:
  assumes valid: "csd_valid s" and pkt: "cpacket_abstractable pkt"
  shows "\<exists>rr s'. receive_impl s pkt = Ret (rr, s') \<and> csd_valid s' \<and>
    (\<exists>ack. sd_receive (csd_view s) (csd_view s') (cpacket_view pkt) ack (get_abstracted_ack_set rr)) \<and>
    ((\<exists>ack. rr = FreshPacket ack) \<longleftrightarrow> new_single_message (csd_view s) (cpacket_view pkt)) \<and>
    (\<forall>ack. rr = FreshPacket ack \<or> rr = DuplicatePacket ack \<longrightarrow> valid_ack ack pkt)"
proof (cases "cp_msg pkt")
  case (CMsg q d c)
  show ?thesis by (rule receive_message_correct [OF valid pkt CMsg])
next
  case (CAck n)
  with receive_ack_impl_correct [OF valid pkt CAck] show ?thesis
    by (simp add: receive_impl_def sd_receive_def cpacket_view_def new_single_message_def Let_def
        get_abstracted_ack_set_def)
next
  case CInvalidMessage
  with valid show ?thesis
    by (simp add: receive_impl_def sd_receive_def cpacket_view_def new_single_message_def Let_def
        get_abstracted_ack_set_def)
qed

section \<open>Sending\<close>

lemma send_single_cmessage_correct:
  assumes valid: "csd_valid s" and m: "message_marshallable m" "cmessage_abstractable m"
    and dst: "valid_physical_address dst"
    and send: "send_single_cmessage s m dst = (sm, s')"
  shows "csd_valid s' \<and>
    send_single_message (csd_view s) (csd_view s') (cmessage_view m) dst (map_option csm_view sm) abstract_static_params \<and>
    (\<forall>x. sm = Some x \<longrightarrow> is_CMsg x \<and> csm_dst x = dst \<and> csm_m x = m \<and> un_acked_valid x) \<and>
    c_receive_state s' = c_receive_state s"
proof -
  let ?e = "cs_entry (c_send_state s) dst"
  let ?n = "c_num_packets_acked ?e" and ?len = "length (c_un_acked ?e)"
  have cs: "cs_valid (c_send_state s)" using valid by (simp add: csd_valid_iff)
  note e = cs_entry_valid [OF cs, of dst, unfolded cas_valid_iff]
  have get: "(case cs_get (c_send_state s) dst of
      Some a \<Rightarrow> (c_num_packets_acked a, of_nat (length (c_un_acked a))) | None \<Rightarrow> (0, 0)) = (?n, of_nat ?len :: u64)"
    by (simp add: cs_get_def cs_entry_def cas_new_def split: option.split)
  have bound: "unat ?n + ?len \<le> usize_max" using e by simp
  then have ulen: "unat (of_nat ?len :: u64) = ?len"
    by (simp add: unat_of_nat usize_max_eq take_bit_eq_mod)
  have full: "c_max_seqno - ?n = of_nat ?len \<longleftrightarrow> unat ?n + ?len = usize_max"
  proof -
    have "unat (c_max_seqno - ?n) = usize_max - unat ?n"
      by (simp add: c_max_seqno_def usize_max_eq unat_sub)
    with bound ulen show ?thesis by (auto simp: word_unat_eq_iff)
  qed
  have look: "ack_state_lookup dst (send_state (csd_view s)) = cas_view ?e"
    by (simp add: csd_view_def cs_entry_view)
  show ?thesis
  proof (cases "unat ?n + ?len = usize_max")
    case True
    with send get full have "sm = None" "s' = s" by (auto simp: send_single_cmessage_def Let_def)
    with True valid show ?thesis by (simp add: send_single_message_def look cas_view_def)
  next
    case False
    with bound have lt: "unat ?n + ?len < usize_max" by simp
    have seqno: "unat (?n + of_nat ?len + 1) = unat ?n + ?len + 1"
      using lt ulen by (simp add: unat_word_ariths(1) usize_max_eq)
    let ?x = "CMsg (?n + of_nat ?len + 1) dst m"
    let ?a = "?e\<lparr>c_un_acked := c_un_acked ?e @ [?x]\<rparr>"
    have ret: "sm = Some ?x" "s' = s\<lparr>c_send_state := cs_put (c_send_state s) dst ?a\<rparr>"
      using send get full False
      by (auto simp: send_single_cmessage_def Let_def cs_cack_state_swap_def cs_put_def cs_entry_def)
    have x: "un_acked_valid ?x"
      using m dst csm_fits [OF m(1) dst] by (simp add: un_acked_valid_def)
    have "cas_valid ?a dst"
      using e lt x seqno unfolding cas_valid_iff by simp
    then have "csd_valid s'"
      using valid cs_put_valid [OF cs dst] by (simp add: ret csd_valid_iff)
    moreover have "csd_view s' = (csd_view s)\<lparr>send_state := (send_state (csd_view s))
        (dst \<mapsto> (cas_view ?e)\<lparr>un_acked := un_acked (cas_view ?e) @ [csm_view ?x]\<rparr>)\<rparr>"
      by (simp add: csd_view_def ret cs_put_view cas_view_def)
    ultimately show ?thesis
      using lt x seqno by (simp add: send_single_message_def look ret) (simp add: cas_view_def)
  qed
qed

section \<open>Retransmission\<close>

lemma retransmit_loop_eq:
  "\<forall>m \<in> set ms. is_CMsg m \<Longrightarrow>
   retransmit_loop src ms packets =
     Ret (packets @ map (\<lambda>m. \<lparr>cp_dst = csm_dst m, cp_src = src, cp_msg = m\<rparr>) ms)"
  by (induction ms arbitrary: packets) (auto split: CSingleMessage.splits)

definition pending :: "CSingleDelivery \<Rightarrow> EndPoint \<Rightarrow> EndPoint \<Rightarrow> CPacket list" where
  "pending s src dst = map (\<lambda>m. \<lparr>cp_dst = csm_dst m, cp_src = src, cp_msg = m\<rparr>)
     (c_un_acked (cs_entry (c_send_state s) dst))"

lemma retransmit_for_dst_eq:
  assumes "csd_valid s"
  shows "retransmit_un_acked_packets_for_dst s src dst packets = Ret (packets @ pending s src dst)"
proof (cases "fmlookup (cs_epmap (c_send_state s)) dst")
  case (Some a)
  with assms have "\<forall>m \<in> set (c_un_acked a). is_CMsg m"
    by (auto simp: csd_valid_iff cs_valid_iff cas_valid_iff un_acked_valid_def)
  with Some show ?thesis
    by (simp add: retransmit_un_acked_packets_for_dst_def retransmit_loop_eq pending_def cs_entry_def)
qed (simp add: retransmit_un_acked_packets_for_dst_def pending_def cs_entry_def cas_new_def)

lemma retransmit_dests_eq:
  "csd_valid s \<Longrightarrow> retransmit_dests s src dests packets = Ret (packets @ concat (map (pending s src) dests))"
  by (induction dests arbitrary: packets) (simp_all add: retransmit_for_dst_eq)

lemma pending_view:
  assumes valid: "csd_valid s" and dst: "fmlookup (cs_epmap (c_send_state s)) dst = Some a"
  shows "cpacket_view ` set (pending s src dst) = un_acked_messages_for_dest (csd_view s) src dst"
proof -
  have msgs: "\<forall>m \<in> set (c_un_acked a). is_CMsg m"
    using assms by (auto simp: csd_valid_iff cs_valid_iff cas_valid_iff un_acked_valid_def)
  have un: "un_acked (the (send_state (csd_view s) dst)) = map csm_view (c_un_acked a)"
    by (simp add: csd_view_def cs_view_def dst cas_view_def)
  have ent: "cs_entry (c_send_state s) dst = a" by (simp add: cs_entry_def dst)
  have msg_view: "is_Message (csm_view m) \<and> sm_dst (csm_view m) = csm_dst m" if "m \<in> set (c_un_acked a)" for m
    using msgs that by (cases m) auto
  show ?thesis
  proof (intro set_eqI iffI)
    fix p
    assume "p \<in> cpacket_view ` set (pending s src dst)"
    then obtain m where m: "m \<in> set (c_un_acked a)" "p = cpacket_view \<lparr>cp_dst = csm_dst m, cp_src = src, cp_msg = m\<rparr>"
      by (auto simp: pending_def ent)
    then obtain i where "i < length (c_un_acked a)" "m = c_un_acked a ! i" by (auto simp: in_set_conv_nth)
    with m msg_view show "p \<in> un_acked_messages_for_dest (csd_view s) src dst"
      by (auto simp: un_acked_messages_for_dest_def un_acked_messages_for_dest_up_to_def un cpacket_view_def)
  next
    fix p
    assume "p \<in> un_acked_messages_for_dest (csd_view s) src dst"
    then obtain i where i: "i < length (c_un_acked a)" "pkt_src p = src" "pkt_msg p = csm_view (c_un_acked a ! i)"
        "pkt_dst p = sm_dst (pkt_msg p)"
      by (auto simp: un_acked_messages_for_dest_def un_acked_messages_for_dest_up_to_def un)
    let ?m = "c_un_acked a ! i"
    have "?m \<in> set (c_un_acked a)" using i by simp
    with i msg_view [of ?m] have "p = cpacket_view \<lparr>cp_dst = csm_dst ?m, cp_src = src, cp_msg = ?m\<rparr>"
      by (simp add: cpacket_view_def)
    with \<open>?m \<in> set (c_un_acked a)\<close> show "p \<in> cpacket_view ` set (pending s src dst)"
      by (auto simp: pending_def ent)
  qed
qed

context hash_map_contract
begin

lemma retransmit_correct:
  assumes valid: "csd_valid s" and src: "valid_physical_address src"
  shows "\<exists>packets. retransmit_un_acked_packets ops s src = Ret packets \<and>
    cpacket_view ` set packets = un_acked_messages (csd_view s) src \<and>
    (\<forall>p \<in> set packets. outbound_packet_is_valid p \<and> cp_src p = src \<and> is_CMsg (cp_msg p))"
proof -
  let ?dests = "ep_keys (ops_order ops) (cs_epmap (c_send_state s))"
  let ?packets = "concat (map (pending s src) ?dests)"
  have dests: "set ?dests = dom (send_state (csd_view s))"
    unfolding keys by (auto simp: csd_view_def cs_view_def dom_def)
  have dest: "cpacket_view ` set (pending s src d) = un_acked_messages_for_dest (csd_view s) src d"
    if "d \<in> set ?dests" for d
    using that pending_view [OF valid] unfolding keys by blast
  have "cpacket_view ` set ?packets = (\<Union>d\<in>set ?dests. cpacket_view ` set (pending s src d))"
    by (simp add: image_UN)
  also have "\<dots> = (\<Union>d\<in>set ?dests. un_acked_messages_for_dest (csd_view s) src d)"
    using dest by (rule SUP_cong [OF refl])
  finally have "cpacket_view ` set ?packets = un_acked_messages (csd_view s) src"
    by (simp only: un_acked_messages_def un_acked_messages_for_dests_def dests)
  moreover have "outbound_packet_is_valid p \<and> cp_src p = src \<and> is_CMsg (cp_msg p)"
    if p: "p \<in> set (pending s src d)" for p d
  proof -
    from p obtain m where m: "m \<in> set (c_un_acked (cs_entry (c_send_state s) d))"
        "p = \<lparr>cp_dst = csm_dst m, cp_src = src, cp_msg = m\<rparr>"
      by (auto simp: pending_def)
    have "cas_valid (cs_entry (c_send_state s) d) d"
      using valid by (intro cs_entry_valid) (simp add: csd_valid_iff)
    with m(1) have "un_acked_valid m" by (simp add: cas_valid_iff)
    with m(2) src show ?thesis
      by (cases m) (auto simp: un_acked_valid_def outbound_packet_is_valid_def cpacket_abstractable_def)
  qed
  ultimately show ?thesis
    using retransmit_dests_eq [OF valid, of src ?dests "[]"]
    by (auto simp: retransmit_un_acked_packets_def)
qed

end

section \<open>Runs of the receiver\<close>

text \<open>The packets that a host accepts as fresh when it receives a sequence of packets.\<close>

fun receive_all :: "CSingleDelivery \<Rightarrow> CPacket list \<Rightarrow> (CPacket list \<times> CSingleDelivery) outcome" where
  "receive_all s [] = Ret ([], s)"
| "receive_all s (pkt # pkts) =
     bind_outcome (receive_impl s pkt) (\<lambda>(rr, s').
     bind_outcome (receive_all s' pkts) (\<lambda>(accepted, s'').
       Ret (case rr of FreshPacket _ \<Rightarrow> pkt # accepted | _ \<Rightarrow> accepted, s'')))"

lemma receive_impl_tombstones:
  assumes valid: "csd_valid s" and pkt: "cpacket_abstractable pkt" and r: "receive_impl s pkt = Ret (rr, s')"
  shows "receive_state (csd_view s') =
    (if new_single_message (csd_view s) (cpacket_view pkt)
     then (receive_state (csd_view s))(cp_src pkt \<mapsto> tombstone_table_lookup (cp_src pkt) (receive_state (csd_view s)) + 1)
     else receive_state (csd_view s))"
proof (cases "cp_msg pkt")
  case (CMsg q d c)
  from receive_message_correct [OF valid pkt CMsg] r
  have "sd_receive_real_packet (csd_view s) (csd_view s') (cpacket_view pkt)"
    using CMsg by (auto simp: sd_receive_def cpacket_view_def)
  then show ?thesis
    by (auto simp: sd_receive_real_packet_def Let_def cpacket_view_def)
next
  case (CAck n)
  with receive_ack_impl_correct [OF valid pkt CAck] r show ?thesis
    by (auto simp: receive_impl_def csd_view_def new_single_message_def cpacket_view_def Let_def)
next
  case CInvalidMessage
  with r show ?thesis by (auto simp: receive_impl_def new_single_message_def cpacket_view_def Let_def)
qed

definition accepted_seqnos :: "EndPoint \<Rightarrow> CPacket list \<Rightarrow> nat list" where
  "accepted_seqnos src pkts = map (\<lambda>p. unat (csm_seqno (cp_msg p))) (filter (\<lambda>p. cp_src p = src) pkts)"

lemma receive_all_seqnos:
  assumes "csd_valid s" and "\<forall>p \<in> set pkts. cpacket_abstractable p"
  shows "\<exists>accepted s'. receive_all s pkts = Ret (accepted, s') \<and> csd_valid s' \<and>
    accepted_seqnos src accepted =
      [tombstone_table_lookup src (receive_state (csd_view s)) + 1 ..<
       Suc (tombstone_table_lookup src (receive_state (csd_view s')))] \<and>
    tombstone_table_lookup src (receive_state (csd_view s)) \<le> tombstone_table_lookup src (receive_state (csd_view s'))"
  using assms
proof (induction pkts arbitrary: s)
  case Nil
  then show ?case by (simp add: accepted_seqnos_def)
next
  case (Cons pkt pkts)
  let ?look = "\<lambda>s. tombstone_table_lookup src (receive_state (csd_view s))"
  have pkt: "cpacket_abstractable pkt" using Cons.prems by simp
  obtain rr s1 where r: "receive_impl s pkt = Ret (rr, s1)" "csd_valid s1"
      "(\<exists>ack. rr = FreshPacket ack) \<longleftrightarrow> new_single_message (csd_view s) (cpacket_view pkt)"
    using receive_impl_correct [OF Cons.prems(1) pkt] by blast
  obtain acc s2 where rest: "receive_all s1 pkts = Ret (acc, s2)" "csd_valid s2"
      "accepted_seqnos src acc = [?look s1 + 1 ..< Suc (?look s2)]" "?look s1 \<le> ?look s2"
    using Cons.IH [OF r(2)] Cons.prems by auto
  note tomb = receive_impl_tombstones [OF Cons.prems(1) pkt r(1)]
  show ?case
  proof (cases "(\<exists>ack. rr = FreshPacket ack) \<and> cp_src pkt = src")
    case True
    then have new: "new_single_message (csd_view s) (cpacket_view pkt)" and src: "cp_src pkt = src" using r(3) by auto
    from new obtain q d c where "cp_msg pkt = CMsg q d c" "unat q = ?look s + 1"
      using src by (cases "cp_msg pkt") (auto simp: new_single_message_def cpacket_view_def Let_def)
    moreover have "?look s1 = ?look s + 1" using tomb new src by (simp add: tombstone_table_lookup_def)
    moreover have "receive_all s (pkt # pkts) = Ret (pkt # acc, s2)" using r(1) rest(1) True by auto
    ultimately show ?thesis
      using rest src by (auto simp: accepted_seqnos_def upt_conv_Cons)
  next
    case False
    have "?look s1 = ?look s"
      using False tomb r(3) by (auto simp: tombstone_table_lookup_def)
    moreover have "\<exists>acc'. receive_all s (pkt # pkts) = Ret (acc', s2) \<and> accepted_seqnos src acc' = accepted_seqnos src acc"
      using r(1) rest(1) False by (cases rr) (auto simp: accepted_seqnos_def)
    ultimately show ?thesis using rest by metis
  qed
qed

section \<open>Properties\<close>

text \<open>C22: receiving a packet keeps the delivery state valid and takes a receive step of the specification,
  with exactly the acknowledgement the method returns; it reports a fresh packet exactly when the
  specification calls the packet new, and its acknowledgement is a valid reply to the sender.\<close>

theorem receive_refines_spec:
  assumes "csd_valid s" and "cpacket_abstractable pkt"
  shows "\<exists>rr s'. receive_impl s pkt = Ret (rr, s') \<and> csd_valid s' \<and>
    (\<exists>ack. sd_receive (csd_view s) (csd_view s') (cpacket_view pkt) ack (get_abstracted_ack_set rr)) \<and>
    ((\<exists>ack. rr = FreshPacket ack) \<longleftrightarrow> new_single_message (csd_view s) (cpacket_view pkt)) \<and>
    (\<forall>ack. rr = FreshPacket ack \<or> rr = DuplicatePacket ack \<longrightarrow> valid_ack ack pkt)"
  using assms by (rule receive_impl_correct)

abbreviation example_packet :: CPacket where
  "example_packet \<equiv> \<lparr>cp_dst = EndPoint [1], cp_src = EndPoint [2], cp_msg = CMsg 1 (EndPoint [1]) (CGetRequest (SHTKey 3))\<rparr>"

lemma example_packet_abstractable: "cpacket_abstractable example_packet"
  by (simp add: cpacket_abstractable_def valid_physical_address_def)

theorem receive_refines_spec_witness:
  "\<exists>ack s'. receive_impl csd_empty example_packet = Ret (FreshPacket ack, s') \<and> csd_valid s'"
proof -
  have "new_single_message (csd_view csd_empty) (cpacket_view example_packet)"
    by (simp add: new_single_message_def csd_empty_correct sd_init_def cpacket_view_def tombstone_table_lookup_def)
  with receive_refines_spec [OF csd_empty_correct(1) example_packet_abstractable] show ?thesis by blast
qed

text \<open>C23: sending a message that passes the marshallability check to a valid address takes a send step of
  the specification, keeps the state valid, and yields a packet that can be marshalled; at the last
  sequence number nothing is sent and the state stays as it is. No sequence number wraps around.\<close>

theorem send_refines_spec:
  assumes "csd_valid s" and "message_marshallable m" and "cmessage_abstractable m"
    and "valid_physical_address dst" and "send_single_cmessage s m dst = (sm, s')"
  shows "csd_valid s' \<and>
    send_single_message (csd_view s) (csd_view s') (cmessage_view m) dst (map_option csm_view sm) abstract_static_params \<and>
    (\<forall>x. sm = Some x \<longrightarrow> is_CMsg x \<and> csm_dst x = dst \<and> csm_m x = m \<and> un_acked_valid x)"
  using send_single_cmessage_correct [OF assms] by blast

theorem send_refines_spec_witness:
  "\<exists>sm s'. send_single_cmessage csd_empty (CGetRequest (SHTKey 3)) (EndPoint [1]) = (sm, s') \<and> csd_valid s'"
proof -
  obtain sm s' where r: "send_single_cmessage csd_empty (CGetRequest (SHTKey 3)) (EndPoint [1]) = (sm, s')"
    by fastforce
  from send_refines_spec [OF csd_empty_correct(1) _ _ _ r] r show ?thesis
    by (auto simp: valid_key_def valid_physical_address_def)
qed

text \<open>C24: a retransmission returns and resends exactly the messages that the specification counts as
  unacknowledged, each as a valid packet from this host, whatever the order in which the table of
  destinations is iterated.\<close>

theorem retransmission_is_exact:
  assumes "iteration_order order" and "csd_valid s" and "valid_physical_address src"
  shows "\<exists>packets. retransmit_un_acked_packets (hash_ops_code order) s src = Ret packets \<and>
    cpacket_view ` set packets = un_acked_messages (csd_view s) src \<and>
    (\<forall>p \<in> set packets. outbound_packet_is_valid p \<and> cp_src p = src \<and> is_CMsg (cp_msg p))"
  using hash_map_contract.retransmit_correct [OF hash_ops_code_contract [OF assms(1)] assms(2,3)] .

theorem retransmission_is_exact_witness:
  "\<exists>packets. retransmit_un_acked_packets (hash_ops_code sorted_list_of_fset) csd_empty (EndPoint [1]) = Ret packets \<and>
    cpacket_view ` set packets = un_acked_messages sd_init (EndPoint [1])"
  using retransmission_is_exact [OF iteration_order_sorted csd_empty_correct(1), of "EndPoint [1]"]
  by (auto simp: valid_physical_address_def csd_empty_correct(2))

text \<open>C25: delivery is exactly once and in order: whatever packets arrive, in whatever order and however
  often, the messages that a host accepts from one source carry the sequence numbers 1, 2, 3 and so
  on without a gap or a repetition.\<close>

theorem exactly_once_in_order:
  assumes "\<forall>p \<in> set pkts. cpacket_abstractable p"
  shows "\<exists>accepted s' n. receive_all csd_empty pkts = Ret (accepted, s') \<and>
    accepted_seqnos src accepted = [1 ..< Suc n]"
proof -
  have "tombstone_table_lookup src (receive_state (csd_view csd_empty)) = 0"
    by (simp add: csd_empty_correct(2) sd_init_def tombstone_table_lookup_def)
  with receive_all_seqnos [OF csd_empty_correct(1) assms, of src] show ?thesis by (metis add_0)
qed

theorem exactly_once_in_order_witness:
  "\<exists>accepted s' n. receive_all csd_empty [example_packet, example_packet] = Ret (accepted, s') \<and>
    accepted_seqnos (EndPoint [2]) accepted = [1 ..< Suc n]"
  using exactly_once_in_order [of "[example_packet, example_packet]" "EndPoint [2]"] example_packet_abstractable by simp

end
