(* ===== verification/Host_Protocol.thy ===== *)
theory Host_Protocol
  imports Delegation_Map Single_Delivery
begin

text \<open>
  The protocol that a host follows (\<open>host_protocol_t.rs\<close>): its abstract state, the relation of each
  action and the step relation \<open>next\<close> over the list of its network events. The relations are the
  specification functions of the source. Where the source reads a field of a message variant that
  a guard has established, the case distinction that establishes it is written around the use.
\<close>

section \<open>State\<close>

record AbstractConstants =
  ac_root_identity :: AbstractEndPoint
  ac_host_ids :: "AbstractEndPoint list"
  ac_params :: AbstractParameters
  ac_me :: AbstractEndPoint

record AbstractHostState =
  constants :: AbstractConstants
  delegation_map :: AbstractDelegationMap
  h :: Hashtable
  sd :: "Message SingleDelivery"
  received_packet :: "Packet option"
  num_delegations :: int
  received_requests :: "AppRequest list"

definition wf :: "AbstractHostState \<Rightarrow> bool" where
  "wf s \<longleftrightarrow> adm_is_complete (delegation_map s)"

section \<open>Receiving a packet\<close>

definition okay_to_ignore_packets :: bool where
  "okay_to_ignore_packets = True"

text \<open>The last conjunct of the first case is written in the source with the base \<open>..post\<close>.\<close>

definition receive_packet ::
    "AbstractHostState \<Rightarrow> AbstractHostState \<Rightarrow> Packet \<Rightarrow> Packet set \<Rightarrow> Packet \<Rightarrow> bool" where
  "receive_packet pre post pkt out ack \<longleftrightarrow>
     (received_packet pre = None \<and>
      sd_receive (sd pre) (sd post) pkt ack out \<and>
      (if new_single_message (sd pre) pkt then received_packet post = Some pkt
       else received_packet post = None) \<and>
      post = post\<lparr>sd := sd post, received_packet := received_packet post\<rparr>) \<or>
     ((received_packet pre \<noteq> None \<or> okay_to_ignore_packets) \<and> post = pre \<and> out = {})"

definition extract_sent_packets_from_ios :: "LSHTIo list \<Rightarrow> LSHTPacket list" where
  "extract_sent_packets_from_ios ios =
     map (\<lambda>io. case io of Send s \<Rightarrow> s | _ \<Rightarrow> undefined) (filter is_Send ios)"

definition extract_packet_from_lsht_packet :: "LSHTPacket \<Rightarrow> Packet" where
  "extract_packet_from_lsht_packet lp = \<lparr>pkt_dst = lp_dst lp, pkt_src = lp_src lp, pkt_msg = lp_msg lp\<rparr>"

definition extract_packets_from_lsht_packets :: "LSHTPacket list \<Rightarrow> Packet set" where
  "extract_packets_from_lsht_packets seq_packets = set (map extract_packet_from_lsht_packet seq_packets)"

definition extract_packets_from_abstract_ios :: "AbstractIos \<Rightarrow> Packet set" where
  "extract_packets_from_abstract_ios ios = extract_packets_from_lsht_packets (extract_sent_packets_from_ios ios)"

definition receive_packet_wrapper ::
    "AbstractHostState \<Rightarrow> AbstractHostState \<Rightarrow> Packet \<Rightarrow> Packet set \<Rightarrow> bool" where
  "receive_packet_wrapper pre post pkt sent_packets \<longleftrightarrow> (\<exists>ack. receive_packet pre post pkt sent_packets ack)"

definition receive_packet_without_reading_clock ::
    "AbstractHostState \<Rightarrow> AbstractHostState \<Rightarrow> AbstractIos \<Rightarrow> bool" where
  "receive_packet_without_reading_clock pre post ios \<longleftrightarrow>
     (case ios of
        Receive r # _ \<Rightarrow>
          let pkt = \<lparr>pkt_dst = lp_dst r, pkt_src = lp_src r, pkt_msg = lp_msg r\<rparr>;
              sent_packets = extract_packets_from_abstract_ios ios
          in receive_packet_wrapper pre post pkt sent_packets
      | _ \<Rightarrow> False)"

definition receive_packet_next :: "AbstractHostState \<Rightarrow> AbstractHostState \<Rightarrow> AbstractIos \<Rightarrow> bool" where
  "receive_packet_next pre post ios \<longleftrightarrow>
     length ios \<ge> 1 \<and>
     (if hd ios = TimeoutReceive then post = pre \<and> length ios = 1
      else adm_is_complete (delegation_map pre) \<and>
           (\<exists>r. hd ios = Receive r) \<and>
           (\<forall>io \<in> set (tl ios). is_Send io) \<and>
           receive_packet_without_reading_clock pre post ios)"

section \<open>Processing a message\<close>

definition next_get_request_reply ::
    "AbstractHostState \<Rightarrow> AbstractHostState \<Rightarrow> AbstractEndPoint \<Rightarrow> nat \<Rightarrow> AbstractKey \<Rightarrow> PMsg \<Rightarrow> Message
     \<Rightarrow> Packet set \<Rightarrow> bool \<Rightarrow> bool" where
  "next_get_request_reply pre post src seqno k sm m out should_send \<longleftrightarrow>
     (let owner = adm_index (delegation_map pre) k
      in if should_send \<and> valid_key k then
           (if owner = ac_me (constants pre) then
              m = Reply k (hashtable_lookup (h pre) k) \<and>
              received_requests post = received_requests pre @ [AppGetRequest seqno k]
            else
              m = Redirect k owner \<and>
              received_requests post = received_requests pre) \<and>
           send_single_message (sd pre) (sd post) m src (Some sm) (ac_params (constants pre)) \<and>
           sm_dst sm = src \<and>
           out = {\<lparr>pkt_dst = src, pkt_src = ac_me (constants pre), pkt_msg = sm\<rparr>}
         else post = pre\<lparr>received_packet := received_packet post\<rparr> \<and> out = {})"

definition next_get_request ::
    "AbstractHostState \<Rightarrow> AbstractHostState \<Rightarrow> Packet \<Rightarrow> Packet set \<Rightarrow> bool" where
  "next_get_request pre post pkt out \<longleftrightarrow>
     (case pkt_msg pkt of
        Message seqno _ (GetRequest k) \<Rightarrow>
          delegation_map post = delegation_map pre \<and>
          h post = h pre \<and>
          num_delegations post = num_delegations pre \<and>
          (\<exists>sm m b. next_get_request_reply pre post (pkt_src pkt) seqno k sm m out b)
      | _ \<Rightarrow> False)"

definition next_set_request_complete ::
    "AbstractHostState \<Rightarrow> AbstractHostState \<Rightarrow> AbstractEndPoint \<Rightarrow> nat \<Rightarrow> AbstractKey \<Rightarrow> AbstractValue option
     \<Rightarrow> PMsg \<Rightarrow> Message \<Rightarrow> Packet set \<Rightarrow> bool \<Rightarrow> bool" where
  "next_set_request_complete pre post src seqno k ov sm replym out should_send \<longleftrightarrow>
     (let owner = adm_index (delegation_map pre) k
      in if should_send \<and> valid_key k \<and> valid_optional_value ov then
           (if owner = ac_me (constants pre) then
              h post = (case ov of None \<Rightarrow> (h pre)(k := None) | Some v \<Rightarrow> (h pre)(k \<mapsto> v)) \<and>
              replym = Reply k ov \<and>
              received_requests post = received_requests pre @ [AppSetRequest seqno k ov]
            else
              h post = h pre \<and>
              replym = Redirect k owner \<and>
              received_requests post = received_requests pre) \<and>
           send_single_message (sd pre) (sd post) replym src (Some sm) (ac_params (constants pre)) \<and>
           sm_dst sm = src \<and>
           out = {\<lparr>pkt_dst = src, pkt_src = ac_me (constants pre), pkt_msg = sm\<rparr>}
         else post = pre\<lparr>received_packet := received_packet post\<rparr> \<and> out = {})"

definition next_set_request ::
    "AbstractHostState \<Rightarrow> AbstractHostState \<Rightarrow> Packet \<Rightarrow> Packet set \<Rightarrow> bool" where
  "next_set_request pre post pkt out \<longleftrightarrow>
     (case pkt_msg pkt of
        Message seqno _ (SetRequest k ov) \<Rightarrow>
          (\<exists>sm replym should_send.
             next_set_request_complete pre post (pkt_src pkt) seqno k ov sm replym out should_send) \<and>
          delegation_map post = delegation_map pre \<and>
          num_delegations post = num_delegations pre
      | _ \<Rightarrow> False)"

definition next_delegate :: "AbstractHostState \<Rightarrow> AbstractHostState \<Rightarrow> Packet \<Rightarrow> Packet set \<Rightarrow> bool" where
  "next_delegate pre post pkt out \<longleftrightarrow>
     (case pkt_msg pkt of
        Message _ _ (Delegate rng u) \<Rightarrow>
          (if pkt_src pkt \<in> set (ac_host_ids (constants pre)) then
             delegation_map post = adm_update (delegation_map pre) rng (ac_me (constants pre)) \<and>
             h post = bulk_update_hashtable (h pre) rng u \<and>
             num_delegations post = num_delegations pre + 1
           else
             delegation_map post = delegation_map pre \<and>
             h post = h pre \<and>
             num_delegations post = num_delegations pre) \<and>
          send_no_message (sd pre) (sd post) \<and>
          receive_no_message (sd pre) (sd post) \<and>
          out = {} \<and>
          received_requests post = received_requests pre
      | _ \<Rightarrow> False)"

definition next_shard ::
    "AbstractHostState \<Rightarrow> AbstractHostState \<Rightarrow> Packet set \<Rightarrow> AbstractKey KeyRange \<Rightarrow> AbstractEndPoint \<Rightarrow> PMsg
     \<Rightarrow> bool \<Rightarrow> bool" where
  "next_shard pre post out kr recipient sm should_send \<longleftrightarrow>
     recipient \<noteq> ac_me (constants pre) \<and>
     recipient \<in> set (ac_host_ids (constants pre)) \<and>
     adm_delegate_for_key_range_is_host (delegation_map pre) kr (ac_me (constants pre)) \<and>
     send_single_message (sd pre) (sd post) (Delegate kr (extract_range (h pre) kr)) recipient
       (if should_send then Some sm else None) (ac_params (constants pre)) \<and>
     (should_send \<longrightarrow> recipient = sm_dst sm) \<and>
     constants pre = constants post \<and>
     num_delegations post = num_delegations pre + 1 \<and>
     received_requests post = received_requests pre \<and>
     (if should_send then
        out = {\<lparr>pkt_dst = recipient, pkt_src = ac_me (constants pre), pkt_msg = sm\<rparr>} \<and>
        delegation_map post = adm_update (delegation_map pre) kr recipient \<and>
        h post = bulk_remove_hashtable (h pre) kr
      else
        out = {} \<and>
        delegation_map post = delegation_map pre \<and>
        h post = h pre)"

definition next_shard_wrapper_must_reject ::
    "AbstractHostState \<Rightarrow> AbstractKey KeyRange \<Rightarrow> AbstractEndPoint \<Rightarrow> bool" where
  "next_shard_wrapper_must_reject pre kr recipient \<longleftrightarrow>
     recipient = ac_me (constants pre) \<or>
     \<not> valid_physical_address recipient \<or>
     kr_is_empty shtkey_cmp kr \<or>
     recipient \<notin> set (ac_host_ids (constants pre)) \<or>
     \<not> adm_delegate_for_key_range_is_host (delegation_map pre) kr (ac_me (constants pre)) \<or>
     card (dom (extract_range (h pre) kr)) \<ge> max_hashtable_size"

definition next_shard_wrapper :: "AbstractHostState \<Rightarrow> AbstractHostState \<Rightarrow> Packet \<Rightarrow> Packet set \<Rightarrow> bool" where
  "next_shard_wrapper pre post pkt out \<longleftrightarrow>
     (case pkt_msg pkt of
        Message _ _ (Shard kr recipient) \<Rightarrow>
          (if next_shard_wrapper_must_reject pre kr recipient then
             post = pre\<lparr>received_packet := received_packet post\<rparr> \<and> out = {}
           else \<exists>sm b. next_shard pre post out kr recipient sm b)
      | _ \<Rightarrow> False)"

definition next_reply :: "AbstractHostState \<Rightarrow> AbstractHostState \<Rightarrow> Packet \<Rightarrow> Packet set \<Rightarrow> bool" where
  "next_reply pre post pkt out \<longleftrightarrow>
     (case pkt_msg pkt of
        Message _ _ (Reply _ _) \<Rightarrow> out = {} \<and> post = pre\<lparr>received_packet := received_packet post\<rparr>
      | _ \<Rightarrow> False)"

definition next_redirect :: "AbstractHostState \<Rightarrow> AbstractHostState \<Rightarrow> Packet \<Rightarrow> Packet set \<Rightarrow> bool" where
  "next_redirect pre post pkt out \<longleftrightarrow>
     (case pkt_msg pkt of
        Message _ _ (Redirect _ _) \<Rightarrow> out = {} \<and> post = pre\<lparr>received_packet := received_packet post\<rparr>
      | _ \<Rightarrow> False)"

definition should_process_received_message :: "AbstractHostState \<Rightarrow> bool" where
  "should_process_received_message pre \<longleftrightarrow>
     (case received_packet pre of
        None \<Rightarrow> False
      | Some p \<Rightarrow>
          (case pkt_msg p of
             Message _ _ m \<Rightarrow>
               (is_Delegate m \<or> is_Shard m \<longrightarrow>
                num_delegations pre < int (max_delegations (ac_params (constants pre))) - 2)
           | _ \<Rightarrow> False))"

definition process_message :: "AbstractHostState \<Rightarrow> AbstractHostState \<Rightarrow> Packet set \<Rightarrow> bool" where
  "process_message pre post out \<longleftrightarrow>
     (if should_process_received_message pre then
        let packet = the (received_packet pre)
        in (next_get_request pre post packet out \<or>
            next_set_request pre post packet out \<or>
            next_delegate pre post packet out \<or>
            next_shard_wrapper pre post packet out \<or>
            next_reply pre post packet out \<or>
            next_redirect pre post packet out) \<and>
           received_packet post = None
      else post = pre \<and> out = {})"

definition process_received_packet :: "AbstractHostState \<Rightarrow> AbstractHostState \<Rightarrow> Packet set \<Rightarrow> bool" where
  "process_received_packet pre post out \<longleftrightarrow>
     (case received_packet pre of
        Some _ \<Rightarrow> process_message pre post out
      | None \<Rightarrow> post = pre \<and> out = {})"

definition process_received_packet_next :: "AbstractHostState \<Rightarrow> AbstractHostState \<Rightarrow> AbstractIos \<Rightarrow> bool" where
  "process_received_packet_next pre post ios \<longleftrightarrow>
     adm_is_complete (delegation_map pre) \<and>
     (\<forall>io \<in> set ios. is_Send io) \<and>
     process_received_packet pre post (extract_packets_from_abstract_ios ios)"

section \<open>Retransmission and ignored packets\<close>

definition spontaneously_retransmit :: "AbstractHostState \<Rightarrow> AbstractHostState \<Rightarrow> Packet set \<Rightarrow> bool" where
  "spontaneously_retransmit pre post out \<longleftrightarrow>
     out = un_acked_messages (sd pre) (ac_me (constants pre)) \<and> post = pre"

definition spontaneously_retransmit_next :: "AbstractHostState \<Rightarrow> AbstractHostState \<Rightarrow> AbstractIos \<Rightarrow> bool" where
  "spontaneously_retransmit_next pre post ios \<longleftrightarrow>
     adm_is_complete (delegation_map pre) \<and>
     (((\<forall>io \<in> set ios. is_Send io) \<and>
       spontaneously_retransmit pre post (extract_packets_from_abstract_ios ios)) \<or>
      (post = pre \<and> ios = []))"

definition ignore_unparseable_packet :: "AbstractHostState \<Rightarrow> AbstractHostState \<Rightarrow> AbstractIos \<Rightarrow> bool" where
  "ignore_unparseable_packet pre post ios \<longleftrightarrow>
     length ios = 1 \<and> (\<exists>r. hd ios = Receive r \<and> lp_msg r = InvalidMessage) \<and> pre = post"

definition ignore_nonsensical_delegation_packet ::
    "AbstractHostState \<Rightarrow> AbstractHostState \<Rightarrow> AbstractIos \<Rightarrow> bool" where
  "ignore_nonsensical_delegation_packet pre post ios \<longleftrightarrow>
     length ios = 0 \<and>
     (case received_packet pre of
        Some p \<Rightarrow>
          (case pkt_msg p of
             Message _ dst (Delegate rng u) \<Rightarrow>
               \<not> (valid_hashtable u \<and> \<not> kr_is_empty shtkey_cmp rng \<and> valid_physical_address dst)
           | _ \<Rightarrow> False)
      | None \<Rightarrow> False) \<and>
     (if should_process_received_message pre then post = pre\<lparr>received_packet := None\<rparr> else post = pre)"

section \<open>Initial states and steps\<close>

datatype Step =
    ReceivePacket
  | ProcessReceivedPacket
  | SpontaneouslyRetransmit
  | Stutter
  | IgnoreUnparseablePacket
  | IgnoreNonsensicalDelegationPacket

definition parse_arg_as_end_point :: "AbstractArg \<Rightarrow> AbstractEndPoint" where
  "parse_arg_as_end_point arg = EndPoint arg"

definition unchecked_parse_args :: "AbstractArgs \<Rightarrow> AbstractEndPoint list" where
  "unchecked_parse_args args = map parse_arg_as_end_point args"

definition parse_args :: "AbstractArgs \<Rightarrow> AbstractEndPoint list option" where
  "parse_args args =
     (let end_points = unchecked_parse_args args
      in if \<forall>ep \<in> set end_points. valid_physical_address ep then Some end_points else None)"

definition host_init :: "AbstractHostState \<Rightarrow> AbstractEndPoint \<Rightarrow> AbstractArgs \<Rightarrow> bool" where
  "host_init pre ident args \<longleftrightarrow>
     (let end_points = parse_args args
      in if end_points = None \<or> length (the end_points) = 0 then False
         else let root_identity = the end_points ! 0;
                  params = abstract_static_params
              in pre = \<lparr>constants = \<lparr>ac_root_identity = root_identity, ac_host_ids = the end_points,
                                      ac_params = params, ac_me = ident\<rparr>,
                        delegation_map = adm_init root_identity,
                        h = Map.empty,
                        sd = sd_init,
                        received_packet = None,
                        num_delegations = 1,
                        received_requests = []\<rparr>)"

definition next_step :: "AbstractHostState \<Rightarrow> AbstractHostState \<Rightarrow> AbstractIos \<Rightarrow> Step \<Rightarrow> bool" where
  "next_step pre post ios step \<longleftrightarrow>
     adm_is_complete (delegation_map pre) \<and>
     (case step of
        ReceivePacket \<Rightarrow> receive_packet_next pre post ios
      | ProcessReceivedPacket \<Rightarrow> process_received_packet_next pre post ios
      | SpontaneouslyRetransmit \<Rightarrow> spontaneously_retransmit_next pre post ios
      | Stutter \<Rightarrow> pre = post \<and> length ios = 0
      | IgnoreUnparseablePacket \<Rightarrow> ignore_unparseable_packet pre post ios
      | IgnoreNonsensicalDelegationPacket \<Rightarrow> ignore_nonsensical_delegation_packet pre post ios)"

definition no_invalid_sends :: "AbstractIos \<Rightarrow> bool" where
  "no_invalid_sends ios \<longleftrightarrow> (\<forall>io \<in> set ios. case io of Send s \<Rightarrow> lp_msg s \<noteq> InvalidMessage | _ \<Rightarrow> True)"

definition host_next :: "AbstractHostState \<Rightarrow> AbstractHostState \<Rightarrow> AbstractIos \<Rightarrow> bool" where
  "host_next pre post ios \<longleftrightarrow>
     wf pre \<and>
     constants pre = constants post \<and>
     (\<exists>step. next_step pre post ios step) \<and>
     no_invalid_sends ios"

section \<open>Lemmas\<close>

lemma host_next_intro:
  "next_step pre post ios step \<Longrightarrow> constants pre = constants post \<Longrightarrow> no_invalid_sends ios \<Longrightarrow> host_next pre post ios"
  by (auto simp: host_next_def wf_def next_step_def)

lemma extract_packets_simps [simp]:
  "extract_packets_from_abstract_ios [] = {}"
  "extract_packets_from_abstract_ios (Send s # ios) =
     insert (extract_packet_from_lsht_packet s) (extract_packets_from_abstract_ios ios)"
  "extract_packets_from_abstract_ios (Receive r # ios) = extract_packets_from_abstract_ios ios"
  "extract_packets_from_abstract_ios (TimeoutReceive # ios) = extract_packets_from_abstract_ios ios"
  "extract_packets_from_abstract_ios (ReadClock t # ios) = extract_packets_from_abstract_ios ios"
  by (simp_all add: extract_packets_from_abstract_ios_def extract_packets_from_lsht_packets_def
      extract_sent_packets_from_ios_def is_Send_def)

lemma no_invalid_sends_simps [simp]:
  "no_invalid_sends []"
  "no_invalid_sends (Send s # ios) \<longleftrightarrow> lp_msg s \<noteq> InvalidMessage \<and> no_invalid_sends ios"
  "no_invalid_sends (Receive r # ios) \<longleftrightarrow> no_invalid_sends ios"
  "no_invalid_sends (TimeoutReceive # ios) \<longleftrightarrow> no_invalid_sends ios"
  by (simp_all add: no_invalid_sends_def)

section \<open>Properties\<close>

text \<open>The specification of receiving a packet does not say that the rest of the state stays: for a
  host without a pending packet, the step that receives an unparseable packet may replace the table of
  values, the delegation map, the counter and the list of requests by anything.\<close>

theorem receive_step_leaves_rest_open:
  assumes "wf s" and "received_packet s = None"
  shows "host_next s (s\<lparr>h := t, delegation_map := d, num_delegations := n, received_requests := reqs\<rparr>)
    [Receive \<lparr>lp_dst = a, lp_src = b, lp_msg = InvalidMessage\<rparr>]"
proof (rule host_next_intro [where step = ReceivePacket])
  let ?s' = "s\<lparr>h := t, delegation_map := d, num_delegations := n, received_requests := reqs\<rparr>"
  have "receive_packet s ?s' \<lparr>pkt_dst = a, pkt_src = b, pkt_msg = InvalidMessage\<rparr> {} ack" for ack
    using assms(2) by (simp add: receive_packet_def sd_receive_def new_single_message_def)
  then show "next_step s ?s' [Receive \<lparr>lp_dst = a, lp_src = b, lp_msg = InvalidMessage\<rparr>] ReceivePacket"
    using assms(1) by (simp add: next_step_def wf_def receive_packet_next_def receive_packet_without_reading_clock_def
        receive_packet_wrapper_def) blast
qed simp_all

theorem receive_step_leaves_rest_open_witness:
  "\<exists>s. host_init s (EndPoint [1]) [[1]] \<and>
     host_next s (s\<lparr>h := [SHTKey 3 \<mapsto> [9]]\<rparr>) [Receive \<lparr>lp_dst = EndPoint [1], lp_src = EndPoint [2], lp_msg = InvalidMessage\<rparr>]"
proof -
  let ?s = "\<lparr>constants = \<lparr>ac_root_identity = EndPoint [1], ac_host_ids = [EndPoint [1]], ac_params = abstract_static_params,
      ac_me = EndPoint [1]\<rparr>, delegation_map = adm_init (EndPoint [1]), h = Map.empty, sd = sd_init, received_packet = None,
      num_delegations = 1, received_requests = []\<rparr>"
  have "host_init ?s (EndPoint [1]) [[1]]"
    by (simp add: host_init_def parse_args_def unchecked_parse_args_def parse_arg_as_end_point_def valid_physical_address_def)
  moreover have "wf ?s" by (simp add: wf_def adm_is_complete_def adm_init_def dom_def)
  from receive_step_leaves_rest_open [OF this, where t = "[SHTKey 3 \<mapsto> [9]]" and d = "adm_init (EndPoint [1])" and n = 1
      and reqs = "[]" and a = "EndPoint [1]" and b = "EndPoint [2]"]
  have "host_next ?s (?s\<lparr>h := [SHTKey 3 \<mapsto> [9]]\<rparr>) [Receive \<lparr>lp_dst = EndPoint [1], lp_src = EndPoint [2], lp_msg = InvalidMessage\<rparr>]"
    by simp
  ultimately show ?thesis by blast
qed

end
