(* ===== verification/Net_Sht.thy ===== *)
theory Net_Sht
  imports Single_Delivery
begin

text \<open>
  The network client (\<open>io_t.rs\<close>) and the packet layer on top of it (\<open>net_sht_v.rs\<close>). The client
  calls three functions of the surrounding runtime through pointers; they are the fields of
  \<open>NetClientCPointers\<close>. What the outside world answers is not a function of the arguments, so each
  takes the number of calls made so far as well: with an arbitrary function there, the theorems hold
  for every behaviour of the network. \<open>receive_contract\<close> states what the program relies on of the
  receiving function. The ghost state of the client, its history included, is kept as the code
  updates it.
\<close>

section \<open>The network client\<close>

datatype State = Receiving | Sending | Error

datatype NetcReceiveResult =
    Received (ncr_sender: EndPoint) (ncr_message: bytes)
  | TimedOut
  | ReceiveError

record NetClientCPointers =
  get_time_func :: "nat \<Rightarrow> u64"
  receive_func :: "nat \<Rightarrow> int \<Rightarrow> bool \<times> bool \<times> bytes \<times> bytes"
  send_func :: "nat \<Rightarrow> bytes \<Rightarrow> bytes \<Rightarrow> bool"

record NetClient =
  nc_state :: State
  nc_history :: History
  nc_end_point :: EndPoint
  nc_c_pointers :: NetClientCPointers
  nc_calls :: nat

definition nc_new :: "EndPoint \<Rightarrow> NetClientCPointers \<Rightarrow> NetClient" where
  "nc_new end_point c_pointers =
     \<lparr>nc_state = Receiving, nc_history = [], nc_end_point = end_point, nc_c_pointers = c_pointers, nc_calls = 0\<rparr>"

definition nc_reset :: "NetClient \<Rightarrow> NetClient" where
  "nc_reset nc = nc\<lparr>nc_state := Receiving\<rparr>"

definition nc_ok :: "NetClient \<Rightarrow> bool" where
  "nc_ok nc \<longleftrightarrow> nc_state nc \<noteq> Error"

definition nc_valid :: "NetClient \<Rightarrow> bool" where
  "nc_valid nc \<longleftrightarrow> nc_ok nc \<and> valid_physical_address (nc_end_point nc)"

definition get_my_end_point :: "NetClient \<Rightarrow> EndPoint" where
  "get_my_end_point nc = ep_clone_up_to_view (nc_end_point nc)"

definition nc_get_time_internal :: "NetClient \<Rightarrow> u64 \<times> NetClient" where
  "nc_get_time_internal nc = (get_time_func (nc_c_pointers nc) (nc_calls nc), nc\<lparr>nc_calls := nc_calls nc + 1\<rparr>)"

definition nc_get_time :: "NetClient \<Rightarrow> u64 \<times> NetClient" where
  "nc_get_time nc =
     (let (time, nc) = nc_get_time_internal nc
      in (time, nc\<lparr>nc_state := Sending, nc_history := nc_history nc @ [ReadClock (uint time)]\<rparr>))"

definition nc_receive_internal :: "NetClient \<Rightarrow> int \<Rightarrow> NetcReceiveResult \<times> NetClient" where
  "nc_receive_internal nc time_limit_s =
     (let (ok, timed_out, remote, buffer) = receive_func (nc_c_pointers nc) (nc_calls nc) time_limit_s;
          nc = nc\<lparr>nc_calls := nc_calls nc + 1\<rparr>
      in if ok then if timed_out then (TimedOut, nc) else (Received (EndPoint remote) buffer, nc)
         else (ReceiveError, nc))"

definition nc_receive :: "NetClient \<Rightarrow> int \<Rightarrow> NetcReceiveResult \<times> NetClient" where
  "nc_receive nc time_limit_s =
     (let (result, nc) = nc_receive_internal nc time_limit_s
      in (result,
          case result of
            Received sender message \<Rightarrow>
              nc\<lparr>nc_history := nc_history nc @ [Receive \<lparr>lp_dst = nc_end_point nc, lp_src = sender, lp_msg = message\<rparr>]\<rparr>
          | TimedOut \<Rightarrow> nc\<lparr>nc_history := nc_history nc @ [TimeoutReceive]\<rparr>
          | ReceiveError \<Rightarrow> nc\<lparr>nc_state := Error\<rparr>))"

definition nc_send_internal :: "NetClient \<Rightarrow> EndPoint \<Rightarrow> bytes \<Rightarrow> bool \<times> NetClient" where
  "nc_send_internal nc remote message =
     (send_func (nc_c_pointers nc) (nc_calls nc) (ep_id remote) message, nc\<lparr>nc_calls := nc_calls nc + 1\<rparr>)"

text \<open>The result of \<open>send\<close> is \<open>Ok\<close> or \<open>Err\<close>; the error carries nothing that is used.\<close>

definition nc_send :: "NetClient \<Rightarrow> EndPoint \<Rightarrow> bytes \<Rightarrow> bool \<times> NetClient" where
  "nc_send nc recipient message =
     (let (result, nc) = nc_send_internal nc recipient message
      in (result,
          if result then
            nc\<lparr>nc_state := Sending,
               nc_history := nc_history nc @ [Send \<lparr>lp_dst = recipient, lp_src = nc_end_point nc, lp_msg = message\<rparr>]\<rparr>
          else nc\<lparr>nc_state := Error\<rparr>))"

text \<open>What the contract of \<open>receive\<close> and the type \<open>Vec\<close> promise of a received packet: the address of the
  sender is valid, and the buffer has the length of a vector.\<close>

definition receive_contract :: "NetClientCPointers \<Rightarrow> bool" where
  "receive_contract c_pointers \<longleftrightarrow>
     (\<forall>n t remote buffer. receive_func c_pointers n t = (True, False, remote, buffer) \<longrightarrow>
        valid_physical_address (EndPoint remote) \<and> length buffer \<le> isize_max)"

section \<open>Parsing packets\<close>

datatype ReceiveResult = RFail | RTimeout | RPacket (rr_cpacket: CPacket)

text \<open>The specification chooses a message with the given serialization.\<close>

definition sht_demarshal_data :: "bytes \<Rightarrow> CSingleMessage" where
  "sht_demarshal_data data = (SOME v. is_marshalable csm_marshal v \<and> ghost_serialize csm_marshal v = data)"

definition abstractify_net_packet_to_lsht_packet :: "NetPacket \<Rightarrow> LSHTPacket" where
  "abstractify_net_packet_to_lsht_packet net =
     \<lparr>lp_dst = lp_dst net, lp_src = lp_src net, lp_msg = csm_view (sht_demarshal_data (lp_msg net))\<rparr>"

definition abstractify_net_event_to_lsht_io :: "NetEvent \<Rightarrow> LSHTIo" where
  "abstractify_net_event_to_lsht_io evt =
     (case evt of
        Send s \<Rightarrow> Send (abstractify_net_packet_to_lsht_packet s)
      | Receive r \<Rightarrow> Receive (abstractify_net_packet_to_lsht_packet r)
      | TimeoutReceive \<Rightarrow> TimeoutReceive
      | ReadClock t \<Rightarrow> ReadClock t)"

definition abstractify_net_packet_to_sht_packet :: "NetPacket \<Rightarrow> Packet" where
  "abstractify_net_packet_to_sht_packet net =
     (let lp = abstractify_net_packet_to_lsht_packet net
      in \<lparr>pkt_dst = lp_dst lp, pkt_src = lp_src lp, pkt_msg = lp_msg lp\<rparr>)"

definition sht_demarshall_data_method :: "bytes \<Rightarrow> CSingleMessage outcome" where
  "sht_demarshall_data_method buffer =
     bind_outcome (deserialize csm_marshal buffer 0) (\<lambda>r. Ret
       (case r of
          None \<Rightarrow> CInvalidMessage
        | Some (cmessage, count) \<Rightarrow>
            if count \<noteq> length buffer then CInvalidMessage
            else case cmessage of
                CMsg _ dst m \<Rightarrow>
                  if \<not> valid_physical_address dst then CInvalidMessage
                  else (case m of
                      CRedirect _ ident \<Rightarrow> if \<not> valid_physical_address ident then CInvalidMessage else cmessage
                    | CShard _ recipient \<Rightarrow> if \<not> valid_physical_address recipient then CInvalidMessage else cmessage
                    | _ \<Rightarrow> cmessage)
              | _ \<Rightarrow> cmessage))"

definition receive_with_demarshal :: "NetClient \<Rightarrow> EndPoint \<Rightarrow> (ReceiveResult \<times> NetEvent \<times> NetClient) outcome" where
  "receive_with_demarshal nc local_addr =
     (let timeout = 0;
          (netr, nc) = nc_receive nc timeout
      in case netr of
           ReceiveError \<Rightarrow> Ret (RFail, TimeoutReceive, nc)
         | TimedOut \<Rightarrow> Ret (RTimeout, TimeoutReceive, nc)
         | Received sender message \<Rightarrow>
             bind_outcome (sht_demarshall_data_method message) (\<lambda>csinglemessage.
               let src_ep = sender;
                   cpacket = \<lparr>cp_dst = ep_clone_up_to_view local_addr, cp_src = src_ep, cp_msg = csinglemessage\<rparr>;
                   net_event = Receive \<lparr>lp_dst = local_addr, lp_src = src_ep, lp_msg = message\<rparr>
               in Ret (RPacket cpacket, net_event, nc)))"

section \<open>Sending packets\<close>

definition send_log_entry_reflects_packet :: "NetEvent \<Rightarrow> CPacket \<Rightarrow> bool" where
  "send_log_entry_reflects_packet event cpacket \<longleftrightarrow>
     (\<exists>s. event = Send s \<and> cpacket_abstractable cpacket \<and> cpacket_view cpacket = abstractify_net_packet_to_sht_packet s)"

definition send_packet :: "CPacket \<Rightarrow> NetClient \<Rightarrow> bool \<times> NetEvent option \<times> NetClient" where
  "send_packet cpacket nc =
     (let buf = serialize csm_marshal (cp_msg cpacket) [];
          (result, nc) = nc_send nc (cp_dst cpacket) buf
      in if result then
           (True, Some (Send \<lparr>lp_dst = cp_dst cpacket, lp_src = cp_src cpacket, lp_msg = buf\<rparr>), nc)
         else (False, None, nc))"

definition outbound_packet_seq_is_valid :: "CPacket list \<Rightarrow> bool" where
  "outbound_packet_seq_is_valid cpackets \<longleftrightarrow> (\<forall>p \<in> set cpackets. outbound_packet_is_valid p)"

definition outbound_packet_seq_has_correct_srcs :: "CPacket list \<Rightarrow> AbstractEndPoint \<Rightarrow> bool" where
  "outbound_packet_seq_has_correct_srcs cpackets end_point \<longleftrightarrow> (\<forall>p \<in> set cpackets. cp_src p = end_point)"

definition net_packet_bound :: "bytes \<Rightarrow> bool" where
  "net_packet_bound data \<longleftrightarrow> length data \<le> 0xffffffffffffffff"

definition is_marshalable_data :: "NetEvent \<Rightarrow> bool" where
  "is_marshalable_data event \<longleftrightarrow>
     (case event of
        Send s \<Rightarrow> net_packet_bound (lp_msg s) \<and> is_marshalable csm_marshal (sht_demarshal_data (lp_msg s))
      | _ \<Rightarrow> False)"

definition only_sent_marshalable_data :: "NetEvent list \<Rightarrow> bool" where
  "only_sent_marshalable_data rawlog \<longleftrightarrow> (\<forall>e \<in> set rawlog. is_Send e \<longrightarrow> is_marshalable_data e)"

definition send_log_entries_reflect_packets :: "NetEvent list \<Rightarrow> CPacket list \<Rightarrow> bool" where
  "send_log_entries_reflect_packets net_event_log cpackets \<longleftrightarrow>
     list_all2 send_log_entry_reflects_packet net_event_log cpackets"

fun send_packet_seq_loop :: "CPacket list \<Rightarrow> NetClient \<Rightarrow> NetEvent list \<Rightarrow> bool \<times> NetEvent list \<times> NetClient" where
  "send_packet_seq_loop [] nc net_events = (True, net_events, nc)"
| "send_packet_seq_loop (cpacket # cpackets) nc net_events =
     (let (ok, net_event, nc) = send_packet cpacket nc
      in if \<not> ok then (False, [], nc)
         else send_packet_seq_loop cpackets nc (net_events @ [the net_event]))"

definition send_packet_seq :: "CPacket list \<Rightarrow> NetClient \<Rightarrow> bool \<times> NetEvent list \<times> NetClient" where
  "send_packet_seq cpackets nc = send_packet_seq_loop cpackets nc []"

section \<open>Demarshalling inverts marshalling\<close>

lemma sht_demarshal_serialize:
  assumes "is_marshalable csm_marshal m"
  shows "sht_demarshal_data (ghost_serialize csm_marshal m) = m"
  unfolding sht_demarshal_data_def
  by (rule some_equality) (use assms csm.injective in blast)+

text \<open>The address checks of the method are exactly \<open>abstractable\<close>.\<close>

lemma address_checks:
  "(case cmessage of
      CMsg q dst m \<Rightarrow>
        if \<not> valid_physical_address dst then CInvalidMessage
        else (case m of
            CRedirect k ident \<Rightarrow> if \<not> valid_physical_address ident then CInvalidMessage else cmessage
          | CShard r recipient \<Rightarrow> if \<not> valid_physical_address recipient then CInvalidMessage else cmessage
          | _ \<Rightarrow> cmessage)
    | _ \<Rightarrow> cmessage) = (if csm_abstractable cmessage then cmessage else CInvalidMessage)"
proof (cases cmessage)
  case (CMsg q dst m)
  then show ?thesis by (cases m) auto
qed simp_all

lemma demarshall_method_eq:
  "sht_demarshall_data_method buffer =
     bind_outcome (deserialize csm_marshal buffer 0) (\<lambda>r. Ret
       (case r of
          None \<Rightarrow> CInvalidMessage
        | Some (cmessage, count) \<Rightarrow>
            if count = length buffer \<and> csm_abstractable cmessage then cmessage else CInvalidMessage))"
  unfolding sht_demarshall_data_method_def address_checks
  by (rule bind_outcome_cong [OF refl]) (simp split: option.split)

lemma demarshall_method_correct:
  assumes "sht_demarshall_data_method buffer = Ret m" and "length buffer \<le> usize_max" and "m \<noteq> CInvalidMessage"
  shows "is_marshalable csm_marshal m \<and> ghost_serialize csm_marshal m = buffer \<and>
         sht_demarshal_data buffer = m \<and> csm_abstractable m"
proof -
  from assms(1,3) obtain count where
    de: "deserialize csm_marshal buffer 0 = Ret (Some (m, count))" and count: "count = length buffer"
    and abs: "csm_abstractable m"
    by (auto simp: demarshall_method_eq outcome_simps split: option.splits if_splits)
  from csm.sound [OF de assms(2)] count
  have "is_marshalable csm_marshal m" "ghost_serialize csm_marshal m = buffer"
    by (simp_all add: slice_subrange_def)
  with abs sht_demarshal_serialize [of m] show ?thesis by blast
qed

text \<open>The converse, which the sources leave open: what a host serializes is not taken for invalid.\<close>

lemma demarshall_method_complete:
  assumes "is_marshalable csm_marshal m" and "csm_abstractable m" and "m \<noteq> CInvalidMessage"
  shows "sht_demarshall_data_method (ghost_serialize csm_marshal m) = Ret m"
proof -
  have "length (ghost_serialize csm_marshal m) \<le> usize_max" using assms(1) by (rule csm.fits)
  then have "deserialize csm_marshal (ghost_serialize csm_marshal m) 0 =
      Ret (Some (m, length (ghost_serialize csm_marshal m)))"
    using assms csm_complete [of m "[]" "[]"] by (simp add: csm_marshal_def)
  with assms show ?thesis by (simp add: demarshall_method_eq)
qed

section \<open>Receiving and sending packets\<close>

lemma demarshall_method_abstractable: "sht_demarshall_data_method buffer = Ret m \<Longrightarrow> csm_abstractable m"
  by (cases "deserialize csm_marshal buffer 0") (auto simp: demarshall_method_eq split: option.splits if_splits)

lemma net_packet_reflects:
  assumes "is_marshalable csm_marshal m"
  shows "abstractify_net_packet_to_sht_packet \<lparr>lp_dst = d, lp_src = s, lp_msg = ghost_serialize csm_marshal m\<rparr> =
    cpacket_view \<lparr>cp_dst = d, cp_src = s, cp_msg = m\<rparr>"
  by (simp add: abstractify_net_packet_to_sht_packet_def abstractify_net_packet_to_lsht_packet_def
      sht_demarshal_serialize [OF assms] cpacket_view_def)

lemma receive_with_demarshal_cases:
  assumes contract: "receive_contract (nc_c_pointers nc)" and r: "receive_with_demarshal nc me = Ret (rr, ev, nc')"
    and me: "nc_end_point nc = me" "valid_physical_address me"
  shows "nc_end_point nc' = me \<and> nc_c_pointers nc' = nc_c_pointers nc \<and>
    (case rr of
       RFail \<Rightarrow> nc_state nc' = Error
     | RTimeout \<Rightarrow> nc_state nc' = nc_state nc \<and> ev = TimeoutReceive \<and> nc_history nc' = nc_history nc @ [ev]
     | RPacket p \<Rightarrow> nc_state nc' = nc_state nc \<and> nc_history nc' = nc_history nc @ [ev] \<and>
         cp_dst p = me \<and> cpacket_abstractable p \<and>
         (\<exists>r. ev = Receive r \<and>
            (cp_msg p \<noteq> CInvalidMessage \<longrightarrow> abstractify_net_packet_to_sht_packet r = cpacket_view p)))"
proof -
  obtain ok timed_out remote buffer where
    f: "receive_func (nc_c_pointers nc) (nc_calls nc) 0 = (ok, timed_out, remote, buffer)"
    using prod_cases4 by blast
  show ?thesis
  proof (cases "ok \<and> \<not> timed_out")
    case False
    then have "\<not> ok \<or> (ok \<and> timed_out)" by blast
    with r f me show ?thesis
      by (elim disjE conjE) (auto simp: receive_with_demarshal_def nc_receive_def nc_receive_internal_def)
  next
    case True
    then have "receive_func (nc_c_pointers nc) (nc_calls nc) 0 = (True, False, remote, buffer)" using f by simp
    with contract have sender: "valid_physical_address (EndPoint remote)" and "length buffer \<le> isize_max"
      unfolding receive_contract_def by blast+
    then have len: "length buffer \<le> usize_max" by (simp add: isize_max_def usize_max_def)
    from r f True me obtain m where m: "sht_demarshall_data_method buffer = Ret m"
      and eqs: "rr = RPacket \<lparr>cp_dst = me, cp_src = EndPoint remote, cp_msg = m\<rparr>"
        "ev = Receive \<lparr>lp_dst = me, lp_src = EndPoint remote, lp_msg = buffer\<rparr>"
        "nc' = nc\<lparr>nc_calls := nc_calls nc + 1, nc_history := nc_history nc @ [ev]\<rparr>"
      by (auto simp: receive_with_demarshal_def nc_receive_def nc_receive_internal_def Let_def outcome_simps)
    show ?thesis
      using eqs me sender demarshall_method_abstractable [OF m] demarshall_method_correct [OF m len]
        net_packet_reflects [of m me "EndPoint remote"]
      by (auto simp: cpacket_abstractable_def)
  qed
qed

lemma send_packet_correct:
  assumes p: "outbound_packet_is_valid p" and src: "cp_src p = nc_end_point nc"
    and send: "send_packet p nc = (ok, ev, nc')"
  shows "nc_end_point nc' = nc_end_point nc \<and> nc_c_pointers nc' = nc_c_pointers nc \<and> nc_ok nc' = ok \<and>
    (ok \<longrightarrow> (\<exists>e. ev = Some e \<and> nc_history nc' = nc_history nc @ [e] \<and>
       send_log_entry_reflects_packet e p \<and> is_marshalable_data e))"
proof -
  let ?s = "ghost_serialize csm_marshal (cp_msg p)"
  have m: "is_marshalable csm_marshal (cp_msg p)" using p by (simp add: outbound_packet_is_valid_def)
  have buf: "serialize csm_marshal (cp_msg p) [] = ?s" using csm.serialize [OF m, of "[]"] by simp
  let ?e = "Send \<lparr>lp_dst = cp_dst p, lp_src = cp_src p, lp_msg = ?s\<rparr>"
  have "send_log_entry_reflects_packet ?e p"
    using p net_packet_reflects [OF m, of "cp_dst p" "cp_src p"]
    by (simp add: send_log_entry_reflects_packet_def outbound_packet_is_valid_def cpacket_view_def)
  moreover have "is_marshalable_data ?e"
    using m csm.fits [OF m] by (simp add: is_marshalable_data_def net_packet_bound_def sht_demarshal_serialize usize_max_eq)
  ultimately show ?thesis using send src
    by (cases "send_func (nc_c_pointers nc) (nc_calls nc) (ep_id (cp_dst p)) ?s")
      (auto simp: send_packet_def buf nc_send_def nc_send_internal_def nc_ok_def Let_def)
qed

lemma send_packet_seq_loop_correct:
  assumes "\<forall>p \<in> set ps. outbound_packet_is_valid p \<and> cp_src p = nc_end_point nc" and "nc_ok nc"
    and "send_packet_seq_loop ps nc evs = (ok, evs', nc')"
  shows "nc_end_point nc' = nc_end_point nc \<and> nc_c_pointers nc' = nc_c_pointers nc \<and> nc_ok nc' = ok \<and>
    (ok \<longrightarrow> (\<exists>new. evs' = evs @ new \<and> nc_history nc' = nc_history nc @ new \<and>
       send_log_entries_reflect_packets new ps \<and> only_sent_marshalable_data new)) \<and> (\<not> ok \<longrightarrow> evs' = [])"
  using assms
proof (induction ps nc evs rule: send_packet_seq_loop.induct)
  case (1 nc evs)
  then show ?case by (auto simp: send_log_entries_reflect_packets_def only_sent_marshalable_data_def)
next
  case (2 p ps nc evs)
  obtain ok1 ev nc1 where send: "send_packet p nc = (ok1, ev, nc1)" by (rule prod_cases3)
  note one = send_packet_correct [OF _ _ send]
  show ?case
  proof (cases ok1)
    case True
    from one 2(2) True obtain e where e: "ev = Some e" "nc_history nc1 = nc_history nc @ [e]"
      "send_log_entry_reflects_packet e p" "is_marshalable_data e" by auto
    from one 2(2) True have nc1: "nc_end_point nc1 = nc_end_point nc" "nc_c_pointers nc1 = nc_c_pointers nc" "nc_ok nc1"
      by auto
    from 2(1) [OF send [symmetric] refl] True 2(2,4) send e nc1
    have "nc_end_point nc' = nc_end_point nc \<and> nc_c_pointers nc' = nc_c_pointers nc \<and> nc_ok nc' = ok \<and>
      (ok \<longrightarrow> (\<exists>new. evs' = evs @ e # new \<and> nc_history nc' = nc_history nc @ e # new \<and>
         send_log_entries_reflect_packets new ps \<and> only_sent_marshalable_data new)) \<and> (\<not> ok \<longrightarrow> evs' = [])"
      by auto
    with e show ?thesis
      by (auto simp: send_log_entries_reflect_packets_def only_sent_marshalable_data_def)
  next
    case False
    with 2(2,4) send one show ?thesis by auto
  qed
qed

lemma send_packet_seq_correct:
  assumes "outbound_packet_seq_is_valid ps" "outbound_packet_seq_has_correct_srcs ps (nc_end_point nc)" "nc_ok nc"
    and "send_packet_seq ps nc = (ok, evs, nc')"
  shows "nc_end_point nc' = nc_end_point nc \<and> nc_c_pointers nc' = nc_c_pointers nc \<and> nc_ok nc' = ok \<and>
    (ok \<longrightarrow> nc_history nc' = nc_history nc @ evs \<and> send_log_entries_reflect_packets evs ps \<and>
       only_sent_marshalable_data evs) \<and> (\<not> ok \<longrightarrow> evs = [])"
  using send_packet_seq_loop_correct [of ps nc "[]" ok evs nc'] assms
  by (auto simp: send_packet_seq_def outbound_packet_seq_is_valid_def outbound_packet_seq_has_correct_srcs_def)

section \<open>Properties\<close>

text \<open>C28: what a host sends is what its peer reads: the bytes of every message that the sender may
  send are parsed back to that message by the receiving method, and by the specification's choice of
  a message. The sources leave the first part open.\<close>

theorem sent_packets_are_understood:
  assumes "outbound_packet_is_valid p"
  shows "sht_demarshall_data_method (serialize csm_marshal (cp_msg p) []) = Ret (cp_msg p) \<and>
    sht_demarshal_data (serialize csm_marshal (cp_msg p) []) = cp_msg p"
proof -
  have m: "is_marshalable csm_marshal (cp_msg p)" and "csm_abstractable (cp_msg p)" "cp_msg p \<noteq> CInvalidMessage"
    using assms by (simp_all add: outbound_packet_is_valid_def cpacket_abstractable_def)
  then show ?thesis
    using csm.serialize [OF m, of "[]"] demarshall_method_complete sht_demarshal_serialize by simp
qed

theorem sent_packets_are_understood_witness:
  "sht_demarshall_data_method (serialize csm_marshal (CAck 7) []) = Ret (CAck 7)"
proof -
  have "outbound_packet_is_valid \<lparr>cp_dst = EndPoint [1], cp_src = EndPoint [2], cp_msg = CAck 7\<rparr>"
    by (simp add: outbound_packet_is_valid_def cpacket_abstractable_def valid_physical_address_def ack_fits)
  from sent_packets_are_understood [OF this] show ?thesis by simp
qed

text \<open>Sending a list of valid packets records in the history exactly one send event per packet, in
  order, each of which stands for its packet; when the network refuses one, the client is in the error
  state and no event is reported.\<close>

theorem sending_is_recorded:
  assumes "outbound_packet_seq_is_valid ps" and "outbound_packet_seq_has_correct_srcs ps (nc_end_point nc)" and "nc_ok nc"
    and "send_packet_seq ps nc = (ok, evs, nc')"
  shows "nc_ok nc' = ok \<and> (ok \<longrightarrow> nc_history nc' = nc_history nc @ evs \<and> send_log_entries_reflect_packets evs ps \<and>
    only_sent_marshalable_data evs) \<and> (\<not> ok \<longrightarrow> evs = [])"
  using send_packet_seq_correct [OF assms] by blast

text \<open>A network that delivers nothing and accepts every packet.\<close>

definition quiet_network :: NetClientCPointers where
  "quiet_network = \<lparr>get_time_func = (\<lambda>n. 0), receive_func = (\<lambda>n t. (True, True, [], [])), send_func = (\<lambda>n a b. True)\<rparr>"

theorem sending_is_recorded_witness:
  "let nc = nc_new (EndPoint [1]) quiet_network;
       p = \<lparr>cp_dst = EndPoint [2], cp_src = EndPoint [1], cp_msg = CAck 7\<rparr>;
       (ok, evs, nc') = send_packet_seq [p] nc
   in ok \<and> nc_history nc' = evs \<and> send_log_entries_reflect_packets evs [p]"
proof -
  let ?nc = "nc_new (EndPoint [1]) quiet_network"
  let ?p = "\<lparr>cp_dst = EndPoint [2], cp_src = EndPoint [1], cp_msg = CAck 7\<rparr>"
  obtain ok evs nc' where send: "send_packet_seq [?p] ?nc = (ok, evs, nc')" by (rule prod_cases3)
  have ok: ok using send
    by (auto simp: send_packet_seq_def send_packet_def nc_send_def nc_send_internal_def nc_new_def quiet_network_def Let_def)
  have "outbound_packet_seq_is_valid [?p]" "outbound_packet_seq_has_correct_srcs [?p] (nc_end_point ?nc)" "nc_ok ?nc"
    by (simp_all add: outbound_packet_seq_is_valid_def outbound_packet_seq_has_correct_srcs_def outbound_packet_is_valid_def
        cpacket_abstractable_def valid_physical_address_def ack_fits nc_new_def nc_ok_def)
  from sending_is_recorded [OF this send] ok send show ?thesis by (simp add: nc_new_def)
qed

end
