(* ===== verification/Host_Impl.thy ===== *)
theory Host_Impl
  imports Host_Protocol Net_Sht
begin

text \<open>
  The host program (\<open>host_impl_v.rs\<close>, \<open>host_impl_t.rs\<close>, \<open>main_t.rs\<close>): its state with the abstraction
  and the invariants, the parsing of the command line, one definition per action, the scheduler
  step and the main loop. A method that updates the host returns the new host. The network client
  is passed along in the same way. The argument \<open>ops\<close> holds the trusted methods of the hash table.
  The event results, which are ghost values in the source, are returned as the source builds them;
  the ghost acknowledgement of \<open>host_model_receive_packet\<close> is not.
\<close>

section \<open>Constants and parameters\<close>

record Parameters =
  p_max_seqno :: u64
  p_max_delegations :: u64

record Constants =
  cc_root_identity :: EndPoint
  cc_host_ids :: "EndPoint list"
  cc_params :: Parameters
  cc_me :: EndPoint

definition parameters_view :: "Parameters \<Rightarrow> AbstractParameters" where
  "parameters_view p = \<lparr>max_seqno = unat (p_max_seqno p), max_delegations = unat (p_max_delegations p)\<rparr>"

definition static_params :: Parameters where
  "static_params = \<lparr>p_max_seqno = 0xffffffffffffffff, p_max_delegations = 0x7fffffffffffffff\<rparr>"

definition parameters_valid :: "Parameters \<Rightarrow> bool" where
  "parameters_valid p \<longleftrightarrow>
     p_max_seqno p = 0xffffffffffffffff \<and> 3 < p_max_delegations p \<and> p_max_delegations p < 0x8000000000000000"

definition constants_view :: "Constants \<Rightarrow> AbstractConstants" where
  "constants_view c =
     \<lparr>ac_root_identity = cc_root_identity c, ac_host_ids = cc_host_ids c,
      ac_params = parameters_view (cc_params c), ac_me = cc_me c\<rparr>"

definition constants_valid :: "Constants \<Rightarrow> bool" where
  "constants_valid c \<longleftrightarrow>
     parameters_valid (cc_params c) \<and> seq_is_unique (cc_host_ids c) \<and> valid_physical_address (cc_root_identity c)"

section \<open>Event logs\<close>

definition all_ios_are_sends :: "LSHTIo list \<Rightarrow> bool" where
  "all_ios_are_sends ios \<longleftrightarrow> (\<forall>io \<in> set ios. is_Send io)"

definition abstractify_cpacket_to_lsht_packet :: "CPacket \<Rightarrow> LSHTPacket" where
  "abstractify_cpacket_to_lsht_packet cp = \<lparr>lp_dst = cp_dst cp, lp_src = cp_src cp, lp_msg = csm_view (cp_msg cp)\<rparr>"

definition map_sent_packet_seq_to_ios :: "CPacket list \<Rightarrow> LSHTIo list" where
  "map_sent_packet_seq_to_ios sent_packets =
     map (\<lambda>sent_packet. Send (abstractify_cpacket_to_lsht_packet sent_packet)) sent_packets"

definition abstractify_raw_log_to_ios :: "NetEvent list \<Rightarrow> LSHTIo list" where
  "abstractify_raw_log_to_ios rawlog = map abstractify_net_event_to_lsht_io rawlog"

definition cpacket_seq_is_abstractable :: "CPacket list \<Rightarrow> bool" where
  "cpacket_seq_is_abstractable packets \<longleftrightarrow> (\<forall>p \<in> set packets. cpacket_abstractable p)"

definition abstractify_outbound_packets_to_seq_of_lsht_packets :: "CPacket list \<Rightarrow> LSHTPacket list" where
  "abstractify_outbound_packets_to_seq_of_lsht_packets packets = map abstractify_cpacket_to_lsht_packet packets"

definition abstractify_seq_of_cpackets_to_set_of_sht_packets :: "CPacket list \<Rightarrow> Packet set" where
  "abstractify_seq_of_cpackets_to_set_of_sht_packets cps = set (map cpacket_view cps)"

record EventResults =
  er_recvs :: "NetEvent list"
  er_clocks :: "NetEvent list"
  er_sends :: "NetEvent list"
  er_ios :: "NetEvent list"

definition event_seq :: "EventResults \<Rightarrow> NetEvent list" where
  "event_seq r = er_recvs r @ er_clocks r @ er_sends r"

definition well_typed_events :: "EventResults \<Rightarrow> bool" where
  "well_typed_events r \<longleftrightarrow>
     (\<forall>e \<in> set (er_recvs r). case e of Receive _ \<Rightarrow> True | _ \<Rightarrow> False) \<and>
     (\<forall>e \<in> set (er_clocks r). case e of ReadClock _ \<Rightarrow> True | TimeoutReceive \<Rightarrow> True | _ \<Rightarrow> False) \<and>
     (\<forall>e \<in> set (er_sends r). is_Send e) \<and>
     length (er_clocks r) \<le> 1"

definition empty_event_results :: EventResults where
  "empty_event_results = \<lparr>er_recvs = [], er_clocks = [], er_sends = [], er_ios = []\<rparr>"

definition make_empty_event_results :: EventResults where
  "make_empty_event_results = \<lparr>er_recvs = [], er_clocks = [], er_sends = [], er_ios = []\<rparr>"

definition make_send_only_event_results :: "NetEvent list \<Rightarrow> EventResults" where
  "make_send_only_event_results net_events =
     \<lparr>er_recvs = [], er_clocks = [], er_sends = net_events, er_ios = net_events\<rparr>"

section \<open>Host state\<close>

record HostState =
  hs_next_action_index :: u64
  hs_resend_count :: u64
  hs_constants :: Constants
  hs_delegation_map :: "CKey DelegationMap"
  hs_h :: CKeyHashMap
  hs_sd :: CSingleDelivery
  hs_received_packet :: "CPacket option"
  hs_num_delegations :: u64
  hs_received_requests :: "AppRequest list"

definition host_view :: "HostState \<Rightarrow> AbstractHostState" where
  "host_view s =
     \<lparr>constants = constants_view (hs_constants s),
      delegation_map = dm_m (hs_delegation_map s),
      h = ckh_view (hs_h s),
      sd = csd_view (hs_sd s),
      received_packet = (case hs_received_packet s of None \<Rightarrow> None | Some cpacket \<Rightarrow> Some (cpacket_view cpacket)),
      num_delegations = int (unat (hs_num_delegations s)),
      received_requests = hs_received_requests s\<rparr>"

definition host_valid :: "HostState \<Rightarrow> bool" where
  "host_valid s \<longleftrightarrow>
     sht_dm_valid (hs_delegation_map s) \<and>
     (\<forall>k \<in> dom (ckh_view (hs_h s)). valid_value (the (ckh_view (hs_h s) k))) \<and>
     csd_valid (hs_sd s) \<and>
     (case hs_received_packet s of
        Some v \<Rightarrow> cpacket_abstractable v \<and> is_CMsg (cp_msg v) \<and> cp_dst v = cc_me (hs_constants s)
      | None \<Rightarrow> True) \<and>
     constants_valid (hs_constants s) \<and>
     hs_num_delegations s < p_max_delegations (cc_params (hs_constants s))"

definition host_invariants :: "HostState \<Rightarrow> AbstractEndPoint \<Rightarrow> bool" where
  "host_invariants s netc_end_point \<longleftrightarrow>
     hs_next_action_index s < 3 \<and>
     sht_dm_valid (hs_delegation_map s) \<and>
     cc_me (hs_constants s) = netc_end_point \<and>
     host_valid s \<and>
     valid_physical_address (cc_me (hs_constants s)) \<and>
     hs_num_delegations s < p_max_delegations (cc_params (hs_constants s)) \<and>
     parameters_view (cc_params (hs_constants s)) = abstract_static_params \<and>
     hs_resend_count s < 100000000"

section \<open>Initialization\<close>

definition parse_end_point :: "Arg \<Rightarrow> EndPoint" where
  "parse_end_point arg = EndPoint (clone_arg arg)"

fun parse_end_points_loop :: "Args \<Rightarrow> EndPoint list \<Rightarrow> EndPoint list option" where
  "parse_end_points_loop [] end_points = Some end_points"
| "parse_end_points_loop (arg # args) end_points =
     (let end_point = parse_end_point arg
      in if \<not> valid_physical_address end_point then None
         else parse_end_points_loop args (end_points @ [end_point]))"

definition parse_end_points :: "Args \<Rightarrow> EndPoint list option" where
  "parse_end_points args = parse_end_points_loop args []"

definition parse_command_line_configuration :: "Args \<Rightarrow> EndPoint \<Rightarrow> Constants option" where
  "parse_command_line_configuration args me =
     (case parse_end_points args of
        None \<Rightarrow> None
      | Some end_points \<Rightarrow>
          if length end_points = 0 then None
          else let unique = test_unique end_points
               in if \<not> unique then None
                  else Some \<lparr>cc_root_identity = ep_clone_up_to_view (end_points ! 0), cc_host_ids = end_points,
                             cc_params = static_params, cc_me = me\<rparr>)"

definition real_init_impl :: "NetClient \<Rightarrow> Args \<Rightarrow> HostState option outcome" where
  "real_init_impl netc args =
     (let me = get_my_end_point netc
      in case parse_command_line_configuration args me of
           None \<Rightarrow> Ret None
         | Some consts \<Rightarrow>
             let spare_root = ep_clone_up_to_view (cc_root_identity consts);
                 zero_key = shtkey_zero
             in bind_outcome (dm_new shtkey_cmp zero_key spare_root) (\<lambda>dm. Ret (Some
                  \<lparr>hs_next_action_index = 0,
                   hs_resend_count = 0,
                   hs_constants = consts,
                   hs_delegation_map = dm,
                   hs_h = ckh_new,
                   hs_sd = csd_empty,
                   hs_received_packet = None,
                   hs_num_delegations = 1,
                   hs_received_requests = []\<rparr>)))"

section \<open>Receiving a packet\<close>

definition deliver_packet_seq ::
    "NetClient \<Rightarrow> CPacket list \<Rightarrow> bool \<times> NetEvent list \<times> LSHTIo list \<times> NetClient" where
  "deliver_packet_seq netc packets =
     (let (ok, events, netc) = send_packet_seq packets netc
      in if \<not> ok then (ok, [], [], netc)
         else (ok, events, map_sent_packet_seq_to_ios packets, netc))"

definition deliver_outbound_packets ::
    "NetClient \<Rightarrow> CPacket list \<Rightarrow> bool \<times> NetEvent list \<times> LSHTIo list \<times> NetClient" where
  "deliver_outbound_packets netc packets = deliver_packet_seq netc packets"

definition host_model_receive_packet :: "HostState \<Rightarrow> CPacket \<Rightarrow> (CPacket list \<times> HostState) outcome" where
  "host_model_receive_packet s cpacket =
     (if hs_received_packet s = None then
        bind_outcome (receive_impl (hs_sd s) cpacket) (\<lambda>(recv_rr, csd).
          let s = s\<lparr>hs_sd := csd\<rparr>
          in case recv_rr of
               AckOrInvalid \<Rightarrow> Ret ([], s)
             | FreshPacket ack \<Rightarrow> Ret ([ack], s\<lparr>hs_received_packet := Some cpacket\<rparr>)
             | DuplicatePacket ack \<Rightarrow> Ret ([ack], s))
      else Ret ([], s))"

definition host_next_receive_packet ::
    "HostState \<Rightarrow> NetClient \<Rightarrow> CPacket \<Rightarrow> NetEvent
     \<Rightarrow> (bool \<times> EventResults \<times> LSHTIo list \<times> HostState \<times> NetClient) outcome" where
  "host_next_receive_packet s netc cpacket receive_event =
     bind_outcome (host_model_receive_packet s cpacket) (\<lambda>(sent_packets, s).
       let io0 = Receive (abstractify_cpacket_to_lsht_packet cpacket);
           (ok, net_events, ios_tail, netc) = deliver_outbound_packets netc sent_packets
       in if \<not> ok then Ret (False, empty_event_results, [], s, netc)
          else Ret (ok,
                    \<lparr>er_recvs = [receive_event], er_clocks = [], er_sends = net_events,
                     er_ios = receive_event # net_events\<rparr>,
                    io0 # ios_tail, s, netc))"

definition receive_packet_next_impl :: "HostState \<Rightarrow> NetClient \<Rightarrow> (bool \<times> EventResults \<times> HostState \<times> NetClient) outcome" where
  "receive_packet_next_impl s netc =
     bind_outcome (receive_with_demarshal netc (cc_me (hs_constants s))) (\<lambda>(rr, net_event, netc).
       case rr of
         RFail \<Rightarrow> Ret (False, \<lparr>er_recvs = [], er_clocks = [], er_sends = [], er_ios = []\<rparr>, s, netc)
       | RTimeout \<Rightarrow>
           Ret (True, \<lparr>er_recvs = [], er_clocks = [TimeoutReceive], er_sends = [], er_ios = [TimeoutReceive]\<rparr>, s, netc)
       | RPacket cpacket \<Rightarrow>
           (case cp_msg cpacket of
              CInvalidMessage \<Rightarrow>
                Ret (True, \<lparr>er_recvs = [net_event], er_clocks = [], er_sends = [], er_ios = [net_event]\<rparr>, s, netc)
            | _ \<Rightarrow>
                bind_outcome (host_next_receive_packet s netc cpacket net_event)
                  (\<lambda>(ok, event_results, ios, s, netc). Ret (ok, event_results, s, netc))))"

section \<open>Processing a message\<close>

definition should_process_received_message_impl :: "HostState \<Rightarrow> bool" where
  "should_process_received_message_impl s =
     (case hs_received_packet s of
        Some v \<Rightarrow>
          (case cp_msg v of
             CMsg _ _ cm \<Rightarrow>
               (case cm of
                  CDelegate _ _ \<Rightarrow> hs_num_delegations s + 1 < p_max_delegations (cc_params (hs_constants s)) - 1
                | CShard _ _ \<Rightarrow> hs_num_delegations s + 1 < p_max_delegations (cc_params (hs_constants s)) - 1
                | _ \<Rightarrow> True)
           | _ \<Rightarrow> False)
      | None \<Rightarrow> False)"

definition extract_range_impl :: "hash_ops \<Rightarrow> CKeyHashMap \<Rightarrow> CKey KeyRange \<Rightarrow> CKeyHashMap outcome" where
  "extract_range_impl ops tab kr = ops_filter ops tab (\<lambda>key. kr_contains_exec shtkey_cmp kr key)"

definition host_model_next_get_request :: "HostState \<Rightarrow> (CPacket list \<times> HostState) outcome" where
  "host_model_next_get_request s =
     bind_outcome (unwrap (hs_received_packet s)) (\<lambda>cpacket.
       case cp_msg cpacket of
         CMsg seqno _ (CGetRequest k) \<Rightarrow>
           bind_outcome (dm_get shtkey_cmp (hs_delegation_map s) k) (\<lambda>owner.
             let received_request = AppGetRequest (unat seqno) k;
                 its_me = do_end_points_match owner (cc_me (hs_constants s));
                 m = (if its_me then CReply (SHTKey (ukey k)) (clone_option_vec_u8 (ckh_get (hs_h s) k))
                      else CRedirect (SHTKey (ukey k)) (clone_end_point owner));
                 new_received_requests =
                   (if its_me then hs_received_requests s @ [received_request] else hs_received_requests s);
                 (optional_sm, csd) = send_single_cmessage (hs_sd s) m (cp_src cpacket);
                 s = s\<lparr>hs_sd := csd\<rparr>
             in case optional_sm of
                  Some sm \<Rightarrow>
                    let p = \<lparr>cp_dst = clone_end_point (cp_src cpacket),
                             cp_src = clone_end_point (cc_me (hs_constants s)), cp_msg = sm\<rparr>
                    in Ret ([p], s\<lparr>hs_received_requests := new_received_requests, hs_received_packet := None\<rparr>)
                | None \<Rightarrow> Ret ([], s\<lparr>hs_received_packet := None\<rparr>))
       | _ \<Rightarrow> Panic)"

definition host_model_next_set_request :: "hash_ops \<Rightarrow> HostState \<Rightarrow> (CPacket list \<times> HostState) outcome" where
  "host_model_next_set_request ops s =
     bind_outcome (unwrap (hs_received_packet s)) (\<lambda>cpacket.
       case cp_msg cpacket of
         CMsg seqno _ (CSetRequest k ov) \<Rightarrow>
           bind_outcome (dm_get shtkey_cmp (hs_delegation_map s) k) (\<lambda>owner.
           bind_outcome (is_message_marshallable ops (CSetRequest k ov)) (\<lambda>marshalable.
             if \<not> marshalable then Ret ([], s\<lparr>hs_received_packet := None\<rparr>)
             else
               let its_me = do_end_points_match owner (cc_me (hs_constants s));
                   mm = (if its_me then CReply k (clone_optional_value ov) else CRedirect k owner);
                   (optional_sm, csd) = send_single_cmessage (hs_sd s) mm (cp_src cpacket);
                   s = s\<lparr>hs_sd := csd\<rparr>;
                   received_request = AppSetRequest (unat seqno) k ov
               in case optional_sm of
                    Some sm \<Rightarrow>
                      let p = \<lparr>cp_dst = clone_end_point (cp_src cpacket),
                               cp_src = clone_end_point (cc_me (hs_constants s)), cp_msg = sm\<rparr>
                      in if its_me then
                           let s = s\<lparr>hs_received_requests := hs_received_requests s @ [received_request]\<rparr>
                           in bind_outcome
                                (case ov of
                                   Some v \<Rightarrow> Ret (ckh_insert (hs_h s) k (clone_vec_u8 v))
                                 | None \<Rightarrow> ops_remove ops (hs_h s) k) (\<lambda>tab.
                              Ret ([p], s\<lparr>hs_h := tab, hs_received_packet := None\<rparr>))
                         else Ret ([p], s\<lparr>hs_received_packet := None\<rparr>)
                  | None \<Rightarrow> Ret ([], s\<lparr>hs_received_packet := None\<rparr>)))
       | _ \<Rightarrow> Panic)"

definition host_model_next_delegate :: "hash_ops \<Rightarrow> HostState \<Rightarrow> (CPacket list \<times> HostState) outcome" where
  "host_model_next_delegate ops s =
     bind_outcome (unwrap (hs_received_packet s)) (\<lambda>cpacket.
       case cp_msg cpacket of
         CMsg seqno _ (CDelegate rng tab) \<Rightarrow>
           bind_outcome (is_message_marshallable ops (CDelegate rng tab)) (\<lambda>marshalable.
             if \<not> marshalable then Ret ([], s\<lparr>hs_received_packet := None\<rparr>)
             else if \<not> endpoints_contain (cc_host_ids (hs_constants s)) (cp_src cpacket) then
               Ret ([], s\<lparr>hs_received_packet := None\<rparr>)
             else
               bind_outcome (dm_set shtkey_cmp (hs_delegation_map s) (kr_lo rng) (kr_hi rng) (cc_me (hs_constants s)))
                 (\<lambda>dm.
               bind_outcome (ops_bulk_update ops (hs_h s) rng tab) (\<lambda>tab'.
               Ret ([], s\<lparr>hs_delegation_map := dm, hs_h := tab', hs_received_packet := None,
                          hs_num_delegations := hs_num_delegations s + 1\<rparr>))))
       | _ \<Rightarrow> Panic)"

definition host_model_next_shard :: "hash_ops \<Rightarrow> HostState \<Rightarrow> (CPacket list \<times> HostState) outcome" where
  "host_model_next_shard ops s =
     bind_outcome (unwrap (hs_received_packet s)) (\<lambda>cpacket.
       case cp_msg cpacket of
         CMsg _ _ m \<Rightarrow>
           bind_outcome (is_message_marshallable ops m) (\<lambda>marshalable.
           case m of
             CShard kr recipient \<Rightarrow>
               if \<not> marshalable \<or> do_end_points_match recipient (cc_me (hs_constants s)) \<or>
                  \<not> endpoints_contain (cc_host_ids (hs_constants s)) recipient
               then Ret ([], s\<lparr>hs_received_packet := None\<rparr>)
               else
                 bind_outcome
                   (dm_delegate_for_key_range_is_host_impl (hs_delegation_map s) (kr_lo kr) (kr_hi kr) (cc_me (hs_constants s)))
                   (\<lambda>this_host_owns_range.
                 if \<not> this_host_owns_range then Ret ([], s\<lparr>hs_received_packet := None\<rparr>)
                 else bind_outcome (extract_range_impl ops (hs_h s) kr) (\<lambda>tab.
                 if ckh_len tab \<ge> 62 then Ret ([], s\<lparr>hs_received_packet := None\<rparr>)
                 else
                   let out_m = CDelegate kr tab;
                       (optional_sm, csd) = send_single_cmessage (hs_sd s) out_m recipient;
                       s = s\<lparr>hs_sd := csd\<rparr>
                   in case optional_sm of
                        None \<Rightarrow>
                          Ret ([], s\<lparr>hs_received_packet := None, hs_num_delegations := hs_num_delegations s + 1\<rparr>)
                      | Some sm \<Rightarrow>
                          bind_outcome (dm_set shtkey_cmp (hs_delegation_map s) (kr_lo kr) (kr_hi kr) recipient) (\<lambda>dm.
                          bind_outcome (ops_bulk_remove ops (hs_h s) kr) (\<lambda>tab'.
                            let p = \<lparr>cp_dst = clone_end_point recipient,
                                     cp_src = clone_end_point (cc_me (hs_constants s)), cp_msg = sm\<rparr>
                            in Ret ([p], s\<lparr>hs_delegation_map := dm, hs_h := tab', hs_received_packet := None,
                                          hs_num_delegations := hs_num_delegations s + 1\<rparr>)))))
           | _ \<Rightarrow> Panic)
       | _ \<Rightarrow> Panic)"

definition host_model_next_receive_message :: "hash_ops \<Rightarrow> HostState \<Rightarrow> (CPacket list \<times> HostState) outcome" where
  "host_model_next_receive_message ops s =
     bind_outcome (unwrap (hs_received_packet s)) (\<lambda>cpacket.
       case cp_msg cpacket of
         CMsg _ _ m \<Rightarrow>
           (case m of
              CGetRequest _ \<Rightarrow> host_model_next_get_request s
            | CSetRequest _ _ \<Rightarrow> host_model_next_set_request ops s
            | CDelegate _ _ \<Rightarrow> host_model_next_delegate ops s
            | CShard _ _ \<Rightarrow> host_model_next_shard ops s
            | CReply _ _ \<Rightarrow> Ret ([], s\<lparr>hs_received_packet := None\<rparr>)
            | CRedirect _ _ \<Rightarrow> Ret ([], s\<lparr>hs_received_packet := None\<rparr>))
       | _ \<Rightarrow> Panic)"

definition process_received_packet_next_impl ::
    "hash_ops \<Rightarrow> HostState \<Rightarrow> NetClient \<Rightarrow> (bool \<times> EventResults \<times> HostState \<times> NetClient) outcome" where
  "process_received_packet_next_impl ops s netc =
     (if \<not> should_process_received_message_impl s then Ret (True, make_empty_event_results, s, netc)
      else bind_outcome (unwrap (hs_received_packet s)) (\<lambda>cpacket.
        if \<not> is_CMsg (cp_msg cpacket) then
          Ret (True, make_empty_event_results, s\<lparr>hs_received_packet := None\<rparr>, netc)
        else bind_outcome (host_model_next_receive_message ops s) (\<lambda>(sent_packets, s).
          let (ok, net_event_log, ios, netc) = deliver_outbound_packets netc sent_packets
          in if \<not> ok then Ret (False, make_empty_event_results, s, netc)
             else Ret (True, make_send_only_event_results net_event_log, s, netc))))"

section \<open>Retransmission\<close>

definition host_noreceive_noclock_next ::
    "hash_ops \<Rightarrow> HostState \<Rightarrow> NetClient \<Rightarrow> (bool \<times> EventResults \<times> HostState \<times> NetClient) outcome" where
  "host_noreceive_noclock_next ops s netc =
     bind_outcome (retransmit_un_acked_packets ops (hs_sd s) (cc_me (hs_constants s))) (\<lambda>sent_packets.
       let (ok, send_events, netc) = send_packet_seq sent_packets netc
       in if \<not> ok then Ret (False, empty_event_results, s, netc)
          else Ret (ok, \<lparr>er_recvs = [], er_clocks = [], er_sends = send_events, er_ios = send_events\<rparr>, s, netc))"

section \<open>Contracts of the actions\<close>

definition host_ignoring_unparseable :: "AbstractHostState \<Rightarrow> AbstractHostState \<Rightarrow> Packet set \<Rightarrow> bool" where
  "host_ignoring_unparseable pre post packets \<longleftrightarrow>
     card packets = 0 \<and> finite packets \<and>
     post = pre\<lparr>received_packet := None\<rparr> \<and>
     (case received_packet pre of
        Some p \<Rightarrow>
          (case pkt_msg p of
             Message _ dst (Delegate rng u) \<Rightarrow>
               \<not> (valid_hashtable u \<and> \<not> kr_is_empty shtkey_cmp rng \<and> valid_physical_address dst)
           | _ \<Rightarrow> False)
      | None \<Rightarrow> False)"

definition host_state_packet_preconditions :: "HostState \<Rightarrow> CPacket \<Rightarrow> bool" where
  "host_state_packet_preconditions s cpacket \<longleftrightarrow>
     cpacket_abstractable cpacket \<and>
     host_valid s \<and>
     valid_physical_address (cp_src cpacket) \<and>
     parameters_view (cc_params (hs_constants s)) = abstract_static_params \<and>
     hs_resend_count s < 100000000"

definition host_state_common_preconditions :: "HostState \<Rightarrow> bool" where
  "host_state_common_preconditions s \<longleftrightarrow>
     (case hs_received_packet s of
        Some cpacket \<Rightarrow> host_state_packet_preconditions s cpacket
      | None \<Rightarrow> False)"

definition host_state_common_postconditions :: "HostState \<Rightarrow> HostState \<Rightarrow> CPacket \<Rightarrow> CPacket list \<Rightarrow> bool" where
  "host_state_common_postconditions s pre cpacket sent_packets \<longleftrightarrow>
     hs_constants s = hs_constants pre \<and>
     cpacket_seq_is_abstractable sent_packets \<and>
     host_valid s \<and>
     hs_next_action_index s = hs_next_action_index pre \<and>
     outbound_packet_seq_is_valid sent_packets \<and>
     outbound_packet_seq_has_correct_srcs sent_packets (cc_me (hs_constants pre)) \<and>
     (\<forall>p \<in> set sent_packets. cp_msg p \<noteq> CInvalidMessage) \<and>
     abstractify_seq_of_cpackets_to_set_of_sht_packets sent_packets =
       extract_packets_from_lsht_packets (abstractify_outbound_packets_to_seq_of_lsht_packets sent_packets) \<and>
     hs_resend_count s < 100000000"

definition next_get_request_preconditions :: "HostState \<Rightarrow> bool" where
  "next_get_request_preconditions s \<longleftrightarrow>
     (case hs_received_packet s of
        Some cpacket \<Rightarrow>
          cpacket_abstractable cpacket \<and>
          (case cp_msg cpacket of CMsg _ _ (CGetRequest _) \<Rightarrow> True | _ \<Rightarrow> False) \<and>
          valid_physical_address (cp_src cpacket)
      | None \<Rightarrow> False) \<and>
     csd_valid (hs_sd s) \<and>
     host_state_common_preconditions s"

definition next_get_request_postconditions :: "HostState \<Rightarrow> HostState \<Rightarrow> CPacket list \<Rightarrow> bool" where
  "next_get_request_postconditions s pre sent_packets \<longleftrightarrow>
     next_get_request_preconditions pre \<and>
     cpacket_seq_is_abstractable sent_packets \<and>
     (case hs_received_packet pre of
        Some cpacket \<Rightarrow>
          next_get_request (host_view pre) (host_view s) (cpacket_view cpacket)
            (abstractify_seq_of_cpackets_to_set_of_sht_packets sent_packets)
      | None \<Rightarrow> False) \<and>
     host_state_common_postconditions s pre (the (hs_received_packet pre)) sent_packets \<and>
     hs_received_packet s = None"

definition next_set_request_preconditions :: "HostState \<Rightarrow> bool" where
  "next_set_request_preconditions s \<longleftrightarrow>
     (case hs_received_packet s of
        Some cpacket \<Rightarrow>
          cpacket_abstractable cpacket \<and>
          (case cp_msg cpacket of CMsg _ _ (CSetRequest _ _) \<Rightarrow> True | _ \<Rightarrow> False) \<and>
          valid_physical_address (cp_src cpacket)
      | None \<Rightarrow> False) \<and>
     csd_valid (hs_sd s) \<and>
     host_state_common_preconditions s"

definition next_set_request_postconditions :: "HostState \<Rightarrow> HostState \<Rightarrow> CPacket list \<Rightarrow> bool" where
  "next_set_request_postconditions s pre sent_packets \<longleftrightarrow>
     next_set_request_preconditions pre \<and>
     cpacket_seq_is_abstractable sent_packets \<and>
     (case hs_received_packet pre of
        Some cpacket \<Rightarrow>
          next_set_request (host_view pre) (host_view s) (cpacket_view cpacket)
            (abstractify_seq_of_cpackets_to_set_of_sht_packets sent_packets)
      | None \<Rightarrow> False) \<and>
     host_state_common_postconditions s pre (the (hs_received_packet pre)) sent_packets \<and>
     hs_received_packet s = None"

definition next_delegate_preconditions :: "HostState \<Rightarrow> bool" where
  "next_delegate_preconditions s \<longleftrightarrow>
     (case hs_received_packet s of
        Some cpacket \<Rightarrow>
          cpacket_abstractable cpacket \<and>
          (case cp_msg cpacket of CMsg _ _ (CDelegate _ _) \<Rightarrow> True | _ \<Rightarrow> False) \<and>
          valid_physical_address (cp_src cpacket)
      | None \<Rightarrow> False) \<and>
     csd_valid (hs_sd s) \<and>
     host_state_common_preconditions s \<and>
     valid_physical_address (cc_me (hs_constants s)) \<and>
     int (unat (hs_num_delegations s)) < int (unat (p_max_delegations (cc_params (hs_constants s)))) - 2"

definition next_delegate_postconditions :: "HostState \<Rightarrow> HostState \<Rightarrow> CPacket list \<Rightarrow> bool" where
  "next_delegate_postconditions s pre sent_packets \<longleftrightarrow>
     next_delegate_preconditions pre \<and>
     cpacket_seq_is_abstractable sent_packets \<and>
     host_state_common_postconditions s pre (the (hs_received_packet pre)) sent_packets \<and>
     hs_received_packet s = None \<and>
     (next_delegate (host_view pre) (host_view s) (cpacket_view (the (hs_received_packet pre)))
        (abstractify_seq_of_cpackets_to_set_of_sht_packets sent_packets) \<or>
      host_ignoring_unparseable (host_view pre) (host_view s)
        (abstractify_seq_of_cpackets_to_set_of_sht_packets sent_packets))"

definition next_shard_preconditions :: "HostState \<Rightarrow> bool" where
  "next_shard_preconditions s \<longleftrightarrow>
     (case hs_received_packet s of
        Some cpacket \<Rightarrow>
          cpacket_abstractable cpacket \<and>
          (case cp_msg cpacket of CMsg _ _ (CShard _ _) \<Rightarrow> True | _ \<Rightarrow> False) \<and>
          valid_physical_address (cp_src cpacket)
      | None \<Rightarrow> False) \<and>
     csd_valid (hs_sd s) \<and>
     host_state_common_preconditions s \<and>
     int (unat (hs_num_delegations s)) < int (unat (p_max_delegations (cc_params (hs_constants s)))) - 2"

definition next_shard_postconditions :: "HostState \<Rightarrow> HostState \<Rightarrow> CPacket list \<Rightarrow> bool" where
  "next_shard_postconditions s pre sent_packets \<longleftrightarrow>
     cpacket_seq_is_abstractable sent_packets \<and>
     host_state_common_postconditions s pre (the (hs_received_packet pre)) sent_packets \<and>
     hs_received_packet s = None \<and>
     (case hs_received_packet pre of
        Some cpacket \<Rightarrow>
          next_shard_wrapper (host_view pre) (host_view s) (cpacket_view cpacket)
            (abstractify_seq_of_cpackets_to_set_of_sht_packets sent_packets)
      | None \<Rightarrow> False)"

section \<open>The scheduler and the main loop\<close>

definition real_next_impl ::
    "hash_ops \<Rightarrow> HostState \<Rightarrow> NetClient \<Rightarrow> (bool \<times> EventResults \<times> HostState \<times> NetClient) outcome" where
  "real_next_impl ops s netc =
     (let cur_action_index = hs_next_action_index s
      in bind_outcome
           (if cur_action_index = 0 then receive_packet_next_impl s netc
            else if cur_action_index = 1 then process_received_packet_next_impl ops s netc
            else if cur_action_index = 2 then
              let s = s\<lparr>hs_resend_count := (hs_resend_count s + 1) mod 100000000\<rparr>
              in if hs_resend_count s = 0 then host_noreceive_noclock_next ops s netc
                 else Ret (True, make_empty_event_results, s, netc)
            else Panic)
           (\<lambda>(ok, res, s, netc).
              if \<not> ok then Ret (ok, res, s, netc)
              else Ret (ok, res, s\<lparr>hs_next_action_index := (hs_next_action_index s + 1) mod 3\<rparr>, netc)))"

definition init_impl :: "NetClient \<Rightarrow> Args \<Rightarrow> HostState option outcome" where
  "init_impl netc args = real_init_impl netc args"

definition next_impl ::
    "hash_ops \<Rightarrow> HostState \<Rightarrow> NetClient \<Rightarrow> (bool \<times> EventResults \<times> HostState \<times> NetClient) outcome" where
  "next_impl ops s netc = real_next_impl ops s netc"

definition init_ensures :: "NetClient \<Rightarrow> Args \<Rightarrow> HostState option \<Rightarrow> bool" where
  "init_ensures netc args rc \<longleftrightarrow>
     (case rc of
        None \<Rightarrow> True
      | Some s \<Rightarrow> nc_ok netc \<and> host_invariants s (nc_end_point netc) \<and> host_init (host_view s) (nc_end_point netc) args)"

definition next_requires :: "HostState \<Rightarrow> NetClient \<Rightarrow> bool" where
  "next_requires s netc \<longleftrightarrow> host_invariants s (nc_end_point netc) \<and> nc_state netc = Receiving"

definition host_state_next :: "AbstractHostState \<Rightarrow> AbstractHostState \<Rightarrow> NetEvent list \<Rightarrow> bool" where
  "host_state_next pre post ios = host_next pre post (abstractify_raw_log_to_ios ios)"

definition next_ensures ::
    "HostState \<Rightarrow> NetClient \<Rightarrow> HostState \<Rightarrow> NetClient \<Rightarrow> bool \<Rightarrow> EventResults \<Rightarrow> bool" where
  "next_ensures old_self old_netc new_self new_netc ok res \<longleftrightarrow>
     ok = nc_ok new_netc \<and>
     (ok \<longrightarrow> host_invariants new_self (nc_end_point new_netc)) \<and>
     (ok \<longrightarrow> host_state_next (host_view old_self) (host_view new_self) (er_ios res)) \<and>
     (ok \<longrightarrow> event_seq res = er_ios res) \<and>
     (ok \<or> length (er_sends res) > 0 \<longrightarrow> nc_history new_netc = nc_history old_netc @ event_seq res) \<and>
     well_typed_events res"

text \<open>The body of the loop of \<open>sht_main\<close>: one action, then a reset of the client if it succeeded.\<close>

definition main_loop_body :: "hash_ops \<Rightarrow> HostState \<Rightarrow> NetClient \<Rightarrow> (bool \<times> HostState \<times> NetClient) outcome" where
  "main_loop_body ops s netc =
     bind_outcome (next_impl ops s netc) (\<lambda>(shadow_ok, event_results, s, netc).
       let ok = shadow_ok
       in if ok then Ret (ok, s, nc_reset netc) else Ret (ok, s, netc))"

text \<open>The loop runs until the network fails, possibly forever: \<open>fuel\<close> bounds the number of rounds. The result
  is the value of \<open>ok\<close>, the host and the client when the loop ends or the fuel is used up; it is still running
  if \<open>ok\<close> holds.\<close>

fun main_loop :: "hash_ops \<Rightarrow> nat \<Rightarrow> bool \<Rightarrow> HostState \<Rightarrow> NetClient \<Rightarrow> (bool \<times> HostState \<times> NetClient) outcome" where
  "main_loop ops fuel False s netc = Ret (False, s, netc)"
| "main_loop ops 0 True s netc = Ret (True, s, netc)"
| "main_loop ops (Suc fuel) True s netc =
     bind_outcome (main_loop_body ops s netc) (\<lambda>(ok, s, netc). main_loop ops fuel ok s netc)"

text \<open>The result of \<open>sht_main\<close>: \<open>None\<close> is \<open>Err\<close>, from the initialization.\<close>

definition sht_main :: "hash_ops \<Rightarrow> nat \<Rightarrow> NetClient \<Rightarrow> Args \<Rightarrow> (bool \<times> HostState \<times> NetClient) option outcome" where
  "sht_main ops fuel netc args =
     bind_outcome (init_impl netc args) (\<lambda>opt_host_state.
       case opt_host_state of
         None \<Rightarrow> Ret None
       | Some s \<Rightarrow> bind_outcome (main_loop ops fuel True s netc) (\<lambda>r. Ret (Some r)))"

end
