(* ===== verification/Host_Refinement.thy ===== *)
theory Host_Refinement
  imports Host_Impl
begin

text \<open>
  The host program implements the protocol. The lemmas follow the program: initialization, the
  reception of a packet, the four message handlers with the contracts the source gives them,
  retransmission, and the scheduler step. They are proved in the locales of the hash table: in
  \<open>hash_map_contract\<close> for every run that returns, which covers the bodies as written, and in
  \<open>hash_map_total\<close> with the fact that the handlers return.
\<close>

section \<open>Views and packets\<close>

lemma host_view_simps [simp]:
  "constants (host_view s) = constants_view (hs_constants s)"
  "delegation_map (host_view s) = dm_m (hs_delegation_map s)"
  "h (host_view s) = ckh_view (hs_h s)"
  "sd (host_view s) = csd_view (hs_sd s)"
  "received_packet (host_view s) = map_option cpacket_view (hs_received_packet s)"
  "num_delegations (host_view s) = int (unat (hs_num_delegations s))"
  "received_requests (host_view s) = hs_received_requests s"
  by (simp_all add: host_view_def split: option.splits)

lemma host_view_eq_iff:
  "host_view s = t \<longleftrightarrow>
     constants t = constants_view (hs_constants s) \<and> delegation_map t = dm_m (hs_delegation_map s) \<and>
     h t = ckh_view (hs_h s) \<and> sd t = csd_view (hs_sd s) \<and>
     received_packet t = map_option cpacket_view (hs_received_packet s) \<and>
     num_delegations t = int (unat (hs_num_delegations s)) \<and> received_requests t = hs_received_requests s"
  by (cases t) (auto simp: host_view_def split: option.splits)

lemma constants_view_simps [simp]:
  "ac_me (constants_view c) = cc_me c" "ac_host_ids (constants_view c) = cc_host_ids c"
  "ac_params (constants_view c) = parameters_view (cc_params c)"
  "ac_root_identity (constants_view c) = cc_root_identity c"
  by (simp_all add: constants_view_def)

lemma cpacket_view_simps [simp]:
  "pkt_dst (cpacket_view p) = cp_dst p" "pkt_src (cpacket_view p) = cp_src p"
  "pkt_msg (cpacket_view p) = csm_view (cp_msg p)"
  by (simp_all add: cpacket_view_def)

lemma extract_cpacket [simp]:
  "extract_packet_from_lsht_packet (abstractify_cpacket_to_lsht_packet p) = cpacket_view p"
  by (simp add: extract_packet_from_lsht_packet_def abstractify_cpacket_to_lsht_packet_def cpacket_view_def)

lemma abstractify_seq_eq:
  "abstractify_seq_of_cpackets_to_set_of_sht_packets ps =
     extract_packets_from_lsht_packets (abstractify_outbound_packets_to_seq_of_lsht_packets ps)"
  "abstractify_seq_of_cpackets_to_set_of_sht_packets ps = cpacket_view ` set ps"
  "extract_packets_from_abstract_ios (map_sent_packet_seq_to_ios ps) = cpacket_view ` set ps"
  by (induction ps)
    (auto simp: abstractify_seq_of_cpackets_to_set_of_sht_packets_def extract_packets_from_lsht_packets_def
      abstractify_outbound_packets_to_seq_of_lsht_packets_def map_sent_packet_seq_to_ios_def)

section \<open>Initialization\<close>

lemma parse_end_points_loop_eq:
  "parse_end_points_loop args eps =
     (if \<forall>a \<in> set args. valid_physical_address (EndPoint a) then Some (eps @ map EndPoint args) else None)"
  by (induction args eps rule: parse_end_points_loop.induct) (auto simp: parse_end_point_def Let_def)

lemma parse_end_points_eq: "parse_end_points args = parse_args args"
proof -
  have "parse_arg_as_end_point = EndPoint" by (simp add: fun_eq_iff parse_arg_as_end_point_def)
  then show ?thesis
    by (simp add: parse_end_points_def parse_end_points_loop_eq parse_args_def unchecked_parse_args_def)
qed

lemma static_params_valid [simp]: "parameters_valid static_params" "parameters_view static_params = abstract_static_params"
  by (simp_all add: parameters_valid_def static_params_def parameters_view_def abstract_static_params_def)

lemma parse_args_valid: "parse_args args = Some eps \<Longrightarrow> ep \<in> set eps \<Longrightarrow> valid_physical_address ep"
  by (auto simp: parse_args_def Let_def split: if_splits)

lemma real_init_correct:
  assumes netc: "nc_valid netc"
  shows "\<exists>rc. real_init_impl netc args = Ret rc \<and> init_ensures netc args rc \<and>
    (rc = None \<longleftrightarrow> \<not> (\<exists>eps. parse_args args = Some eps \<and> eps \<noteq> [] \<and> seq_is_unique eps))"
proof (cases "\<exists>eps. parse_args args = Some eps \<and> eps \<noteq> [] \<and> seq_is_unique eps")
  case False
  then have "parse_command_line_configuration args (nc_end_point netc) = None"
    by (auto simp: parse_command_line_configuration_def parse_end_points_eq split: option.splits)
  with False show ?thesis
    by (auto simp: real_init_impl_def get_my_end_point_def init_ensures_def)
next
  case True
  then obtain eps where eps: "parse_args args = Some eps" "eps \<noteq> []" "seq_is_unique eps" by blast
  have root: "valid_physical_address (eps ! 0)" using eps by (auto intro: parse_args_valid)
  from sht.dm_new_correct [OF root] obtain dm where
    dm: "dm_new shtkey_cmp shtkey_zero (eps ! 0) = Ret dm" "sht_dm_valid dm" "dm_m dm = (\<lambda>k. Some (eps ! 0))"
    by blast
  let ?c = "\<lparr>cc_root_identity = eps ! 0, cc_host_ids = eps, cc_params = static_params, cc_me = nc_end_point netc\<rparr>"
  let ?s = "\<lparr>hs_next_action_index = 0, hs_resend_count = 0, hs_constants = ?c, hs_delegation_map = dm,
    hs_h = ckh_new, hs_sd = csd_empty, hs_received_packet = None, hs_num_delegations = 1, hs_received_requests = []\<rparr>"
  have c: "parse_command_line_configuration args (nc_end_point netc) = Some ?c"
    using eps by (simp add: parse_command_line_configuration_def parse_end_points_eq)
  have run: "real_init_impl netc args = Ret (Some ?s)"
    using c dm(1) by (simp add: real_init_impl_def get_my_end_point_def)
  have valid: "host_invariants ?s (nc_end_point netc)"
    using netc root dm eps csd_empty_correct
    by (simp add: host_invariants_def host_valid_def nc_valid_def constants_valid_def)
      (simp add: static_params_def)
  have init: "host_init (host_view ?s) (nc_end_point netc) args"
    using eps dm csd_empty_correct
    by (simp add: host_init_def host_view_eq_iff adm_init_def constants_view_def)
  from run valid init netc eps show ?thesis
    by (auto simp: init_ensures_def nc_valid_def)
qed

section \<open>Sending a reply\<close>

lemma send_none: "send_single_cmessage s m dst = (None, s') \<Longrightarrow> s' = s"
  by (auto simp: send_single_cmessage_def Let_def split: option.splits prod.splits if_splits)

text \<open>What a handler gets from sending a message \<open>m\<close>: the packet it sends is valid, and the
  single-delivery state takes a send step.\<close>

lemma send_reply:
  assumes sd: "csd_valid csd" and m: "message_marshallable m" "cmessage_abstractable m"
    and addr: "valid_physical_address dst" "valid_physical_address me"
    and send: "send_single_cmessage csd m dst = (osm, csd')"
  shows "csd_valid csd'"
    and "send_single_message (csd_view csd) (csd_view csd') (cmessage_view m) dst (map_option csm_view osm)
           abstract_static_params"
    and "osm = Some sm \<Longrightarrow> outbound_packet_is_valid \<lparr>cp_dst = dst, cp_src = me, cp_msg = sm\<rparr>"
    and "osm = Some sm \<Longrightarrow> sm_dst (csm_view sm) = dst"
    and "osm = None \<Longrightarrow> csd' = csd"
proof -
  note correct = send_single_cmessage_correct [OF sd m addr(1) send]
  show "csd_valid csd'"
    and "send_single_message (csd_view csd) (csd_view csd') (cmessage_view m) dst (map_option csm_view osm)
           abstract_static_params"
    using correct by blast+
  show "outbound_packet_is_valid \<lparr>cp_dst = dst, cp_src = me, cp_msg = sm\<rparr>"
    and "sm_dst (csm_view sm) = dst" if "osm = Some sm"
    using correct that addr
    by (auto simp: outbound_packet_is_valid_def cpacket_abstractable_def un_acked_valid_def is_CMsg_def)
  show "csd' = csd" if "osm = None" using send that send_none by blast
qed

lemma host_valid_iff:
  "host_valid s \<longleftrightarrow>
     sht_dm_valid (hs_delegation_map s) \<and> (\<forall>k v. ckh_view (hs_h s) k = Some v \<longrightarrow> valid_value v) \<and>
     csd_valid (hs_sd s) \<and>
     (\<forall>p. hs_received_packet s = Some p \<longrightarrow>
        cpacket_abstractable p \<and> is_CMsg (cp_msg p) \<and> cp_dst p = cc_me (hs_constants s)) \<and>
     constants_valid (hs_constants s) \<and> hs_num_delegations s < p_max_delegations (cc_params (hs_constants s))"
proof -
  have values_valid: "(\<forall>k \<in> dom t. valid_value (the (t k))) \<longleftrightarrow> (\<forall>k v. t k = Some v \<longrightarrow> valid_value v)"
    for t :: Hashtable unfolding dom_def by force
  show ?thesis unfolding host_valid_def values_valid by (cases "hs_received_packet s") simp_all
qed

lemma value_of_valid_table: "host_valid s \<Longrightarrow> valid_optional_value (ckh_view (hs_h s) k)"
  by (cases "ckh_view (hs_h s) k") (auto simp: valid_optional_value_def host_valid_iff)

section \<open>Handlers\<close>

lemma common_postconditions_intro:
  assumes "hs_constants s' = hs_constants s" "host_valid s'" "hs_next_action_index s' = hs_next_action_index s"
    and "hs_resend_count s' = hs_resend_count s" "hs_resend_count s < 100000000"
    and "\<forall>p \<in> set sent. outbound_packet_is_valid p \<and> cp_src p = cc_me (hs_constants s)"
  shows "host_state_common_postconditions s' s cpacket sent"
  using assms abstractify_seq_eq(1)
  by (auto simp: host_state_common_postconditions_def cpacket_seq_is_abstractable_def
      outbound_packet_seq_is_valid_def outbound_packet_seq_has_correct_srcs_def outbound_packet_is_valid_def)

lemma host_valid_clear [simp]: "host_valid s \<Longrightarrow> host_valid (s\<lparr>hs_received_packet := None\<rparr>)"
  by (simp add: host_valid_def)

text \<open>A handler that only drops the packet.\<close>

lemma drop_packet_postconditions:
  assumes "host_valid s" and "hs_resend_count s < 100000000"
  shows "host_state_common_postconditions (s\<lparr>hs_received_packet := None\<rparr>) s cpacket []"
  using assms by (intro common_postconditions_intro) simp_all

lemma no_packets_abstract [simp]:
  "abstractify_seq_of_cpackets_to_set_of_sht_packets [] = {}" "cpacket_seq_is_abstractable []"
  by (simp_all add: abstractify_seq_of_cpackets_to_set_of_sht_packets_def cpacket_seq_is_abstractable_def)

lemma one_packet_abstract [simp]:
  "abstractify_seq_of_cpackets_to_set_of_sht_packets [p] = {cpacket_view p}"
  by (simp add: abstractify_seq_of_cpackets_to_set_of_sht_packets_def)

lemma common_postconditions_abstractable:
  "host_state_common_postconditions s' s p sent \<Longrightarrow> cpacket_seq_is_abstractable sent"
  by (simp add: host_state_common_postconditions_def)

subsection \<open>Get requests\<close>

lemma next_get_request_correct:
  assumes pre: "next_get_request_preconditions s"
  shows "\<exists>sent s'. host_model_next_get_request s = Ret (sent, s') \<and> next_get_request_postconditions s' s sent"
proof -
  from pre obtain cpacket q d k where p: "hs_received_packet s = Some cpacket" "cp_msg cpacket = CMsg q d (CGetRequest k)"
    by (auto simp: next_get_request_preconditions_def split: option.splits CSingleMessage.splits CMessage.splits)
  from pre p have valid: "host_valid s" and rc: "hs_resend_count s < 100000000"
    and par: "parameters_view (cc_params (hs_constants s)) = abstract_static_params"
    and src: "valid_physical_address (cp_src cpacket)"
    by (simp_all add: next_get_request_preconditions_def host_state_common_preconditions_def
        host_state_packet_preconditions_def)
  from valid p have me: "valid_physical_address (cc_me (hs_constants s))"
    by (auto simp: host_valid_def cpacket_abstractable_def)
  from valid have dm: "sht_dm_valid (hs_delegation_map s)" and csd: "csd_valid (hs_sd s)"
    by (simp_all add: host_valid_def)
  define owner where "owner = adm_index (dm_m (hs_delegation_map s)) k"
  have get: "dm_get shtkey_cmp (hs_delegation_map s) k = Ret owner"
    unfolding owner_def by (rule sht_dm_get [OF dm])
  define mine where "mine \<longleftrightarrow> owner = cc_me (hs_constants s)"
  define m where "m = (if mine then CReply k (ckh_view (hs_h s) k) else CRedirect k owner)"
  have owner: "valid_physical_address owner"
    using dm by (auto simp: owner_def adm_index_def dm_valid_def)
  have m: "message_marshallable m" "cmessage_abstractable m"
    using valid owner by (auto simp: m_def valid_key_def intro: value_of_valid_table)
  obtain osm csd' where send: "send_single_cmessage (hs_sd s) m (cp_src cpacket) = (osm, csd')" by fastforce
  note reply = send_reply [OF csd m src me send]
  define reqs where "reqs = (if mine then hs_received_requests s @ [AppGetRequest (unat q) k] else hs_received_requests s)"
  show ?thesis
  proof (cases osm)
    case None
    let ?s' = "s\<lparr>hs_received_packet := None\<rparr>"
    have "host_model_next_get_request s = Ret ([], ?s')"
      using p get send None reply(5) by (cases mine) (simp_all add: host_model_next_get_request_def Let_def m_def mine_def)
    moreover have "next_get_request_reply (host_view s) (host_view ?s') (cp_src cpacket) (unat q) k InvalidMessage mm {} False"
      for mm by (simp add: next_get_request_reply_def host_view_eq_iff)
    then have "next_get_request (host_view s) (host_view ?s') (cpacket_view cpacket) {}"
      using p unfolding next_get_request_def by (simp, blast)
    ultimately show ?thesis
      using pre p drop_packet_postconditions [OF valid rc] by (simp add: next_get_request_postconditions_def)
  next
    case (Some sm)
    let ?s' = "s\<lparr>hs_sd := csd', hs_received_requests := reqs, hs_received_packet := None\<rparr>"
    let ?p = "\<lparr>cp_dst = cp_src cpacket, cp_src = cc_me (hs_constants s), cp_msg = sm\<rparr>"
    have run: "host_model_next_get_request s = Ret ([?p], ?s')"
      using p get send Some by (cases mine) (simp_all add: host_model_next_get_request_def Let_def m_def mine_def reqs_def)
    have "next_get_request_reply (host_view s) (host_view ?s') (cp_src cpacket) (unat q) k (csm_view sm) (cmessage_view m)
        {cpacket_view ?p} True"
      using reply(2,4) Some par
      by (auto simp: next_get_request_reply_def owner_def [symmetric] mine_def [symmetric] m_def reqs_def valid_key_def
          cpacket_view_def)
    then have "next_get_request (host_view s) (host_view ?s') (cpacket_view cpacket) {cpacket_view ?p}"
      using p unfolding next_get_request_def by (simp, blast)
    moreover have "host_state_common_postconditions ?s' s cpacket [?p]"
      using valid reply(1,3) Some rc by (intro common_postconditions_intro) (simp_all add: host_valid_def)
    ultimately show ?thesis
      using run pre p by (auto simp: next_get_request_postconditions_def dest: common_postconditions_abstractable)
  qed
qed

subsection \<open>Set requests, delegations and shards\<close>

text \<open>The counter of delegations does not wrap while the check of the scheduler holds.\<close>

lemma num_delegations_Suc:
  fixes n max :: u64
  assumes "int (unat n) < int (unat max) - 2"
  shows "unat (n + 1) = unat n + 1" and "n + 1 < max"
proof -
  have less: "unat n + 2 < unat max" using assms by linarith
  have "unat max < 2 ^ LENGTH(64)" by (rule unsigned_less)
  then have "unat n + 1 < 2 ^ 64" using less by simp
  then show "unat (n + 1) = unat n + 1" by (simp add: unat_word_ariths)
  then show "n + 1 < max" using less by (simp add: word_less_nat_alt)
qed

lemma sht_dm_set_range:
  assumes "sht_dm_valid m" and "valid_physical_address dst"
  obtains m' where "dm_set shtkey_cmp m (kr_lo kr) (kr_hi kr) dst = Ret m'" "sht_dm_valid m'"
    "dm_m m' = adm_update (dm_m m) kr dst"
  using sht_dm_set_update [OF assms, of "kr_lo kr" "kr_hi kr"] that by (cases kr) auto

lemma bulk_update_values:
  "bulk_update_hashtable t kr u k = Some v \<Longrightarrow> valid_hashtable u \<Longrightarrow> (\<And>k v. t k = Some v \<Longrightarrow> valid_value v) \<Longrightarrow>
   valid_value v"
  by (force simp: bulk_update_hashtable_def valid_hashtable_def split: if_splits)

lemma valid_value_update:
  "host_valid s \<Longrightarrow> ckh_view t = (case ov of None \<Rightarrow> (ckh_view (hs_h s))(k := None) | Some v \<Rightarrow> (ckh_view (hs_h s))(k \<mapsto> v)) \<Longrightarrow>
   valid_optional_value ov \<Longrightarrow> ckh_view t k' = Some v' \<Longrightarrow> valid_value v'"
  by (auto simp: host_valid_iff valid_optional_value_def split: option.splits if_splits)

context hash_map_contract
begin

lemma next_set_request_correct:
  assumes pre: "next_set_request_preconditions s" and run: "host_model_next_set_request ops s = Ret (sent, s')"
  shows "next_set_request_postconditions s' s sent"
proof -
  from pre obtain cpacket q d k ov where
    p: "hs_received_packet s = Some cpacket" "cp_msg cpacket = CMsg q d (CSetRequest k ov)"
    by (auto simp: next_set_request_preconditions_def split: option.splits CSingleMessage.splits CMessage.splits)
  from pre p have valid: "host_valid s" and rc: "hs_resend_count s < 100000000"
    and par: "parameters_view (cc_params (hs_constants s)) = abstract_static_params"
    and src: "valid_physical_address (cp_src cpacket)"
    by (simp_all add: next_set_request_preconditions_def host_state_common_preconditions_def
        host_state_packet_preconditions_def)
  from valid p have me: "valid_physical_address (cc_me (hs_constants s))"
    by (auto simp: host_valid_iff cpacket_abstractable_def)
  from valid have dm: "sht_dm_valid (hs_delegation_map s)" and csd: "csd_valid (hs_sd s)"
    by (simp_all add: host_valid_iff)
  define owner where "owner = adm_index (dm_m (hs_delegation_map s)) k"
  have get: "dm_get shtkey_cmp (hs_delegation_map s) k = Ret owner"
    unfolding owner_def by (rule sht_dm_get [OF dm])
  have owner: "valid_physical_address owner"
    using dm by (auto simp: owner_def adm_index_def dm_valid_def)
  have marsh: "is_message_marshallable ops (CSetRequest k ov) = Ret (valid_optional_value ov)"
    by (auto simp: valid_key_def valid_optional_value_iff split: option.splits)
  define mine where "mine \<longleftrightarrow> owner = cc_me (hs_constants s)"
  define m where "m = (if mine then CReply k ov else CRedirect k owner)"
  obtain osm csd' where send: "send_single_cmessage (hs_sd s) m (cp_src cpacket) = (osm, csd')" by fastforce
  have dropped: "next_set_request_postconditions (s\<lparr>hs_received_packet := None\<rparr>) s []"
    if "next_set_request_complete (host_view s) (host_view (s\<lparr>hs_received_packet := None\<rparr>)) (cp_src cpacket) (unat q) k ov
      InvalidMessage (Reply k ov) {} b" for b
  proof -
    from that have "next_set_request (host_view s) (host_view (s\<lparr>hs_received_packet := None\<rparr>)) (cpacket_view cpacket) {}"
      using p unfolding next_set_request_def by (simp, blast)
    then show ?thesis
      using pre p drop_packet_postconditions [OF valid rc] by (simp add: next_set_request_postconditions_def)
  qed
  show ?thesis
  proof (cases "valid_optional_value ov \<and> osm \<noteq> None")
    case False
    then consider "\<not> valid_optional_value ov" | "valid_optional_value ov" "osm = None" by blast
    then show ?thesis
    proof cases
      case 1
      with run p get marsh have "sent = []" "s' = s\<lparr>hs_received_packet := None\<rparr>"
        by (simp_all add: host_model_next_set_request_def)
      with 1 dropped [of True] show ?thesis by (simp add: next_set_request_complete_def host_view_eq_iff)
    next
      case 2
      with run p get marsh send send_none [of "hs_sd s" m "cp_src cpacket" csd']
      have "sent = []" "s' = s\<lparr>hs_received_packet := None\<rparr>"
        by (cases mine; simp add: host_model_next_set_request_def Let_def m_def mine_def)+
      with 2 dropped [of False] show ?thesis by (simp add: next_set_request_complete_def host_view_eq_iff)
    qed
  next
    case True
    then obtain sm where sm: "osm = Some sm" and ov: "valid_optional_value ov" by blast
    have m: "message_marshallable m" "cmessage_abstractable m"
      using ov owner by (auto simp: m_def valid_key_def)
    note reply = send_reply [OF csd m src me send]
    let ?p = "\<lparr>cp_dst = cp_src cpacket, cp_src = cc_me (hs_constants s), cp_msg = sm\<rparr>"
    let ?h = "if mine then case ov of None \<Rightarrow> (ckh_view (hs_h s))(k := None) | Some v \<Rightarrow> (ckh_view (hs_h s))(k \<mapsto> v)
      else ckh_view (hs_h s)"
    define reqs where "reqs = (if mine then hs_received_requests s @ [AppSetRequest (unat q) k ov] else hs_received_requests s)"
    define t where "t = hs_h s'"
    from run p get marsh ov send sm
    have "sent = [?p] \<and> ckh_view t = ?h \<and>
      s' = s\<lparr>hs_sd := csd', hs_received_requests := reqs, hs_h := t, hs_received_packet := None\<rparr>"
      unfolding t_def
      by (cases mine; cases ov)
        (auto simp: host_model_next_set_request_def Let_def m_def mine_def reqs_def outcome_simps dest!: remove)
    then have s': "sent = [?p]" "s' = s\<lparr>hs_sd := csd', hs_received_requests := reqs, hs_h := t, hs_received_packet := None\<rparr>"
      and t: "ckh_view t = ?h" by blast+
    have "next_set_request_complete (host_view s) (host_view s') (cp_src cpacket) (unat q) k ov (csm_view sm)
        (cmessage_view m) {cpacket_view ?p} True"
      using reply(2,4) sm par ov t s'
      by (auto simp: next_set_request_complete_def owner_def [symmetric] mine_def [symmetric] m_def reqs_def valid_key_def
          cpacket_view_def split: option.split)
    then have "next_set_request (host_view s) (host_view s') (cpacket_view cpacket) {cpacket_view ?p}"
      using p s' unfolding next_set_request_def by (simp, blast)
    moreover have "valid_value v'" if "ckh_view t k' = Some v'" for k' v'
      using valid_value_update [OF valid _ ov] that t valid by (auto simp: host_valid_iff split: if_splits)
    then have "host_state_common_postconditions s' s cpacket [?p]"
      using valid reply(1,3) sm rc s' by (intro common_postconditions_intro) (simp_all add: host_valid_iff)
    ultimately show ?thesis
      using s' pre p by (simp add: next_set_request_postconditions_def common_postconditions_abstractable)
  qed
qed

lemma next_delegate_correct:
  assumes pre: "next_delegate_preconditions s" and run: "host_model_next_delegate ops s = Ret (sent, s')"
  shows "next_delegate_postconditions s' s sent"
proof -
  from pre obtain cpacket q d rng u where
    p: "hs_received_packet s = Some cpacket" "cp_msg cpacket = CMsg q d (CDelegate rng u)"
    by (auto simp: next_delegate_preconditions_def split: option.splits CSingleMessage.splits CMessage.splits)
  from pre p have valid: "host_valid s" and rc: "hs_resend_count s < 100000000"
    and me: "valid_physical_address (cc_me (hs_constants s))"
    by (simp_all add: next_delegate_preconditions_def host_state_common_preconditions_def
        host_state_packet_preconditions_def)
  have "int (unat (hs_num_delegations s)) < int (unat (p_max_delegations (cc_params (hs_constants s)))) - 2"
    using pre unfolding next_delegate_preconditions_def by blast
  note num = num_delegations_Suc [OF this]
  note dropped = drop_packet_postconditions [OF valid rc]
  from run p obtain marsh where marsh: "is_message_marshallable ops (CDelegate rng u) = Ret marsh"
    by (auto simp: host_model_next_delegate_def outcome_simps)
  note marsh_iff = is_message_marshallable_correct [OF marsh]
  consider (ignored) "\<not> marsh" | (stranger) "marsh" "cp_src cpacket \<notin> set (cc_host_ids (hs_constants s))"
    | (update) "marsh" "cp_src cpacket \<in> set (cc_host_ids (hs_constants s))" by blast
  then show ?thesis
  proof cases
    case ignored
    with run p marsh have s': "sent = []" "s' = s\<lparr>hs_received_packet := None\<rparr>"
      by (simp_all add: host_model_next_delegate_def)
    have "host_ignoring_unparseable (host_view s) (host_view s') {}"
      using ignored marsh_iff p s' by (auto simp: host_ignoring_unparseable_def host_view_eq_iff)
    then show ?thesis using s' pre p dropped by (simp add: next_delegate_postconditions_def)
  next
    case stranger
    with run p marsh have s': "sent = []" "s' = s\<lparr>hs_received_packet := None\<rparr>"
      by (simp_all add: host_model_next_delegate_def)
    have "next_delegate (host_view s) (host_view s') (cpacket_view cpacket) {}"
      using stranger p s' by (simp add: next_delegate_def send_no_message_def receive_no_message_def)
    then show ?thesis using s' pre p dropped by (simp add: next_delegate_postconditions_def)
  next
    case update
    have "sht_dm_valid (hs_delegation_map s)" using valid by (simp add: host_valid_iff)
    then obtain dm where
      dm: "dm_set shtkey_cmp (hs_delegation_map s) (kr_lo rng) (kr_hi rng) (cc_me (hs_constants s)) = Ret dm" "sht_dm_valid dm"
        "dm_m dm = adm_update (dm_m (hs_delegation_map s)) rng (cc_me (hs_constants s))"
      using me by (rule sht_dm_set_range)
    from run p marsh update dm(1) obtain t where t: "ops_bulk_update ops (hs_h s) rng u = Ret t"
      and s': "sent = []" "s' = s\<lparr>hs_delegation_map := dm, hs_h := t, hs_received_packet := None,
        hs_num_delegations := hs_num_delegations s + 1\<rparr>"
      by (auto simp: host_model_next_delegate_def outcome_simps)
    have view: "ckh_view t = bulk_update_hashtable (ckh_view (hs_h s)) rng (ckh_view u)"
      by (rule bulk_update [OF t])
    have "next_delegate (host_view s) (host_view s') (cpacket_view cpacket) {}"
      using update p s' dm view num by (simp add: next_delegate_def send_no_message_def receive_no_message_def)
    moreover have "valid_hashtable (ckh_view u)" using update marsh_iff by simp
    then have "valid_value v" if "ckh_view t k = Some v" for k v
      using that valid by (auto simp: view bulk_update_values host_valid_iff)
    then have "host_state_common_postconditions s' s cpacket []"
      using valid dm rc s' num by (intro common_postconditions_intro) (simp_all add: host_valid_iff)
    ultimately show ?thesis using s' pre p by (simp add: next_delegate_postconditions_def)
  qed
qed

text \<open>A shard request that the protocol rejects is dropped, and nothing else happens.\<close>

lemma next_shard_rejected:
  assumes "next_shard_preconditions s" and "hs_received_packet s = Some cpacket" "cp_msg cpacket = CMsg q d (CShard kr r)"
    and "next_shard_wrapper_must_reject (host_view s) kr r"
  shows "next_shard_postconditions (s\<lparr>hs_received_packet := None\<rparr>) s []"
proof -
  have "host_valid s" "hs_resend_count s < 100000000"
    using assms(1,2) by (simp_all add: next_shard_preconditions_def host_state_common_preconditions_def
        host_state_packet_preconditions_def)
  note dropped = drop_packet_postconditions [OF this]
  have "next_shard_wrapper (host_view s) (host_view (s\<lparr>hs_received_packet := None\<rparr>)) (cpacket_view cpacket) {}"
    using assms by (simp add: next_shard_wrapper_def host_view_eq_iff)
  with dropped assms(2) show ?thesis by (simp add: next_shard_postconditions_def)
qed

lemma next_shard_accepted:
  assumes pre: "next_shard_preconditions s"
    and p: "hs_received_packet s = Some cpacket" "cp_msg cpacket = CMsg q d (CShard kr r)"
    and accept: "\<not> next_shard_wrapper_must_reject (host_view s) kr r"
    and tab: "ckh_view tab = extract_range (ckh_view (hs_h s)) kr"
    and send: "send_single_cmessage (hs_sd s) (CDelegate kr tab) r = (osm, csd')"
    and s': "s' = s\<lparr>hs_sd := csd', hs_delegation_map := dm, hs_h := tab', hs_received_packet := None,
               hs_num_delegations := hs_num_delegations s + 1\<rparr>"
    and none: "osm = None \<Longrightarrow> dm = hs_delegation_map s \<and> tab' = hs_h s \<and> sent = []"
    and some: "\<And>sm. osm = Some sm \<Longrightarrow> sht_dm_valid dm \<and> dm_m dm = adm_update (dm_m (hs_delegation_map s)) kr r \<and>
        ckh_view tab' = bulk_remove_hashtable (ckh_view (hs_h s)) kr \<and>
        sent = [\<lparr>cp_dst = r, cp_src = cc_me (hs_constants s), cp_msg = sm\<rparr>]"
  shows "next_shard_postconditions s' s sent"
proof -
  from pre p have valid: "host_valid s" and rc: "hs_resend_count s < 100000000"
    and par: "parameters_view (cc_params (hs_constants s)) = abstract_static_params"
    by (simp_all add: next_shard_preconditions_def host_state_common_preconditions_def
        host_state_packet_preconditions_def)
  have "int (unat (hs_num_delegations s)) < int (unat (p_max_delegations (cc_params (hs_constants s)))) - 2"
    using pre unfolding next_shard_preconditions_def by blast
  note num = num_delegations_Suc [OF this]
  from valid p have me: "valid_physical_address (cc_me (hs_constants s))"
    by (auto simp: host_valid_iff cpacket_abstractable_def)
  have r: "valid_physical_address r" using accept by (simp add: next_shard_wrapper_must_reject_def)
  have "valid_hashtable (extract_range (ckh_view (hs_h s)) kr)"
    using accept valid
    by (intro valid_hashtable_extract) (simp_all add: next_shard_wrapper_must_reject_def host_valid_iff)
  then have m: "message_marshallable (CDelegate kr tab)" "cmessage_abstractable (CDelegate kr tab)"
    using accept tab by (simp_all add: next_shard_wrapper_must_reject_def)
  have csd: "csd_valid (hs_sd s)" using valid by (simp add: host_valid_iff)
  note reply = send_reply [OF csd m r me send]
  have vals: "valid_value v" if "ckh_view tab' k = Some v" for k v
    using none some that valid by (cases osm) (auto simp: host_valid_iff bulk_remove_hashtable_def split: if_splits)
  have dm: "sht_dm_valid dm" using none some valid by (cases osm) (auto simp: host_valid_iff)
  have post: "host_state_common_postconditions s' s cpacket sent"
    using valid reply(1,3) dm vals rc s' num none some
    by (cases osm; intro common_postconditions_intro) (simp_all add: host_valid_iff)
  have "\<exists>sm b. next_shard (host_view s) (host_view s') (cpacket_view ` set sent) kr r sm b"
  proof (cases osm)
    case None
    then have "next_shard (host_view s) (host_view s') (cpacket_view ` set sent) kr r InvalidMessage False"
      using none s' reply(2) accept num tab par by (simp add: next_shard_def next_shard_wrapper_must_reject_def)
    then show ?thesis by blast
  next
    case (Some sm)
    then have "next_shard (host_view s) (host_view s') (cpacket_view ` set sent) kr r (csm_view sm) True"
      using some s' reply(2,4) accept num tab par
      by (simp add: next_shard_def next_shard_wrapper_must_reject_def cpacket_view_def)
    then show ?thesis by blast
  qed
  with accept p have "next_shard_wrapper (host_view s) (host_view s') (cpacket_view cpacket) (cpacket_view ` set sent)"
    by (simp add: next_shard_wrapper_def)
  with post p s' show ?thesis
    by (simp add: next_shard_postconditions_def abstractify_seq_eq(2) common_postconditions_abstractable)
qed

lemma next_shard_correct:
  assumes pre: "next_shard_preconditions s" and run: "host_model_next_shard ops s = Ret (sent, s')"
  shows "next_shard_postconditions s' s sent"
proof -
  from pre obtain cpacket q d kr r where
    p: "hs_received_packet s = Some cpacket" "cp_msg cpacket = CMsg q d (CShard kr r)"
    by (auto simp: next_shard_preconditions_def split: option.splits CSingleMessage.splits CMessage.splits)
  let ?me = "cc_me (hs_constants s)"
  have dmv: "sht_dm_valid (hs_delegation_map s)"
    using pre p by (simp add: next_shard_preconditions_def host_state_common_preconditions_def
        host_state_packet_preconditions_def host_valid_iff)
  have owns: "dm_delegate_for_key_range_is_host_impl (hs_delegation_map s) (kr_lo kr) (kr_hi kr) ?me =
      Ret (adm_delegate_for_key_range_is_host (dm_m (hs_delegation_map s)) kr ?me)"
    using sht_dm_range_check [OF dmv] by (cases kr) simp
  let ?ok = "valid_physical_address r \<and> ki_lt shtkey_cmp (kr_lo kr) (kr_hi kr) \<and> r \<noteq> ?me \<and>
    r \<in> set (cc_host_ids (hs_constants s)) \<and> adm_delegate_for_key_range_is_host (dm_m (hs_delegation_map s)) kr ?me"
  show ?thesis
  proof (cases ?ok)
    case False
    with run p owns have "sent = [] \<and> s' = s\<lparr>hs_received_packet := None\<rparr>"
      by (auto simp: host_model_next_shard_def outcome_simps split: if_splits)
    moreover have "next_shard_wrapper_must_reject (host_view s) kr r"
      using False by (auto simp: next_shard_wrapper_must_reject_def kr_is_empty_def)
    ultimately show ?thesis using next_shard_rejected [OF pre p] by simp
  next
    case True
    with run p owns obtain tab where tab: "ops_filter ops (hs_h s) (kr_contains shtkey_cmp kr) = Ret tab"
      by (auto simp: host_model_next_shard_def extract_range_impl_def outcome_simps)
    note view = filter_extract [OF tab]
    have reject: "next_shard_wrapper_must_reject (host_view s) kr r \<longleftrightarrow> ckh_len tab \<ge> 62"
      using True by (simp add: next_shard_wrapper_must_reject_def kr_is_empty_def view max_hashtable_size_def)
    obtain osm csd' where send: "send_single_cmessage (hs_sd s) (CDelegate kr tab) r = (osm, csd')" by fastforce
    show ?thesis
    proof (cases "ckh_len tab \<ge> 62")
      case large: True
      with run p owns True tab have "sent = [] \<and> s' = s\<lparr>hs_received_packet := None\<rparr>"
        by (simp add: host_model_next_shard_def extract_range_impl_def)
      with large reject next_shard_rejected [OF pre p] show ?thesis by simp
    next
      case small: False
      obtain dm where dm: "dm_set shtkey_cmp (hs_delegation_map s) (kr_lo kr) (kr_hi kr) r = Ret dm" "sht_dm_valid dm"
          "dm_m dm = adm_update (dm_m (hs_delegation_map s)) kr r"
        using dmv True by (blast elim: sht_dm_set_range)
      show ?thesis
      proof (cases osm)
        case None
        with run p owns True tab small send
        have "sent = []" and s': "s' = s\<lparr>hs_sd := csd', hs_delegation_map := hs_delegation_map s, hs_h := hs_h s,
            hs_received_packet := None, hs_num_delegations := hs_num_delegations s + 1\<rparr>"
          by (simp_all add: host_model_next_shard_def extract_range_impl_def Let_def)
        with small reject None show ?thesis
          by (intro next_shard_accepted [OF pre p _ view send s']) simp_all
      next
        case (Some sm)
        with run p owns True tab small send dm(1)
        obtain tab' where rem: "ops_bulk_remove ops (hs_h s) kr = Ret tab'"
          and sent: "sent = [\<lparr>cp_dst = r, cp_src = ?me, cp_msg = sm\<rparr>]"
          and s': "s' = s\<lparr>hs_sd := csd', hs_delegation_map := dm, hs_h := tab',
            hs_received_packet := None, hs_num_delegations := hs_num_delegations s + 1\<rparr>"
          by (auto simp: host_model_next_shard_def extract_range_impl_def Let_def outcome_simps)
        with small reject Some dm bulk_remove [OF rem] show ?thesis
          by (intro next_shard_accepted [OF pre p _ view send s']) simp_all
      qed
    qed
  qed
qed

end

section \<open>The dispatch on the message\<close>

lemma should_process_iff:
  assumes "host_valid s"
  shows "should_process_received_message_impl s \<longleftrightarrow> should_process_received_message (host_view s)"
proof -
  let ?n = "hs_num_delegations s" and ?max = "p_max_delegations (cc_params (hs_constants s))"
  have less: "unat ?n < unat ?max" using assms by (simp add: host_valid_iff word_less_nat_alt)
  have "unat ?max < 2 ^ LENGTH(64)" by (rule unsigned_less)
  with less have "unat ?n + 1 < 2 ^ 64" by simp
  then have n: "unat (?n + 1) = unat ?n + 1" by (simp add: unat_word_ariths)
  have "?max \<noteq> 0" using less by auto
  then have max: "unat (?max - 1) = unat ?max - 1" by (rule unat_minus_one)
  have iff: "?n + 1 < ?max - 1 \<longleftrightarrow> int (unat ?n) < int (unat ?max) - 2"
    unfolding word_less_nat_alt n max using less by linarith
  show ?thesis
  proof (cases "hs_received_packet s")
    case (Some p)
    show ?thesis
    proof (cases "cp_msg p")
      case (CMsg q d m)
      with Some iff show ?thesis
        by (cases m) (simp_all add: should_process_received_message_impl_def should_process_received_message_def
            parameters_view_def del: int_nat_eq)
    qed (use Some in \<open>simp_all add: should_process_received_message_impl_def should_process_received_message_def\<close>)
  qed (simp add: should_process_received_message_impl_def should_process_received_message_def)
qed

lemma should_process_room:
  assumes "should_process_received_message (host_view s)" and "hs_received_packet s = Some p" "cp_msg p = CMsg q d m"
    and "(\<exists>r u. m = CDelegate r u) \<or> (\<exists>r e. m = CShard r e)"
  shows "int (unat (hs_num_delegations s)) < int (unat (p_max_delegations (cc_params (hs_constants s)))) - 2"
  using assms by (auto simp: should_process_received_message_def parameters_view_def)

context hash_map_contract
begin

lemma next_receive_message_correct:
  assumes inv: "host_invariants s me" and process: "should_process_received_message (host_view s)"
    and run: "host_model_next_receive_message ops s = Ret (sent, s')"
  shows "host_state_common_postconditions s' s (the (hs_received_packet s)) sent \<and>
    (process_message (host_view s) (host_view s') (abstractify_seq_of_cpackets_to_set_of_sht_packets sent) \<or>
     host_ignoring_unparseable (host_view s) (host_view s') (abstractify_seq_of_cpackets_to_set_of_sht_packets sent))"
proof -
  from process obtain cpacket q d m where p: "hs_received_packet s = Some cpacket" "cp_msg cpacket = CMsg q d m"
    by (cases "hs_received_packet s"; cases "cp_msg (the (hs_received_packet s))")
      (auto simp: should_process_received_message_def)
  from inv have valid: "host_valid s" and rc: "hs_resend_count s < 100000000" by (simp_all add: host_invariants_def)
  have pkt: "cpacket_abstractable cpacket" "csd_valid (hs_sd s)" using valid p by (simp_all add: host_valid_iff)
  have common: "host_state_common_preconditions s"
    using inv p pkt by (simp add: host_state_common_preconditions_def host_state_packet_preconditions_def
        host_invariants_def cpacket_abstractable_def)
  have src: "valid_physical_address (cp_src cpacket)" using pkt by (simp add: cpacket_abstractable_def)
  have my: "valid_physical_address (cc_me (hs_constants s))" using inv unfolding host_invariants_def by blast
  note room = should_process_room [OF process p]
  note pres = p pkt common src my
  have proc: "process_message (host_view s) t out"
    if "received_packet t = None" and "next_get_request (host_view s) t (cpacket_view cpacket) out \<or>
      next_set_request (host_view s) t (cpacket_view cpacket) out \<or> next_delegate (host_view s) t (cpacket_view cpacket) out \<or>
      next_shard_wrapper (host_view s) t (cpacket_view cpacket) out \<or> next_reply (host_view s) t (cpacket_view cpacket) out \<or>
      next_redirect (host_view s) t (cpacket_view cpacket) out" for t out
    using that process p by (simp add: process_message_def)
  show ?thesis
  proof (cases m)
    case (CGetRequest k)
    have "next_get_request_preconditions s" using CGetRequest pres by (simp add: next_get_request_preconditions_def)
    from next_get_request_correct [OF this] run CGetRequest p
    have "next_get_request_postconditions s' s sent" by (auto simp: host_model_next_receive_message_def)
    with p show ?thesis by (simp add: next_get_request_postconditions_def proc)
  next
    case (CSetRequest k ov)
    have "next_set_request_preconditions s" using CSetRequest pres by (simp add: next_set_request_preconditions_def)
    moreover have "host_model_next_set_request ops s = Ret (sent, s')"
      using run CSetRequest p by (simp add: host_model_next_receive_message_def)
    ultimately have "next_set_request_postconditions s' s sent" by (rule next_set_request_correct)
    with p show ?thesis by (simp add: next_set_request_postconditions_def proc)
  next
    case (CReply k v)
    have s': "sent = []" "s' = s\<lparr>hs_received_packet := None\<rparr>"
      using run CReply p by (simp_all add: host_model_next_receive_message_def)
    then have "next_reply (host_view s) (host_view s') (cpacket_view cpacket) {}"
      using CReply p by (simp add: next_reply_def host_view_eq_iff)
    then show ?thesis using s' drop_packet_postconditions [OF valid rc] by (simp add: proc)
  next
    case (CRedirect k e)
    have s': "sent = []" "s' = s\<lparr>hs_received_packet := None\<rparr>"
      using run CRedirect p by (simp_all add: host_model_next_receive_message_def)
    then have "next_redirect (host_view s) (host_view s') (cpacket_view cpacket) {}"
      using CRedirect p by (simp add: next_redirect_def host_view_eq_iff)
    then show ?thesis using s' drop_packet_postconditions [OF valid rc] by (simp add: proc)
  next
    case (CShard kr r)
    have "next_shard_preconditions s"
      unfolding next_shard_preconditions_def using CShard pres room by simp
    moreover have "host_model_next_shard ops s = Ret (sent, s')"
      using run CShard p by (simp add: host_model_next_receive_message_def)
    ultimately have "next_shard_postconditions s' s sent" by (rule next_shard_correct)
    with p show ?thesis by (simp add: next_shard_postconditions_def proc)
  next
    case (CDelegate rng u)
    have "next_delegate_preconditions s"
      unfolding next_delegate_preconditions_def using CDelegate pres room by simp
    moreover have "host_model_next_delegate ops s = Ret (sent, s')"
      using run CDelegate p by (simp add: host_model_next_receive_message_def)
    ultimately have "next_delegate_postconditions s' s sent" by (rule next_delegate_correct)
    with p show ?thesis by (auto simp: next_delegate_postconditions_def proc)
  qed
qed

end

section \<open>Delivering packets\<close>

lemma send_log_abstract:
  assumes "send_log_entries_reflect_packets evs ps"
  shows "abstractify_raw_log_to_ios evs = map_sent_packet_seq_to_ios ps" and "\<forall>e \<in> set evs. is_Send e"
proof -
  have one: "abstractify_net_event_to_lsht_io e = Send (abstractify_cpacket_to_lsht_packet p) \<and> is_Send e"
    if "send_log_entry_reflects_packet e p" for e p
    using that by (auto simp: send_log_entry_reflects_packet_def abstractify_net_event_to_lsht_io_def is_Send_def
        abstractify_net_packet_to_sht_packet_def abstractify_net_packet_to_lsht_packet_def
        abstractify_cpacket_to_lsht_packet_def cpacket_view_def)
  have all: "list_all2 send_log_entry_reflects_packet evs ps"
    using assms by (simp add: send_log_entries_reflect_packets_def)
  show "abstractify_raw_log_to_ios evs = map_sent_packet_seq_to_ios ps"
    using all by (induction rule: list_all2_induct)
      (auto simp: abstractify_raw_log_to_ios_def map_sent_packet_seq_to_ios_def dest: one)
  show "\<forall>e \<in> set evs. is_Send e"
    using all by (induction rule: list_all2_induct) (auto dest: one)
qed

lemma sent_ios:
  "\<forall>io \<in> set (map_sent_packet_seq_to_ios ps). is_Send io"
  "outbound_packet_seq_is_valid ps \<Longrightarrow> no_invalid_sends (map_sent_packet_seq_to_ios ps)"
  by (auto simp: map_sent_packet_seq_to_ios_def is_Send_def no_invalid_sends_def outbound_packet_seq_is_valid_def
      outbound_packet_is_valid_def abstractify_cpacket_to_lsht_packet_def)

text \<open>Sending the packets of an action, whether through \<open>deliver_outbound_packets\<close> or directly.\<close>

lemma send_seq_effect:
  assumes "outbound_packet_seq_is_valid ps" "outbound_packet_seq_has_correct_srcs ps (nc_end_point nc)" "nc_ok nc"
    and "send_packet_seq ps nc = (ok, evs, nc')"
  shows "nc_end_point nc' = nc_end_point nc" "nc_c_pointers nc' = nc_c_pointers nc" "nc_ok nc' = ok"
    and "ok \<Longrightarrow> nc_history nc' = nc_history nc @ evs"
    and "ok \<Longrightarrow> abstractify_raw_log_to_ios evs = map_sent_packet_seq_to_ios ps"
    and "ok \<Longrightarrow> \<forall>e \<in> set evs. is_Send e"
  using send_packet_seq_correct [OF assms] send_log_abstract by blast+

lemma deliver_outbound_eq:
  "deliver_outbound_packets nc ps =
     (case send_packet_seq ps nc of (ok, evs, nc') \<Rightarrow>
        (ok, if ok then evs else [], if ok then map_sent_packet_seq_to_ios ps else [], nc'))"
  by (auto simp: deliver_outbound_packets_def deliver_packet_seq_def split: prod.split)

section \<open>Receiving a packet\<close>

lemma host_model_receive_packet_correct:
  assumes valid: "host_valid s" and rc: "hs_resend_count s < 100000000" and pkt: "cpacket_abstractable cpacket"
    and dst: "cp_dst cpacket = cc_me (hs_constants s)"
  shows "\<exists>sent s' ack. host_model_receive_packet s cpacket = Ret (sent, s') \<and>
    host_state_common_postconditions s' s cpacket sent \<and>
    receive_packet (host_view s) (host_view s') (cpacket_view cpacket)
      (abstractify_seq_of_cpackets_to_set_of_sht_packets sent) ack \<and>
    s' = s\<lparr>hs_sd := hs_sd s', hs_received_packet := hs_received_packet s'\<rparr>"
proof (cases "hs_received_packet s")
  case (Some p)
  have "receive_packet (host_view s) (host_view s) (cpacket_view cpacket) {} (cpacket_view cpacket)"
    using Some by (simp add: receive_packet_def)
  moreover have "host_state_common_postconditions s s cpacket []"
    using valid rc by (intro common_postconditions_intro) simp_all
  ultimately show ?thesis using Some by (auto simp: host_model_receive_packet_def)
next
  case None
  from valid have csd: "csd_valid (hs_sd s)" by (simp add: host_valid_iff)
  from receive_impl_correct [OF csd pkt] obtain rr csd' ack where
    rr: "receive_impl (hs_sd s) cpacket = Ret (rr, csd')" "csd_valid csd'"
      "sd_receive (csd_view (hs_sd s)) (csd_view csd') (cpacket_view cpacket) ack (get_abstracted_ack_set rr)"
    and fresh: "(\<exists>ack. rr = FreshPacket ack) \<longleftrightarrow> new_single_message (csd_view (hs_sd s)) (cpacket_view cpacket)"
    and acks: "\<And>ack. rr = FreshPacket ack \<or> rr = DuplicatePacket ack \<Longrightarrow> valid_ack ack cpacket"
    by blast
  define sent where "sent = (case rr of FreshPacket a \<Rightarrow> [a] | DuplicatePacket a \<Rightarrow> [a] | AckOrInvalid \<Rightarrow> [])"
  define rp where "rp = (case rr of FreshPacket a \<Rightarrow> Some cpacket | _ \<Rightarrow> None)"
  let ?s' = "s\<lparr>hs_sd := csd', hs_received_packet := rp\<rparr>"
  have run: "host_model_receive_packet s cpacket = Ret (sent, ?s')"
    using None rr(1) by (cases rr) (simp_all add: host_model_receive_packet_def sent_def rp_def)
  have out: "abstractify_seq_of_cpackets_to_set_of_sht_packets sent = get_abstracted_ack_set rr"
    by (cases rr) (simp_all add: sent_def get_abstracted_ack_set_def)
  have msg: "is_CMsg (cp_msg cpacket)" if "rr = FreshPacket a" for a
    using that fresh by (cases "cp_msg cpacket") (auto simp: new_single_message_def)
  have rp: "rp = (if new_single_message (csd_view (hs_sd s)) (cpacket_view cpacket) then Some cpacket else None)"
    using fresh by (cases rr) (auto simp: rp_def)
  have "host_valid ?s'"
    using valid rr(2) pkt dst msg by (cases rr) (auto simp: host_valid_iff rp_def)
  moreover have "\<forall>p \<in> set sent. outbound_packet_is_valid p \<and> cp_src p = cc_me (hs_constants s)"
    using acks dst by (cases rr) (simp_all add: sent_def valid_ack_def)
  ultimately have "host_state_common_postconditions ?s' s cpacket sent"
    using rc by (intro common_postconditions_intro) simp_all
  moreover have "receive_packet (host_view s) (host_view ?s') (cpacket_view cpacket) (get_abstracted_ack_set rr) ack"
    using None rr(3) rp by (simp add: receive_packet_def)
  ultimately show ?thesis using run out by auto
qed

end
