(* ===== verification/Host_Step.thy ===== *)
theory Host_Step
  imports Host_Refinement
begin

text \<open>
  The three actions of the scheduler and the scheduler step meet the contract \<open>next_ensures\<close> of
  \<open>host_impl_t.rs\<close>: a step that succeeds keeps the invariants, is a step of the protocol for exactly
  the events that the network client has recorded, and leaves the client able to go on.
\<close>

section \<open>The contract of an action\<close>

lemma host_view_scheduler [simp]:
  "host_view (s\<lparr>hs_next_action_index := i\<rparr>) = host_view s" "host_view (s\<lparr>hs_resend_count := n\<rparr>) = host_view s"
  by (simp_all add: host_view_def)

lemma host_valid_scheduler [simp]:
  "host_valid (s\<lparr>hs_next_action_index := i\<rparr>) = host_valid s" "host_valid (s\<lparr>hs_resend_count := n\<rparr>) = host_valid s"
  by (simp_all add: host_valid_iff)

lemma invariants_scheduler:
  "host_invariants s me \<Longrightarrow> i < 3 \<Longrightarrow> host_invariants (s\<lparr>hs_next_action_index := i\<rparr>) me"
  "host_invariants s me \<Longrightarrow> n < 100000000 \<Longrightarrow> host_invariants (s\<lparr>hs_resend_count := n\<rparr>) me"
  by (auto simp: host_invariants_def)

lemma invariants_after:
  "host_invariants s me \<Longrightarrow> host_state_common_postconditions s' s p sent \<Longrightarrow> host_invariants s' me"
  unfolding host_invariants_def host_state_common_postconditions_def host_valid_def by metis

lemma invariantsD:
  assumes "host_invariants s me"
  shows "host_valid s" "hs_resend_count s < 100000000" "cc_me (hs_constants s) = me" "valid_physical_address me"
    "hs_next_action_index s < 3"
  using assms unfolding host_invariants_def by blast+

lemma next_requiresD:
  assumes "next_requires s nc"
  shows "host_invariants s (nc_end_point nc)" "nc_ok nc" "nc_state nc = Receiving"
    "cc_me (hs_constants s) = nc_end_point nc" "valid_physical_address (nc_end_point nc)"
  using assms invariantsD unfolding next_requires_def nc_ok_def by (blast, simp, blast+)

lemma invariants_complete: "host_invariants s me \<Longrightarrow> adm_is_complete (dm_m (hs_delegation_map s))"
  by (simp add: host_invariants_def sht_dm_complete)

text \<open>What an action promises: \<open>next_ensures\<close>, and that the scheduler's index, the address and the
  pointers of the client stay.\<close>

definition action_ensures ::
    "HostState \<Rightarrow> NetClient \<Rightarrow> bool \<Rightarrow> EventResults \<Rightarrow> HostState \<Rightarrow> NetClient \<Rightarrow> bool" where
  "action_ensures s nc ok res s' nc' \<longleftrightarrow>
     next_ensures s nc s' nc' ok res \<and> nc_end_point nc' = nc_end_point nc \<and> nc_c_pointers nc' = nc_c_pointers nc \<and>
     hs_next_action_index s' = hs_next_action_index s \<and> hs_constants s' = hs_constants s"

lemma action_failed:
  assumes "nc_state nc' = Error \<or> \<not> nc_ok nc'" "nc_end_point nc' = nc_end_point nc" "nc_c_pointers nc' = nc_c_pointers nc"
    and "hs_next_action_index s' = hs_next_action_index s" "hs_constants s' = hs_constants s"
    and "res = \<lparr>er_recvs = [], er_clocks = [], er_sends = [], er_ios = []\<rparr>"
  shows "action_ensures s nc False res s' nc'"
  using assms by (auto simp: action_ensures_def next_ensures_def well_typed_events_def nc_ok_def)

lemma action_succeeded:
  assumes step: "next_step (host_view s) (host_view s') (abstractify_raw_log_to_ios (er_ios res)) step"
    and sends: "no_invalid_sends (abstractify_raw_log_to_ios (er_ios res))"
    and inv: "host_invariants s' (nc_end_point nc)" and const: "hs_constants s' = hs_constants s"
    and idx: "hs_next_action_index s' = hs_next_action_index s"
    and nc: "nc_ok nc'" "nc_end_point nc' = nc_end_point nc" "nc_c_pointers nc' = nc_c_pointers nc"
      "nc_history nc' = nc_history nc @ er_ios res"
    and ev: "event_seq res = er_ios res" "well_typed_events res"
  shows "action_ensures s nc True res s' nc'"
proof -
  have "host_next (host_view s) (host_view s') (abstractify_raw_log_to_ios (er_ios res))"
    using step sends const by (intro host_next_intro) simp_all
  then show ?thesis
    using assms by (simp add: action_ensures_def next_ensures_def host_state_next_def)
qed

lemma abstractify_log_simps [simp]:
  "abstractify_raw_log_to_ios [] = []"
  "abstractify_raw_log_to_ios (e # es) = abstractify_net_event_to_lsht_io e # abstractify_raw_log_to_ios es"
  "abstractify_net_event_to_lsht_io TimeoutReceive = TimeoutReceive"
  "abstractify_net_event_to_lsht_io (Receive r) = Receive (abstractify_net_packet_to_lsht_packet r)"
  by (simp_all add: abstractify_raw_log_to_ios_def abstractify_net_event_to_lsht_io_def)

lemma well_typed_sends [simp]:
  "\<forall>e \<in> set evs. is_Send e \<Longrightarrow> well_typed_events \<lparr>er_recvs = [], er_clocks = [], er_sends = evs, er_ios = ios\<rparr>"
  "\<forall>e \<in> set evs. is_Send e \<Longrightarrow> well_typed_events \<lparr>er_recvs = [Receive r], er_clocks = [], er_sends = evs, er_ios = ios\<rparr>"
  by (simp_all add: well_typed_events_def)

section \<open>The receive action\<close>

lemma receive_step_of_packet:
  assumes "adm_is_complete (delegation_map pre)" "\<forall>io \<in> set ios. is_Send io"
    and "receive_packet pre post (extract_packet_from_lsht_packet r) (extract_packets_from_abstract_ios ios) ack"
  shows "next_step pre post (Receive r # ios) ReceivePacket"
  using assms by (auto simp: next_step_def receive_packet_next_def receive_packet_without_reading_clock_def
      receive_packet_wrapper_def extract_packet_from_lsht_packet_def)

lemma host_next_receive_packet_correct:
  assumes inv: "host_invariants s (nc_end_point nc)" and ok: "nc_ok nc1"
    and nc1: "nc_end_point nc1 = nc_end_point nc" "nc_c_pointers nc1 = nc_c_pointers nc"
      "nc_history nc1 = nc_history nc @ [Receive r]"
    and p: "cpacket_abstractable p" "cp_dst p = nc_end_point nc"
    and r: "abstractify_net_packet_to_sht_packet r = cpacket_view p"
  shows "\<exists>ok res ios s' nc'. host_next_receive_packet s nc1 p (Receive r) = Ret (ok, res, ios, s', nc') \<and>
    action_ensures s nc ok res s' nc' \<and>
    s' = s\<lparr>hs_sd := hs_sd s', hs_received_packet := hs_received_packet s'\<rparr>"
proof -
  from inv have valid: "host_valid s" "hs_resend_count s < 100000000" and me: "cc_me (hs_constants s) = nc_end_point nc"
    by (simp_all add: host_invariants_def)
  from host_model_receive_packet_correct [OF valid p(1)] p(2) me obtain sent s' ack where
    run: "host_model_receive_packet s p = Ret (sent, s')" and post: "host_state_common_postconditions s' s p sent"
    and recv: "receive_packet (host_view s) (host_view s') (cpacket_view p)
      (abstractify_seq_of_cpackets_to_set_of_sht_packets sent) ack"
    and only: "s' = s\<lparr>hs_sd := hs_sd s', hs_received_packet := hs_received_packet s'\<rparr>"
    by auto
  obtain ok2 evs nc' where send: "send_packet_seq sent nc1 = (ok2, evs, nc')" by (rule prod_cases3)
  have sent: "outbound_packet_seq_is_valid sent" "outbound_packet_seq_has_correct_srcs sent (nc_end_point nc1)"
    and same: "hs_constants s' = hs_constants s" "hs_next_action_index s' = hs_next_action_index s"
    using post me nc1 by (simp_all add: host_state_common_postconditions_def)
  note eff = send_seq_effect [OF sent ok send]
  show ?thesis
  proof (cases ok2)
    case False
    have "action_ensures s nc False empty_event_results s' nc'"
      by (rule action_failed) (use False eff nc1 same in \<open>simp_all add: empty_event_results_def\<close>)
    with False run send only show ?thesis
      by (auto simp: host_next_receive_packet_def deliver_outbound_eq)
  next
    case True
    let ?res = "\<lparr>er_recvs = [Receive r], er_clocks = [], er_sends = evs, er_ios = Receive r # evs\<rparr>"
    have pkt: "extract_packet_from_lsht_packet (abstractify_net_packet_to_lsht_packet r) = cpacket_view p"
      using r by (simp add: abstractify_net_packet_to_sht_packet_def extract_packet_from_lsht_packet_def Let_def)
    have "next_step (host_view s) (host_view s') (Receive (abstractify_net_packet_to_lsht_packet r) #
        map_sent_packet_seq_to_ios sent) ReceivePacket"
      using invariants_complete [OF inv] sent_ios(1) recv
      by (intro receive_step_of_packet) (simp_all add: pkt abstractify_seq_eq(2,3))
    then have "action_ensures s nc True ?res s' nc'"
      using True eff same nc1 sent_ios(2) [OF sent(1)] invariants_after [OF inv post]
      by (intro action_succeeded) (simp_all add: event_seq_def)
    with True run send only show ?thesis
      by (auto simp: host_next_receive_packet_def deliver_outbound_eq)
  qed
qed

lemma receive_action_correct:
  assumes contract: "receive_contract (nc_c_pointers nc)" and req: "next_requires s nc"
    and run: "receive_packet_next_impl s nc = Ret (ok, res, s', nc')"
  shows "action_ensures s nc ok res s' nc' \<and>
    s' = s\<lparr>hs_sd := hs_sd s', hs_received_packet := hs_received_packet s'\<rparr>"
proof -
  note inv = next_requiresD(1) [OF req] and state = next_requiresD(3) [OF req]
  have me: "nc_end_point nc = cc_me (hs_constants s)" "valid_physical_address (cc_me (hs_constants s))"
    using next_requiresD [OF req] by simp_all
  from run obtain rr ev nc1 where
    rr: "receive_with_demarshal nc (cc_me (hs_constants s)) = Ret (rr, ev, nc1)"
    by (auto simp: receive_packet_next_impl_def outcome_simps)
  note eff = receive_with_demarshal_cases [OF contract rr me]
  show ?thesis
  proof (cases rr)
    case RFail
    with run rr eff me show ?thesis by (auto simp: receive_packet_next_impl_def intro!: action_failed)
  next
    case RTimeout
    have "next_step (host_view s) (host_view s) [TimeoutReceive] ReceivePacket"
      using invariants_complete [OF inv] by (simp add: next_step_def receive_packet_next_def)
    with RTimeout run rr eff me inv state show ?thesis
      by (auto simp: receive_packet_next_impl_def event_seq_def well_typed_events_def nc_ok_def intro!: action_succeeded)
  next
    case (RPacket p)
    with eff state obtain r where ev: "ev = Receive r" and
      r: "cp_msg p \<noteq> CInvalidMessage \<longrightarrow> abstractify_net_packet_to_sht_packet r = cpacket_view p"
      and nc1: "nc_end_point nc1 = nc_end_point nc" "nc_c_pointers nc1 = nc_c_pointers nc"
        "nc_history nc1 = nc_history nc @ [Receive r]" "nc_ok nc1"
      and p: "cpacket_abstractable p" "cp_dst p = nc_end_point nc"
      using me by (auto simp: nc_ok_def)
    show ?thesis
    proof (cases "cp_msg p = CInvalidMessage")
      case True
      have "next_step (host_view s) (host_view s) [Receive (abstractify_net_packet_to_lsht_packet r)] ReceivePacket"
        using invariants_complete [OF inv]
        by (intro receive_step_of_packet [where ack = undefined]) (simp_all add: receive_packet_def okay_to_ignore_packets_def)
      with True RPacket run rr ev nc1 inv show ?thesis
        by (auto simp: receive_packet_next_impl_def event_seq_def well_typed_events_def intro!: action_succeeded)
    next
      case False
      with host_next_receive_packet_correct [OF inv nc1(4,1-3) p] r RPacket run rr ev show ?thesis
        by (cases "cp_msg p") (auto simp: receive_packet_next_impl_def)
    qed
  qed
qed

section \<open>The processing action\<close>

context hash_map_contract
begin

lemma process_action_correct:
  assumes req: "next_requires s nc" and run: "process_received_packet_next_impl ops s nc = Ret (ok, res, s', nc')"
  shows "action_ensures s nc ok res s' nc'"
proof -
  note inv = next_requiresD(1) [OF req] and nc = next_requiresD(2) [OF req] and me = next_requiresD(4) [OF req]
  from inv have valid: "host_valid s" by (simp add: host_invariants_def)
  note complete = invariants_complete [OF inv]
  note iff = should_process_iff [OF valid]
  show ?thesis
  proof (cases "should_process_received_message (host_view s)")
    case False
    then have "next_step (host_view s) (host_view s) [] ProcessReceivedPacket"
      using complete by (simp add: next_step_def process_received_packet_next_def process_received_packet_def
          process_message_def split: option.split)
    with False iff run inv nc show ?thesis
      by (auto simp: process_received_packet_next_impl_def make_empty_event_results_def event_seq_def well_typed_events_def
          intro!: action_succeeded)
  next
    case True
    then obtain p where p: "hs_received_packet s = Some p"
      by (auto simp: should_process_received_message_def split: option.splits)
    with valid have msg: "is_CMsg (cp_msg p)" by (simp add: host_valid_iff)
    from run True iff p msg obtain sent s1 where model1: "host_model_next_receive_message ops s = Ret (sent, s1)"
      by (cases "host_model_next_receive_message ops s") (auto simp: process_received_packet_next_impl_def)
    obtain ok2 evs nc2 where send: "send_packet_seq sent nc = (ok2, evs, nc2)" by (rule prod_cases3)
    from run True iff p msg model1 send have r: "ok = ok2" "nc' = nc2" "s1 = s'"
      "res = (if ok2 then make_send_only_event_results evs else make_empty_event_results)"
      by (auto simp: process_received_packet_next_impl_def deliver_outbound_eq split: if_splits)
    note model = model1 [unfolded r(3)]
    note corr = next_receive_message_correct [OF inv True model]
    have sent: "outbound_packet_seq_is_valid sent" "outbound_packet_seq_has_correct_srcs sent (nc_end_point nc)"
      and same: "hs_constants s' = hs_constants s" "hs_next_action_index s' = hs_next_action_index s"
      using corr me by (simp_all add: host_state_common_postconditions_def)
    note eff = send_seq_effect [OF sent nc send]
    show ?thesis
    proof (cases ok2)
      case False
      with r eff same show ?thesis
        by (auto simp: make_empty_event_results_def intro!: action_failed)
    next
      case ok: True
      let ?ios = "map_sent_packet_seq_to_ios sent"
      have "next_step (host_view s) (host_view s') ?ios ProcessReceivedPacket \<or>
          next_step (host_view s) (host_view s') ?ios IgnoreNonsensicalDelegationPacket"
      proof (cases "process_message (host_view s) (host_view s') (cpacket_view ` set sent)")
        case True
        with p complete sent_ios(1) show ?thesis
          by (simp add: next_step_def process_received_packet_next_def process_received_packet_def abstractify_seq_eq(3))
      next
        case False
        with corr have ign: "host_ignoring_unparseable (host_view s) (host_view s') (cpacket_view ` set sent)"
          by (simp add: abstractify_seq_eq(2))
        then have "sent = []" by (simp add: host_ignoring_unparseable_def)
        with ign True complete show ?thesis
          by (auto simp: next_step_def ignore_nonsensical_delegation_packet_def host_ignoring_unparseable_def
              map_sent_packet_seq_to_ios_def)
      qed
      then obtain step where "next_step (host_view s) (host_view s') ?ios step" by blast
      then have "action_ensures s nc True (make_send_only_event_results evs) s' nc2"
        using ok eff same sent_ios(2) [OF sent(1)] invariants_after [OF inv] corr
        by (intro action_succeeded [where step = step]) (auto simp: make_send_only_event_results_def event_seq_def)
      with ok r show ?thesis by simp
    qed
  qed
qed

section \<open>The retransmission action\<close>

lemma retransmit_action_correct:
  assumes req: "next_requires s nc"
  shows "\<exists>ok res s' nc'. host_noreceive_noclock_next ops s nc = Ret (ok, res, s', nc') \<and> action_ensures s nc ok res s' nc' \<and> s' = s"
proof -
  note inv = next_requiresD(1) [OF req] and nc = next_requiresD(2) [OF req] and me = next_requiresD(4,5) [OF req]
  from inv have csd: "csd_valid (hs_sd s)" by (simp add: host_invariants_def host_valid_iff)
  from retransmit_correct [OF csd me(2)] me(1) obtain sent where
    model: "retransmit_un_acked_packets ops (hs_sd s) (cc_me (hs_constants s)) = Ret sent"
    and view: "cpacket_view ` set sent = un_acked_messages (csd_view (hs_sd s)) (nc_end_point nc)"
    and all: "\<forall>p \<in> set sent. outbound_packet_is_valid p \<and> cp_src p = nc_end_point nc" by auto
  obtain ok evs nc' where send: "send_packet_seq sent nc = (ok, evs, nc')" by (rule prod_cases3)
  have sent: "outbound_packet_seq_is_valid sent" "outbound_packet_seq_has_correct_srcs sent (nc_end_point nc)"
    using all by (simp_all add: outbound_packet_seq_is_valid_def outbound_packet_seq_has_correct_srcs_def)
  note eff = send_seq_effect [OF sent nc send]
  show ?thesis
  proof (cases ok)
    case False
    have "action_ensures s nc False empty_event_results s nc'"
      using False eff by (auto simp: empty_event_results_def intro!: action_failed)
    with False model send show ?thesis by (auto simp: host_noreceive_noclock_next_def)
  next
    case True
    have "next_step (host_view s) (host_view s) (map_sent_packet_seq_to_ios sent) SpontaneouslyRetransmit"
      using invariants_complete [OF inv] sent_ios(1) view me
      by (simp add: next_step_def spontaneously_retransmit_next_def spontaneously_retransmit_def abstractify_seq_eq(3))
    then have "action_ensures s nc True \<lparr>er_recvs = [], er_clocks = [], er_sends = evs, er_ios = evs\<rparr> s nc'"
      using True eff inv sent_ios(2) [OF sent(1)] by (intro action_succeeded) (simp_all add: event_seq_def)
    with True model send show ?thesis by (auto simp: host_noreceive_noclock_next_def)
  qed
qed

section \<open>The scheduler step\<close>

lemma resend_count_bound: "((n :: u64) + 1) mod 100000000 < 100000000"
  by (simp add: word_less_nat_alt unat_mod)

lemma next_index_bound: "((n :: u64) + 1) mod 3 < 3"
  by (simp add: word_less_nat_alt unat_mod)

lemma action_transfer:
  "action_ensures (s\<lparr>hs_resend_count := n\<rparr>) nc ok res s' nc' \<Longrightarrow> action_ensures s nc ok res s' nc'"
  by (auto simp: action_ensures_def next_ensures_def)

lemma action_next_index:
  assumes "action_ensures s nc ok res s' nc'"
  shows "next_ensures s nc (if ok then s'\<lparr>hs_next_action_index := (hs_next_action_index s' + 1) mod 3\<rparr> else s') nc' ok res"
proof (cases ok)
  case True
  have "host_invariants (s'\<lparr>hs_next_action_index := (hs_next_action_index s' + 1) mod 3\<rparr>) (nc_end_point nc')"
    if "host_invariants s' (nc_end_point nc')"
    using that next_index_bound by (rule invariants_scheduler(1))
  with True assms show ?thesis by (auto simp: action_ensures_def next_ensures_def)
qed (use assms in \<open>simp add: action_ensures_def\<close>)

lemma next_requires_resend:
  "next_requires s nc \<Longrightarrow> next_requires (s\<lparr>hs_resend_count := (hs_resend_count s + 1) mod 100000000\<rparr>) nc"
  using invariants_scheduler(2) [OF _ resend_count_bound] by (simp add: next_requires_def)

lemma action_index_cases:
  assumes "next_requires s nc"
  shows "hs_next_action_index s = 0 \<or> hs_next_action_index s = 1 \<or> hs_next_action_index s = 2"
proof -
  let ?i = "hs_next_action_index s"
  have "unat ?i < 3" using invariantsD(5) [OF next_requiresD(1) [OF assms]] by (simp add: word_less_nat_alt)
  then have "unat ?i = unat (0 :: u64) \<or> unat ?i = unat (1 :: u64) \<or> unat ?i = unat (2 :: u64)" by auto
  then show ?thesis by (simp only: word_unat_eq_iff)
qed

text \<open>The step without the branch that the invariants exclude.\<close>

lemma real_next_impl_eq:
  assumes "next_requires s nc"
  shows "real_next_impl ops s nc =
    bind_outcome
      (if hs_next_action_index s = 0 then receive_packet_next_impl s nc
       else if hs_next_action_index s = 1 then process_received_packet_next_impl ops s nc
       else if hs_resend_count (s\<lparr>hs_resend_count := (hs_resend_count s + 1) mod 100000000\<rparr>) = 0
       then host_noreceive_noclock_next ops (s\<lparr>hs_resend_count := (hs_resend_count s + 1) mod 100000000\<rparr>) nc
       else Ret (True, make_empty_event_results, s\<lparr>hs_resend_count := (hs_resend_count s + 1) mod 100000000\<rparr>, nc))
      (\<lambda>(ok, res, s, netc).
         if \<not> ok then Ret (ok, res, s, netc)
         else Ret (ok, res, s\<lparr>hs_next_action_index := (hs_next_action_index s + 1) mod 3\<rparr>, netc))"
  using action_index_cases [OF assms] by (auto simp: real_next_impl_def Let_def)

lemma real_next_actions:
  assumes contract: "receive_contract (nc_c_pointers nc)" and req: "next_requires s nc"
    and run: "real_next_impl ops s nc = Ret (ok, res, s', nc')"
  obtains s1 where "action_ensures s nc ok res s1 nc'"
    and "s' = (if ok then s1\<lparr>hs_next_action_index := (hs_next_action_index s1 + 1) mod 3\<rparr> else s1)"
proof -
  let ?i = "hs_next_action_index s"
  let ?s = "s\<lparr>hs_resend_count := (hs_resend_count s + 1) mod 100000000\<rparr>"
  note req2 = next_requires_resend [OF req]
  have stutter: "action_ensures ?s nc True make_empty_event_results ?s nc"
  proof (rule action_succeeded)
    show "next_step (host_view ?s) (host_view ?s) (abstractify_raw_log_to_ios (er_ios make_empty_event_results))
        SpontaneouslyRetransmit"
      using invariants_complete [OF next_requiresD(1) [OF req2]]
      by (simp add: next_step_def spontaneously_retransmit_next_def make_empty_event_results_def)
  qed (use next_requiresD [OF req2] in \<open>simp_all add: make_empty_event_results_def event_seq_def\<close>)
  define act where "act = (if ?i = 0 then receive_packet_next_impl s nc
      else if ?i = 1 then process_received_packet_next_impl ops s nc
      else if hs_resend_count ?s = 0 then host_noreceive_noclock_next ops ?s nc
      else Ret (True, make_empty_event_results, ?s, nc))"
  from run [unfolded real_next_impl_eq [OF req, folded act_def]] obtain s1 where act: "act = Ret (ok, res, s1, nc')"
    and s': "s' = (if ok then s1\<lparr>hs_next_action_index := (hs_next_action_index s1 + 1) mod 3\<rparr> else s1)"
    by (cases act) (auto split: if_splits)
  note act = act [unfolded act_def]
  have "action_ensures s nc ok res s1 nc'"
  proof -
    consider "?i = 0" | "?i = 1" | "?i = 2" using action_index_cases [OF req] by blast
    then show ?thesis
    proof cases
      case 1
      with act receive_action_correct [OF contract req] show ?thesis by simp
    next
      case 2
      with act process_action_correct [OF req] show ?thesis by simp
    next
      case 3
      then have "action_ensures ?s nc ok res s1 nc'"
        using act retransmit_action_correct [OF req2] stutter by (auto split: if_splits)
      then show ?thesis by (rule action_transfer)
    qed
  qed
  then show ?thesis using s' by (rule that)
qed

lemma real_next_correct:
  assumes "receive_contract (nc_c_pointers nc)" and "next_requires s nc"
    and "real_next_impl ops s nc = Ret (ok, res, s', nc')"
  shows "next_ensures s nc s' nc' ok res" and "nc_end_point nc' = nc_end_point nc"
    and "nc_c_pointers nc' = nc_c_pointers nc"
proof -
  obtain s1 where act: "action_ensures s nc ok res s1 nc'"
    and s': "s' = (if ok then s1\<lparr>hs_next_action_index := (hs_next_action_index s1 + 1) mod 3\<rparr> else s1)"
    using assms by (rule real_next_actions)
  show "next_ensures s nc s' nc' ok res" unfolding s' using act by (rule action_next_index)
  show "nc_end_point nc' = nc_end_point nc" and "nc_c_pointers nc' = nc_c_pointers nc"
    using act by (simp_all add: action_ensures_def)
qed

end

end
