(* ===== verification/Host_Total.thy ===== *)
theory Host_Total
  imports Host_Step
begin

text \<open>
  When a step returns and when it does not. With hash-table methods that meet their contracts
  (\<open>hash_map_total\<close>) the handlers of all messages return, so that the scheduler step returns unless a
  received packet makes the parser panic. With the bodies as written, removing a key, accepting a
  delegation and handing over a shard never return.
\<close>

section \<open>Steps that return\<close>

text \<open>Every packet the network delivers is parsed without a panic: it need not be well formed.\<close>

definition parses_packets :: "NetClientCPointers \<Rightarrow> bool" where
  "parses_packets c_pointers \<longleftrightarrow>
     (\<forall>n t remote buffer. receive_func c_pointers n t = (True, False, remote, buffer) \<longrightarrow>
        (\<exists>r. deserialize csm_marshal buffer 0 = Ret r))"

text \<open>The next packet that the network delivers makes the parser panic.\<close>

definition unparsable_packet :: "NetClient \<Rightarrow> bool" where
  "unparsable_packet nc \<longleftrightarrow>
     (\<exists>remote buffer. receive_func (nc_c_pointers nc) (nc_calls nc) 0 = (True, False, remote, buffer) \<and>
        (\<forall>r. deserialize csm_marshal buffer 0 \<noteq> Ret r))"

lemma parses_packets_parsable: "parses_packets (nc_c_pointers nc) \<Longrightarrow> \<not> unparsable_packet nc"
  by (auto simp: parses_packets_def unparsable_packet_def)

lemma receive_with_demarshal_returns:
  assumes "\<not> unparsable_packet nc"
  shows "\<exists>rr ev nc'. receive_with_demarshal nc me = Ret (rr, ev, nc')"
proof -
  obtain ok timed_out remote buffer where
    f: "receive_func (nc_c_pointers nc) (nc_calls nc) 0 = (ok, timed_out, remote, buffer)"
    using prod_cases4 by blast
  consider "\<not> ok" | "ok" "timed_out" | "ok" "\<not> timed_out" by blast
  then show ?thesis
  proof cases
    case 3
    with f have "receive_func (nc_c_pointers nc) (nc_calls nc) 0 = (True, False, remote, buffer)" by simp
    with assms obtain r where "deserialize csm_marshal buffer 0 = Ret r" unfolding unparsable_packet_def by blast
    then obtain m where "sht_demarshall_data_method buffer = Ret m" by (simp add: demarshall_method_eq)
    with 3 f show ?thesis
      by (simp add: receive_with_demarshal_def nc_receive_def nc_receive_internal_def Let_def)
  qed (use f in \<open>simp_all add: receive_with_demarshal_def nc_receive_def nc_receive_internal_def\<close>)
qed

lemma receive_unparsable:
  assumes "unparsable_packet nc"
  shows "receive_packet_next_impl s nc \<noteq> Ret x"
proof -
  from assms obtain remote buffer where
    f: "receive_func (nc_c_pointers nc) (nc_calls nc) 0 = (True, False, remote, buffer)"
      "\<forall>r. deserialize csm_marshal buffer 0 \<noteq> Ret r" unfolding unparsable_packet_def by blast
  then have "\<nexists>m. sht_demarshall_data_method buffer = Ret m"
    by (cases "deserialize csm_marshal buffer 0") (simp_all add: demarshall_method_eq)
  with f(1) have "\<nexists>y. receive_with_demarshal nc (cc_me (hs_constants s)) = Ret y"
    by (cases "sht_demarshall_data_method buffer")
      (auto simp: receive_with_demarshal_def nc_receive_def nc_receive_internal_def Let_def)
  then show ?thesis
    by (cases "receive_with_demarshal nc (cc_me (hs_constants s))") (auto simp: receive_packet_next_impl_def)
qed

lemma receive_action_returns:
  assumes "receive_contract (nc_c_pointers nc)" "\<not> unparsable_packet nc" "next_requires s nc"
  shows "\<exists>x. receive_packet_next_impl s nc = Ret x"
proof -
  note req = next_requiresD [OF assms(3)]
  have me: "nc_end_point nc = cc_me (hs_constants s)" "valid_physical_address (cc_me (hs_constants s))"
    using req by simp_all
  obtain rr ev nc1 where rr: "receive_with_demarshal nc (cc_me (hs_constants s)) = Ret (rr, ev, nc1)"
    using receive_with_demarshal_returns [OF assms(2)] by blast
  note eff = receive_with_demarshal_cases [OF assms(1) rr me]
  show ?thesis
  proof (cases rr)
    case (RPacket p)
    show ?thesis
    proof (cases "cp_msg p = CInvalidMessage")
      case False
      from RPacket eff False obtain r where ev: "ev = Receive r" "abstractify_net_packet_to_sht_packet r = cpacket_view p"
        and nc1: "nc_end_point nc1 = nc_end_point nc" "nc_c_pointers nc1 = nc_c_pointers nc"
          "nc_history nc1 = nc_history nc @ [Receive r]" "nc_ok nc1"
        and p: "cpacket_abstractable p" "cp_dst p = nc_end_point nc"
        using me(1) req(3) by (auto simp: nc_ok_def)
      obtain x where "host_next_receive_packet s nc1 p ev = Ret x"
        using host_next_receive_packet_correct [OF req(1) nc1(4,1-3) p ev(2)] unfolding ev(1) by blast
      with RPacket rr False show ?thesis
        by (cases "cp_msg p"; cases x) (simp_all add: receive_packet_next_impl_def)
    qed (use RPacket rr in \<open>auto simp: receive_packet_next_impl_def\<close>)
  qed (use rr in \<open>auto simp: receive_packet_next_impl_def\<close>)
qed

context hash_map_total
begin

lemma next_set_request_returns:
  assumes "host_valid s" and p: "hs_received_packet s = Some p" "cp_msg p = CMsg q d (CSetRequest k ov)"
  shows "\<exists>r. host_model_next_set_request ops s = Ret r"
proof -
  have dm: "sht_dm_valid (hs_delegation_map s)" using assms(1) by (simp add: host_valid_iff)
  obtain rem where "ops_remove ops (hs_h s) k = Ret rem" using returns(1) by blast
  then have "\<exists>t. (case ov of Some v \<Rightarrow> Ret (ckh_insert (hs_h s) k (clone_vec_u8 v)) | None \<Rightarrow> ops_remove ops (hs_h s) k) = Ret t"
    by (cases ov) simp_all
  then show ?thesis
    using p sht_dm_get [OF dm] is_message_marshallable_total
    by (auto simp: host_model_next_set_request_def Let_def split: prod.split option.split)
qed

lemma next_delegate_returns:
  assumes "host_valid s" "valid_physical_address (cc_me (hs_constants s))"
    and p: "hs_received_packet s = Some p" "cp_msg p = CMsg q d (CDelegate rng u)"
  shows "\<exists>r. host_model_next_delegate ops s = Ret r"
proof -
  have "sht_dm_valid (hs_delegation_map s)" using assms(1) by (simp add: host_valid_iff)
  then obtain dm where "dm_set shtkey_cmp (hs_delegation_map s) (kr_lo rng) (kr_hi rng) (cc_me (hs_constants s)) = Ret dm"
    using assms(2) by (rule sht_dm_set_range)
  moreover obtain t where "ops_bulk_update ops (hs_h s) rng u = Ret t" using returns(2) by blast
  moreover obtain b where "is_message_marshallable ops (CDelegate rng u) = Ret b"
    using is_message_marshallable_total by blast
  ultimately show ?thesis using p by (simp add: host_model_next_delegate_def del: is_message_marshallable.simps)
qed

lemma next_shard_returns:
  assumes "host_valid s" and p: "hs_received_packet s = Some p" "cp_msg p = CMsg q d (CShard kr r)"
    and r: "valid_physical_address r"
  shows "\<exists>x. host_model_next_shard ops s = Ret x"
proof -
  have dmv: "sht_dm_valid (hs_delegation_map s)" using assms(1) by (simp add: host_valid_iff)
  then obtain dm where dm: "dm_set shtkey_cmp (hs_delegation_map s) (kr_lo kr) (kr_hi kr) r = Ret dm"
    using r by (rule sht_dm_set_range)
  obtain t where t: "ops_bulk_remove ops (hs_h s) kr = Ret t" using returns(3) by blast
  obtain f where f: "ops_filter ops (hs_h s) (kr_contains shtkey_cmp kr) = Ret f" using returns(5) by blast
  obtain b where b: "is_message_marshallable ops (CShard kr r) = Ret b" using is_message_marshallable_total by blast
  obtain osm csd where send: "send_single_cmessage (hs_sd s) (CDelegate kr f) r = (osm, csd)" by fastforce
  show ?thesis
    using p dm t f b send sht_dm_range_check [OF dmv, of "kr_lo kr" "kr_hi kr"]
    by (cases osm) (simp_all add: host_model_next_shard_def extract_range_impl_def Let_def del: is_message_marshallable.simps)
qed

lemma next_receive_message_returns:
  assumes inv: "host_invariants s me" and p: "hs_received_packet s = Some p"
  shows "\<exists>x. host_model_next_receive_message ops s = Ret x"
proof -
  have valid: "host_valid s" and my: "valid_physical_address (cc_me (hs_constants s))"
    using invariantsD [OF inv] by simp_all
  with p obtain q d m where m: "cp_msg p = CMsg q d m"
    by (cases "cp_msg p") (auto simp: host_valid_iff)
  have abs: "cpacket_abstractable p" using valid p by (simp add: host_valid_iff)
  show ?thesis
  proof (cases m)
    case (CGetRequest k)
    then have "next_get_request_preconditions s"
      using inv p m abs invariantsD(1,2) [OF inv]
      by (simp add: next_get_request_preconditions_def host_state_common_preconditions_def host_valid_iff
          host_state_packet_preconditions_def cpacket_abstractable_def) (simp add: host_invariants_def)
    from next_get_request_correct [OF this] CGetRequest p m show ?thesis
      by (auto simp: host_model_next_receive_message_def)
  next
    case (CSetRequest k v)
    with next_set_request_returns [OF valid p] p m show ?thesis by (simp add: host_model_next_receive_message_def)
  next
    case (CShard kr r)
    with abs m have "valid_physical_address r" by (simp add: cpacket_abstractable_def)
    with CShard next_shard_returns [OF valid p] p m show ?thesis by (simp add: host_model_next_receive_message_def)
  next
    case (CDelegate rng u)
    with next_delegate_returns [OF valid my p] p m show ?thesis by (simp add: host_model_next_receive_message_def)
  qed (use p m in \<open>simp_all add: host_model_next_receive_message_def\<close>)
qed

lemma process_action_returns:
  assumes "next_requires s nc"
  shows "\<exists>x. process_received_packet_next_impl ops s nc = Ret x"
proof (cases "should_process_received_message_impl s")
  case True
  then obtain p where p: "hs_received_packet s = Some p"
    by (auto simp: should_process_received_message_impl_def split: option.splits)
  from next_receive_message_returns [OF next_requiresD(1) [OF assms] p] obtain sent s1 where
    "host_model_next_receive_message ops s = Ret (sent, s1)" by fastforce
  with True p show ?thesis
    by (cases "send_packet_seq sent nc") (auto simp: process_received_packet_next_impl_def deliver_outbound_eq)
qed (auto simp: process_received_packet_next_impl_def)

lemma real_next_returns:
  assumes contract: "receive_contract (nc_c_pointers nc)"
    and parsable: "hs_next_action_index s = 0 \<Longrightarrow> \<not> unparsable_packet nc" and req: "next_requires s nc"
  shows "\<exists>x. real_next_impl ops s nc = Ret x"
proof -
  let ?s = "s\<lparr>hs_resend_count := (hs_resend_count s + 1) mod 100000000\<rparr>"
  define act where "act = (if hs_next_action_index s = 0 then receive_packet_next_impl s nc
      else if hs_next_action_index s = 1 then process_received_packet_next_impl ops s nc
      else if hs_resend_count ?s = 0 then host_noreceive_noclock_next ops ?s nc
      else Ret (True, make_empty_event_results, ?s, nc))"
  have "\<exists>x. host_noreceive_noclock_next ops ?s nc = Ret x"
    using retransmit_action_correct [OF next_requires_resend [OF req]] by blast
  then have "\<exists>x. act = Ret x"
    using receive_action_returns [OF contract parsable req] process_action_returns [OF req]
    unfolding act_def by (simp only: split: if_split) blast
  then show ?thesis unfolding real_next_impl_eq [OF req, folded act_def] by (auto split: prod.split)
qed

end

section \<open>Steps that do not return\<close>

lemma receive_step_stuck:
  assumes "hs_next_action_index s = 0" "unparsable_packet nc"
  shows "real_next_impl ops s nc \<noteq> Ret x"
  using receive_unparsable [OF assms(2), of s] assms(1)
  by (cases "receive_packet_next_impl s nc") (auto simp: real_next_impl_def Let_def)

lemma process_action_stuck:
  assumes "next_requires s nc" "hs_next_action_index s = 1" "should_process_received_message (host_view s)"
    and "hs_received_packet s = Some p" and stuck: "\<And>x. host_model_next_receive_message ops s \<noteq> Ret x"
  shows "real_next_impl ops s nc \<noteq> Ret x"
proof -
  note valid = invariantsD(1) [OF next_requiresD(1) [OF assms(1)]]
  have "process_received_packet_next_impl ops s nc \<noteq> Ret y" for y
    using assms should_process_iff [OF valid] valid
    by (cases "host_model_next_receive_message ops s") (auto simp: process_received_packet_next_impl_def host_valid_iff)
  then show ?thesis
    using assms(2) by (cases "process_received_packet_next_impl ops s nc") (auto simp: real_next_impl_def Let_def)
qed

text \<open>The host cannot remove a key.\<close>

lemma code_set_none_stuck:
  assumes valid: "host_valid s" and p: "hs_received_packet s = Some p" "cp_msg p = CMsg q d (CSetRequest k None)"
    and mine: "adm_index (dm_m (hs_delegation_map s)) k = cc_me (hs_constants s)"
    and seqno: "fst (send_single_cmessage (hs_sd s) (CReply k None) (cp_src p)) \<noteq> None"
  shows "host_model_next_receive_message (hash_ops_code order) s = Panic"
proof -
  have dm: "sht_dm_valid (hs_delegation_map s)" using valid by (simp add: host_valid_iff)
  obtain sm csd where "send_single_cmessage (hs_sd s) (CReply k None) (cp_src p) = (Some sm, csd)"
    using seqno by (cases "send_single_cmessage (hs_sd s) (CReply k None) (cp_src p)") auto
  then show ?thesis
    using p mine sht_dm_get [OF dm]
    by (simp add: host_model_next_receive_message_def host_model_next_set_request_def Let_def hash_ops_code_def
        ckh_remove_def valid_key_def)
qed

text \<open>The host cannot accept a delegation: the check of the table panics.\<close>

lemma code_delegate_stuck:
  assumes "hs_received_packet s = Some p" "cp_msg p = CMsg q d (CDelegate rng u)" and "\<not> kr_is_empty shtkey_cmp rng"
  shows "host_model_next_receive_message (hash_ops_code order) s = Panic"
  using assms by (simp add: host_model_next_receive_message_def host_model_next_delegate_def hash_ops_code_def
      ckh_valid_def kr_is_empty_def)

text \<open>The host cannot hand over a range that it owns: the extraction of a non-empty table loops, and
  after that of an empty one the removal panics.\<close>

lemma code_shard_stuck:
  assumes valid: "host_valid s" and p: "hs_received_packet s = Some p" "cp_msg p = CMsg q d (CShard kr r)"
    and ok: "valid_physical_address r" "\<not> kr_is_empty shtkey_cmp kr" "r \<noteq> cc_me (hs_constants s)"
      "r \<in> set (cc_host_ids (hs_constants s))"
      "adm_delegate_for_key_range_is_host (dm_m (hs_delegation_map s)) kr (cc_me (hs_constants s))"
    and seqno: "fst (send_single_cmessage (hs_sd s) (CDelegate kr fmempty) r) \<noteq> None"
  shows "host_model_next_receive_message (hash_ops_code order) s = (if hs_h s = fmempty then Panic else Diverge)"
proof -
  have dmv: "sht_dm_valid (hs_delegation_map s)" using valid by (simp add: host_valid_iff)
  have owns: "dm_delegate_for_key_range_is_host_impl (hs_delegation_map s) (kr_lo kr) (kr_hi kr) (cc_me (hs_constants s)) =
      Ret True"
    using sht_dm_range_check [OF dmv] ok(5) by (cases kr) simp
  obtain dm where dm: "dm_set shtkey_cmp (hs_delegation_map s) (kr_lo kr) (kr_hi kr) r = Ret dm"
    using dmv ok(1) by (rule sht_dm_set_range)
  obtain sm csd where send: "send_single_cmessage (hs_sd s) (CDelegate kr fmempty) r = (Some sm, csd)"
    using seqno by (cases "send_single_cmessage (hs_sd s) (CDelegate kr fmempty) r") auto
  show ?thesis
    using p ok owns dm send
    by (simp add: host_model_next_receive_message_def host_model_next_shard_def hash_ops_code_def extract_range_impl_def
        ckh_filter_eq ckh_bulk_remove_def Let_def kr_is_empty_def)
qed

end
