(* ===== verification/Simulation.thy ===== *)
theory Simulation
  imports Prelude
begin

text \<open>
  Runs of labelled step relations, and the locale of forward simulations: if every step of a
  concrete system from a state with the invariant is a step of an abstract system under the
  abstraction function and keeps the invariant, then so is every run.
\<close>

fun run :: "('s \<Rightarrow> 'l \<Rightarrow> 's \<Rightarrow> bool) \<Rightarrow> 's \<Rightarrow> 'l list \<Rightarrow> 's \<Rightarrow> bool" where
  "run step s [] s' \<longleftrightarrow> s' = s"
| "run step s (l # ls) s' \<longleftrightarrow> (\<exists>m. step s l m \<and> run step m ls s')"

lemma run_append: "run step s (ls @ ls') s' \<longleftrightarrow> (\<exists>m. run step s ls m \<and> run step m ls' s')"
  by (induction ls arbitrary: s) auto

lemma run_invariant:
  "run step s ls s' \<Longrightarrow> I s \<Longrightarrow> (\<And>s l s'. I s \<Longrightarrow> step s l s' \<Longrightarrow> I s') \<Longrightarrow> I s'"
  by (induction ls arbitrary: s) auto

locale simulation =
  fixes cstep :: "'c \<Rightarrow> 'l \<Rightarrow> 'c \<Rightarrow> bool" and astep :: "'a \<Rightarrow> 'l \<Rightarrow> 'a \<Rightarrow> bool"
    and abs :: "'c \<Rightarrow> 'a" and inv :: "'c \<Rightarrow> bool"
  assumes step: "inv c \<Longrightarrow> cstep c l c' \<Longrightarrow> inv c' \<and> astep (abs c) l (abs c')"
begin

lemma runs: "run cstep c ls c' \<Longrightarrow> inv c \<Longrightarrow> inv c' \<and> run astep (abs c) ls (abs c')"
proof (induction ls arbitrary: c)
  case (Cons l ls)
  then obtain m where m: "cstep c l m" "run cstep m ls c'" by auto
  with step Cons.prems have "inv m" "astep (abs c) l (abs m)" by blast+
  with Cons.IH [OF m(2)] show ?case by auto
qed simp

end

end
