(* ===== verification/Host_Main.thy ===== *)
theory Host_Main
  imports Host_Total Simulation
begin

text \<open>
  The main loop (\<open>main_t.rs\<close>). One round that succeeds is a step of a labelled transition system over
  the host and its network client, labelled with the events of the round. The system is simulated by
  the protocol together with the history of the client, so that every execution of the program, of
  any length, is an execution of the protocol.
\<close>

section \<open>Rounds of the loop\<close>

definition host_round ::
    "hash_ops \<Rightarrow> HostState \<times> NetClient \<Rightarrow> NetEvent list \<Rightarrow> HostState \<times> NetClient \<Rightarrow> bool" where
  "host_round ops c evs c' \<longleftrightarrow>
     (\<exists>res nc'. next_impl ops (fst c) (snd c) = Ret (True, res, fst c', nc') \<and> evs = er_ios res \<and> snd c' = nc_reset nc')"

definition protocol_step ::
    "AbstractHostState \<times> History \<Rightarrow> NetEvent list \<Rightarrow> AbstractHostState \<times> History \<Rightarrow> bool" where
  "protocol_step a evs a' \<longleftrightarrow> host_state_next (fst a) (fst a') evs \<and> snd a' = snd a @ evs"

definition host_abs :: "HostState \<times> NetClient \<Rightarrow> AbstractHostState \<times> History" where
  "host_abs c = (host_view (fst c), nc_history (snd c))"

definition host_ready :: "HostState \<times> NetClient \<Rightarrow> bool" where
  "host_ready c \<longleftrightarrow> next_requires (fst c) (snd c) \<and> receive_contract (nc_c_pointers (snd c))"

lemma nc_reset_simps [simp]:
  "nc_history (nc_reset nc) = nc_history nc" "nc_end_point (nc_reset nc) = nc_end_point nc"
  "nc_c_pointers (nc_reset nc) = nc_c_pointers nc" "nc_state (nc_reset nc) = Receiving"
  by (simp_all add: nc_reset_def)

context hash_map_contract
begin

lemma host_round_simulated:
  assumes ready: "host_ready c" and round: "host_round ops c evs c'"
  shows "host_ready c' \<and> protocol_step (host_abs c) evs (host_abs c') \<and>
    nc_end_point (snd c') = nc_end_point (snd c) \<and> nc_c_pointers (snd c') = nc_c_pointers (snd c)"
proof -
  from round obtain res nc' where run: "real_next_impl ops (fst c) (snd c) = Ret (True, res, fst c', nc')"
    and c': "evs = er_ios res" "snd c' = nc_reset nc'"
    by (auto simp: host_round_def next_impl_def)
  from ready have pre: "receive_contract (nc_c_pointers (snd c))" "next_requires (fst c) (snd c)"
    by (simp_all add: host_ready_def)
  note corr = real_next_correct [OF pre run]
  from corr c' pre show ?thesis
    by (simp add: host_ready_def next_ensures_def next_requires_def protocol_step_def host_abs_def)
qed

lemma host_simulation: "simulation (host_round ops) protocol_step host_abs host_ready"
  by unfold_locales (simp add: host_round_simulated)

lemma host_run_end_point:
  "run (host_round ops) c evss c' \<Longrightarrow> host_ready c \<Longrightarrow>
     nc_end_point (snd c') = nc_end_point (snd c) \<and> nc_c_pointers (snd c') = nc_c_pointers (snd c)"
  by (induction evss arbitrary: c) (auto dest: host_round_simulated)

end

interpretation code_host: simulation "host_round (hash_ops_code sorted_list_of_fset)" protocol_step host_abs host_ready
  by (rule code.host_simulation)

interpretation promised_host: simulation "host_round (hash_ops_contract sorted_list_of_fset)" protocol_step host_abs host_ready
  by (rule promised.host_simulation)

lemma protocol_run_history:
  "run protocol_step a evss a' \<Longrightarrow>
     snd a' = snd a @ concat evss \<and> run (\<lambda>s evs s'. host_state_next s s' evs) (fst a) evss (fst a')"
proof (induction evss arbitrary: a)
  case (Cons evs evss)
  then obtain m where m: "protocol_step a evs m" "run protocol_step m evss a'" by auto
  have "host_state_next (fst a) (fst m) evs" "snd m = snd a @ evs" using m(1) by (simp_all add: protocol_step_def)
  with Cons.IH [OF m(2)] show ?case by auto
qed simp

section \<open>The loop as a sequence of rounds\<close>

lemma main_loop_body_round:
  "main_loop_body ops s nc = Ret (True, s', nc') \<longleftrightarrow> (\<exists>evs. host_round ops (s, nc) evs (s', nc'))"
  by (cases "next_impl ops s nc") (auto simp: main_loop_body_def host_round_def split: if_splits)

text \<open>A loop that is still running has made as many successful rounds as it had fuel; one that has ended has made
  some successful rounds, which led to the state at the head of the loop, and then a round that failed.\<close>

lemma main_loop_rounds:
  "main_loop ops n True s nc = Ret (ok, s2, nc2) \<Longrightarrow>
     \<exists>evss s' nc'. main_loop ops (length evss) True s nc = Ret (True, s', nc') \<and> run (host_round ops) (s, nc) evss (s', nc') \<and>
       (if ok then length evss = n \<and> s2 = s' \<and> nc2 = nc'
        else length evss < n \<and> (\<exists>res. next_impl ops s' nc' = Ret (False, res, s2, nc2)))"
proof (induction n arbitrary: s nc)
  case 0
  then show ?case by (intro exI [of _ "[]"] exI [of _ s] exI [of _ nc]) auto
next
  case (Suc n)
  then obtain ok1 s1 nc1 where body: "main_loop_body ops s nc = Ret (ok1, s1, nc1)"
    and rest: "main_loop ops n ok1 s1 nc1 = Ret (ok, s2, nc2)"
    by (cases "main_loop_body ops s nc") auto
  show ?case
  proof (cases ok1)
    case True
    with body obtain evs where round: "host_round ops (s, nc) evs (s1, nc1)" by (auto simp: main_loop_body_round)
    from rest True Suc.IH [of s1 nc1] obtain evss s' nc' where
      "main_loop ops (length evss) True s1 nc1 = Ret (True, s', nc')" "run (host_round ops) (s1, nc1) evss (s', nc')"
      "if ok then length evss = n \<and> s2 = s' \<and> nc2 = nc'
       else length evss < n \<and> (\<exists>res. next_impl ops s' nc' = Ret (False, res, s2, nc2))" by auto
    with round body True show ?thesis
      by (intro exI [of _ "evs # evss"] exI [of _ s'] exI [of _ nc']) (auto split: if_splits)
  next
    case False
    with body rest have "\<not> ok" "\<exists>res. next_impl ops s nc = Ret (False, res, s2, nc2)"
      by (cases "next_impl ops s nc"; auto simp: main_loop_body_def split: if_splits)+
    then show ?thesis by (intro exI [of _ "[]"] exI [of _ s] exI [of _ nc]) auto
  qed
qed

context hash_map_contract
begin

lemma main_loop_refines:
  assumes ready: "host_ready (s, nc)" and loop: "main_loop ops n True s nc = Ret (ok, s2, nc2)"
  shows "\<exists>evss s' nc'. main_loop ops (length evss) True s nc = Ret (True, s', nc') \<and>
    run (\<lambda>a evs a'. host_state_next a a' evs) (host_view s) evss (host_view s') \<and>
    nc_history nc' = nc_history nc @ concat evss \<and> host_invariants s' (nc_end_point nc) \<and>
    (if ok then length evss = n \<and> s2 = s' \<and> nc2 = nc'
     else length evss < n \<and> nc_state nc2 = Error \<and> (\<exists>res. next_impl ops s' nc' = Ret (False, res, s2, nc2)))"
proof -
  from main_loop_rounds [OF loop] obtain evss s' nc' where
    rounds: "main_loop ops (length evss) True s nc = Ret (True, s', nc')" "run (host_round ops) (s, nc) evss (s', nc')"
    and end_: "if ok then length evss = n \<and> s2 = s' \<and> nc2 = nc'
       else length evss < n \<and> (\<exists>res. next_impl ops s' nc' = Ret (False, res, s2, nc2))" by blast
  have facts: "run (\<lambda>a evs a'. host_state_next a a' evs) (host_view s) evss (host_view s')"
      "nc_history nc' = nc_history nc @ concat evss" "host_invariants s' (nc_end_point nc)" "host_ready (s', nc')"
    using simulation.runs [OF host_simulation rounds(2) ready] host_run_end_point [OF rounds(2) ready]
      protocol_run_history [of "host_abs (s, nc)" evss "host_abs (s', nc')"]
    by (auto simp: host_abs_def host_ready_def next_requires_def)
  have "nc_state nc2 = Error" if "next_impl ops s' nc' = Ret (False, res, s2, nc2)" for res
  proof -
    have "receive_contract (nc_c_pointers nc')" "next_requires s' nc'" using facts(4) by (simp_all add: host_ready_def)
    then have "next_ensures s' nc' s2 nc2 False res" using that [unfolded next_impl_def] by (rule real_next_correct(1))
    then show ?thesis by (simp add: next_ensures_def nc_ok_def)
  qed
  with rounds(1) facts(1-3) end_ show ?thesis
    by (intro exI [of _ evss] exI [of _ s'] exI [of _ nc']) (auto split: if_splits)
qed

end

section \<open>The loop never gets stuck with the promised table\<close>

context hash_map_total
begin

lemma main_loop_returns:
  assumes "host_ready (s, nc)" and "parses_packets (nc_c_pointers nc)"
  shows "\<exists>r. main_loop ops n True s nc = Ret r"
  using assms
proof (induction n arbitrary: s nc)
  case (Suc n)
  then have pre: "receive_contract (nc_c_pointers nc)" "next_requires s nc" by (simp_all add: host_ready_def)
  from real_next_returns [OF pre(1) parses_packets_parsable [OF Suc.prems(2)] pre(2)] obtain ok res s1 nc1 where
    step: "real_next_impl ops s nc = Ret (ok, res, s1, nc1)" by fastforce
  show ?case
  proof (cases ok)
    case True
    with step have body: "main_loop_body ops s nc = Ret (True, s1, nc_reset nc1)"
      by (simp add: main_loop_body_def next_impl_def)
    then obtain evs where "host_round ops (s, nc) evs (s1, nc_reset nc1)" by (auto simp: main_loop_body_round)
    from host_round_simulated [OF Suc.prems(1) this] Suc.prems(2) Suc.IH body show ?thesis by simp
  next
    case False
    with step show ?thesis by (auto simp: main_loop_body_def next_impl_def)
  qed
qed auto

end

end
