(* ===== verification/Spec2Isabelle.thy ===== *)
theory Spec2Isabelle
  imports Anvil_Example Anvil_VReplicaSet_Run Vest_Formats Host_Main
begin

text \<open>
  This development verifies three of the Rust programs that the repository bundles under \<open>src/projects/\<close>:
  the host program of IronKV (IronSHT), a sharded key-value store; the parser combinators of Vest; and of Anvil the
  model of a Kubernetes cluster, the layer that runs controllers, and the controller of replica sets.

  \<^bold>\<open>IronKV\<close> is under \<open>src/projects/verified-ironkv/ironsht/src/\<close>. A host keeps a table of values for the keys that it owns
  and a delegation map that says which host owns which key. Hosts exchange messages over a network that
  loses, duplicates and reorders packets; a layer of acknowledgements and retransmissions delivers
  each message exactly once and in order. Clients get and set keys; an administrator moves ranges of
  keys between hosts (shard requests, answered by a delegation from one host to another).

  \<^bold>\<open>Vest\<close> is under \<open>src/projects/vest-main/vest/src/\<close>. A combinator is a parser and a serializer of one
  format, with a specification of both; larger formats are composed from smaller ones. The library
  promises that code for a composed format reads back what it writes, and that no two encodings of a
  value are accepted.

  \<^bold>\<open>Anvil\<close> is under \<open>src/projects/anvil-main/src/\<close>. A cluster is a state machine composed of smaller ones: the
  API server with its store of objects, the built-in controllers (garbage collector), a network that may
  deliver messages in any order, the controllers with their pending requests and scheduled reconciles,
  external systems, and failures (crashes of controllers, requests dropped, pods changed at random). Each
  takes one step at a time. What a controller may rely on are invariants of this machine (optimistic
  concurrency by versions, one identifier per message, owners and finalizers respected) and its progress under
  fairness, stated in temporal logic. A controller is a reconciler, a state machine that is fed one response and returns one
  request at a time; the shim layer runs it against the API server, and the replica set controller is one that
  creates and deletes pods until there are as many as its resource asks for.

  \<^bold>\<open>Theories and sources of IronKV\<close> (file names are below its directory):

  \<^item> \<open>Prelude\<close>: the results of code (\<open>outcome\<close>: a value, a panic, or a loop that does not end), sorted
    lists, words, finite maps.
  \<^item> \<open>Keys\<close> (\<open>keys_t.rs\<close>, iterators of \<open>delegation_map_v.rs\<close>): keys, the trait
    \<open>KeyTrait\<close> as a locale, key iterators with an end, half-open ranges.
  \<^item> \<open>End_Points\<close> (\<open>abstract_end_point_t.rs\<close>, \<open>args_t.rs\<close>, \<open>seq_is_unique_v.rs\<close>): addresses and the
    loops that copy, compare and search vectors, each proved equal to its specification.
  \<^item> \<open>Ordered_Map\<close>, \<open>Delegation_Map\<close> (\<open>delegation_map_v.rs\<close>, \<open>delegation_map_t.rs\<close>): the sorted vectors,
    the map over them and the delegation map, which keeps one entry per change of the owner. Lookup,
    range assignment and the range check are proved to be those of the total map of the specification.
  \<^item> \<open>Hash_Map\<close> (\<open>hashmap_t.rs\<close>, \<open>endpoint_hashmap_t.rs\<close>, \<open>app_interface_t.rs\<close>): the tables. Four trusted
    methods have a body that panics and one a loop that does not end. Each is therefore modelled twice,
    as written (\<open>hash_ops_code\<close>) and as its contract promises (\<open>hash_ops_contract\<close>); the record
    \<open>hash_ops\<close> with the locales \<open>hash_map_contract\<close> (what a method returns, if it returns, is right) and
    \<open>hash_map_total\<close> (it returns) is the interface to the clients, and both records interpret it. The
    order in which a hash table enumerates its keys is a parameter (\<open>iteration_order\<close>).
  \<^item> \<open>Messages\<close> (\<open>message_t.rs\<close>, \<open>single_message_t.rs\<close>, \<open>network_t.rs\<close>, \<open>environment_t.rs\<close>,
    \<open>cmessage_v.rs\<close>): abstract and concrete messages and packets, views, the marshallability check.
  \<^item> \<open>Marshal\<close>, \<open>Marshal_Sht\<close> (\<open>marshal_v.rs\<close>, \<open>marshal_ironsht_specific_v.rs\<close>): the trait
    \<open>Marshalable\<close> as a record of functions, its laws as a locale, an interpretation for every instance:
    what is serialized is parsed back, what is parsed is canonical, no code is a prefix of another.
  \<^item> \<open>Single_Delivery\<close> (\<open>single_delivery_t.rs\<close>, \<open>single_delivery_state_v.rs\<close>,
    \<open>single_delivery_model_v.rs\<close>): acknowledgement and retransmission, specification and code.
  \<^item> \<open>Net_Sht\<close> (\<open>io_t.rs\<close>, \<open>net_sht_v.rs\<close>): the network client with its history of events, parsing and
    sending packets. The C functions behind the client are fields of \<open>NetClientCPointers\<close>, functions of
    the number of calls so far, so that a theorem about all their values covers every behaviour of the
    network.
  \<^item> \<open>Host_Protocol\<close> (\<open>host_protocol_t.rs\<close>): the protocol of a host as a step relation on abstract states.
  \<^item> \<open>Host_Impl\<close> (\<open>host_impl_v.rs\<close>, \<open>host_impl_t.rs\<close>, \<open>main_t.rs\<close>): the state of a host, the command line,
    every action, the scheduler and the main loop. \<open>Host_Refinement\<close> proves each action a step of the
    protocol, \<open>Host_Step\<close> the scheduler, \<open>Host_Total\<close> that actions return (or, for the methods as written,
    that they do not); \<open>Simulation\<close> carries steps to runs and \<open>Host_Main\<close> applies it to the main loop.
  \<^item> This theory: initialization, steps, requests, the handover of a range between two hosts, and the
    main program.

  \<^bold>\<open>Theories and sources of Vest\<close> (file names are below its directory):

  \<^item> \<open>Vest_Properties\<close> (\<open>properties.rs\<close>, \<open>errors.rs\<close>, \<open>buf_traits.rs\<close>, \<open>utils.rs\<close>): errors, buffers, and the
    traits. An instance of \<open>SpecCombinator\<close> and \<open>SecureSpecCombinator\<close> is a record \<open>spec_combinator\<close>, an
    instance of \<open>Combinator\<close> a record \<open>exec_combinator\<close>; the theorems that the traits demand are the
    locales \<open>SecureSpecCombinator\<close>, \<open>Combinator\<close> (which also demands that a serializer fails only for lack of
    space) and \<open>DisjointFrom\<close>. A value and its view are identified.
  \<^item> \<open>Vest_Basic\<close> (\<open>regular/bytes.rs\<close>, \<open>end.rs\<close>, \<open>fail.rs\<close>, \<open>success.rs\<close>, \<open>modifier.rs\<close>), \<open>Vest_Sequence\<close>
    (\<open>sequence.rs\<close>), \<open>Vest_Variant\<close> (\<open>tag.rs\<close>, \<open>variant.rs\<close>, \<open>disjoint.rs\<close>), \<open>Vest_Repetition\<close>
    (\<open>repetition.rs\<close>): every combinator, specification and code. A primitive combinator interprets the
    locales; a composed one has a lemma that it meets the contract if its components do.
  \<^item> \<open>Vest_Uints\<close> (\<open>uints.rs\<close>): integers of 8 to 64 bits in both byte orders. \<open>Vest_Leb128\<close> (\<open>leb128.rs\<close>):
    LEB128 integers, whose parser meets the contract and whose serializer does not. \<open>Vest_Varint\<close>
    (\<open>bitcoin/varint.rs\<close>): the integers of Bitcoin, composed as in the source.
  \<^item> \<open>Vest_Formats\<close>: what follows for composed formats.

  \<^bold>\<open>Theories and sources of Anvil\<close> (file names are below its directory):

  \<^item> \<open>Anvil_Temporal\<close> (\<open>temporal_logic/defs.rs\<close>, \<open>state_machine/\<close>): executions, temporal predicates, leads-to,
    weak fairness and the rules for them; actions and state machines, the locale of a state machine of actions.
  \<^item> \<open>Anvil_Objects\<close> (\<open>kubernetes_api_objects/\<close>): object references, metadata, owner references, dynamic objects,
    errors. \<open>Anvil_Message\<close> (\<open>kubernetes_cluster/spec/message.rs\<close>, \<open>api_method.rs\<close>): requests, responses, messages.
  \<^item> \<open>Anvil_Api_Server\<close> (\<open>kubernetes_cluster/spec/api_server/state_machine.rs\<close>): every request handler with its
    admission and validity checks. \<open>Anvil_Store\<close>: the invariant of the store, what each handler keeps of it, versions
    and identifiers. \<open>Anvil_Guarantees\<close>: what a sequence of requests guarantees to one client.
  \<^item> \<open>Anvil_Hosts\<close>, \<open>Anvil_Cluster\<close> (\<open>kubernetes_cluster/spec/\<close>): network, built-in controllers, controllers, external
    systems, pod monkey, and the steps of the cluster composed from them.
  \<^item> \<open>Anvil_View\<close>: what the invariants need to know of a cluster, and that a cluster simulates it. \<open>Anvil_Runtime\<close>
    (\<open>kubernetes_cluster/proof/\<close>): the invariants of reachable states. \<open>Anvil_Progress\<close>: what is eventually
    answered. \<open>Anvil_Example\<close>: a fair execution in which the hypotheses hold.
  \<^item> \<open>Anvil_Pod_Types\<close>, \<open>Anvil_Resources\<close>, \<open>Anvil_Kinds\<close> (\<open>kubernetes_api_objects/spec/\<close>,
    \<open>kubernetes_cluster/spec/install_helpers.rs\<close>): the typed views with their builders and validation, the
    trait \<open>ResourceView\<close> as a record \<open>resource_trait\<close> with its laws as a locale, which every kind
    meets if its marshalling functions do (the interpretations are for pods, roles and replica sets). Two laws that the sources assume hold for no function.
  \<^item> \<open>Anvil_Shim\<close> (\<open>shim_layer/controller_runtime.rs\<close>): a world (\<open>kube_world\<close>) is a store and the
    requests that other clients send before each call of the client library; the two loops of a conditional write, which are
    proved to be the transactions of the API server. \<open>Anvil_Reconciler\<close> (\<open>reconciler/\<close>, \<open>reconcile_with\<close>): the
    traits of a reconciler as records, the loop that runs one.
  \<^item> \<open>Anvil_VReplicaSet\<close> (\<open>controllers/vreplicaset_controller/\<close>: \<open>trusted/\<close>, \<open>model/\<close>, \<open>exec/\<close>): the custom
    resource, the reconciler as specified and as coded, and that they agree. \<open>Anvil_VReplicaSet_Guarantee\<close>: the guarantee of
    the controller in every execution of a cluster, and what its rely condition on other controllers is worth.
    \<open>Anvil_VReplicaSet_Run\<close>: one call of \<open>reconcile_with\<close> ends in the desired state.

  \<^bold>\<open>Bounds.\<close> \<open>main_loop\<close> runs until the network fails, possibly forever; its fuel is the number of
  rounds, its result says whether it would go on, and the theorems hold for every number. The loops of the shim layer
  may retry forever: they are partial functions in the option monad, \<open>None\<close> means that they do not return, and that they
  do is proved. All other loops are total functions, or \<open>Diverge\<close> where the code does not return. Counters of the code are 64-bit words; a \<open>usize\<close> is a natural number up to \<open>usize_max\<close>.

  \<^bold>\<open>Hypotheses.\<close> \<open>receive_contract\<close>: what the C function for receiving returns is a valid address and a
  buffer that fits into memory. \<open>parses_packets\<close>: the parser does not panic on a received packet. Only the
  theorem that the main program is never stuck assumes it; that a step returns is stated without it, and a hostile packet
  that makes the parser panic is exhibited. \<open>iteration_order\<close>: the enumeration of a hash table
  lists its keys, each once.

  The properties of Vest's composed formats take contracts of the components as hypotheses, which the
  interpretations discharge for the combinators of the library; buffers are no longer than \<open>usize_max\<close>.

  Of Anvil, what the source leaves uninterpreted is a parameter: \<open>api_env\<close> (the names that the API server
  generates, the time stamp of a deletion, the order of a list, the conversions of the built-in kinds) and
  \<open>cluster_env\<close> (which pods the pod monkey names). The conversions are given by the marshalling functions \<open>kind_codecs\<close>
  in \<open>kubernetes_env\<close>; \<open>api_env_laws\<close> says that generated names are fresh and lists list a set. The theorem on
  \<open>reconcile_with\<close> assumes that the marshalling functions give back the pod template, and of the other clients that each
  request meets the rely condition in the store at which it arrives (\<open>others_meet_rely\<close>). Fairness is an explicit hypothesis of each theorem about progress; no fuel is used.

  \<^bold>\<open>Not modelled.\<close> Of IronKV: the profiler of \<open>io_t.rs\<close> and the C glue of \<open>lib.rs\<close>, which have no logic of the
  protocol; the abstract service of \<open>abstract_service_t.rs\<close>, to which no code of the repository is
  related. Of Vest: the instances for references and boxes, which forward every call; the compiler from
  format descriptions (\<open>vest-dsl\<close>) and the formats that it generated; two drafts of \<open>leb128.rs\<close> that the
  crate does not include. Of the other projects: VeriSMo, which works on hardware through raw memory, and
  the Python package \<open>rag/\<close>, which calls language models. Of Anvil: the controllers
  other than that of replica sets, fault injection and the setup of watches in the shim layer, the wrappers of the client
  library under \<open>kubernetes_api_objects/exec/\<close>, and the directory \<open>executable_model/\<close>, which its crate does not include.
\<close>

section \<open>An example host\<close>

text \<open>The first of two hosts, as it comes out of the initialization.\<close>

definition example_host :: HostState where
  "example_host =
     \<lparr>hs_next_action_index = 0, hs_resend_count = 0,
      hs_constants = \<lparr>cc_root_identity = EndPoint [1], cc_host_ids = [EndPoint [1], EndPoint [2]],
                      cc_params = static_params, cc_me = EndPoint [1]\<rparr>,
      hs_delegation_map = example_dm, hs_h = ckh_new, hs_sd = csd_empty, hs_received_packet = None,
      hs_num_delegations = 1, hs_received_requests = []\<rparr>"

definition example_client :: NetClient where
  "example_client = nc_new (EndPoint [1]) quiet_network"

lemma example_client_simps [simp]:
  "nc_valid example_client" "nc_state example_client = Receiving" "nc_end_point example_client = EndPoint [1]"
  "nc_c_pointers example_client = quiet_network" "nc_history example_client = []" "nc_ok example_client"
  by (simp_all add: example_client_def nc_new_def nc_valid_def nc_ok_def valid_physical_address_def)

lemma quiet_network_contract [simp]: "receive_contract quiet_network" "parses_packets quiet_network"
  by (simp_all add: receive_contract_def parses_packets_def quiet_network_def)

lemma example_host_init: "real_init_impl example_client [[1], [2]] = Ret (Some example_host)"
proof -
  have "parse_args [[1], [2]] = Some [EndPoint [1], EndPoint [2]]"
    by (simp add: parse_args_def unchecked_parse_args_def parse_arg_as_end_point_def valid_physical_address_def)
  moreover have "seq_is_unique [EndPoint [1], EndPoint [2]]"
    by (auto simp: seq_is_unique_def nth_Cons less_Suc_eq split: nat.splits)
  ultimately show ?thesis
    by (simp add: real_init_impl_def parse_command_line_configuration_def parse_end_points_eq get_my_end_point_def
        example_host_def example_dm_new)
qed

lemma example_host_invariants: "host_invariants example_host (EndPoint [1])"
  using real_init_correct [of example_client "[[1], [2]]"] by (simp add: example_host_init init_ensures_def)

text \<open>The example host with a packet from the second host to process.\<close>

definition packet_from_2 :: "u64 \<Rightarrow> CMessage \<Rightarrow> CPacket" where
  "packet_from_2 seqno m = \<lparr>cp_dst = EndPoint [1], cp_src = EndPoint [2], cp_msg = CMsg seqno (EndPoint [1]) m\<rparr>"

definition example_pending :: "CMessage \<Rightarrow> HostState" where
  "example_pending m = example_host\<lparr>hs_next_action_index := 1, hs_received_packet := Some (packet_from_2 1 m)\<rparr>"

lemma packet_from_2_simps [simp]:
  "cp_dst (packet_from_2 q m) = EndPoint [1]" "cp_src (packet_from_2 q m) = EndPoint [2]"
  "cp_msg (packet_from_2 q m) = CMsg q (EndPoint [1]) m"
  by (simp_all add: packet_from_2_def)

lemma example_pending_simps [simp]:
  "hs_received_packet (example_pending m) = Some (packet_from_2 1 m)" "hs_next_action_index (example_pending m) = 1"
  "hs_constants (example_pending m) = hs_constants example_host" "hs_delegation_map (example_pending m) = example_dm"
  "hs_sd (example_pending m) = csd_empty" "hs_h (example_pending m) = ckh_new"
  "hs_num_delegations (example_pending m) = 1" "hs_resend_count (example_pending m) = 0"
  "cc_me (hs_constants example_host) = EndPoint [1]" "cc_params (hs_constants example_host) = static_params"
  "cc_host_ids (hs_constants example_host) = [EndPoint [1], EndPoint [2]]"
  by (simp_all add: example_pending_def example_host_def)

lemma example_pending_requires:
  assumes "cmessage_abstractable m"
  shows "next_requires (example_pending m) example_client" and "host_valid (example_pending m)"
proof -
  have inv: "host_invariants (example_pending m) (EndPoint [1])"
    using example_host_invariants assms unfolding host_invariants_def host_valid_iff
    by (auto simp: example_pending_def example_host_def packet_from_2_def cpacket_abstractable_def
        valid_physical_address_def)
  then show "next_requires (example_pending m) example_client" "host_valid (example_pending m)"
    using invariantsD(1) by (auto simp: next_requires_def)
qed

section \<open>Initialization\<close>

text \<open>C4: the initialization returns; it accepts exactly the command lines that list one or more valid
  and distinct end points, and then the host satisfies its invariants and is an initial state of the
  protocol.\<close>

theorem initialization_correct:
  assumes "nc_valid netc"
  shows "\<exists>rc. init_impl netc args = Ret rc \<and> init_ensures netc args rc \<and>
    (rc = None \<longleftrightarrow> \<not> (\<exists>eps. parse_args args = Some eps \<and> eps \<noteq> [] \<and> seq_is_unique eps))"
  unfolding init_impl_def using assms by (rule real_init_correct)

theorem initialization_correct_witness:
  "init_impl example_client [[1], [2]] = Ret (Some example_host) \<and>
   host_init (host_view example_host) (EndPoint [1]) [[1], [2]]"
  using initialization_correct [of example_client "[[1], [2]]"] example_host_init
  by (simp add: init_impl_def init_ensures_def)

section \<open>Steps\<close>

text \<open>C3: every scheduler step of the program as written that returns meets its contract: it reports
  success exactly if the network client is still usable, and then the host keeps its invariants, has
  made a step of the protocol for the reported events, and the client's history has grown by exactly
  these events.\<close>

theorem scheduler_step_refines_protocol:
  assumes "iteration_order order" and "receive_contract (nc_c_pointers nc)" and "next_requires s nc"
    and "next_impl (hash_ops_code order) s nc = Ret (ok, res, s', nc')"
  shows "next_ensures s nc s' nc' ok res"
  using hash_map_contract.real_next_correct(1) [OF hash_ops_code_contract [OF assms(1)] assms(2,3)] assms(4)
  by (simp add: next_impl_def)

theorem scheduler_step_refines_protocol_witness:
  "\<exists>res s' nc'. next_impl (hash_ops_code sorted_list_of_fset) (example_pending (CGetRequest (SHTKey 3))) example_client =
     Ret (True, res, s', nc') \<and>
   host_state_next (host_view (example_pending (CGetRequest (SHTKey 3)))) (host_view s') (er_ios res)"
proof -
  let ?s = "example_pending (CGetRequest (SHTKey 3))"
  have req: "next_requires ?s example_client" by (rule example_pending_requires) simp
  have "next_get_request_preconditions ?s"
    using example_pending_requires [of "CGetRequest (SHTKey 3)"] next_requiresD [OF req]
    by (simp add: next_get_request_preconditions_def host_state_common_preconditions_def host_state_packet_preconditions_def
        cpacket_abstractable_def valid_physical_address_def csd_empty_correct)
  then obtain sent s1 where get: "host_model_next_get_request ?s = Ret (sent, s1)"
    using next_get_request_correct by blast
  have always: "send_packet_seq_loop ps nc evs = (True, snd (send_packet_seq_loop ps nc evs))"
    if "nc_c_pointers nc = quiet_network" for ps nc evs
    using that by (induction ps nc evs rule: send_packet_seq_loop.induct)
      (auto simp: send_packet_def nc_send_def nc_send_internal_def quiet_network_def Let_def)
  obtain res s' nc' where run: "next_impl (hash_ops_code sorted_list_of_fset) ?s example_client = Ret (True, res, s', nc')"
    using get always [of example_client sent "[]"]
    by (cases "send_packet_seq sent example_client")
      (auto simp: next_impl_def real_next_impl_def process_received_packet_next_impl_def should_process_received_message_impl_def
        host_model_next_receive_message_def example_pending_def deliver_outbound_eq send_packet_seq_def Let_def)
  from scheduler_step_refines_protocol [OF iteration_order_sorted _ req run] run show ?thesis
    by (auto simp: next_ensures_def)
qed

text \<open>C26: if the methods of the hash table do what their contracts promise, the step returns and meets its
  contract for every pending message and every network behaviour, except when it is the turn of the receiving action
  and the packet that the network delivers makes the parser panic; in that case the step does not return.\<close>

theorem promised_step_returns:
  assumes "iteration_order order" and "receive_contract (nc_c_pointers nc)" and "next_requires s nc"
  shows "if hs_next_action_index s = 0 \<and> unparsable_packet nc
    then \<forall>x. next_impl (hash_ops_contract order) s nc \<noteq> Ret x
    else \<exists>ok res s' nc'. next_impl (hash_ops_contract order) s nc = Ret (ok, res, s', nc') \<and>
      next_ensures s nc s' nc' ok res"
proof (cases "hs_next_action_index s = 0 \<and> unparsable_packet nc")
  case True
  with receive_step_stuck show ?thesis by (simp add: next_impl_def)
next
  case False
  have total: "hash_map_total (hash_ops_contract order)" by (rule hash_ops_contract_total [OF assms(1)])
  then have contract: "hash_map_contract (hash_ops_contract order)" by (rule hash_map_total.axioms)
  from False obtain ok res s' nc' where "real_next_impl (hash_ops_contract order) s nc = Ret (ok, res, s', nc')"
    using hash_map_total.real_next_returns [OF total assms(2) _ assms(3)] by fastforce
  with False hash_map_contract.real_next_correct(1) [OF contract assms(2,3)] show ?thesis
    by (auto simp: next_impl_def)
qed

theorem promised_step_returns_witness:
  "\<exists>ok res s' nc'. next_impl (hash_ops_contract sorted_list_of_fset)
     (example_pending (CShard (KeyRange (ki_new (SHTKey 5)) ki_end) (EndPoint [2]))) example_client = Ret (ok, res, s', nc')"
proof -
  have "next_requires (example_pending (CShard (KeyRange (ki_new (SHTKey 5)) ki_end) (EndPoint [2]))) example_client"
    by (rule example_pending_requires) (simp add: valid_physical_address_def)
  from promised_step_returns [OF iteration_order_sorted _ this] show ?thesis by (simp add: example_pending_def) blast
qed

text \<open>Receiving a packet changes nothing of the host but its single-delivery state and the pending
  packet, which is the frame condition that the protocol's relation leaves open.\<close>

theorem receiving_changes_nothing_else:
  assumes "receive_contract (nc_c_pointers nc)" and "next_requires s nc"
    and "receive_packet_next_impl s nc = Ret (ok, res, s', nc')"
  shows "s' = s\<lparr>hs_sd := hs_sd s', hs_received_packet := hs_received_packet s'\<rparr>"
  using receive_action_correct [OF assms] by blast

theorem receiving_changes_nothing_else_witness:
  "\<exists>res s' nc'. receive_packet_next_impl example_host example_client = Ret (True, res, s', nc') \<and>
     s' = example_host\<lparr>hs_sd := hs_sd s', hs_received_packet := hs_received_packet s'\<rparr>"
proof -
  have req: "next_requires example_host example_client" by (simp add: next_requires_def example_host_invariants)
  obtain res nc' where run: "receive_packet_next_impl example_host example_client = Ret (True, res, example_host, nc')"
    by (auto simp: receive_packet_next_impl_def receive_with_demarshal_def nc_receive_def nc_receive_internal_def
        quiet_network_def)
  from receiving_changes_nothing_else [OF _ req run] run show ?thesis by auto
qed

section \<open>Requests\<close>

text \<open>C27: the answer to a get request that follows a set request. When a host that owns a key has
  processed a set request for it and sent its reply, every packet with which it then answers a get
  request for the key carries the value that was set, or none if the key was removed.\<close>

theorem get_after_set:
  assumes "iteration_order order" and "next_set_request_preconditions s"
    and "hs_received_packet s = Some p" and "cp_msg p = CMsg q d (CSetRequest k ov)"
    and "adm_index (dm_m (hs_delegation_map s)) k = cc_me (hs_constants s)"
    and "host_model_next_set_request (hash_ops_contract order) s = Ret (sent, s1)" and "sent \<noteq> []"
    and "cpacket_abstractable p2" and "cp_dst p2 = cc_me (hs_constants s)" and "cp_msg p2 = CMsg q2 d2 (CGetRequest k)"
    and "host_model_next_get_request (s1\<lparr>hs_received_packet := Some p2\<rparr>) = Ret (sent2, s2)" and "x \<in> set sent2"
  shows "\<exists>seqno dst. cp_msg x = CMsg seqno dst (CReply k ov)"
proof -
  have "hash_map_contract (hash_ops_contract order)"
    by (rule hash_map_total.axioms [OF hash_ops_contract_total [OF assms(1)]])
  then have post: "next_set_request_postconditions s1 s sent"
    using assms(2,6) by (rule hash_map_contract.next_set_request_correct)
  let ?s = "s1\<lparr>hs_received_packet := Some p2\<rparr>"
  have kept: "hs_constants s1 = hs_constants s" "dm_m (hs_delegation_map s1) = dm_m (hs_delegation_map s)" "host_valid s1"
    using post assms(3,4) by (auto simp: next_set_request_postconditions_def host_state_common_postconditions_def
        next_set_request_def)
  have "abstractify_seq_of_cpackets_to_set_of_sht_packets sent \<noteq> {}"
    using assms(7) by (simp add: abstractify_seq_eq(2))
  then have val: "ckh_view (hs_h s1) k = ov"
    using post assms(3,4,5)
    by (auto simp: next_set_request_postconditions_def next_set_request_def next_set_request_complete_def
        split: if_splits option.splits)
  have valid: "host_valid ?s" using kept assms(8-10) by (simp add: host_valid_iff)
  then have dm: "sht_dm_valid (hs_delegation_map s1)" by (simp add: host_valid_iff)
  obtain osm csd where send: "send_single_cmessage (hs_sd s1) (CReply k ov) (cp_src p2) = (osm, csd)" by fastforce
  then have sent2: "sent2 = (case osm of None \<Rightarrow> [] | Some sm \<Rightarrow>
      [\<lparr>cp_dst = cp_src p2, cp_src = cc_me (hs_constants s), cp_msg = sm\<rparr>])"
    using assms(5,10,11) kept val sht_dm_get [OF dm]
    by (auto simp: host_model_next_get_request_def Let_def split: option.splits)
  have "message_marshallable (CReply k ov)" "cmessage_abstractable (CReply k ov)"
    using value_of_valid_table [OF valid, of k] val by (simp_all add: valid_key_def)
  from send_single_cmessage_correct [OF _ this _ send] valid assms(8)
  have "\<forall>y. osm = Some y \<longrightarrow> is_CMsg y \<and> csm_m y = CReply k ov"
    by (auto simp: host_valid_iff cpacket_abstractable_def)
  with sent2 assms(12) show ?thesis by (cases osm) (auto simp: is_CMsg_def)
qed

lemma send_from_empty: "\<exists>sm csd. send_single_cmessage csd_empty m dst = (Some sm, csd)"
  by (simp add: send_single_cmessage_def csd_empty_def cs_get_def ep_new_def c_max_seqno_def Let_def split: prod.split)

theorem get_after_set_witness:
  "\<exists>sent s1 sent2 s2.
     host_model_next_set_request (hash_ops_contract sorted_list_of_fset)
       (example_pending (CSetRequest (SHTKey 3) (Some [7]))) = Ret (sent, s1) \<and>
     host_model_next_get_request (s1\<lparr>hs_received_packet := Some (packet_from_2 2 (CGetRequest (SHTKey 3)))\<rparr>) = Ret (sent2, s2) \<and>
     (\<forall>x \<in> set sent2. \<exists>seqno dst. cp_msg x = CMsg seqno dst (CReply (SHTKey 3) (Some [7])))"
proof -
  let ?m = "CSetRequest (SHTKey 3) (Some [7])" and ?p2 = "packet_from_2 2 (CGetRequest (SHTKey 3))"
  let ?ops = "hash_ops_contract sorted_list_of_fset"
  have req: "next_requires (example_pending ?m) example_client" "host_valid (example_pending ?m)"
    by (rule example_pending_requires; simp)+
  then have dm: "sht_dm_valid example_dm" by (simp add: host_valid_iff)
  have pre: "next_set_request_preconditions (example_pending ?m)"
    using req by (simp add: next_set_request_preconditions_def host_state_common_preconditions_def
        host_state_packet_preconditions_def cpacket_abstractable_def valid_physical_address_def csd_empty_correct)
  obtain sm csd where send: "send_single_cmessage csd_empty (CReply (SHTKey 3) (Some [7])) (EndPoint [2]) = (Some sm, csd)"
    using send_from_empty by blast
  then obtain sent s1 where set: "host_model_next_set_request ?ops (example_pending ?m) = Ret (sent, s1)" "sent \<noteq> []"
    using sht_dm_get [OF dm]
    by (simp add: host_model_next_set_request_def adm_index_def valid_key_def valid_value_def max_val_len_def Let_def)
  have post: "next_set_request_postconditions s1 (example_pending ?m) sent"
    using pre set(1) by (rule promised.next_set_request_correct)
  then have "next_get_request_preconditions (s1\<lparr>hs_received_packet := Some ?p2\<rparr>)"
    by (auto simp: next_set_request_postconditions_def host_state_common_postconditions_def
        next_get_request_preconditions_def host_state_common_preconditions_def host_state_packet_preconditions_def
        cpacket_abstractable_def valid_physical_address_def host_valid_iff)
  then obtain sent2 s2 where get: "host_model_next_get_request (s1\<lparr>hs_received_packet := Some ?p2\<rparr>) = Ret (sent2, s2)"
    using next_get_request_correct by blast
  have "\<exists>seqno dst. cp_msg x = CMsg seqno dst (CReply (SHTKey 3) (Some [7]))" if "x \<in> set sent2" for x
    using get_after_set [OF iteration_order_sorted pre _ _ _ set _ _ _ get that]
    by (simp add: adm_index_def cpacket_abstractable_def valid_physical_address_def)
  with set get show ?thesis by blast
qed

section \<open>Handing over a range\<close>

text \<open>What a host sends when it serves a shard request.\<close>

lemma shard_message:
  assumes "next_shard_preconditions s" and "next_shard_postconditions s' s sent"
    and "hs_received_packet s = Some p" "cp_msg p = CMsg q d (CShard kr r)" and "x \<in> set sent"
  obtains sq tab where "cp_msg x = CMsg sq r (CDelegate kr tab)" "ckh_view tab = extract_range (ckh_view (hs_h s)) kr"
    "valid_hashtable (ckh_view tab)" "\<not> kr_is_empty shtkey_cmp kr" "valid_physical_address r"
    "ckh_view (hs_h s') = bulk_remove_hashtable (ckh_view (hs_h s)) kr"
    "dm_m (hs_delegation_map s') = adm_update (dm_m (hs_delegation_map s)) kr r"
proof -
  let ?out = "cpacket_view ` set sent"
  have wrap: "next_shard_wrapper (host_view s) (host_view s') (cpacket_view p) ?out"
    using assms(2,3) by (simp add: next_shard_postconditions_def abstractify_seq_eq(2))
  have "?out \<noteq> {}" using assms(5) by auto
  with wrap assms(4) have accept: "\<not> next_shard_wrapper_must_reject (host_view s) kr r"
    by (auto simp: next_shard_wrapper_def split: if_splits)
  with wrap assms(4) obtain sm b where sh: "next_shard (host_view s) (host_view s') ?out kr r sm b"
    by (auto simp: next_shard_wrapper_def)
  with \<open>?out \<noteq> {}\<close> have b: b by (cases b) (auto simp: next_shard_def)
  from sh b have send: "send_single_message (csd_view (hs_sd s)) (csd_view (hs_sd s'))
      (Delegate kr (extract_range (ckh_view (hs_h s)) kr)) r (Some sm) (parameters_view (cc_params (hs_constants s)))"
    and out: "?out = {\<lparr>pkt_dst = r, pkt_src = cc_me (hs_constants s), pkt_msg = sm\<rparr>}"
    and eff: "ckh_view (hs_h s') = bulk_remove_hashtable (ckh_view (hs_h s)) kr"
      "dm_m (hs_delegation_map s') = adm_update (dm_m (hs_delegation_map s)) kr r"
    unfolding next_shard_def by auto
  from send obtain n where sm: "sm = Message n r (Delegate kr (extract_range (ckh_view (hs_h s)) kr))"
    by (auto simp: send_single_message_def Let_def split: if_splits)
  from out assms(5) have "csm_view (cp_msg x) = sm" by (metis (no_types, lifting) Packet.select_convs(3) cpacket_view_simps(3) imageI singletonD)
  with sm obtain sq tab where x: "cp_msg x = CMsg sq r (CDelegate kr tab)" "ckh_view tab = extract_range (ckh_view (hs_h s)) kr"
    by (cases "cp_msg x"; cases "csm_m (cp_msg x)") auto
  have valid: "host_valid s"
    using assms(1,3) by (simp add: next_shard_preconditions_def host_state_common_preconditions_def
        host_state_packet_preconditions_def)
  have "valid_hashtable (ckh_view tab)"
    unfolding x(2) using accept valid
    by (intro valid_hashtable_extract) (simp_all add: next_shard_wrapper_must_reject_def host_valid_iff)
  with x eff accept show ?thesis by (intro that [of sq tab]) (simp_all add: next_shard_wrapper_must_reject_def)
qed

text \<open>C2: handing over a range between two hosts loses and invents nothing. When a host serves a shard
  request and the recipient accepts the packet that it sends, the recipient owns the range and has for
  each key of it exactly what the first host had, the first host has given up ownership and holds no
  value of the range, and outside the range both tables and both maps are as before.\<close>

theorem range_handover:
  assumes "iteration_order order"
    and "next_shard_preconditions sA" and "hs_received_packet sA = Some pA" and "cp_msg pA = CMsg q d (CShard kr r)"
    and "host_model_next_shard (hash_ops_contract order) sA = Ret (sent, sA')" and "x \<in> set sent"
    and "next_delegate_preconditions sB" and "hs_received_packet sB = Some pB" and "cp_msg pB = cp_msg x"
    and "cp_src pB \<in> set (cc_host_ids (hs_constants sB))"
    and "host_model_next_delegate (hash_ops_contract order) sB = Ret (sentB, sB')"
  shows "if kr_contains shtkey_cmp kr k then
      ckh_view (hs_h sB') k = ckh_view (hs_h sA) k \<and> ckh_view (hs_h sA') k = None \<and>
      dm_m (hs_delegation_map sB') k = Some (cc_me (hs_constants sB)) \<and> dm_m (hs_delegation_map sA') k = Some r
    else
      ckh_view (hs_h sB') k = ckh_view (hs_h sB) k \<and> ckh_view (hs_h sA') k = ckh_view (hs_h sA) k \<and>
      dm_m (hs_delegation_map sB') k = dm_m (hs_delegation_map sB) k \<and>
      dm_m (hs_delegation_map sA') k = dm_m (hs_delegation_map sA) k"
proof -
  have contract: "hash_map_contract (hash_ops_contract order)"
    by (rule hash_map_total.axioms [OF hash_ops_contract_total [OF assms(1)]])
  have postA: "next_shard_postconditions sA' sA sent"
    using contract assms(2,5) by (rule hash_map_contract.next_shard_correct)
  obtain sq tab where x: "cp_msg x = CMsg sq r (CDelegate kr tab)"
    and tab: "ckh_view tab = extract_range (ckh_view (hs_h sA)) kr" "valid_hashtable (ckh_view tab)"
      "\<not> kr_is_empty shtkey_cmp kr" "valid_physical_address r"
    and A: "ckh_view (hs_h sA') = bulk_remove_hashtable (ckh_view (hs_h sA)) kr"
      "dm_m (hs_delegation_map sA') = adm_update (dm_m (hs_delegation_map sA)) kr r"
    using assms(2) postA assms(3,4,6) by (rule shard_message)
  have "next_delegate_postconditions sB' sB sentB"
    using contract assms(7,11) by (rule hash_map_contract.next_delegate_correct)
  then have "next_delegate (host_view sB) (host_view sB') (cpacket_view pB) (cpacket_view ` set sentB)"
    using assms(8,9) x tab
    by (auto simp: next_delegate_postconditions_def host_ignoring_unparseable_def abstractify_seq_eq(2))
  then have "ckh_view (hs_h sB') = bulk_update_hashtable (ckh_view (hs_h sB)) kr (ckh_view tab)"
    and "dm_m (hs_delegation_map sB') = adm_update (dm_m (hs_delegation_map sB)) kr (cc_me (hs_constants sB))"
    using assms(9,10) x by (simp_all add: next_delegate_def)
  with A tab show ?thesis
    by (auto simp: bulk_update_hashtable_def bulk_update_domain_def bulk_remove_hashtable_def extract_range_filter
        adm_update_def map_add_def domIff)
qed

text \<open>The second host, with a packet of the first one to process.\<close>

definition second_host :: "CSingleMessage \<Rightarrow> HostState" where
  "second_host m = (example_pending (CGetRequest (SHTKey 0)))
     \<lparr>hs_constants := (hs_constants example_host)\<lparr>cc_me := EndPoint [2]\<rparr>,
      hs_received_packet := Some \<lparr>cp_dst = EndPoint [2], cp_src = EndPoint [1], cp_msg = m\<rparr>\<rparr>"

lemma second_host_delegate:
  assumes "hash_map_total ops" and "m = CMsg sq (EndPoint [2]) (CDelegate kr tab)"
  shows "next_delegate_preconditions (second_host m)" and "\<exists>r. host_model_next_delegate ops (second_host m) = Ret r"
proof -
  have "host_valid (example_pending (CGetRequest (SHTKey 0)))" by (rule example_pending_requires) simp
  then have valid: "host_valid (second_host m)"
    using assms(2) by (auto simp: second_host_def host_valid_iff cpacket_abstractable_def valid_physical_address_def
        constants_valid_def)
  then show "next_delegate_preconditions (second_host m)"
    using assms(2) unfolding next_delegate_preconditions_def
    by (simp add: second_host_def host_state_common_preconditions_def host_state_packet_preconditions_def
        cpacket_abstractable_def valid_physical_address_def csd_empty_correct) (simp add: static_params_def)
  show "\<exists>r. host_model_next_delegate ops (second_host m) = Ret r"
    using assms(1) valid
    by (rule hash_map_total.next_delegate_returns
        [where p = "\<lparr>cp_dst = EndPoint [2], cp_src = EndPoint [1], cp_msg = m\<rparr>" and rng = kr and u = tab])
      (simp_all add: second_host_def assms(2) valid_physical_address_def)
qed

theorem range_handover_witness:
  "\<exists>sA sent sA' x sB sentB sB'. host_model_next_shard (hash_ops_contract sorted_list_of_fset) sA = Ret (sent, sA') \<and>
     x \<in> set sent \<and> host_model_next_delegate (hash_ops_contract sorted_list_of_fset) sB = Ret (sentB, sB') \<and>
     dm_m (hs_delegation_map sA) (SHTKey 7) = Some (EndPoint [1]) \<and> dm_m (hs_delegation_map sA') (SHTKey 7) = Some (EndPoint [2]) \<and>
     dm_m (hs_delegation_map sB') (SHTKey 7) = Some (EndPoint [2])"
proof -
  let ?kr = "KeyRange (ki_new (SHTKey 5)) ki_end" and ?ops = "hash_ops_contract sorted_list_of_fset"
  let ?m = "CShard ?kr (EndPoint [2])"
  let ?sA = "example_pending ?m"
  have req: "next_requires ?sA example_client" "host_valid ?sA"
    by (rule example_pending_requires; simp add: valid_physical_address_def)+
  have pre: "next_shard_preconditions ?sA"
    unfolding next_shard_preconditions_def
    using req by (simp add: host_state_common_preconditions_def host_state_packet_preconditions_def
        cpacket_abstractable_def valid_physical_address_def csd_empty_correct) (simp add: static_params_def)
  have dm: "sht_dm_valid example_dm" using req(2) by (simp add: host_valid_iff)
  obtain dm' where set: "dm_set shtkey_cmp example_dm (kr_lo ?kr) (kr_hi ?kr) (EndPoint [2]) = Ret dm'"
    by (rule sht_dm_set_range [OF dm, of "EndPoint [2]" ?kr]) (simp add: valid_physical_address_def)
  obtain sm csd where send: "send_single_cmessage csd_empty (CDelegate ?kr fmempty) (EndPoint [2]) = (Some sm, csd)"
    using send_from_empty by blast
  have filter: "ckh_filter_spec ckh_new f = fmempty" for f by (simp add: ckh_filter_spec_def ckh_new_def)
  have own: "adm_delegate_for_key_range_is_host (\<lambda>k. Some (EndPoint [1])) ?kr (EndPoint [1])"
    by (simp add: adm_delegate_for_key_range_is_host_def adm_index_def)
  obtain sent sA' x where A: "host_model_next_shard ?ops ?sA = Ret (sent, sA')" "x \<in> set sent"
    using sht_dm_range_check [OF dm, of "ki_new (SHTKey 5)" ki_end "EndPoint [1]"] set send own
    by (simp add: host_model_next_shard_def valid_physical_address_def extract_range_impl_def hash_ops_contract_def
        filter Let_def)
  have "next_shard_postconditions sA' ?sA sent" using pre A(1) by (rule promised.next_shard_correct)
  then obtain sq tab where x: "cp_msg x = CMsg sq (EndPoint [2]) (CDelegate ?kr tab)"
    using shard_message [OF pre _ _ _ A(2)] by (metis example_pending_simps(1) packet_from_2_simps(3))
  note B = second_host_delegate [OF promised.hash_map_total_axioms x]
  obtain sentB sB' where runB: "host_model_next_delegate ?ops (second_host (cp_msg x)) = Ret (sentB, sB')"
    using B(2) by fastforce
  have "kr_contains shtkey_cmp ?kr (SHTKey 7)" by (simp add: kr_contains_def ki_between_def shtkey_cmp_def)
  then have "dm_m (hs_delegation_map sB') (SHTKey 7) = Some (EndPoint [2]) \<and>
      dm_m (hs_delegation_map sA') (SHTKey 7) = Some (EndPoint [2])"
    using range_handover [OF iteration_order_sorted pre _ _ A B(1) _ _ _ runB, of _ _ _ ?kr "EndPoint [2]" _ "SHTKey 7"]
    by (simp add: second_host_def)
  with A runB show ?thesis by (intro exI [of _ ?sA]) auto
qed

section \<open>The main program\<close>

lemma initial_host_ready:
  assumes "nc_valid netc" "nc_state netc = Receiving" "receive_contract (nc_c_pointers netc)"
    and "init_impl netc args = Ret (Some s)"
  shows "host_ready (s, netc)" and "host_init (host_view s) (nc_end_point netc) args"
  using real_init_correct [OF assms(1), of args] assms(2-4)
  by (auto simp: init_impl_def init_ensures_def host_ready_def next_requires_def)

text \<open>C1: executions of the program, of any length, are executions of the protocol. From a usable
  network client, a loop that is still running after \<open>n\<close> rounds has made \<open>n\<close> protocol steps from an initial state to
  the state that it is in, the events of these steps are exactly what its client has added to the history, and the
  invariants hold. A loop that has ended after fewer rounds did so because the network failed in the round after them.\<close>

theorem program_refines_protocol:
  assumes "iteration_order order" and "nc_valid netc" and "nc_state netc = Receiving"
    and "receive_contract (nc_c_pointers netc)" and "init_impl netc args = Ret (Some s)"
    and "main_loop (hash_ops_code order) n True s netc = Ret (ok, s2, nc2)"
  shows "host_init (host_view s) (nc_end_point netc) args \<and>
    (\<exists>evss s' nc'. main_loop (hash_ops_code order) (length evss) True s netc = Ret (True, s', nc') \<and>
       run (\<lambda>a evs a'. host_state_next a a' evs) (host_view s) evss (host_view s') \<and>
       nc_history nc' = nc_history netc @ concat evss \<and> host_invariants s' (nc_end_point netc) \<and>
       (if ok then length evss = n \<and> s2 = s' \<and> nc2 = nc'
        else length evss < n \<and> nc_state nc2 = Error \<and>
          (\<exists>res. next_impl (hash_ops_code order) s' nc' = Ret (False, res, s2, nc2))))"
  using initial_host_ready [OF assms(2-5)]
    hash_map_contract.main_loop_refines [OF hash_ops_code_contract [OF assms(1)] _ assms(6)] by blast

lemma quiet_round:
  "next_impl ops example_host example_client =
     Ret (True, \<lparr>er_recvs = [], er_clocks = [TimeoutReceive], er_sends = [], er_ios = [TimeoutReceive]\<rparr>,
       example_host\<lparr>hs_next_action_index := 1\<rparr>,
       example_client\<lparr>nc_calls := 1, nc_history := [TimeoutReceive]\<rparr>)"
  by (simp add: next_impl_def real_next_impl_def receive_packet_next_impl_def receive_with_demarshal_def nc_receive_def
      nc_receive_internal_def quiet_network_def example_host_def)
    (simp add: example_client_def nc_new_def)

theorem program_refines_protocol_witness:
  "\<exists>evs. host_state_next (host_view example_host) (host_view (example_host\<lparr>hs_next_action_index := 1\<rparr>)) evs \<and>
     evs = [TimeoutReceive]"
proof -
  let ?s = "example_host\<lparr>hs_next_action_index := 1\<rparr>"
  let ?nc = "nc_reset (example_client\<lparr>nc_calls := 1, nc_history := [TimeoutReceive]\<rparr>)"
  have loop: "main_loop (hash_ops_code sorted_list_of_fset) (Suc 0) True example_host example_client = Ret (True, ?s, ?nc)"
    by (simp add: main_loop_body_def quiet_round)
  from program_refines_protocol [OF iteration_order_sorted _ _ _ _ this, of "[[1], [2]]"] obtain evss where
    "run (\<lambda>a evs a'. host_state_next a a' evs) (host_view example_host) evss (host_view ?s)"
    "[TimeoutReceive] = concat evss" "length evss = Suc 0"
    by (auto simp: init_impl_def example_host_init)
  then show ?thesis by (auto simp: length_Suc_conv)
qed

text \<open>C5: with hash-table methods that do what their contracts promise, and a network whose packets all get through
  the parser without a panic (which a hostile packet does not), the program never panics and never hangs within a
  round, over any number of rounds. It refuses to start exactly for a bad command line.\<close>

theorem promised_program_never_stuck:
  assumes "iteration_order order" and "nc_valid netc" and "nc_state netc = Receiving"
    and "receive_contract (nc_c_pointers netc)" and "parses_packets (nc_c_pointers netc)"
  shows "\<exists>r. sht_main (hash_ops_contract order) n netc args = Ret r \<and>
    (r = None \<longleftrightarrow> \<not> (\<exists>eps. parse_args args = Some eps \<and> eps \<noteq> [] \<and> seq_is_unique eps))"
proof -
  obtain rc where rc: "init_impl netc args = Ret rc"
    "rc = None \<longleftrightarrow> \<not> (\<exists>eps. parse_args args = Some eps \<and> eps \<noteq> [] \<and> seq_is_unique eps)"
    using real_init_correct [OF assms(2)] unfolding init_impl_def by blast
  show ?thesis
  proof (cases rc)
    case None
    with rc show ?thesis by (auto simp: sht_main_def)
  next
    case (Some s)
    with initial_host_ready [OF assms(2-4)] rc have "host_ready (s, netc)" by simp
    from hash_map_total.main_loop_returns [OF hash_ops_contract_total [OF assms(1)] this assms(5)] obtain r where
      "main_loop (hash_ops_contract order) n True s netc = Ret r" by blast
    with rc Some show ?thesis by (cases r) (auto simp: sht_main_def)
  qed
qed

theorem promised_program_never_stuck_witness:
  "\<exists>r. sht_main (hash_ops_contract sorted_list_of_fset) 1000 example_client [[1], [2]] = Ret r"
  using promised_program_never_stuck [OF iteration_order_sorted, of example_client 1000 "[[1], [2]]"] by auto

section \<open>The table methods as written\<close>

text \<open>C30: with the bodies as written, a host that owns a key never gets past a request to remove it.\<close>

theorem written_remove_stuck:
  assumes "next_requires s nc" and "hs_next_action_index s = 1"
    and "hs_received_packet s = Some p" and "cp_msg p = CMsg q d (CSetRequest k None)"
    and "adm_index (dm_m (hs_delegation_map s)) k = cc_me (hs_constants s)"
    and "fst (send_single_cmessage (hs_sd s) (CReply k None) (cp_src p)) \<noteq> None"
  shows "next_impl (hash_ops_code order) s nc \<noteq> Ret x"
proof -
  note valid = invariantsD(1) [OF next_requiresD(1) [OF assms(1)]]
  have "should_process_received_message (host_view s)"
    using assms(3,4) by (simp add: should_process_received_message_def)
  then show ?thesis
    unfolding next_impl_def using code_set_none_stuck [OF valid assms(3-6)] assms(1-3)
    by (intro process_action_stuck) simp_all
qed

lemma send_from_empty_fst: "fst (send_single_cmessage csd_empty m dst) \<noteq> None"
  using send_from_empty [of m dst] by auto

theorem written_remove_stuck_witness:
  "\<forall>x. next_impl (hash_ops_code sorted_list_of_fset) (example_pending (CSetRequest (SHTKey 3) None)) example_client \<noteq> Ret x"
proof -
  let ?s = "example_pending (CSetRequest (SHTKey 3) None)"
  have "next_requires ?s example_client" by (rule example_pending_requires) simp
  then have "next_impl (hash_ops_code sorted_list_of_fset) ?s example_client \<noteq> Ret x" for x
    by (rule written_remove_stuck [where p = "packet_from_2 1 (CSetRequest (SHTKey 3) None)"])
      (simp_all add: adm_index_def send_from_empty_fst)
  then show ?thesis by blast
qed

text \<open>With the bodies as written, a host never gets past a delegation of a non-empty range, whoever
  sends it and whatever table it carries.\<close>

theorem written_delegate_stuck:
  assumes "next_requires s nc" and "hs_next_action_index s = 1" and "should_process_received_message (host_view s)"
    and "hs_received_packet s = Some p" and "cp_msg p = CMsg q d (CDelegate rng u)" and "\<not> kr_is_empty shtkey_cmp rng"
  shows "next_impl (hash_ops_code order) s nc \<noteq> Ret x"
  unfolding next_impl_def using code_delegate_stuck [OF assms(4-6)] assms(1-4)
  by (intro process_action_stuck) simp_all

theorem written_delegate_stuck_witness:
  "\<forall>x. next_impl (hash_ops_code sorted_list_of_fset)
     (example_pending (CDelegate (KeyRange (ki_new (SHTKey 5)) ki_end) fmempty)) example_client \<noteq> Ret x"
proof -
  let ?m = "CDelegate (KeyRange (ki_new (SHTKey 5)) ki_end) fmempty"
  have req: "next_requires (example_pending ?m) example_client" by (rule example_pending_requires) simp
  have "next_impl (hash_ops_code sorted_list_of_fset) (example_pending ?m) example_client \<noteq> Ret x" for x
    using req by (rule written_delegate_stuck [where p = "packet_from_2 1 ?m" and rng = "KeyRange (ki_new (SHTKey 5)) ki_end"])
      (simp_all add: should_process_received_message_def kr_is_empty_def static_params_def parameters_view_def)
  then show ?thesis by blast
qed

text \<open>With the bodies as written, a host never gets past a shard request that it should serve: it
  loops while its table is not empty, and panics otherwise.\<close>

theorem written_shard_stuck:
  assumes "next_requires s nc" and "hs_next_action_index s = 1" and "should_process_received_message (host_view s)"
    and "hs_received_packet s = Some p" and "cp_msg p = CMsg q d (CShard kr r)"
    and "valid_physical_address r" and "\<not> kr_is_empty shtkey_cmp kr" and "r \<noteq> cc_me (hs_constants s)"
    and "r \<in> set (cc_host_ids (hs_constants s))"
    and "adm_delegate_for_key_range_is_host (dm_m (hs_delegation_map s)) kr (cc_me (hs_constants s))"
    and "fst (send_single_cmessage (hs_sd s) (CDelegate kr fmempty) r) \<noteq> None"
  shows "next_impl (hash_ops_code order) s nc \<noteq> Ret x"
proof -
  note valid = invariantsD(1) [OF next_requiresD(1) [OF assms(1)]]
  show ?thesis
    unfolding next_impl_def using code_shard_stuck [OF valid assms(4-11)] assms(1-4)
    by (intro process_action_stuck) simp_all
qed

theorem written_shard_stuck_witness:
  "\<forall>x. next_impl (hash_ops_code sorted_list_of_fset)
     (example_pending (CShard (KeyRange (ki_new (SHTKey 5)) ki_end) (EndPoint [2]))) example_client \<noteq> Ret x"
proof -
  let ?m = "CShard (KeyRange (ki_new (SHTKey 5)) ki_end) (EndPoint [2])"
  have req: "next_requires (example_pending ?m) example_client"
    by (rule example_pending_requires) (simp add: valid_physical_address_def)
  have "next_impl (hash_ops_code sorted_list_of_fset) (example_pending ?m) example_client \<noteq> Ret x" for x
    using req by (rule written_shard_stuck [where p = "packet_from_2 1 ?m" and r = "EndPoint [2]"
        and kr = "KeyRange (ki_new (SHTKey 5)) ki_end"])
      (simp_all add: should_process_received_message_def kr_is_empty_def static_params_def parameters_view_def adm_delegate_for_key_range_is_host_def adm_index_def send_from_empty_fst
        valid_physical_address_def)
  then show ?thesis by blast
qed

end
